(* ===== verification/Prelude.thy ===== *)
theory Prelude
  imports Complex_Main "HOL-Library.Word" "HOL-Library.AList" "HOL-Library.Multiset"
begin

text \<open>
  The shared vocabulary of the development: what the Go sources take from the language and
  its standard library.

  \<^item> A Go map is an association list with distinct keys. The position of an entry stands for
    the place a \<open>range\<close> loop visits it; Go leaves that order open, and every
    statement of the development quantifies over all such lists, so over all orders.
    A set (\<open>map[K]struct{}\<close>) is a list without repetition.
  \<^item> A call that panics, or that waits for a lock or a channel in the given state, has
    the value \<open>Inl\<close> of a fault; a nil pointer is \<open>None\<close>.
  \<^item> \<open>time.Time\<close> and \<open>time.Duration\<close> are integers (nanoseconds); the clock is an argument.
  \<^item> \<open>slices.SortFunc\<close> is insertion sort by the given comparison.
\<close>

unbundle bit_operations_syntax

named_theorems gomap_simps \<open>lookups, keys and well-formedness of Go maps\<close>
named_theorems nid_simps \<open>node identifiers as numbers below two to the 128\<close>

type_synonym time = int
type_synonym duration = int

subsection \<open>Faults\<close>

datatype fault = Panic string | Blocked

type_synonym 'a outcome = "fault + 'a"

text \<open>A Go call that returns a value and an error.\<close>

type_synonym 'a result = "string + 'a"

definition no_fault :: "'a outcome \<Rightarrow> bool" where
  "no_fault r \<longleftrightarrow> \<not> isl r"

lemma no_fault_simps [simp]:
  "no_fault (Inr x)" "\<not> no_fault (Inl e)"
  by (simp_all add: no_fault_def)

lemma no_fault_iff: "no_fault r \<longleftrightarrow> (\<exists>x. r = Inr x)"
  by (cases r) auto

text \<open>Sequencing of calls that may fault, and a loop whose body may.\<close>

definition obind :: "'a outcome \<Rightarrow> ('a \<Rightarrow> 'b outcome) \<Rightarrow> 'b outcome" where
  "obind r f = (case r of Inl e \<Rightarrow> Inl e | Inr x \<Rightarrow> f x)"

lemma obind_simps [simp]: "obind (Inr x) f = f x" "obind (Inl e) f = Inl e"
  by (simp_all add: obind_def)

lemma obind_eq_Inr: "obind r f = Inr y \<longleftrightarrow> (\<exists>x. r = Inr x \<and> f x = Inr y)"
  by (cases r) auto

fun ofold :: "('a \<Rightarrow> 's \<Rightarrow> 's outcome) \<Rightarrow> 'a list \<Rightarrow> 's \<Rightarrow> 's outcome" where
  "ofold f [] s = Inr s"
| "ofold f (x # xs) s = obind (f x s) (ofold f xs)"

lemma ofold_append: "ofold f (xs @ ys) s = obind (ofold f xs s) (ofold f ys)"
  by (induction xs arbitrary: s) (auto simp: obind_def split: sum.splits)

lemma ofold_eq_fold: "(\<And>x s. x \<in> set xs \<Longrightarrow> f x s = Inr (g x s)) \<Longrightarrow> ofold f xs s = Inr (fold g xs s)"
  by (induction xs arbitrary: s) auto

lemma ofold_invariant:
  "P s \<Longrightarrow> (\<And>x s s'. x \<in> set xs \<Longrightarrow> P s \<Longrightarrow> f x s = Inr s' \<Longrightarrow> P s') \<Longrightarrow> ofold f xs s = Inr s' \<Longrightarrow> P s'"
  by (induction xs arbitrary: s) (auto simp: obind_eq_Inr)

lemma fold_invariant_in:
  "P s \<Longrightarrow> (\<And>x s. x \<in> set xs \<Longrightarrow> P s \<Longrightarrow> P (f x s)) \<Longrightarrow> P (fold f xs s)"
  by (induction xs arbitrary: s) auto

subsection \<open>Go maps\<close>

type_synonym ('k, 'v) gomap = "('k \<times> 'v) list"

definition mkeys :: "('k, 'v) gomap \<Rightarrow> 'k list" where
  "mkeys m = map fst m"

definition gomap_wf :: "('k, 'v) gomap \<Rightarrow> bool" where
  "gomap_wf m \<longleftrightarrow> distinct (map fst m)"

abbreviation mget :: "('k, 'v) gomap \<Rightarrow> 'k \<Rightarrow> 'v option" where
  "mget \<equiv> map_of"

abbreviation mput :: "'k \<Rightarrow> 'v \<Rightarrow> ('k, 'v) gomap \<Rightarrow> ('k, 'v) gomap" where
  "mput \<equiv> AList.update"

abbreviation mdel :: "'k \<Rightarrow> ('k, 'v) gomap \<Rightarrow> ('k, 'v) gomap" where
  "mdel \<equiv> AList.delete"

definition mhas :: "('k, 'v) gomap \<Rightarrow> 'k \<Rightarrow> bool" where
  "mhas m k \<longleftrightarrow> map_of m k \<noteq> None"

lemma mget_mput [simp, gomap_simps]: "mget (mput k v m) k' = (if k' = k then Some v else mget m k')"
  by (simp add: update_conv')

lemma mget_mdel [simp, gomap_simps]: "mget (mdel k m) k' = (if k' = k then None else mget m k')"
  by (simp add: delete_conv')

lemma mhas_iff [gomap_simps]: "mhas m k \<longleftrightarrow> k \<in> set (mkeys m)"
  by (induction m) (auto simp: mhas_def mkeys_def)

lemma mhas_mput [simp]: "mhas (mput k v m) k' \<longleftrightarrow> k' = k \<or> mhas m k'"
  by (simp add: mhas_def)

lemma mhas_mdel [simp]: "mhas (mdel k m) k' \<longleftrightarrow> k' \<noteq> k \<and> mhas m k'"
  by (simp add: mhas_def)

lemma mhas_Nil [simp]: "\<not> mhas [] k"
  by (simp add: mhas_def)

lemma mhas_Cons [simp]: "mhas ((k, v) # m) k' \<longleftrightarrow> k' = k \<or> mhas m k'"
  by (simp add: mhas_def)

lemma mhas_mget: "mget m k = Some v \<Longrightarrow> mhas m k"
  by (simp add: mhas_def)

lemma mkeys_simps [simp]: "mkeys [] = []" "mkeys (p # m) = fst p # mkeys m"
  by (simp_all add: mkeys_def)

lemma set_mkeys: "set (mkeys m) = dom (map_of m)"
  by (simp add: mkeys_def dom_map_of_conv_image_fst)

lemma length_mkeys [simp]: "length (mkeys m) = length m"
  by (simp add: mkeys_def)

lemma gomap_wf_simps [simp]:
  "gomap_wf []"
  "gomap_wf ((k, v) # m) \<longleftrightarrow> k \<notin> set (mkeys m) \<and> gomap_wf m"
  by (simp_all add: gomap_wf_def mkeys_def)

lemma gomap_wf_mput [simp, intro]: "gomap_wf m \<Longrightarrow> gomap_wf (mput k v m)"
  by (simp add: gomap_wf_def distinct_update)

lemma gomap_wf_mdel [simp, intro]: "gomap_wf m \<Longrightarrow> gomap_wf (mdel k m)"
  by (simp add: gomap_wf_def distinct_delete)

lemma gomap_wf_filter [simp, intro]: "gomap_wf m \<Longrightarrow> gomap_wf (filter P m)"
  by (simp add: gomap_wf_def distinct_map_filter)

lemma distinct_mkeys: "gomap_wf m \<Longrightarrow> distinct (mkeys m)"
  by (simp add: gomap_wf_def mkeys_def)

lemma gomap_wf_mget_iff: "gomap_wf m \<Longrightarrow> mget m k = Some v \<longleftrightarrow> (k, v) \<in> set m"
  by (simp add: gomap_wf_def)

lemma set_mkeys_mput [simp]: "set (mkeys (mput k v m)) = insert k (set (mkeys m))"
  by (simp add: mkeys_def dom_update)

lemma set_mkeys_mdel [simp]: "set (mkeys (mdel k m)) = set (mkeys m) - {k}"
  by (simp add: mkeys_def delete_keys)

lemma length_eq_card_mkeys: "gomap_wf m \<Longrightarrow> length m = card (set (mkeys m))"
  by (metis distinct_card distinct_mkeys length_mkeys)

text \<open>Filtering a map by its keys and values, as a \<open>range\<close> loop that deletes entries does.\<close>

lemma mget_filter_key: "mget (filter (\<lambda>(k, v). P k) m) k = (if P k then mget m k else None)"
  by (induction m) auto

lemma mget_filter:
  assumes "gomap_wf m"
  shows "mget (filter (\<lambda>(k, v). P k v) m) k = (case mget m k of None \<Rightarrow> None | Some v \<Rightarrow> if P k v then Some v else None)"
proof -
  let ?g = "mget (filter (\<lambda>(k, v). P k v) m) k"
  have eq: "?g = Some v \<longleftrightarrow> mget m k = Some v \<and> P k v" for v
    unfolding gomap_wf_mget_iff [OF assms] gomap_wf_mget_iff [OF gomap_wf_filter [OF assms]] by simp
  show ?thesis
  proof (cases ?g)
    case None
    have "mget m k = Some v \<Longrightarrow> \<not> P k v" for v using None eq [of v] by simp
    with None show ?thesis by (cases "mget m k") simp_all
  next
    case (Some v)
    with eq [of v] show ?thesis by simp
  qed
qed

lemma mkeys_filter_key: "mkeys (filter (\<lambda>(k, v). P k) m) = filter P (mkeys m)"
  by (induction m) auto

lemma mget_map_val: "mget (map (\<lambda>(k, v). (k, f k v)) m) k = map_option (f k) (mget m k)"
  by (induction m) auto

lemma mkeys_map_val [simp]: "mkeys (map (\<lambda>(k, v). (k, f k v)) m) = mkeys m"
  by (induction m) auto

lemma gomap_wf_map_val [simp]: "gomap_wf (map (\<lambda>(k, v). (k, f k v)) m) = gomap_wf m"
  unfolding gomap_wf_def mkeys_def [symmetric] by simp

subsection \<open>Strings and numbers\<close>

text \<open>\<open>strings.Compare\<close> and the operators \<open><\<close> and \<open>>\<close> on strings, by the bytes of the strings.\<close>

fun compare_strings :: "string \<Rightarrow> string \<Rightarrow> int" where
  "compare_strings [] [] = 0"
| "compare_strings [] (_ # _) = - 1"
| "compare_strings (_ # _) [] = 1"
| "compare_strings (a # s) (b # t) =
     (if (of_char a :: nat) < of_char b then - 1 else if (of_char b :: nat) < of_char a then 1 else compare_strings s t)"

lemma compare_strings_neg: "compare_strings t s = - compare_strings s t"
  by (induction s t rule: compare_strings.induct) auto

lemma compare_strings_zero [simp]: "compare_strings s t = 0 \<longleftrightarrow> s = t"
proof (induction s t rule: compare_strings.induct)
  case (4 a s b t)
  have "(of_char a :: nat) < of_char b \<or> (of_char b :: nat) < of_char a \<or> a = b"
    by (metis linorder_neqE_nat of_char_eq_iff)
  with 4 show ?case by auto
qed auto

text \<open>The conversion of a \<open>float64\<close> to an integer drops the fraction.\<close>

definition go_trunc :: "real \<Rightarrow> int" where
  "go_trunc r = (if 0 \<le> r then \<lfloor>r\<rfloor> else \<lceil>r\<rceil>)"

subsection \<open>Sorting by a comparison\<close>

fun insort_by :: "('a \<Rightarrow> 'a \<Rightarrow> int) \<Rightarrow> 'a \<Rightarrow> 'a list \<Rightarrow> 'a list" where
  "insort_by cmp x [] = [x]"
| "insort_by cmp x (y # ys) = (if cmp x y \<le> 0 then x # y # ys else y # insort_by cmp x ys)"

definition sort_by :: "('a \<Rightarrow> 'a \<Rightarrow> int) \<Rightarrow> 'a list \<Rightarrow> 'a list" where
  "sort_by cmp xs = foldr (insort_by cmp) xs []"

lemma mset_insort_by [simp]: "mset (insort_by cmp x xs) = {#x#} + mset xs"
  by (induction xs) auto

lemma mset_sort_by [simp]: "mset (sort_by cmp xs) = mset xs"
  by (induction xs) (auto simp: sort_by_def)

lemma set_sort_by [simp]: "set (sort_by cmp xs) = set xs"
  by (metis mset_sort_by set_mset_mset)

lemma length_sort_by [simp]: "length (sort_by cmp xs) = length xs"
  by (metis mset_sort_by size_mset)

lemma distinct_sort_by [simp]: "distinct (sort_by cmp xs) = distinct xs"
  by (metis distinct_count_atmost_1 mset_sort_by set_sort_by)

text \<open>
  A comparison that agrees with a linear order through a key: the contract of the \<open>cmp\<close>
  argument of \<open>slices.SortFunc\<close>, on the elements it is applied to.
\<close>

locale comparator =
  fixes cmp :: "'a \<Rightarrow> 'a \<Rightarrow> int" and key :: "'a \<Rightarrow> 'k::linorder" and ok :: "'a \<Rightarrow> bool"
  assumes cmp_le: "ok x \<Longrightarrow> ok y \<Longrightarrow> cmp x y \<le> 0 \<longleftrightarrow> key x \<le> key y"
begin

lemma insort_by_key:
  "ok x \<Longrightarrow> \<forall>y\<in>set xs. ok y \<Longrightarrow> insort_by cmp x xs = insort_key key x xs"
  by (induction xs) (auto simp: cmp_le)

lemma sort_by_key: "\<forall>x\<in>set xs. ok x \<Longrightarrow> sort_by cmp xs = sort_key key xs"
proof (induction xs)
  case Nil
  show ?case by (simp add: sort_by_def)
next
  case (Cons x xs)
  then have "sort_by cmp xs = sort_key key xs" by simp
  then have "sort_by cmp (x # xs) = insort_by cmp x (sort_key key xs)"
    by (simp add: sort_by_def)
  with Cons.prems show ?case by (simp add: insort_by_key)
qed

lemma sorted_sort_by: "\<forall>x\<in>set xs. ok x \<Longrightarrow> sorted (map key (sort_by cmp xs))"
  by (simp add: sort_by_key)

end

end
