(* ===== verification/Channel.thy ===== *)
theory Channel
  imports Prelude
begin

text \<open>
  The closable channel of the seed (\<open>src/seed/misc/channel.go\<close>). The buffered Go channel is
  the list of the values in it and its capacity; \<open>ch_open\<close> is false once the pointer to it
  is nil. Values still buffered when the channel is closed can be received by whoever
  fetched the Go channel before.
\<close>

record 'a Channel =
  ch_open :: bool
  ch_cap :: nat
  ch_buf :: "'a list"

definition ErrChannelClosed :: string where "ErrChannelClosed = ''channel is closed''"

definition NewChannel :: "nat \<Rightarrow> 'a Channel" where
  "NewChannel sz = \<lparr>ch_open = True, ch_cap = sz, ch_buf = []\<rparr>"

text \<open>Fetching the Go channel: nil once closed.\<close>

definition ch_C :: "'a Channel \<Rightarrow> 'a list option" where
  "ch_C c = (if ch_open c then Some (ch_buf c) else None)"

text \<open>A send on a full channel waits.\<close>

definition ch_Send :: "'a \<Rightarrow> 'a Channel \<Rightarrow> (unit result \<times> 'a Channel) outcome" where
  "ch_Send value c =
     (if \<not> ch_open c then Inr (Inl ErrChannelClosed, c)
      else if length (ch_buf c) < ch_cap c
      then Inr (Inr (), c\<lparr>ch_buf := ch_buf c @ [value]\<rparr>)
      else Inl Blocked)"

definition ch_SendWhenNotFull :: "'a \<Rightarrow> 'a Channel \<Rightarrow> bool result \<times> 'a Channel" where
  "ch_SendWhenNotFull value c =
     (if \<not> ch_open c then (Inl ErrChannelClosed, c)
      else if length (ch_buf c) < ch_cap c
      then (Inr True, c\<lparr>ch_buf := ch_buf c @ [value]\<rparr>)
      else (Inr False, c))"

definition ch_Close :: "'a Channel \<Rightarrow> 'a Channel" where
  "ch_Close c = (if \<not> ch_open c then c else c\<lparr>ch_open := False\<rparr>)"

text \<open>
  Receiving from a Go channel: a buffered value, or nothing with \<open>ok\<close> false once it is
  closed and empty; otherwise the receiver waits.
\<close>

definition ch_recv :: "'a Channel \<Rightarrow> ('a option \<times> 'a Channel) outcome" where
  "ch_recv c =
     (case ch_buf c of
        v # vs \<Rightarrow> Inr (Some v, c\<lparr>ch_buf := vs\<rparr>)
      | [] \<Rightarrow> if ch_open c then Inl Blocked else Inr (None, c))"

definition ch_wf :: "'a Channel \<Rightarrow> bool" where
  "ch_wf c \<longleftrightarrow> length (ch_buf c) \<le> ch_cap c"

subsection \<open>First in, first out, within the capacity\<close>

locale bounded_fifo =
  fixes contents :: "'c \<Rightarrow> 'a list" and capacity :: "'c \<Rightarrow> nat" and usable :: "'c \<Rightarrow> bool"
    and send :: "'a \<Rightarrow> 'c \<Rightarrow> (unit result \<times> 'c) outcome"
    and recv :: "'c \<Rightarrow> ('a option \<times> 'c) outcome"
  assumes send_ok: "usable c \<Longrightarrow> length (contents c) < capacity c \<Longrightarrow>
      \<exists>c'. send v c = Inr (Inr (), c') \<and> contents c' = contents c @ [v] \<and> usable c' \<and> capacity c' = capacity c"
    and send_full: "usable c \<Longrightarrow> capacity c \<le> length (contents c) \<Longrightarrow> send v c = Inl Blocked"
    and recv_ok: "contents c = v # vs \<Longrightarrow>
      \<exists>c'. recv c = Inr (Some v, c') \<and> contents c' = vs \<and> usable c' = usable c \<and> capacity c' = capacity c"
begin

text \<open>What a receiver that drains the channel gets.\<close>

definition drains :: "'a list \<Rightarrow> 'c \<Rightarrow> 'c \<Rightarrow> bool" where
  "drains vs c c' \<longleftrightarrow>
     (\<exists>cs. length cs = Suc (length vs) \<and> cs ! 0 = c \<and> cs ! length vs = c' \<and>
        (\<forall>i<length vs. recv (cs ! i) = Inr (Some (vs ! i), cs ! Suc i)))"

lemma drains_all:
  "contents c = vs @ ws \<Longrightarrow> \<exists>c'. drains vs c c' \<and> contents c' = ws"
proof (induction vs arbitrary: c)
  case Nil
  then show ?case by (intro exI [of _ c]) (auto simp: drains_def intro: exI [of _ "[c]"])
next
  case (Cons v vs)
  then obtain c1 where c1: "recv c = Inr (Some v, c1)" "contents c1 = vs @ ws"
    using recv_ok [of c v "vs @ ws"] by auto
  from Cons.IH [OF c1(2)] obtain c' cs where cs:
    "length cs = Suc (length vs)" "cs ! 0 = c1" "cs ! length vs = c'"
    "\<forall>i<length vs. recv (cs ! i) = Inr (Some (vs ! i), cs ! Suc i)" "contents c' = ws"
    by (auto simp: drains_def)
  have "drains (v # vs) c c'"
    unfolding drains_def using cs c1(1)
    by (intro exI [of _ "c # cs"]) (auto simp: nth_Cons split: nat.splits)
  with cs(5) show ?case by blast
qed

lemma send_then_drain:
  assumes "usable c" "length (contents c) < capacity c"
  shows "\<exists>c' c''. send v c = Inr (Inr (), c') \<and> drains (contents c @ [v]) c' c'' \<and> contents c'' = []"
proof -
  obtain c' where "send v c = Inr (Inr (), c')" "contents c' = (contents c @ [v]) @ []"
    using send_ok [OF assms, of v] by auto
  with drains_all show ?thesis by blast
qed

end

interpretation channel: bounded_fifo ch_buf ch_cap ch_open ch_Send ch_recv
  by unfold_locales (auto simp: ch_Send_def ch_recv_def)

lemma ch_wf_ops [simp]:
  "ch_wf (NewChannel n)"
  "ch_wf c \<Longrightarrow> ch_wf (ch_Close c)"
  "ch_wf c \<Longrightarrow> ch_wf (snd (ch_SendWhenNotFull v c))"
  by (auto simp: ch_wf_def NewChannel_def ch_Close_def ch_SendWhenNotFull_def)

lemma ch_wf_send_recv:
  "ch_wf c \<Longrightarrow> ch_Send v c = Inr (r, c') \<Longrightarrow> ch_wf c'"
  "ch_wf c \<Longrightarrow> ch_recv c = Inr (x, c') \<Longrightarrow> ch_wf c'"
  by (auto simp: ch_wf_def ch_Send_def ch_recv_def split: if_splits list.splits)

end
