(* ===== verification/Node_ID.thy ===== *)
theory Node_ID
  imports Prelude
begin

text \<open>
  Node identifiers (\<open>src/types/node_id.go\<close>): the 128-bit ring of identifiers with its
  special values, the conversions to and from strings and messages, the order, and the
  modular arithmetic on two 64-bit halves.

  The lemmas show that the hand-written 128-bit addition is addition modulo two to the
  128, that \<open>Sub\<close> and \<open>DistanceFrom\<close> are the ring difference and the ring distance, that
  \<open>Compare\<close> is a linear order, and that the conversions round-trip.
\<close>

subsection \<open>Data\<close>

datatype NodeID = NodeID (nid_t: "32 word") (id0: "64 word") (id1: "64 word")

text \<open>The constants follow two string constants in their block, so \<open>iota\<close> is 2 at the first.\<close>

definition typeNormal :: "32 word" where "typeNormal = 2"
definition typeLocal :: "32 word" where "typeLocal = 3"
definition typeNeighborhoods :: "32 word" where "typeNeighborhoods = 4"

definition strLocal :: string where "strLocal = ''local''"
definition strNeighborhoods :: string where "strNeighborhoods = ''neighbor''"

definition NodeLocal :: NodeID where "NodeLocal = NodeID typeLocal 0 0"
definition NodeNeighborhoods :: NodeID where "NodeNeighborhoods = NodeID typeNeighborhoods 0 0"

record proto_NodeID =
  p_Id0 :: "64 word"
  p_Id1 :: "64 word"

subsection \<open>Constructors and conversions\<close>

definition NewNodeIDFromProto :: "proto_NodeID option \<Rightarrow> string + NodeID" where
  "NewNodeIDFromProto p =
     (case p of
        None \<Rightarrow> Inl ''the source should not be nil''
      | Some q \<Rightarrow> Inr (NodeID typeNormal (p_Id0 q) (p_Id1 q)))"

definition is_hex_digit :: "char \<Rightarrow> bool" where
  "is_hex_digit c \<longleftrightarrow>
     (of_char CHR ''0'' \<le> (of_char c :: nat) \<and> (of_char c :: nat) \<le> of_char CHR ''9'') \<or>
     (of_char CHR ''a'' \<le> (of_char c :: nat) \<and> (of_char c :: nat) \<le> of_char CHR ''f'')"

definition hex_val :: "char \<Rightarrow> nat" where
  "hex_val c = (if (of_char c :: nat) \<le> of_char CHR ''9''
     then of_char c - of_char CHR ''0'' else of_char c - of_char CHR ''a'' + 10)"

text \<open>\<open>strconv.ParseUint(s, 16, 64)\<close> on a string of hexadecimal digits.\<close>

definition ParseUint16 :: "string \<Rightarrow> 64 word" where
  "ParseUint16 s = foldl (\<lambda>acc c. acc * 16 + of_nat (hex_val c)) 0 s"

definition NewNodeIDFromString :: "string \<Rightarrow> string + NodeID" where
  "NewNodeIDFromString s =
     (if length s \<noteq> 32 then Inl (''invalid node id string: '' @ s)
      else if \<exists>c\<in>set s. \<not> is_hex_digit c then Inl (''invalid node id string: '' @ s)
      else Inr (NodeID typeNormal (ParseUint16 (take 16 s)) (ParseUint16 (drop 16 s))))"

definition NewNormalNodeID :: "64 word \<Rightarrow> 64 word \<Rightarrow> NodeID" where
  "NewNormalNodeID i0 i1 = NodeID typeNormal i0 i1"

text \<open>The two draws of the random source are arguments.\<close>

definition NewRandomNodeID :: "64 word \<Rightarrow> 64 word \<Rightarrow> NodeID" where
  "NewRandomNodeID r0 r1 = NodeID typeNormal r0 r1"

definition nid_Copy :: "NodeID \<Rightarrow> NodeID" where
  "nid_Copy n = NodeID (nid_t n) (id0 n) (id1 n)"

definition nid_Proto :: "NodeID \<Rightarrow> proto_NodeID outcome" where
  "nid_Proto n =
     (if nid_t n \<noteq> typeNormal then Inl (Panic ''invalid node id type for `Proto`'')
      else Inr \<lparr>p_Id0 = id0 n, p_Id1 = id1 n\<rparr>)"

definition hex_digit :: "nat \<Rightarrow> char" where
  "hex_digit d = char_of (if d < 10 then of_char CHR ''0'' + d else of_char CHR ''a'' + (d - 10))"

text \<open>\<open>fmt.Sprintf("%016x", w)\<close>: sixteen digits, the most significant first.\<close>

definition hex16 :: "64 word \<Rightarrow> string" where
  "hex16 w = map (\<lambda>i. hex_digit (unat (drop_bit (4 * i) w AND 15))) (rev [0..<16])"

definition nid_String :: "NodeID \<Rightarrow> string outcome" where
  "nid_String n =
     (if nid_t n = typeNormal then Inr (hex16 (id0 n) @ hex16 (id1 n))
      else if nid_t n = typeLocal then Inr strLocal
      else if nid_t n = typeNeighborhoods then Inr strNeighborhoods
      else Inl (Panic ''invalid node id type''))"

definition nid_Raw :: "NodeID \<Rightarrow> (64 word \<times> 64 word) outcome" where
  "nid_Raw n =
     (if nid_t n \<noteq> typeNormal then Inl (Panic ''invalid node id type for `Raw`'')
      else Inr (id0 n, id1 n))"

definition nid_IsNormal :: "NodeID \<Rightarrow> bool" where
  "nid_IsNormal n \<longleftrightarrow> nid_t n = typeNormal"

subsection \<open>Order\<close>

definition nid_Equal :: "NodeID option \<Rightarrow> NodeID option \<Rightarrow> bool" where
  "nid_Equal n o' =
     (case (n, o') of
        (None, None) \<Rightarrow> True
      | (None, Some _) \<Rightarrow> False
      | (Some _, None) \<Rightarrow> False
      | (Some a, Some b) \<Rightarrow> nid_t a = nid_t b \<and> id0 a = id0 b \<and> id1 a = id1 b)"

definition Smaller :: "NodeID \<Rightarrow> NodeID \<Rightarrow> bool" where
  "Smaller n o' =
     (if nid_t n \<noteq> nid_t o' then nid_t n < nid_t o'
      else if nid_t n \<noteq> typeNormal then False
      else if id0 n \<noteq> id0 o' then id0 n < id0 o'
      else id1 n < id1 o')"

definition Compare :: "NodeID \<Rightarrow> NodeID \<Rightarrow> int" where
  "Compare n o' = (if n = o' then 0 else if Smaller n o' then -1 else 1)"

subsection \<open>Arithmetic on the ring\<close>

definition addMod ::
  "64 word \<Rightarrow> 64 word \<Rightarrow> 64 word \<Rightarrow> 64 word \<Rightarrow> 64 word \<times> 64 word" where
  "addMod a0 a1 b0 b1 =
     (let c1 = (0x7FFFFFFFFFFFFFFF AND a1) + (0x7FFFFFFFFFFFFFFF AND b1);
          d1 = drop_bit 63 a1 + drop_bit 63 b1 + drop_bit 63 c1;
          c1' = (push_bit 63 d1 AND 0x8000000000000000) OR (c1 AND 0x7FFFFFFFFFFFFFFF);
          c0 = (0x3FFFFFFFFFFFFFFF AND a0) + (0x3FFFFFFFFFFFFFFF AND b0) + drop_bit 1 d1;
          d0 = drop_bit 62 a0 + drop_bit 62 b0 + drop_bit 62 c0;
          c0' = (push_bit 62 d0 AND 0xC000000000000000) OR (c0 AND 0x3FFFFFFFFFFFFFFF)
      in (c0', c1'))"

definition nid_Add :: "NodeID \<Rightarrow> NodeID \<Rightarrow> NodeID outcome" where
  "nid_Add n o' =
     (if nid_t n \<noteq> typeNormal \<or> nid_t o' \<noteq> typeNormal
      then Inl (Panic ''invalid node id type for `Add`'')
      else let (r0, r1) = addMod (id0 n) (id1 n) (id0 o') (id1 o')
           in Inr (NodeID typeNormal r0 r1))"

definition nid_Sub :: "NodeID \<Rightarrow> NodeID \<Rightarrow> NodeID outcome" where
  "nid_Sub n o' =
     (if nid_t n \<noteq> typeNormal \<or> nid_t o' \<noteq> typeNormal
      then Inl (Panic ''invalid node id type for `Sub`'')
      else let (r0, r1) = addMod (id0 n) (id1 n) (NOT (id0 o')) (NOT (id1 o'));
               (r0', r1') = addMod r0 r1 0x0 0x1
           in Inr (NodeID typeNormal r0' r1'))"

definition DistanceFrom :: "NodeID \<Rightarrow> NodeID \<Rightarrow> NodeID outcome" where
  "DistanceFrom n o' =
     (if nid_t n \<noteq> typeNormal \<or> nid_t o' \<noteq> typeNormal
      then Inl (Panic ''invalid node id type for distance'')
      else let (a0, a1, b0, b1) =
                 (if Smaller n o' then (id0 o', id1 o', NOT (id0 n), NOT (id1 n))
                  else (id0 n, id1 n, NOT (id0 o'), NOT (id1 o')));
               (a0, a1) = addMod a0 a1 b0 b1;
               (a0, a1) = addMod a0 a1 0x0 0x1;
               (a0, a1) = (if a0 \<ge> 0x8000000000000000
                           then addMod (NOT a0) (NOT a1) 0x0 0x1 else (a0, a1))
           in Inr (NodeID typeNormal a0 a1))"

subsection \<open>Collections of identifiers\<close>

definition ConvertNodeIDSetToStringMap :: "NodeID list \<Rightarrow> string list outcome" where
  "ConvertNodeIDSetToStringMap set' =
     ofold (\<lambda>k r. obind (nid_String k) (\<lambda>s. Inr (List.insert s r))) set' []"

definition ConvertNodeIDsToProto ::
  "NodeID option list \<Rightarrow> proto_NodeID option list outcome" where
  "ConvertNodeIDsToProto ids =
     ofold (\<lambda>id r. case id of
                      None \<Rightarrow> Inr (r @ [None])
                    | Some n \<Rightarrow> obind (nid_Proto n) (\<lambda>p. Inr (r @ [Some p]))) ids []"

text \<open>A nil slice (\<open>None\<close>) stays nil; the first bad entry is the error.\<close>

fun convert_ids :: "proto_NodeID option list \<Rightarrow> string + NodeID list" where
  "convert_ids [] = Inr []"
| "convert_ids (p # ps) =
     (case NewNodeIDFromProto p of
        Inl err \<Rightarrow> Inl (''failed to parse node id: '' @ err)
      | Inr n \<Rightarrow> (case convert_ids ps of Inl e \<Rightarrow> Inl e | Inr ns \<Rightarrow> Inr (n # ns)))"

definition ConvertNodeIDsFromProto ::
  "proto_NodeID option list option \<Rightarrow> string + NodeID list option" where
  "ConvertNodeIDsFromProto ids =
     (case ids of
        None \<Rightarrow> Inr None
      | Some ps \<Rightarrow> (case convert_ids ps of Inl e \<Rightarrow> Inl e | Inr ns \<Rightarrow> Inr (Some ns)))"

definition SortNodeIDs :: "NodeID list \<Rightarrow> NodeID list" where
  "SortNodeIDs nodeIDs = sort_by (\<lambda>a b. Compare a b) nodeIDs"

subsection \<open>Words as numbers\<close>

lemma unat_take: "unat (take_bit n (a :: 64 word)) = unat a mod 2 ^ n"
  by (metis unsigned_take_bit_eq take_bit_eq_mod)

lemma unat_drop: "unat (drop_bit n (a :: 64 word)) = unat a div 2 ^ n"
  by (metis unat_drop_bit_eq drop_bit_eq_div)

lemma len64: "LENGTH(64) = 64"
  by simp

lemma unat_join:
  assumes k: "k \<le> 64" and hi: "hi = push_bit k (mask (64 - k))" and lo: "lo = mask k"
  shows "unat ((push_bit k d AND hi) OR (c AND lo) :: 64 word)
     = (unat d mod 2 ^ (64 - k)) * 2 ^ k + unat c mod 2 ^ k"
proof -
  have 1: "push_bit k d AND hi = push_bit k (take_bit (64 - k) d)"
    unfolding hi by (rule bit_eqI) (auto simp: bit_simps)
  have 2: "c AND lo = take_bit k c"
    unfolding lo by (simp only: take_bit_eq_mask)
  have 3: "push_bit k (take_bit (64 - k) d) OR take_bit k c
     = push_bit k (take_bit (64 - k) d) + take_bit k c"
    by (rule disjunctive_add_eq_or [symmetric], rule bit_eqI) (auto simp: bit_simps)
  have "unat d mod 2 ^ (64 - k) < 2 ^ (64 - k)" by simp
  then have small: "(unat d mod 2 ^ (64 - k)) * 2 ^ k < 2 ^ (64 - k) * 2 ^ k" by simp
  also have "\<dots> = 2 ^ 64" using k by (simp flip: power_add)
  finally have less: "(unat d mod 2 ^ (64 - k)) * 2 ^ k < 2 ^ 64" .
  have 4: "unat (push_bit k (take_bit (64 - k) d)) = (unat d mod 2 ^ (64 - k)) * 2 ^ k"
  proof (cases "k = 64")
    case True
    then show ?thesis by (simp add: push_bit_eq_mult)
  next
    case False
    with k have "(2 :: nat) ^ k < 2 ^ 64" by (intro power_strict_increasing) auto
    then have "unat (of_nat (2 ^ k) :: 64 word) = 2 ^ k"
      by (simp only: unat_of_nat len64 mod_less)
    then have "unat (2 ^ k :: 64 word) = 2 ^ k" by simp
    then show ?thesis
      using less by (simp only: push_bit_eq_mult unat_word_ariths unat_take len64 mod_less)
  qed
  have "(unat d mod 2 ^ (64 - k)) * 2 ^ k + unat c mod 2 ^ k < 2 ^ 64"
  proof -
    have "unat d mod 2 ^ (64 - k) + 1 \<le> 2 ^ (64 - k)" by (simp add: Suc_leI)
    then have "(unat d mod 2 ^ (64 - k) + 1) * 2 ^ k \<le> 2 ^ (64 - k) * 2 ^ k"
      by (rule mult_le_mono1)
    also have "\<dots> = 2 ^ 64" using k by (simp flip: power_add)
    finally have "(unat d mod 2 ^ (64 - k)) * 2 ^ k + 2 ^ k \<le> 2 ^ 64" by (simp add: algebra_simps)
    moreover have "unat c mod 2 ^ k < 2 ^ k" by simp
    ultimately show ?thesis by linarith
  qed
  then show ?thesis
    unfolding 1 2 3 by (simp only: unat_word_ariths 4 unat_take len64 mod_less)
qed

text \<open>One limb: the low parts and the carry add up, the high parts follow.\<close>

lemma limb_add:
  fixes x y c M K :: nat
  assumes "c' = x mod M + y mod M + c" and "d = x div M + y div M + c' div M"
  shows "x + y + c = (d mod K) * M + c' mod M + (d div K) * (K * M)"
proof -
  have "x + y + c = (x div M + y div M) * M + c'"
    unfolding assms(1) by (metis add.assoc add.left_commute add_mult_distrib div_mult_mod_eq)
  also have "\<dots> = d * M + c' mod M"
    unfolding assms(2) by (metis add.assoc add_mult_distrib div_mult_mod_eq)
  also have "d * M = (d mod K) * M + (d div K) * (K * M)"
    by (metis add.commute add_mult_distrib div_mult_mod_eq mult.assoc)
  finally show ?thesis by simp
qed

text \<open>The value of two halves, and of an identifier.\<close>

definition pair_val :: "64 word \<Rightarrow> 64 word \<Rightarrow> nat" where
  "pair_val w0 w1 = unat w0 * 2 ^ 64 + unat w1"

lemma unat_lt64: "unat (a :: 64 word) < 2 ^ 64"
  by (metis len64 unsigned_less)

lemma pair_val_lt: "pair_val w0 w1 < 2 ^ 128"
proof -
  have "unat w0 + 1 \<le> 2 ^ 64" using unat_lt64 [of w0] by simp
  then have "(unat w0 + 1) * 2 ^ 64 \<le> 2 ^ 64 * 2 ^ 64" by (rule mult_le_mono1)
  then show ?thesis using unat_lt64 [of w1] by (simp add: pair_val_def)
qed

lemma addMod_val:
  assumes "addMod a0 a1 b0 b1 = (r0, r1)"
  shows "pair_val r0 r1 = (pair_val a0 a1 + pair_val b0 b1) mod 2 ^ 128"
proof -
  define c1 where "c1 = (0x7FFFFFFFFFFFFFFF AND a1) + (0x7FFFFFFFFFFFFFFF AND b1)"
  define d1 where "d1 = drop_bit 63 a1 + drop_bit 63 b1 + drop_bit 63 c1"
  define c0 where "c0 = (0x3FFFFFFFFFFFFFFF AND a0) + (0x3FFFFFFFFFFFFFFF AND b0) + drop_bit 1 d1"
  define d0 where "d0 = drop_bit 62 a0 + drop_bit 62 b0 + drop_bit 62 c0"
  note lt = unat_lt64 [of a0] unat_lt64 [of a1] unat_lt64 [of b0] unat_lt64 [of b1]
  have m63: "(0x7FFFFFFFFFFFFFFF :: 64 word) = mask 63" and m62: "(0x3FFFFFFFFFFFFFFF :: 64 word) = mask 62"
    by (simp_all add: mask_eq_exp_minus_1)
  have h63: "(0x8000000000000000 :: 64 word) = push_bit 63 (mask (64 - 63))"
    and h62: "(0xC000000000000000 :: 64 word) = push_bit 62 (mask (64 - 62))"
    by (simp_all add: mask_eq_exp_minus_1 push_bit_eq_mult)
  have l63: "unat (0x7FFFFFFFFFFFFFFF AND w) = unat w mod 2 ^ 63" for w :: "64 word"
    unfolding m63 by (simp only: and.commute take_bit_eq_mask [symmetric] unat_take)
  have l62: "unat (0x3FFFFFFFFFFFFFFF AND w) = unat w mod 2 ^ 62" for w :: "64 word"
    unfolding m62 by (simp only: and.commute take_bit_eq_mask [symmetric] unat_take)
  have r: "r1 = (push_bit 63 d1 AND 0x8000000000000000) OR (c1 AND 0x7FFFFFFFFFFFFFFF)"
    "r0 = (push_bit 62 d0 AND 0xC000000000000000) OR (c0 AND 0x3FFFFFFFFFFFFFFF)"
    using assms by (simp_all only: addMod_def Let_def c1_def d1_def c0_def d0_def prod.inject)
  have c1: "unat c1 = unat a1 mod 2 ^ 63 + unat b1 mod 2 ^ 63 + 0"
    unfolding c1_def by (simp add: unat_word_ariths l63)
  have d1: "unat d1 = unat a1 div 2 ^ 63 + unat b1 div 2 ^ 63 + unat c1 div 2 ^ 63"
    using lt unat_lt64 [of c1] unfolding d1_def by (simp add: unat_word_ariths unat_drop)
  have top: "unat w div 2 ^ 63 \<le> 1" for w :: "64 word"
    using unat_lt64 [of w] by (simp add: less_Suc_eq_le [symmetric] less_mult_imp_div_less)
  have d1_le: "unat d1 \<le> 3"
    using d1 top [of a1] top [of b1] top [of c1] by linarith
  have c0: "unat c0 = unat a0 mod 2 ^ 62 + unat b0 mod 2 ^ 62 + unat d1 div 2"
    using d1_le unfolding c0_def by (simp add: unat_word_ariths l62 unat_drop)
  have d0: "unat d0 = unat a0 div 2 ^ 62 + unat b0 div 2 ^ 62 + unat c0 div 2 ^ 62"
    using lt unat_lt64 [of c0] unfolding d0_def by (simp add: unat_word_ariths unat_drop)
  have r1: "unat r1 = (unat d1 mod 2) * 2 ^ 63 + unat c1 mod 2 ^ 63"
    unfolding r(1) using unat_join [OF _ h63 m63, of d1 c1] by simp
  have r0: "unat r0 = (unat d0 mod 4) * 2 ^ 62 + unat c0 mod 2 ^ 62"
    unfolding r(2) using unat_join [OF _ h62 m62, of d0 c0] by simp
  have low: "unat a1 + unat b1 = unat r1 + (unat d1 div 2) * 2 ^ 64"
    using limb_add [OF c1 d1, of 2] r1 by simp
  have high: "unat a0 + unat b0 + unat d1 div 2 = unat r0 + (unat d0 div 4) * 2 ^ 64"
    using limb_add [OF c0 d0, of 4] r0 by simp
  have "pair_val a0 a1 + pair_val b0 b1 = pair_val r0 r1 + (unat d0 div 4) * 2 ^ 128"
    using low high by (simp add: pair_val_def)
  then show ?thesis using pair_val_lt [of r0 r1] by simp
qed

subsection \<open>Identifiers as numbers on the ring\<close>

definition nid_val :: "NodeID \<Rightarrow> nat" where
  "nid_val n = pair_val (id0 n) (id1 n)"

abbreviation ring :: nat where "ring \<equiv> 2 ^ 128"

lemma nid_val_lt: "nid_val n < ring"
  unfolding nid_val_def by (rule pair_val_lt)

lemma pair_val_inject: "pair_val a0 a1 = pair_val b0 b1 \<longleftrightarrow> a0 = b0 \<and> a1 = b1"
proof
  assume eq: "pair_val a0 a1 = pair_val b0 b1"
  have "unat a1 = unat b1"
    using arg_cong [OF eq, of "\<lambda>x. x mod 2 ^ 64"] unat_lt64 by (simp add: pair_val_def)
  moreover have "unat a0 = unat b0"
    using arg_cong [OF eq, of "\<lambda>x. x div 2 ^ 64"] unat_lt64 by (simp add: pair_val_def)
  ultimately show "a0 = b0 \<and> a1 = b1" by (simp add: word_unat_eq_iff)
qed simp

lemma pair_val_less:
  "pair_val a0 a1 < pair_val b0 b1 \<longleftrightarrow> (if a0 \<noteq> b0 then a0 < b0 else a1 < b1)"
proof (cases "a0 = b0")
  case True
  then show ?thesis by (simp add: pair_val_def word_less_nat_alt)
next
  case False
  have less: "unat x0 < unat y0 \<Longrightarrow> pair_val x0 x1 < pair_val y0 y1" for x0 x1 y0 y1
  proof -
    assume "unat x0 < unat y0"
    then have "(unat x0 + 1) * 2 ^ 64 \<le> unat y0 * 2 ^ 64" by (intro mult_le_mono1) simp
    then show ?thesis using unat_lt64 [of x1] by (simp add: pair_val_def)
  qed
  from False have "unat a0 < unat b0 \<or> unat b0 < unat a0"
    by (metis linorder_neqE_nat word_unat_eq_iff)
  with less [of a0 b0 a1 b1] less [of b0 a0 b1 a1] False show ?thesis
    by (auto simp: word_less_nat_alt)
qed

lemma nid_val_inject:
  "nid_IsNormal a \<Longrightarrow> nid_IsNormal b \<Longrightarrow> nid_val a = nid_val b \<longleftrightarrow> a = b"
  by (cases a; cases b) (simp add: nid_val_def nid_IsNormal_def pair_val_inject)

lemma Smaller_val:
  "nid_IsNormal a \<Longrightarrow> nid_IsNormal b \<Longrightarrow> Smaller a b \<longleftrightarrow> nid_val a < nid_val b"
  by (simp add: Smaller_def nid_IsNormal_def nid_val_def pair_val_less)

lemma IsNormal_NodeID [simp]: "nid_IsNormal (NodeID typeNormal w0 w1)"
  by (simp add: nid_IsNormal_def)

lemma nid_val_NodeID [simp]: "nid_val (NodeID t w0 w1) = pair_val w0 w1"
  by (simp add: nid_val_def)

lemma pair_val_not: "pair_val (NOT w0) (NOT w1) = ring - 1 - pair_val w0 w1"
proof -
  have "unat (NOT w) = 2 ^ 64 - 1 - unat w" for w :: "64 word"
  proof -
    have "NOT w = - 1 - w" by (simp add: not_eq_complement)
    moreover have "unat (- 1 - w) = unat (- 1 :: 64 word) - unat w"
      by (rule unat_sub) (rule word_n1_ge)
    ultimately show ?thesis by (simp add: unsigned_minus_1_eq_mask mask_eq_exp_minus_1)
  qed
  note e = this
  show ?thesis
    using unat_lt64 [of w0] unat_lt64 [of w1] by (simp add: pair_val_def e)
qed

text \<open>The way forward from one point of the ring to another, and the shorter way.\<close>

definition fwd :: "nat \<Rightarrow> nat \<Rightarrow> nat" where
  "fwd a b = (b + (ring - a)) mod ring"

definition ring_dist :: "nat \<Rightarrow> nat \<Rightarrow> nat" where
  "ring_dist a b = min (fwd a b) (fwd b a)"

lemma fwd_cases:
  assumes "a < ring" "b < ring"
  shows "fwd a b = (if a \<le> b then b - a else ring + b - a)"
proof (cases "a \<le> b")
  case True
  then have "b + (ring - a) = (b - a) + ring" using assms by simp
  then have "(b + (ring - a)) mod ring = (b - a) mod ring" by (metis mod_add_self2)
  with True assms show ?thesis by (simp add: fwd_def)
next
  case False
  with assms show ?thesis by (simp add: fwd_def)
qed

lemma fwd_nid:
  "fwd (nid_val a) (nid_val b) =
     (if nid_val a \<le> nid_val b then nid_val b - nid_val a else ring + nid_val b - nid_val a)"
  by (rule fwd_cases) (rule nid_val_lt)+

lemma pair_val_sub:
  assumes "addMod a0 a1 (NOT b0) (NOT b1) = (r0, r1)" and "addMod r0 r1 0 1 = (s0, s1)"
  shows "pair_val s0 s1 = fwd (pair_val b0 b1) (pair_val a0 a1)"
proof -
  have one: "pair_val 0 1 = 1" by (simp add: pair_val_def)
  have "pair_val s0 s1 = ((pair_val a0 a1 + (ring - 1 - pair_val b0 b1)) mod ring + 1) mod ring"
    using addMod_val [OF assms(1)] addMod_val [OF assms(2)] by (simp only: one pair_val_not)
  also have "\<dots> = (pair_val a0 a1 + (ring - 1 - pair_val b0 b1) + 1) mod ring"
    by (rule mod_add_left_eq)
  also have "pair_val a0 a1 + (ring - 1 - pair_val b0 b1) + 1 = pair_val a0 a1 + (ring - pair_val b0 b1)"
    using pair_val_lt [of b0 b1] by linarith
  finally show ?thesis by (simp only: fwd_def)
qed

lemma nid_Sub_val:
  assumes "nid_IsNormal n" "nid_IsNormal m"
  shows "\<exists>r. nid_Sub n m = Inr r \<and> nid_IsNormal r \<and> nid_val r = fwd (nid_val m) (nid_val n)"
proof -
  obtain r0 r1 where r: "addMod (id0 n) (id1 n) (NOT (id0 m)) (NOT (id1 m)) = (r0, r1)" by fastforce
  obtain s0 s1 where s: "addMod r0 r1 0 1 = (s0, s1)" by fastforce
  from pair_val_sub [OF r s] assms r s show ?thesis
    by (simp add: nid_Sub_def nid_IsNormal_def nid_val_def)
qed

lemma nid_Add_val:
  assumes "nid_IsNormal n" "nid_IsNormal m"
  shows "\<exists>r. nid_Add n m = Inr r \<and> nid_IsNormal r \<and> nid_val r = (nid_val n + nid_val m) mod ring"
proof -
  obtain r0 r1 where r: "addMod (id0 n) (id1 n) (id0 m) (id1 m) = (r0, r1)" by fastforce
  from addMod_val [OF r] assms r show ?thesis
    by (simp add: nid_Add_def nid_IsNormal_def nid_val_def)
qed

lemma high_half: "a0 \<ge> 0x8000000000000000 \<longleftrightarrow> 2 ^ 127 \<le> pair_val a0 a1"
proof -
  have "a0 \<ge> 0x8000000000000000 \<longleftrightarrow> 2 ^ 63 \<le> unat a0"
    by (simp add: word_le_nat_alt)
  also have "\<dots> \<longleftrightarrow> 2 ^ 127 \<le> pair_val a0 a1"
  proof
    assume "2 ^ 63 \<le> unat a0"
    then have "2 ^ 63 * 2 ^ 64 \<le> unat a0 * 2 ^ 64" by (rule mult_le_mono1)
    then show "2 ^ 127 \<le> pair_val a0 a1" by (simp add: pair_val_def)
  next
    assume *: "2 ^ 127 \<le> pair_val a0 a1"
    show "2 ^ 63 \<le> unat a0"
    proof (rule ccontr)
      assume "\<not> 2 ^ 63 \<le> unat a0"
      then have "(unat a0 + 1) * 2 ^ 64 \<le> 2 ^ 63 * 2 ^ 64" by (intro mult_le_mono1) simp
      with * unat_lt64 [of a1] show False by (simp add: pair_val_def)
    qed
  qed
  finally show ?thesis .
qed

lemma ring_dist_fold:
  assumes "a < ring" "b < ring" "a \<le> b" "d = fwd a b"
  shows "ring_dist a b = (if 2 ^ 127 \<le> d then ring - d else d)"
  using assms by (auto simp: ring_dist_def fwd_cases)

lemma ring_dist_sym: "ring_dist a b = ring_dist b a"
  by (simp add: ring_dist_def min.commute)

lemma DistanceFrom_val:
  assumes "nid_IsNormal n" "nid_IsNormal m"
  shows "\<exists>r. DistanceFrom n m = Inr r \<and> nid_IsNormal r \<and> nid_val r = ring_dist (nid_val n) (nid_val m)"
proof -
  define lo hi where "lo = (if Smaller n m then n else m)" and "hi = (if Smaller n m then m else n)"
  have le: "nid_val lo \<le> nid_val hi"
    using Smaller_val [OF assms] by (auto simp: lo_def hi_def)
  obtain r0 r1 where r: "addMod (id0 hi) (id1 hi) (NOT (id0 lo)) (NOT (id1 lo)) = (r0, r1)" by fastforce
  obtain s0 s1 where s: "addMod r0 r1 0 1 = (s0, s1)" by fastforce
  obtain t0 t1 where t: "addMod (NOT s0) (NOT s1) 0 1 = (t0, t1)" by fastforce
  have d: "pair_val s0 s1 = fwd (nid_val lo) (nid_val hi)"
    using pair_val_sub [OF r s] by (simp add: nid_val_def)
  have one: "pair_val 0 1 = 1" by (simp add: pair_val_def)
  have neg: "pair_val t0 t1 = (ring - 1 - pair_val s0 s1 + 1) mod ring"
    using addMod_val [OF t] by (simp only: one pair_val_not)
  have res: "DistanceFrom n m = Inr (if s0 \<ge> 0x8000000000000000 then NodeID typeNormal t0 t1
     else NodeID typeNormal s0 s1)"
    using assms r s t by (auto simp: DistanceFrom_def nid_IsNormal_def lo_def hi_def Let_def)
  have fold: "ring_dist (nid_val lo) (nid_val hi)
     = (if 2 ^ 127 \<le> pair_val s0 s1 then ring - pair_val s0 s1 else pair_val s0 s1)"
    using le d nid_val_lt by (intro ring_dist_fold) simp_all
  have "ring_dist (nid_val n) (nid_val m) = ring_dist (nid_val lo) (nid_val hi)"
    by (simp add: lo_def hi_def ring_dist_sym)
  moreover have "nid_val (if s0 \<ge> 0x8000000000000000 then NodeID typeNormal t0 t1
     else NodeID typeNormal s0 s1) = ring_dist (nid_val lo) (nid_val hi)"
    using high_half [of s0 s1] pair_val_lt [of s0 s1] neg unfolding fold by auto
  ultimately show ?thesis using res by (auto simp: nid_IsNormal_def)
qed

subsection \<open>The linear order\<close>

instantiation NodeID :: linorder
begin

definition less_NodeID :: "NodeID \<Rightarrow> NodeID \<Rightarrow> bool" where
  "less_NodeID a b \<longleftrightarrow> nid_t a < nid_t b \<or> nid_t a = nid_t b \<and>
     (id0 a < id0 b \<or> id0 a = id0 b \<and> id1 a < id1 b)"

definition less_eq_NodeID :: "NodeID \<Rightarrow> NodeID \<Rightarrow> bool" where
  "less_eq_NodeID a b \<longleftrightarrow> a = b \<or> a < b"

instance
  by standard (auto simp: less_NodeID_def less_eq_NodeID_def intro: NodeID.expand)

end

text \<open>
  The special identifiers carry no number. Every identifier the sources build is of this
  form, and on those \<open>Smaller\<close> is the linear order.
\<close>

definition wf_id :: "NodeID \<Rightarrow> bool" where
  "wf_id n \<longleftrightarrow> nid_t n = typeNormal \<or> id0 n = 0 \<and> id1 n = 0"

lemma wf_id_normal [simp]: "nid_IsNormal n \<Longrightarrow> wf_id n"
  by (simp add: wf_id_def nid_IsNormal_def)

lemma wf_id_special [simp]: "wf_id NodeLocal" "wf_id NodeNeighborhoods"
  by (simp_all add: wf_id_def NodeLocal_def NodeNeighborhoods_def)

lemma Smaller_less: "wf_id a \<Longrightarrow> wf_id b \<Longrightarrow> Smaller a b \<longleftrightarrow> a < b"
  by (auto simp: Smaller_def less_NodeID_def wf_id_def)

lemma less_val: "nid_IsNormal a \<Longrightarrow> nid_IsNormal b \<Longrightarrow> a < b \<longleftrightarrow> nid_val a < nid_val b"
  by (metis Smaller_less Smaller_val wf_id_normal)

lemma le_val: "nid_IsNormal a \<Longrightarrow> nid_IsNormal b \<Longrightarrow> a \<le> b \<longleftrightarrow> nid_val a \<le> nid_val b"
  by (metis less_val linorder_not_less)

lemma Compare_sign:
  assumes "wf_id a" "wf_id b"
  shows "Compare a b < 0 \<longleftrightarrow> a < b" "Compare a b = 0 \<longleftrightarrow> a = b" "Compare a b > 0 \<longleftrightarrow> b < a"
    "Compare a b \<le> 0 \<longleftrightarrow> a \<le> b" "0 \<le> Compare a b \<longleftrightarrow> b \<le> a"
  using Smaller_less [OF assms] by (auto simp: Compare_def)

interpretation nid_cmp: comparator Compare "\<lambda>n. n" wf_id
  by unfold_locales (rule Compare_sign)

lemma SortNodeIDs_sort: "\<forall>n\<in>set ns. wf_id n \<Longrightarrow> SortNodeIDs ns = sort ns"
  unfolding SortNodeIDs_def by (simp add: nid_cmp.sort_by_key)

lemma nid_Equal_Some [simp]: "nid_Equal (Some a) (Some b) \<longleftrightarrow> a = b"
  by (cases a; cases b) (simp add: nid_Equal_def)

lemma nid_Equal_eq: "nid_Equal a b \<longleftrightarrow> a = b"
  by (cases a; cases b) (auto simp: nid_Equal_def intro: NodeID.expand)

lemma special_distinct [simp]:
  "NodeLocal \<noteq> NodeNeighborhoods" "\<not> nid_IsNormal NodeLocal" "\<not> nid_IsNormal NodeNeighborhoods"
  by (simp_all add: NodeLocal_def NodeNeighborhoods_def nid_IsNormal_def typeNormal_def
      typeLocal_def typeNeighborhoods_def)

lemma nid_Copy_id [simp]: "nid_Copy n = n"
  by (cases n) (simp add: nid_Copy_def)

subsection \<open>Conversions\<close>

lemma hex_digit_val: "d < 16 \<Longrightarrow> hex_val (hex_digit d) = d \<and> is_hex_digit (hex_digit d)"
  by (auto simp: hex_val_def hex_digit_def is_hex_digit_def of_char_of)

lemma hex_val_digit: "is_hex_digit c \<Longrightarrow> hex_val c < 16 \<and> hex_digit (hex_val c) = c"
  by (auto simp: hex_val_def hex_digit_def is_hex_digit_def)

text \<open>The digits of a number, most significant first, and back.\<close>

definition digits_of :: "nat \<Rightarrow> nat \<Rightarrow> nat list" where
  "digits_of n x = map (\<lambda>i. x div 16 ^ i mod 16) (rev [0..<n])"

definition of_digits :: "nat list \<Rightarrow> nat" where
  "of_digits ds = foldl (\<lambda>acc d. acc * 16 + d) 0 ds"

lemma digits_of_Suc: "digits_of (Suc n) x = digits_of n (x div 16) @ [x mod 16]"
proof -
  have "rev [0..<Suc n] = map Suc (rev [0..<n]) @ [0]"
    by (metis rev_map map_Suc_upt rev.simps(2) upt_conv_Cons zero_less_Suc)
  then show ?thesis
    by (simp add: digits_of_def div_mult2_eq comp_def)
qed

lemma of_digits_snoc [simp]: "of_digits (ds @ [d]) = of_digits ds * 16 + d"
  by (simp add: of_digits_def)

lemma of_digits_of: "of_digits (digits_of n x) = x mod 16 ^ n"
proof (induction n arbitrary: x)
  case 0
  show ?case by (simp add: digits_of_def of_digits_def)
next
  case (Suc n)
  have "of_digits (digits_of (Suc n) x) = x div 16 mod 16 ^ n * 16 + x mod 16"
    by (simp add: digits_of_Suc Suc.IH)
  also have "\<dots> = x mod 16 ^ Suc n"
    by (simp add: mod_mult2_eq mult.commute)
  finally show ?case .
qed

lemma digits_of_of: "\<forall>d\<in>set ds. d < 16 \<Longrightarrow> digits_of (length ds) (of_digits ds) = ds"
proof (induction ds rule: rev_induct)
  case Nil
  show ?case by (simp add: digits_of_def)
next
  case (snoc d ds)
  then show ?case by (simp add: digits_of_Suc)
qed

lemma of_digits_bound: "\<forall>d\<in>set ds. d < 16 \<Longrightarrow> of_digits ds < 16 ^ length ds"
proof (induction ds rule: rev_induct)
  case Nil
  show ?case by (simp add: of_digits_def)
next
  case (snoc d ds)
  then have "of_digits ds + 1 \<le> 16 ^ length ds" by simp
  then have "(of_digits ds + 1) * 16 \<le> 16 ^ length ds * 16" by (rule mult_le_mono1)
  with snoc.prems show ?case by simp
qed

lemma ParseUint16_digits: "ParseUint16 s = of_nat (of_digits (map hex_val s))"
proof (induction s rule: rev_induct)
  case Nil
  show ?case by (simp add: ParseUint16_def of_digits_def)
next
  case (snoc c s)
  have "ParseUint16 (s @ [c]) = ParseUint16 s * 16 + of_nat (hex_val c)"
    by (simp add: ParseUint16_def)
  then show ?case by (simp add: snoc.IH)
qed

lemma hex16_digits: "hex16 w = map hex_digit (digits_of 16 (unat w))"
proof -
  have "unat (drop_bit (4 * i) w AND 15) = unat w div 16 ^ i mod 16" for i
  proof -
    have "(15 :: 64 word) = mask 4" by (simp add: mask_eq_exp_minus_1)
    then have "drop_bit (4 * i) w AND 15 = take_bit 4 (drop_bit (4 * i) w)"
      by (simp only: take_bit_eq_mask)
    then have "unat (drop_bit (4 * i) w AND 15) = unat w div 2 ^ (4 * i) mod 2 ^ 4"
      by (simp only: unat_take unat_drop)
    then show ?thesis by (simp add: power_mult)
  qed
  then show ?thesis by (simp add: hex16_def digits_of_def)
qed

lemma digits_of_lt: "d \<in> set (digits_of n x) \<Longrightarrow> d < 16"
  by (auto simp: digits_of_def)

lemma hex16_props: "length (hex16 w) = 16" "\<forall>c\<in>set (hex16 w). is_hex_digit c"
  by (auto simp: hex16_digits hex_digit_val digits_of_lt) (simp add: digits_of_def)

lemma ParseUint16_hex16: "ParseUint16 (hex16 w) = w"
proof -
  have "map hex_val (hex16 w) = digits_of 16 (unat w)"
    by (simp add: hex16_digits comp_def hex_digit_val digits_of_lt cong: map_cong)
  then show ?thesis
    using unat_lt64 [of w] by (simp add: ParseUint16_digits of_digits_of)
qed

lemma hex16_ParseUint16:
  assumes "length s = 16" "\<forall>c\<in>set s. is_hex_digit c"
  shows "hex16 (ParseUint16 s) = s"
proof -
  have lt: "\<forall>d\<in>set (map hex_val s). d < 16" using assms(2) hex_val_digit by auto
  from of_digits_bound [OF lt] assms(1) have "unat (ParseUint16 s) = of_digits (map hex_val s)"
    by (simp add: ParseUint16_digits unat_of_nat)
  then have "hex16 (ParseUint16 s) = map hex_digit (map hex_val s)"
    using digits_of_of [OF lt] assms(1) by (simp add: hex16_digits)
  then show ?thesis using assms(2) hex_val_digit by (simp add: map_idI)
qed

lemma nid_Proto_normal: "nid_IsNormal n \<Longrightarrow> nid_Proto n = Inr \<lparr>p_Id0 = id0 n, p_Id1 = id1 n\<rparr>"
  by (simp add: nid_Proto_def nid_IsNormal_def)

lemma FromProto_normal: "NewNodeIDFromProto p = Inr n \<Longrightarrow> nid_IsNormal n"
  by (auto simp: NewNodeIDFromProto_def nid_IsNormal_def split: option.splits)

lemma FromProto_Proto:
  "nid_Proto n = Inr p \<Longrightarrow> NewNodeIDFromProto (Some p) = Inr n"
  by (cases n) (auto simp: nid_Proto_def NewNodeIDFromProto_def split: if_splits)

lemma FromString_normal: "NewNodeIDFromString s = Inr n \<Longrightarrow> nid_IsNormal n"
  by (auto simp: NewNodeIDFromString_def nid_IsNormal_def split: if_splits)

lemma nid_String_normal: "nid_IsNormal n \<Longrightarrow> nid_String n = Inr (hex16 (id0 n) @ hex16 (id1 n))"
  by (simp add: nid_String_def nid_IsNormal_def)

lemma FromString_String:
  assumes "nid_IsNormal n" "nid_String n = Inr s"
  shows "NewNodeIDFromString s = Inr n"
proof -
  have s: "s = hex16 (id0 n) @ hex16 (id1 n)" using assms by (simp add: nid_String_normal)
  have "length s = 32" "\<not> (\<exists>c\<in>set s. \<not> is_hex_digit c)" "take 16 s = hex16 (id0 n)" "drop 16 s = hex16 (id1 n)"
    using hex16_props [of "id0 n"] hex16_props [of "id1 n"] by (auto simp: s)
  with assms(1) show ?thesis
    by (cases n) (simp add: NewNodeIDFromString_def nid_IsNormal_def ParseUint16_hex16)
qed

lemma String_FromString:
  assumes "NewNodeIDFromString s = Inr n"
  shows "nid_String n = Inr s"
proof -
  from assms have len: "length s = 32" and hex: "\<forall>c\<in>set s. is_hex_digit c"
    and n: "n = NodeID typeNormal (ParseUint16 (take 16 s)) (ParseUint16 (drop 16 s))"
    by (auto simp: NewNodeIDFromString_def split: if_splits)
  have "hex16 (ParseUint16 (take 16 s)) = take 16 s"
    using len hex by (intro hex16_ParseUint16) (auto dest: in_set_takeD)
  moreover have "hex16 (ParseUint16 (drop 16 s)) = drop 16 s"
    using len hex by (intro hex16_ParseUint16) (auto dest: in_set_dropD)
  ultimately show ?thesis by (simp add: n nid_String_def)
qed

lemma nid_String_inject:
  "nid_IsNormal a \<Longrightarrow> nid_IsNormal b \<Longrightarrow> nid_String a = nid_String b \<longleftrightarrow> a = b"
  by (metis FromString_String Inr_inject nid_String_normal)

lemma fold_triangle:
  fixes x y R :: int
  assumes "\<bar>x\<bar> < R" "\<bar>y\<bar> < R" "\<bar>x + y\<bar> < R"
  shows "min \<bar>x + y\<bar> (R - \<bar>x + y\<bar>) \<le> min \<bar>x\<bar> (R - \<bar>x\<bar>) + min \<bar>y\<bar> (R - \<bar>y\<bar>)"
  using assms by arith

lemma int_ring_dist:
  assumes "a < ring" "b < ring"
  shows "int (ring_dist a b) = min \<bar>int a - int b\<bar> (int ring - \<bar>int a - int b\<bar>)"
  using assms by (cases a b rule: linorder_cases) (auto simp: ring_dist_def fwd_cases of_nat_diff)

lemma ring_dist_triangle:
  assumes "a < ring" "b < ring" "c < ring"
  shows "ring_dist a c \<le> ring_dist a b + ring_dist b c"
proof -
  have "int (ring_dist a c) \<le> int (ring_dist a b) + int (ring_dist b c)"
    using fold_triangle [of "int a - int b" "int ring" "int b - int c"] assms
    by (simp only: int_ring_dist [OF assms(1) assms(3)] int_ring_dist [OF assms(1) assms(2)]
        int_ring_dist [OF assms(2) assms(3)])
  then show ?thesis by (simp only: of_nat_add [symmetric] of_nat_le_iff)
qed

lemma ring_dist_zero: "a < ring \<Longrightarrow> b < ring \<Longrightarrow> ring_dist a b = 0 \<longleftrightarrow> a = b"
  by (auto simp: ring_dist_def fwd_cases min_def)

lemma ring_dist_le: "a < ring \<Longrightarrow> b < ring \<Longrightarrow> ring_dist a b \<le> 2 ^ 127"
  by (auto simp: ring_dist_def fwd_cases min_def)

subsection \<open>Properties\<close>

text \<open>
  The carry-by-hand addition of two 128-bit numbers held as 64-bit halves is addition
  modulo two to the 128, for all inputs, no intermediate word overflowing.
\<close>

theorem addMod_is_addition:
  "(case addMod a0 a1 b0 b1 of (r0, r1) \<Rightarrow> pair_val r0 r1)
     = (pair_val a0 a1 + pair_val b0 b1) mod 2 ^ 128"
  using addMod_val by (cases "addMod a0 a1 b0 b1") simp

text \<open>
  C35. \<open>DistanceFrom\<close> does not panic on ordinary identifiers and measures the shorter way
  around the ring: the results of three calls are a metric, and none exceeds half the ring.
\<close>

theorem DistanceFrom_metric:
  assumes "nid_IsNormal a" "nid_IsNormal b" "nid_IsNormal c"
  shows "\<exists>ab bc ac ba. DistanceFrom a b = Inr ab \<and> DistanceFrom b c = Inr bc \<and>
     DistanceFrom a c = Inr ac \<and> DistanceFrom b a = Inr ba \<and>
     nid_val ab = min ((nid_val b + (ring - nid_val a)) mod ring) ((nid_val a + (ring - nid_val b)) mod ring) \<and>
     ab = ba \<and> (nid_val ab = 0 \<longleftrightarrow> a = b) \<and> nid_val ac \<le> nid_val ab + nid_val bc \<and>
     nid_val ab \<le> 2 ^ 127"
proof -
  obtain ab bc ac ba where d:
    "DistanceFrom a b = Inr ab" "DistanceFrom b c = Inr bc"
    "DistanceFrom a c = Inr ac" "DistanceFrom b a = Inr ba"
    and n: "nid_IsNormal ab" "nid_IsNormal ba"
    and v: "nid_val ab = ring_dist (nid_val a) (nid_val b)" "nid_val bc = ring_dist (nid_val b) (nid_val c)"
    "nid_val ac = ring_dist (nid_val a) (nid_val c)" "nid_val ba = ring_dist (nid_val b) (nid_val a)"
    using DistanceFrom_val assms by metis
  have "ab = ba" using n v(1,4) ring_dist_sym nid_val_inject by metis
  moreover have "nid_val ab = 0 \<longleftrightarrow> a = b"
    using v(1) ring_dist_zero [OF nid_val_lt nid_val_lt] nid_val_inject assms by metis
  moreover have "nid_val ac \<le> nid_val ab + nid_val bc"
    unfolding v by (rule ring_dist_triangle) (rule nid_val_lt)+
  moreover have "nid_val ab \<le> 2 ^ 127"
    unfolding v(1) by (rule ring_dist_le) (rule nid_val_lt)+
  moreover note v(1) [unfolded ring_dist_def fwd_def]
  ultimately show ?thesis using d
    by - (rule exI [of _ ab], rule exI [of _ bc], rule exI [of _ ac], rule exI [of _ ba], intro conjI; assumption)
qed

theorem DistanceFrom_metric_witness:
  "\<exists>ab ac. DistanceFrom (NodeID typeNormal 0 1) (NodeID typeNormal (-1) (-1)) = Inr ab \<and>
     DistanceFrom (NodeID typeNormal 0 1) (NodeID typeNormal 0 7) = Inr ac \<and> nid_val ab \<le> 2 ^ 127"
  using DistanceFrom_metric [of "NodeID typeNormal 0 1" "NodeID typeNormal (-1) (-1)" "NodeID typeNormal 0 7"]
    IsNormal_NodeID by blast

text \<open>
  C33. The textual form is exact: a string parses to an identifier exactly when it is the
  text printed for that identifier and the identifier is an ordinary one.
\<close>

theorem String_parse_iff:
  "NewNodeIDFromString s = Inr n \<longleftrightarrow> nid_IsNormal n \<and> nid_String n = Inr s"
  using FromString_String String_FromString FromString_normal by blast

text \<open>The identifiers a program can come by: the constructors, the constants and the arithmetic.\<close>

inductive made_id :: "NodeID \<Rightarrow> bool" where
  local: "made_id NodeLocal"
| neighborhoods: "made_id NodeNeighborhoods"
| proto: "NewNodeIDFromProto p = Inr n \<Longrightarrow> made_id n"
| parsed: "NewNodeIDFromString s = Inr n \<Longrightarrow> made_id n"
| normal: "made_id (NewNormalNodeID w0 w1)"
| random: "made_id (NewRandomNodeID w0 w1)"
| copied: "made_id n \<Longrightarrow> made_id (nid_Copy n)"
| added: "made_id a \<Longrightarrow> made_id b \<Longrightarrow> nid_Add a b = Inr c \<Longrightarrow> made_id c"
| subtracted: "made_id a \<Longrightarrow> made_id b \<Longrightarrow> nid_Sub a b = Inr c \<Longrightarrow> made_id c"
| measured: "made_id a \<Longrightarrow> made_id b \<Longrightarrow> DistanceFrom a b = Inr c \<Longrightarrow> made_id c"

lemma arithmetic_normal:
  "nid_Add a b = Inr c \<Longrightarrow> nid_IsNormal c" "nid_Sub a b = Inr c \<Longrightarrow> nid_IsNormal c"
  "DistanceFrom a b = Inr c \<Longrightarrow> nid_IsNormal c"
  by (auto simp: nid_Add_def nid_Sub_def DistanceFrom_def Let_def split: if_splits prod.splits)

lemma made_cases: "made_id n \<Longrightarrow> nid_IsNormal n \<or> n = NodeLocal \<or> n = NodeNeighborhoods"
  by (induction rule: made_id.induct)
     (auto simp: NewNormalNodeID_def NewRandomNodeID_def FromProto_normal FromString_normal arithmetic_normal)

lemma special_not_normal: "\<not> nid_IsNormal NodeLocal" "\<not> nid_IsNormal NodeNeighborhoods"
  by (simp_all add: nid_IsNormal_def NodeLocal_def NodeNeighborhoods_def typeNormal_def typeLocal_def typeNeighborhoods_def)

lemma made_wf: "made_id n \<Longrightarrow> wf_id n"
  using made_cases by fastforce

lemma arithmetic_defined:
  "no_fault (nid_Add a b) \<longleftrightarrow> nid_IsNormal a \<and> nid_IsNormal b"
  "no_fault (nid_Sub a b) \<longleftrightarrow> nid_IsNormal a \<and> nid_IsNormal b"
  "no_fault (DistanceFrom a b) \<longleftrightarrow> nid_IsNormal a \<and> nid_IsNormal b"
  "no_fault (nid_Raw a) \<longleftrightarrow> nid_IsNormal a" "no_fault (nid_Proto a) \<longleftrightarrow> nid_IsNormal a"
  by (auto simp: no_fault_iff nid_Add_def nid_Sub_def DistanceFrom_def nid_Raw_def nid_Proto_def nid_IsNormal_def Let_def split_def)

lemma made_String: "made_id n \<Longrightarrow> no_fault (nid_String n)"
  using made_cases [of n]
  by (auto simp: nid_String_def nid_IsNormal_def NodeLocal_def NodeNeighborhoods_def)

text \<open>
  C34. Identifiers are well typed. Whatever constructors, constants and arithmetic an identifier
  comes from, it is an ordinary one or one of the two special ones; it can be printed; the
  arithmetic, the metric and the conversions return exactly on ordinary ones, and panic on the
  others; and \<open>Smaller\<close> orders all of them linearly.
\<close>

theorem made_identifiers:
  assumes "made_id a" "made_id b" "made_id c"
  shows "(nid_IsNormal a \<longleftrightarrow> a \<noteq> NodeLocal \<and> a \<noteq> NodeNeighborhoods) \<and> no_fault (nid_String a) \<and>
    (no_fault (nid_Add a b) \<longleftrightarrow> nid_IsNormal a \<and> nid_IsNormal b) \<and> (no_fault (nid_Sub a b) \<longleftrightarrow> nid_IsNormal a \<and> nid_IsNormal b) \<and>
    (no_fault (DistanceFrom a b) \<longleftrightarrow> nid_IsNormal a \<and> nid_IsNormal b) \<and>
    (no_fault (nid_Raw a) \<longleftrightarrow> nid_IsNormal a) \<and> (no_fault (nid_Proto a) \<longleftrightarrow> nid_IsNormal a) \<and>
    (Smaller a b \<or> a = b \<or> Smaller b a) \<and> \<not> (Smaller a b \<and> Smaller b a) \<and>
    (Smaller a b \<longrightarrow> Smaller b c \<longrightarrow> Smaller a c)"
proof (intro conjI)
  note wf = assms [THEN made_wf]
  show "nid_IsNormal a \<longleftrightarrow> a \<noteq> NodeLocal \<and> a \<noteq> NodeNeighborhoods"
    using made_cases [OF assms(1)] special_not_normal by auto
  show "no_fault (nid_String a)" by (rule made_String [OF assms(1)])
  show "Smaller a b \<or> a = b \<or> Smaller b a" "\<not> (Smaller a b \<and> Smaller b a)"
    using Smaller_less wf by (auto simp: not_less)
  show "Smaller a b \<longrightarrow> Smaller b c \<longrightarrow> Smaller a c"
    using Smaller_less wf by (meson less_trans)
qed (rule arithmetic_defined)+

theorem made_identifiers_witness:
  "(Smaller NodeNeighborhoods NodeLocal \<or> Smaller NodeLocal NodeNeighborhoods) \<and>
   \<not> no_fault (nid_Add NodeLocal (NewNormalNodeID 0 1)) \<and> no_fault (nid_Sub (NewNormalNodeID 0 0) (NewNormalNodeID 0 1))"
  using made_identifiers [OF made_id.local made_id.neighborhoods made_id.local]
    made_identifiers [OF made_id.local made_id.normal [of 0 1] made_id.local]
    made_identifiers [OF made_id.normal [of 0 0] made_id.normal [of 0 1] made_id.local]
  by (auto simp: NewNormalNodeID_def special_not_normal)

end
