(* ===== verification/Geometry.thy ===== *)
theory Geometry
  imports Prelude
begin

text \<open>
  Positions and coordinate systems (\<open>src/node/internal/geometry\<close>): the plane and the
  sphere, as implementations of the interface \<open>CoordinateSystem\<close>.

  A \<open>float64\<close> is a real number here: rounding, infinities and NaN are outside the model.
  The locale \<open>coordinate_system\<close> is what the 2D routing and the spread module rely on; both
  coordinate systems interpret it on the positions they accept.
\<close>

subsection \<open>Coordinates\<close>

record Coordinate =
  X :: real
  Y :: real

definition NewCoordinate :: "real \<Rightarrow> real \<Rightarrow> Coordinate" where
  "NewCoordinate x y = \<lparr>X = x, Y = y\<rparr>"

text \<open>A coordinate message is the pair of its fields; reading the fields of nil panics.\<close>

record proto_Coordinate =
  p_X :: real
  p_Y :: real

definition NewCoordinateFromProto :: "proto_Coordinate option \<Rightarrow> Coordinate outcome" where
  "NewCoordinateFromProto p =
     (case p of None \<Rightarrow> Inl (Panic ''nil pointer dereference'')
      | Some c \<Rightarrow> Inr \<lparr>X = p_X c, Y = p_Y c\<rparr>)"

definition coord_Proto :: "Coordinate \<Rightarrow> proto_Coordinate" where
  "coord_Proto c = \<lparr>p_X = X c, p_Y = Y c\<rparr>"

definition coord_Equal :: "Coordinate \<Rightarrow> Coordinate \<Rightarrow> bool" where
  "coord_Equal c c2 \<longleftrightarrow> X c = X c2 \<and> Y c = Y c2"

definition coord_Smaller :: "Coordinate \<Rightarrow> Coordinate \<Rightarrow> bool" where
  "coord_Smaller c c2 = (if X c = X c2 then Y c < Y c2 else X c < X c2)"

lemma coord_Equal_eq: "coord_Equal c d \<longleftrightarrow> c = d"
  by (auto simp: coord_Equal_def)

lemma FromProto_coord_Proto [simp]: "NewCoordinateFromProto (Some (coord_Proto c)) = Inr c"
  by (simp add: NewCoordinateFromProto_def coord_Proto_def)

subsection \<open>The plane\<close>

record planeCoordinateSystem =
  xMin :: real
  xMax :: real
  yMin :: real
  yMax :: real
  pl_localPosition :: Coordinate

text \<open>The draws of the random source (in \<open>[0, 1)\<close>) are arguments.\<close>

definition NewPlaneCoordinateSystem ::
  "real \<Rightarrow> real \<Rightarrow> real \<Rightarrow> real \<Rightarrow> real \<Rightarrow> real \<Rightarrow> planeCoordinateSystem" where
  "NewPlaneCoordinateSystem r1 r2 xmin xmax ymin ymax =
     \<lparr>xMin = xmin, xMax = xmax, yMin = ymin, yMax = ymax,
      pl_localPosition = \<lparr>X = r1 * (xmax - xmin) + xmin, Y = r2 * (ymax - ymin) + ymin\<rparr>\<rparr>"

definition pl_GetDistance :: "planeCoordinateSystem \<Rightarrow> Coordinate \<Rightarrow> Coordinate \<Rightarrow> real" where
  "pl_GetDistance p p1 p2 = sqrt ((X p1 - X p2)\<^sup>2 + (Y p1 - Y p2)\<^sup>2)"

definition pl_GetLocalPosition :: "planeCoordinateSystem \<Rightarrow> Coordinate" where
  "pl_GetLocalPosition p = pl_localPosition p"

definition pl_GetPrecision :: "planeCoordinateSystem \<Rightarrow> real" where
  "pl_GetPrecision p = 1 / 4294967295"

definition pl_SetLocalPosition ::
  "planeCoordinateSystem \<Rightarrow> Coordinate \<Rightarrow> string + planeCoordinateSystem" where
  "pl_SetLocalPosition p position =
     (if X position < xMin p \<or> xMax p < X position
      then Inl ''the specified X coordinate is out of range''
      else if Y position < yMin p \<or> yMax p < Y position
      then Inl ''the specified Y coordinate is out of range''
      else Inr (p\<lparr>pl_localPosition := position\<rparr>))"

definition pl_Shift :: "planeCoordinateSystem \<Rightarrow> Coordinate \<Rightarrow> Coordinate \<Rightarrow> Coordinate" where
  "pl_Shift p base position = \<lparr>X = X position - X base, Y = Y position - Y base\<rparr>"

subsection \<open>The sphere\<close>

definition sphereXMin :: real where "sphereXMin = - 1 * pi"
definition sphereXMax :: real where "sphereXMax = pi"
definition sphereYMin :: real where "sphereYMin = - 0.5 * pi"
definition sphereYMax :: real where "sphereYMax = 0.5 * pi"

record sphereCoordinateSystem =
  radius :: real
  sp_localPosition :: Coordinate

definition NewSphereCoordinateSystem :: "real \<Rightarrow> real \<Rightarrow> real \<Rightarrow> sphereCoordinateSystem" where
  "NewSphereCoordinateSystem r1 r2 rad =
     \<lparr>radius = rad,
      sp_localPosition = \<lparr>X = r1 * (sphereXMax - sphereXMin) + sphereXMin,
                          Y = r2 * (sphereYMax - sphereYMin) + sphereYMin\<rparr>\<rparr>"

definition haversine :: "Coordinate \<Rightarrow> Coordinate \<Rightarrow> real" where
  "haversine p1 p2 =
     (let avrX = (X p1 - X p2) / 2; avrY = (Y p1 - Y p2) / 2
      in (sin avrY)\<^sup>2 + cos (Y p1) * cos (Y p2) * (sin avrX)\<^sup>2)"

definition sp_GetDistance :: "sphereCoordinateSystem \<Rightarrow> Coordinate \<Rightarrow> Coordinate \<Rightarrow> real" where
  "sp_GetDistance s p1 p2 = radius s * 2 * arcsin (sqrt (haversine p1 p2))"

definition sp_GetLocalPosition :: "sphereCoordinateSystem \<Rightarrow> Coordinate" where
  "sp_GetLocalPosition s = sp_localPosition s"

definition sp_GetPrecision :: "sphereCoordinateSystem \<Rightarrow> real" where
  "sp_GetPrecision s = 0.0001 / 60"

definition sp_SetLocalPosition ::
  "sphereCoordinateSystem \<Rightarrow> Coordinate \<Rightarrow> string + sphereCoordinateSystem" where
  "sp_SetLocalPosition s position =
     (if X position < sphereXMin \<or> sphereXMax < X position
      then Inl ''the specified X coordinate is out of range''
      else if Y position < sphereYMin \<or> sphereYMax < Y position
      then Inl ''the specified Y coordinate is out of range''
      else Inr (s\<lparr>sp_localPosition := position\<rparr>))"

definition sp_Shift :: "sphereCoordinateSystem \<Rightarrow> Coordinate \<Rightarrow> Coordinate \<Rightarrow> Coordinate" where
  "sp_Shift s base position =
     (let x = X position - X base;
          x = (if x < sphereXMin then x + 2 * pi else x);
          x = (if x \<ge> sphereXMax then x - 2 * pi else x);
          y = Y position - Y base;
          (x, y) = (if y < sphereYMin then (- x, y + pi) else (x, y));
          (x, y) = (if y \<ge> sphereYMax then (- x, y - pi) else (x, y))
      in \<lparr>X = x, Y = y\<rparr>)"

subsection \<open>The interface\<close>

locale coordinate_system =
  fixes distance :: "'cs \<Rightarrow> Coordinate \<Rightarrow> Coordinate \<Rightarrow> real"
    and local_position :: "'cs \<Rightarrow> Coordinate"
    and set_local_position :: "'cs \<Rightarrow> Coordinate \<Rightarrow> string + 'cs"
    and accepts :: "'cs \<Rightarrow> Coordinate \<Rightarrow> bool"
    and valid :: "'cs \<Rightarrow> bool"
  assumes distance_nonneg: "valid cs \<Longrightarrow> accepts cs a \<Longrightarrow> accepts cs b \<Longrightarrow> 0 \<le> distance cs a b"
    and distance_sym: "distance cs a b = distance cs b a"
    and distance_self: "distance cs a a = 0"
    and set_accepts: "accepts cs c \<longleftrightarrow> (\<exists>cs'. set_local_position cs c = Inr cs')"
    and set_get: "set_local_position cs c = Inr cs' \<Longrightarrow> local_position cs' = c"
    and set_frame: "set_local_position cs c = Inr cs' \<Longrightarrow> valid cs \<Longrightarrow>
       valid cs' \<and> accepts cs' = accepts cs \<and> distance cs' = distance cs"
    and local_accepted: "valid cs \<Longrightarrow> accepts cs (local_position cs)"
begin

text \<open>A sequence of position updates, refused ones leaving the system as it was.\<close>

definition move :: "'cs \<Rightarrow> Coordinate list \<Rightarrow> 'cs" where
  "move cs ps = fold (\<lambda>c cs. case set_local_position cs c of Inl _ \<Rightarrow> cs | Inr cs' \<Rightarrow> cs') ps cs"

lemma move_valid: "valid cs \<Longrightarrow> valid (move cs ps) \<and> accepts (move cs ps) = accepts cs"
proof (induction ps arbitrary: cs)
  case Nil
  then show ?case by (simp add: move_def)
next
  case (Cons c ps)
  show ?case
  proof (cases "set_local_position cs c")
    case (Inl e)
    with Cons show ?thesis by (simp add: move_def)
  next
    case (Inr cs')
    with Cons set_frame [OF Inr] show ?thesis by (simp add: move_def)
  qed
qed

lemma move_local_accepted: "valid cs \<Longrightarrow> accepts cs (local_position (move cs ps))"
  using move_valid [of cs ps] local_accepted [of "move cs ps"] by simp

end

subsection \<open>Both systems provide it\<close>

definition pl_accepts :: "planeCoordinateSystem \<Rightarrow> Coordinate \<Rightarrow> bool" where
  "pl_accepts p c \<longleftrightarrow> xMin p \<le> X c \<and> X c \<le> xMax p \<and> yMin p \<le> Y c \<and> Y c \<le> yMax p"

interpretation plane: coordinate_system pl_GetDistance pl_GetLocalPosition pl_SetLocalPosition
  pl_accepts "\<lambda>p. pl_accepts p (pl_localPosition p)"
  by unfold_locales
     (auto simp: pl_GetDistance_def pl_GetLocalPosition_def pl_SetLocalPosition_def pl_accepts_def
       power2_commute fun_eq_iff not_less split: if_splits)

definition sp_accepts :: "Coordinate \<Rightarrow> bool" where
  "sp_accepts c \<longleftrightarrow> sphereXMin \<le> X c \<and> X c \<le> sphereXMax \<and> sphereYMin \<le> Y c \<and> Y c \<le> sphereYMax"

lemma haversine_range:
  assumes "sp_accepts a" "sp_accepts b"
  shows "0 \<le> haversine a b" "haversine a b \<le> 1"
proof -
  have cos: "0 \<le> cos (Y a)" "0 \<le> cos (Y b)"
    using assms by (auto simp: sp_accepts_def sphereYMin_def sphereYMax_def intro!: cos_ge_zero)
  then show "0 \<le> haversine a b" by (simp add: haversine_def Let_def)
  have half: "(sin (t / 2))\<^sup>2 = (1 - cos t) / 2" for t :: real
    using cos_double_sin [of "t / 2"] by simp
  have "haversine a b \<le> (sin ((Y a - Y b) / 2))\<^sup>2 + cos (Y a) * cos (Y b) * 1"
    unfolding haversine_def Let_def
    using cos by (intro add_left_mono mult_left_mono mult_nonneg_nonneg) (auto simp: abs_square_le_1)
  also have "\<dots> = (1 + cos (Y a + Y b)) / 2"
    by (simp add: half cos_diff cos_add field_simps)
  also have "\<dots> \<le> 1" using cos_le_one [of "Y a + Y b"] by simp
  finally show "haversine a b \<le> 1" .
qed

lemma sin_half_sym: "(sin ((u - v) / 2))\<^sup>2 = (sin ((v - u) / 2))\<^sup>2" for u v :: real
proof -
  have "(u - v) / 2 = - ((v - u) / 2)" by (simp add: field_simps)
  then show ?thesis by (simp only: sin_minus power2_minus)
qed

lemma haversine_sym: "haversine a b = haversine b a"
  unfolding haversine_def Let_def
  by (simp only: sin_half_sym [of "Y a" "Y b"] sin_half_sym [of "X a" "X b"] ac_simps)

interpretation sphere: coordinate_system sp_GetDistance sp_GetLocalPosition sp_SetLocalPosition
  "\<lambda>s. sp_accepts" "\<lambda>s. 0 \<le> radius s \<and> sp_accepts (sp_localPosition s)"
proof unfold_locales
  fix cs :: sphereCoordinateSystem and a b
  assume "0 \<le> radius cs \<and> sp_accepts (sp_localPosition cs)" "sp_accepts a" "sp_accepts b"
  then show "0 \<le> sp_GetDistance cs a b"
    using haversine_range [of a b] arcsin_le_arcsin [of 0 "sqrt (haversine a b)"]
    by (simp add: sp_GetDistance_def)
qed (auto simp: sp_GetDistance_def sp_GetLocalPosition_def sp_SetLocalPosition_def sp_accepts_def
       haversine_sym haversine_def Let_def fun_eq_iff not_less split: if_splits)

end
