(* ===== verification/Packets.thy ===== *)
theory Packets
  imports Node_ID Geometry
begin

text \<open>
  The data the components exchange: packets with their mode flags
  (\<open>src/types/network/packet.go\<close>), the messages inside them and on the wire
  (\<open>src/api/colonio/v1alpha\<close>), the signalling values (\<open>src/node/internal/network/signal\<close>) and
  the error codes (\<open>src/node/internal/constants\<close>). Message fields that are pointers to
  other messages are options; a oneof that may be unset has a constructor for that.
\<close>

type_synonym bytes = "8 word list"

subsection \<open>Mode flags\<close>

type_synonym PacketMode = "16 word"

definition PacketModeNone :: PacketMode where "PacketModeNone = 0"
definition PacketModeResponse :: PacketMode where "PacketModeResponse = 0x0001"
definition PacketModeExplicit :: PacketMode where "PacketModeExplicit = 0x0002"
definition PacketModeOneWay :: PacketMode where "PacketModeOneWay = 0x0004"
definition PacketModeNoRetry :: PacketMode where "PacketModeNoRetry = 0x0008"

definition has_mode :: "PacketMode \<Rightarrow> PacketMode \<Rightarrow> bool" where
  "has_mode m flag \<longleftrightarrow> m AND flag \<noteq> 0"

lemmas mode_defs = PacketModeNone_def PacketModeResponse_def PacketModeExplicit_def
  PacketModeOneWay_def PacketModeNoRetry_def

text \<open>The flags are separate bits: setting one keeps the others.\<close>

lemma has_mode_bit:
  "has_mode m PacketModeResponse \<longleftrightarrow> bit m 0" "has_mode m PacketModeExplicit \<longleftrightarrow> bit m 1"
  "has_mode m PacketModeOneWay \<longleftrightarrow> bit m 2" "has_mode m PacketModeNoRetry \<longleftrightarrow> bit m 3"
proof -
  have "m AND push_bit k 1 \<noteq> 0 \<longleftrightarrow> bit m k" if "k < 16" for k
    using that by (metis bit_iff_and_push_bit_not_eq_0)
  from this [of 0] this [of 1] this [of 2] this [of 3] show
    "has_mode m PacketModeResponse \<longleftrightarrow> bit m 0" "has_mode m PacketModeExplicit \<longleftrightarrow> bit m 1"
    "has_mode m PacketModeOneWay \<longleftrightarrow> bit m 2" "has_mode m PacketModeNoRetry \<longleftrightarrow> bit m 3"
    by (simp_all add: has_mode_def mode_defs push_bit_eq_mult)
qed

lemma has_mode_or [simp]: "has_mode (m OR m') f \<longleftrightarrow> has_mode m f \<or> has_mode m' f"
  by (simp add: has_mode_def bit.conj_disj_distrib2 or_eq_0_iff)

lemma has_mode_const [simp]:
  "\<not> has_mode PacketModeNone f"
  "has_mode PacketModeOneWay PacketModeOneWay" "has_mode PacketModeExplicit PacketModeExplicit"
  "has_mode PacketModeResponse PacketModeResponse" "has_mode PacketModeNoRetry PacketModeNoRetry"
  "\<not> has_mode PacketModeExplicit PacketModeOneWay" "\<not> has_mode PacketModeNoRetry PacketModeOneWay"
  "\<not> has_mode PacketModeNoRetry PacketModeResponse" "\<not> has_mode PacketModeExplicit PacketModeResponse"
  "\<not> has_mode PacketModeOneWay PacketModeResponse" "\<not> has_mode PacketModeOneWay PacketModeExplicit"
  "\<not> has_mode PacketModeResponse PacketModeExplicit" "\<not> has_mode PacketModeResponse PacketModeOneWay"
  "\<not> has_mode PacketModeExplicit PacketModeNoRetry" "\<not> has_mode PacketModeOneWay PacketModeNoRetry"
  by (simp_all add: has_mode_def mode_defs)

subsection \<open>Messages\<close>

type_synonym PacketErrorCode = "32 word"

definition PacketErrorCodeNetworkTimeout :: PacketErrorCode where "PacketErrorCodeNetworkTimeout = 0"
definition PacketErrorCodeNoOneReceive :: PacketErrorCode where "PacketErrorCodeNoOneReceive = 1"

record RoutingNodeRecord =
  R1DScore :: int
  rn_R2DPosition :: "proto_Coordinate option"

record RoutingMsg =
  R2DPosition :: "proto_Coordinate option"
  NodeRecords :: "(string, RoutingNodeRecord) gomap"

record SpreadMsg =
  sm_Source :: "proto_NodeID option"
  sm_Center :: "proto_Coordinate option"
  sm_R :: real
  sm_Uid :: "64 word"
  sm_Name :: string
  sm_Message :: bytes
  sm_Opt :: "32 word"

record SpreadKnockMsg =
  sk_Center :: "proto_Coordinate option"
  sk_R :: real
  sk_Uid :: "64 word"

datatype PacketContent =
    Content_unset
  | Content_Error "32 word" string
  | Content_Routing RoutingMsg
  | Content_Messaging string bytes
  | Content_MessagingResponse bytes
  | Content_Spread SpreadMsg
  | Content_SpreadKnock SpreadKnockMsg
  | Content_SpreadKnockResponse bool
  | Content_SpreadRelay SpreadMsg
  | Content_SpreadRelayResponse bool

record Packet =
  DstNodeID :: NodeID
  SrcNodeID :: NodeID
  pk_ID :: "32 word"
  HopCount :: "32 word"
  Mode :: PacketMode
  Content :: PacketContent

subsection \<open>Frames of a link\<close>

record NodePacketHead =
  hd_DstNodeId :: "proto_NodeID option"
  hd_SrcNodeId :: "proto_NodeID option"
  hd_HopCount :: "32 word"
  hd_Mode :: "32 word"

record NodePacket =
  np_Head :: "NodePacketHead option"
  np_Id :: "32 word"
  np_Index :: "32 word"
  np_Content :: bytes

type_synonym NodePackets = "NodePacket list"

subsection \<open>Signals\<close>

type_synonym OfferType = int
type_synonym AnswerStatus = int

definition OfferTypeExplicit :: OfferType where "OfferTypeExplicit = 0"
definition OfferTypeNext :: OfferType where "OfferTypeNext = 1"

definition AnswerStatusReject :: AnswerStatus where "AnswerStatusReject = 0"
definition AnswerStatusAccept :: AnswerStatus where "AnswerStatusAccept = 1"

record Offer =
  of_OfferID :: "32 word"
  of_OfferType :: OfferType
  of_Sdp :: string

record Answer =
  an_OfferID :: "32 word"
  an_Status :: AnswerStatus
  an_Sdp :: string

record ICE =
  ic_OfferID :: "32 word"
  ic_Ices :: "string list"

datatype SignalContent =
    Signal_unset
  | Signal_Offer "32 word" int string
  | Signal_Answer "32 word" "32 word" string
  | Signal_Ice "32 word" "string list"

record Signal =
  sg_DstNodeId :: "proto_NodeID option"
  sg_SrcNodeId :: "proto_NodeID option"
  sg_Content :: SignalContent

end
