(* ===== verification/Map_Helper.thy ===== *)
theory Map_Helper
  imports Node_ID
begin

text \<open>
  The ring successor in a map of nodes (\<open>src/seed/misc/map_helper.go\<close>). The loop keeps the
  smallest key and the smallest key past the given one; the lemmas show that the result is
  the key reached first when walking forward around the ring, whatever order the loop
  visits the keys in.
\<close>

definition next_visit :: "NodeID \<Rightarrow> NodeID \<Rightarrow> NodeID option \<times> NodeID option \<Rightarrow> NodeID option \<times> NodeID option" where
  "next_visit nodeID n st =
     (case st of (minNodeID, nextNodeID) \<Rightarrow>
        if n = nodeID then (minNodeID, nextNodeID)
        else
          let minNodeID = (case minNodeID of
                None \<Rightarrow> Some (nid_Copy n)
              | Some m \<Rightarrow> if Smaller n m then Some (nid_Copy n) else minNodeID)
          in if Smaller n nodeID then (minNodeID, nextNodeID)
             else (minNodeID,
               case nextNodeID of
                 None \<Rightarrow> Some (nid_Copy n)
               | Some m \<Rightarrow> if Smaller n m then Some (nid_Copy n) else nextNodeID))"

definition GetNextByMap :: "NodeID \<Rightarrow> (NodeID, 'v) gomap \<Rightarrow> 'v \<Rightarrow> NodeID option \<times> 'v" where
  "GetNextByMap nodeID nodeMap defaultVal =
     (let (minNodeID, nextNodeID) = fold (next_visit nodeID) (mkeys nodeMap) (None, None);
          val = (\<lambda>k. case mget nodeMap k of Some v \<Rightarrow> v | None \<Rightarrow> defaultVal)
      in case nextNodeID of
           Some k \<Rightarrow> (Some k, val k)
         | None \<Rightarrow> (case minNodeID of
             Some k \<Rightarrow> (Some k, val k)
           | None \<Rightarrow> (None, defaultVal)))"

subsection \<open>The loop computes two minima\<close>

definition opt_Min :: "'a::linorder set \<Rightarrow> 'a option" where
  "opt_Min S = (if S = {} then None else Some (Min S))"

lemma opt_Min_insert:
  "finite S \<Longrightarrow> opt_Min (insert x S) = Some (case opt_Min S of None \<Rightarrow> x | Some m \<Rightarrow> if x < m then x else m)"
  by (auto simp: opt_Min_def min_def simp del: Min_gr_iff Min_ge_iff)

lemma opt_Min_empty [simp]: "opt_Min {} = None"
  by (simp add: opt_Min_def)

lemma opt_Min_SomeD: "opt_Min S = Some m \<Longrightarrow> finite S \<Longrightarrow> m \<in> S \<and> (\<forall>x\<in>S. m \<le> x)"
  by (cases "S = {}") (auto simp: opt_Min_def simp del: ex_in_conv intro!: Min_in)

lemma opt_Min_None: "opt_Min S = None \<longleftrightarrow> S = {}"
  by (simp add: opt_Min_def)

lemma next_visit_fold:
  assumes "nid_IsNormal nodeID" "\<forall>n\<in>set ns. nid_IsNormal n" "finite V" "\<forall>n\<in>V. nid_IsNormal n"
  shows "fold (next_visit nodeID) ns (opt_Min (V - {nodeID}), opt_Min {n \<in> V. nodeID < n})
     = (opt_Min ((V \<union> set ns) - {nodeID}), opt_Min {n \<in> V \<union> set ns. nodeID < n})"
  using assms
proof (induction ns arbitrary: V)
  case Nil
  then show ?case by simp
next
  case (Cons x ns)
  have x: "nid_IsNormal x" using Cons.prems by simp
  have min_normal: "opt_Min S = Some m \<Longrightarrow> finite S \<Longrightarrow> S \<subseteq> V \<Longrightarrow> nid_IsNormal m" for S m
    using Cons.prems(4) opt_Min_SomeD [of S m] by auto
  have sm: "Smaller x nodeID \<longleftrightarrow> x < nodeID" using Smaller_less x Cons.prems(1) by simp
  have "next_visit nodeID x (opt_Min (V - {nodeID}), opt_Min {n \<in> V. nodeID < n})
     = (opt_Min (insert x V - {nodeID}), opt_Min {n \<in> insert x V. nodeID < n})"
  proof (cases "x = nodeID")
    case True
    then have "{n \<in> insert x V. nodeID < n} = {n \<in> V. nodeID < n}" by auto
    with True show ?thesis by (simp add: next_visit_def)
  next
    case False
    have 1: "opt_Min (insert x V - {nodeID}) = Some (case opt_Min (V - {nodeID}) of
         None \<Rightarrow> x | Some m \<Rightarrow> if Smaller x m then x else m)"
      using False Cons.prems(3) min_normal [of "V - {nodeID}"] x
      by (auto simp: insert_Diff_if opt_Min_insert Smaller_less split: option.splits)
    have 2: "opt_Min {n \<in> insert x V. nodeID < n} = (if Smaller x nodeID then opt_Min {n \<in> V. nodeID < n}
       else Some (case opt_Min {n \<in> V. nodeID < n} of None \<Rightarrow> x | Some m \<Rightarrow> if Smaller x m then x else m))"
    proof (cases "x < nodeID")
      case True
      then have "{n \<in> insert x V. nodeID < n} = {n \<in> V. nodeID < n}" by auto
      with True sm show ?thesis by simp
    next
      case less: False
      with False have "{n \<in> insert x V. nodeID < n} = insert x {n \<in> V. nodeID < n}" by auto
      with less sm Cons.prems(3) min_normal [of "{n \<in> V. nodeID < n}"] x show ?thesis
        by (auto simp: opt_Min_insert Smaller_less split: option.splits)
    qed
    from False show ?thesis
      unfolding 1 2 by (auto simp: next_visit_def Let_def split: option.splits)
  qed
  with Cons.IH [of "insert x V"] Cons.prems show ?case by simp
qed

subsection \<open>The walk around the ring\<close>

text \<open>The specification: nobody else in the set lies between the point and its successor.\<close>

definition ring_next :: "NodeID \<Rightarrow> NodeID set \<Rightarrow> NodeID \<Rightarrow> bool" where
  "ring_next n S k \<longleftrightarrow> k \<in> S \<and> k \<noteq> n \<and>
     (\<forall>m\<in>S. m \<noteq> n \<longrightarrow> fwd (nid_val n) (nid_val k) \<le> fwd (nid_val n) (nid_val m))"

lemma fwd_val:
  "nid_IsNormal n \<Longrightarrow> nid_IsNormal m \<Longrightarrow>
   fwd (nid_val n) (nid_val m) = (if n \<le> m then nid_val m - nid_val n else ring + nid_val m - nid_val n)"
  by (simp add: fwd_nid le_val)

lemma fwd_inject:
  assumes "nid_IsNormal n" "nid_IsNormal a" "nid_IsNormal b"
  shows "fwd (nid_val n) (nid_val a) = fwd (nid_val n) (nid_val b) \<longleftrightarrow> a = b"
proof -
  have "fwd (nid_val n) (nid_val a) = fwd (nid_val n) (nid_val b) \<Longrightarrow> nid_val a = nid_val b"
    using nid_val_lt [of n] nid_val_lt [of a] nid_val_lt [of b]
    by (auto simp: fwd_nid split: if_splits)
  with assms show ?thesis using nid_val_inject by blast
qed

lemma ring_next_unique:
  assumes "nid_IsNormal n" "\<forall>m\<in>S. nid_IsNormal m" "ring_next n S a" "ring_next n S b"
  shows "a = b"
  using assms unfolding ring_next_def by (metis fwd_inject le_antisym)

lemma ring_next_minima:
  assumes "nid_IsNormal n" "finite S" "\<forall>m\<in>S. nid_IsNormal m"
    "(case opt_Min {m \<in> S. n < m} of Some k \<Rightarrow> Some k | None \<Rightarrow> opt_Min (S - {n})) = Some k"
  shows "ring_next n S k"
proof (cases "{m \<in> S. n < m} = {}")
  case True
  then have below: "m \<in> S \<Longrightarrow> m \<le> n" for m by (auto simp: not_less)
  from True assms(4) have ne: "S - {n} \<noteq> {}" and k: "k = Min (S - {n})"
    by (auto simp: opt_Min_def split: if_splits)
  then have kS: "k \<in> S - {n}" using Min_in [of "S - {n}"] assms(2) by simp
  have "fwd (nid_val n) (nid_val k) \<le> fwd (nid_val n) (nid_val m)" if "m \<in> S" "m \<noteq> n" for m
  proof -
    have "k \<le> m" using that assms(2) by (simp add: k)
    moreover have "m < n" "k < n" using that kS below by (auto simp: less_le)
    ultimately show ?thesis using that kS assms(1,3) by (auto simp: fwd_val le_val less_val)
  qed
  with kS show ?thesis by (auto simp: ring_next_def)
next
  case False
  then have "opt_Min {m \<in> S. n < m} = Some (Min {m \<in> S. n < m})"
    by (simp only: opt_Min_def if_False)
  with assms(4) have k: "k = Min {m \<in> S. n < m}" by simp
  have kS: "k \<in> S \<and> n < k" using Min_in [of "{m \<in> S. n < m}"] assms(2) False unfolding k by simp
  have "fwd (nid_val n) (nid_val k) \<le> fwd (nid_val n) (nid_val m)" if "m \<in> S" "m \<noteq> n" for m
  proof (cases "n < m")
    case True
    with that assms(2) have "k \<le> m" by (simp add: k)
    with True kS that assms(1,3) show ?thesis by (auto simp: fwd_val le_val less_val)
  next
    case False
    with that have "m < n" by simp
    with kS that assms(1,3) show ?thesis
      using nid_val_lt [of k] by (auto simp: fwd_val le_val less_val)
  qed
  with kS show ?thesis by (auto simp: ring_next_def)
qed

lemma GetNextByMap_fold:
  assumes "nid_IsNormal n" "\<forall>k\<in>set (mkeys m). nid_IsNormal k"
  shows "fst (GetNextByMap n m d) =
     (case opt_Min {k \<in> set (mkeys m). n < k} of Some k \<Rightarrow> Some k | None \<Rightarrow> opt_Min (set (mkeys m) - {n}))"
  using next_visit_fold [OF assms, of "{}"] by (simp add: GetNextByMap_def split: option.splits)

lemma GetNextByMap_value:
  "GetNextByMap n m d = (Some k, v) \<Longrightarrow> v = (case mget m k of Some v \<Rightarrow> v | None \<Rightarrow> d)"
  by (auto simp: GetNextByMap_def Let_def split: option.splits prod.splits)

lemma GetNextByMap_None:
  assumes "nid_IsNormal n" "\<forall>k\<in>set (mkeys m). nid_IsNormal k"
  shows "fst (GetNextByMap n m d) = None \<longleftrightarrow> set (mkeys m) \<subseteq> {n}"
  using GetNextByMap_fold [OF assms, of d] opt_Min_None [of "{k \<in> set (mkeys m). n < k}"]
    opt_Min_None [of "set (mkeys m) - {n}"] by (auto split: option.splits)

lemma GetNextByMap_spec:
  assumes "nid_IsNormal n" "\<forall>k\<in>set (mkeys m). nid_IsNormal k"
  shows "fst (GetNextByMap n m d) = Some k \<longleftrightarrow> ring_next n (set (mkeys m)) k"
proof
  assume "fst (GetNextByMap n m d) = Some k"
  then show "ring_next n (set (mkeys m)) k"
    using GetNextByMap_fold [OF assms] ring_next_minima [OF assms(1) _ assms(2)] by simp
next
  assume *: "ring_next n (set (mkeys m)) k"
  then have "set (mkeys m) - {n} \<noteq> {}" by (auto simp: ring_next_def)
  then have "fst (GetNextByMap n m d) \<noteq> None"
    using GetNextByMap_None [OF assms] by blast
  then obtain k' where k': "fst (GetNextByMap n m d) = Some k'" by auto
  then have "ring_next n (set (mkeys m)) k'"
    using GetNextByMap_fold [OF assms] ring_next_minima [OF assms(1) _ assms(2)] by simp
  with * assms have "k' = k" by (metis ring_next_unique)
  with k' show "fst (GetNextByMap n m d) = Some k" by simp
qed

end
