(* ===== verification/Gateway.thy ===== *)
theory Gateway
  imports Packets Map_Helper
begin

text \<open>
  The gateway of the seed (\<open>src/seed/gateway\<close>): the in-memory registry of nodes with their
  lifespans, and the publishing of keepalive requests and signals to a handler.

  The registry is a record; an operation that calls the handler back works on the pair of
  the registry and the handler's state. The goroutine that \<open>SubscribeSignal\<close> starts is the
  separate step \<open>gw_deliverWaiting\<close>.
\<close>

record signalEntry =
  se_timestamp :: time
  se_signal :: Signal
  se_relayToNext :: bool

record nodeEntry =
  lifespan :: time
  subscribingSignal :: bool
  waitingSignals :: "signalEntry list"

record SimpleGateway =
  gw_nodes :: "(NodeID, nodeEntry) gomap"

text \<open>The interface the gateway calls back.\<close>

record 'w Handler =
  HandleUnassignNode :: "NodeID \<Rightarrow> 'w \<Rightarrow> (unit result \<times> 'w) outcome"
  HandleKeepaliveRequest :: "NodeID \<Rightarrow> 'w \<Rightarrow> (unit result \<times> 'w) outcome"
  HandleSignal :: "Signal \<Rightarrow> bool \<Rightarrow> 'w \<Rightarrow> (unit result \<times> 'w) outcome"

definition node_not_found :: "NodeID \<Rightarrow> string" where
  "node_not_found n = ''node '' @ (case nid_String n of Inr s \<Rightarrow> s | Inl _ \<Rightarrow> []) @ '' not found''"

subsection \<open>Construction and assignment\<close>

text \<open>
  The default generator draws identifiers until one is new; the draws of the random source
  are a list, and \<open>None\<close> is a list too short to find a new one.
\<close>

fun defaultNodeIDGenerator :: "(64 word \<times> 64 word) list \<Rightarrow> NodeID list \<Rightarrow> NodeID option" where
  "defaultNodeIDGenerator [] exists = None"
| "defaultNodeIDGenerator ((r0, r1) # draws) exists =
     (let nodeID = NewRandomNodeID r0 r1
      in if nodeID \<notin> set exists then Some nodeID else defaultNodeIDGenerator draws exists)"

definition NewSimpleGateway :: SimpleGateway where
  "NewSimpleGateway = \<lparr>gw_nodes = []\<rparr>"

definition gw_AssignNode ::
  "(NodeID list \<Rightarrow> NodeID result) \<Rightarrow> time \<Rightarrow> SimpleGateway \<Rightarrow> (NodeID result \<times> SimpleGateway) outcome" where
  "gw_AssignNode nodeIDGenerator until h =
     (case nodeIDGenerator (mkeys (gw_nodes h)) of
        Inl err \<Rightarrow> Inr (Inl (''failed to generate node ID: '' @ err), h)
      | Inr nodeID \<Rightarrow>
          if mhas (gw_nodes h) nodeID then Inl (Panic ''node ID already exists'')
          else Inr (Inr nodeID, h\<lparr>gw_nodes := mput nodeID
                 \<lparr>lifespan = until, subscribingSignal = False, waitingSignals = []\<rparr> (gw_nodes h)\<rparr>))"

definition gw_UnassignNode ::
  "(SimpleGateway \<times> 'c) Handler \<Rightarrow> NodeID \<Rightarrow> SimpleGateway \<times> 'c \<Rightarrow> (unit result \<times> (SimpleGateway \<times> 'c)) outcome" where
  "gw_UnassignNode handler nodeID w =
     (case w of (h, c) \<Rightarrow>
        HandleUnassignNode handler nodeID (h\<lparr>gw_nodes := mdel nodeID (gw_nodes h)\<rparr>, c))"

subsection \<open>Queries\<close>

definition gw_GetNodeCount :: "SimpleGateway \<Rightarrow> nat result" where
  "gw_GetNodeCount h = Inr (length (gw_nodes h))"

definition gw_UpdateNodeLifespan :: "NodeID \<Rightarrow> time \<Rightarrow> SimpleGateway \<Rightarrow> unit result \<times> SimpleGateway" where
  "gw_UpdateNodeLifespan nodeID until h =
     (case mget (gw_nodes h) nodeID of
        None \<Rightarrow> (Inl (node_not_found nodeID), h)
      | Some e \<Rightarrow> (Inr (), h\<lparr>gw_nodes := mput nodeID (e\<lparr>lifespan := until\<rparr>) (gw_nodes h)\<rparr>))"

definition gw_GetNodesByRange ::
  "NodeID option \<Rightarrow> NodeID option \<Rightarrow> SimpleGateway \<Rightarrow> NodeID list result" where
  "gw_GetNodesByRange backward frontward h =
     (case (backward, frontward) of
        (None, None) \<Rightarrow> Inr (mkeys (gw_nodes h))
      | (Some b, Some f) \<Rightarrow>
          if Compare b f \<le> 0
          then Inr (filter (\<lambda>nodeID. Compare nodeID b \<ge> 0 \<and> Compare nodeID f \<le> 0) (mkeys (gw_nodes h)))
          else Inr (filter (\<lambda>nodeID. Compare nodeID f \<le> 0 \<or> Compare nodeID b \<ge> 0) (mkeys (gw_nodes h)))
      | _ \<Rightarrow> Inl ''both backward and frontward must be specified'')"

definition gw_GetNodes :: "SimpleGateway \<Rightarrow> (NodeID, time) gomap result" where
  "gw_GetNodes h = Inr (map (\<lambda>(nodeID, entry). (nodeID, lifespan entry)) (gw_nodes h))"

subsection \<open>Subscriptions and publishing\<close>

definition gw_SubscribeKeepalive :: "NodeID \<Rightarrow> SimpleGateway \<Rightarrow> unit result" where
  "gw_SubscribeKeepalive nodeID h =
     (if mhas (gw_nodes h) nodeID then Inr () else Inl (node_not_found nodeID))"

definition gw_UnsubscribeKeepalive :: "NodeID \<Rightarrow> SimpleGateway \<Rightarrow> unit result" where
  "gw_UnsubscribeKeepalive nodeID h =
     (if mhas (gw_nodes h) nodeID then Inr () else Inl (node_not_found nodeID))"

definition gw_PublishKeepaliveRequest ::
  "(SimpleGateway \<times> 'c) Handler \<Rightarrow> NodeID \<Rightarrow> SimpleGateway \<times> 'c \<Rightarrow> (unit result \<times> (SimpleGateway \<times> 'c)) outcome" where
  "gw_PublishKeepaliveRequest handler nodeID w =
     (if \<not> mhas (gw_nodes (fst w)) nodeID then Inr (Inr (), w)
      else HandleKeepaliveRequest handler nodeID w)"

text \<open>The flag of the result says whether the delivering goroutine is started.\<close>

definition gw_SubscribeSignal :: "NodeID \<Rightarrow> SimpleGateway \<Rightarrow> bool result \<times> SimpleGateway" where
  "gw_SubscribeSignal nodeID h =
     (case mget (gw_nodes h) nodeID of
        None \<Rightarrow> (Inl (node_not_found nodeID), h)
      | Some e \<Rightarrow> (Inr (waitingSignals e \<noteq> []),
                   h\<lparr>gw_nodes := mput nodeID (e\<lparr>subscribingSignal := True\<rparr>) (gw_nodes h)\<rparr>))"

text \<open>
  The goroutine holds a pointer to the entry, not its key: \<open>orphan\<close> is the list of that
  entry in case it has left the map.
\<close>

definition gw_deliverWaiting ::
  "(SimpleGateway \<times> 'c) Handler \<Rightarrow> NodeID \<Rightarrow> signalEntry list \<Rightarrow> SimpleGateway \<times> 'c \<Rightarrow> (SimpleGateway \<times> 'c) outcome" where
  "gw_deliverWaiting handler nodeID orphan w =
     (let entries = (case mget (gw_nodes (fst w)) nodeID of None \<Rightarrow> orphan | Some e \<Rightarrow> waitingSignals e)
      in obind (ofold (\<lambda>entry w.
                  obind (HandleSignal handler (se_signal entry) (se_relayToNext entry) w) (\<lambda>(_, w). Inr w))
                entries w)
           (\<lambda>(h, c). case mget (gw_nodes h) nodeID of
               None \<Rightarrow> Inr (h, c)
             | Some e \<Rightarrow> Inr (h\<lparr>gw_nodes := mput nodeID (e\<lparr>waitingSignals := []\<rparr>) (gw_nodes h)\<rparr>, c)))"

definition gw_UnsubscribeSignal :: "NodeID \<Rightarrow> SimpleGateway \<Rightarrow> unit result \<times> SimpleGateway" where
  "gw_UnsubscribeSignal nodeID h =
     (case mget (gw_nodes h) nodeID of
        None \<Rightarrow> (Inl (node_not_found nodeID), h)
      | Some e \<Rightarrow> (Inr (), h\<lparr>gw_nodes := mput nodeID (e\<lparr>subscribingSignal := False\<rparr>) (gw_nodes h)\<rparr>))"

definition gw_PublishSignal ::
  "(SimpleGateway \<times> 'c) Handler \<Rightarrow> time \<Rightarrow> Signal \<Rightarrow> bool \<Rightarrow> SimpleGateway \<times> 'c \<Rightarrow>
     (unit result \<times> (SimpleGateway \<times> 'c)) outcome" where
  "gw_PublishSignal handler now signal relayToNext w =
     (case w of (h, c) \<Rightarrow>
        (case NewNodeIDFromProto (sg_DstNodeId signal) of
           Inl err \<Rightarrow> Inl (Panic (''invalid source node ID in signal: '' @ err))
         | Inr nodeID \<Rightarrow>
             let key = (if relayToNext then fst (GetNextByMap nodeID (map (\<lambda>(k, e). (k, Some e)) (gw_nodes h)) None)
                        else Some nodeID)
             in case Option.bind key (mget (gw_nodes h)) of
                  None \<Rightarrow> Inr (Inr (), w)
                | Some e \<Rightarrow>
                    if subscribingSignal e then HandleSignal handler signal relayToNext w
                    else Inr (Inr (), (h\<lparr>gw_nodes := mput (the key)
                           (e\<lparr>waitingSignals := waitingSignals e @
                              [\<lparr>se_timestamp = now, se_signal = signal, se_relayToNext = relayToNext\<rparr>]\<rparr>)
                           (gw_nodes h)\<rparr>, c))))"

subsection \<open>The contract towards the controller\<close>

text \<open>An identifier lies in the range when walking forward meets it no later than the end.\<close>

definition in_ring_range :: "NodeID \<Rightarrow> NodeID \<Rightarrow> NodeID \<Rightarrow> bool" where
  "in_ring_range b f n \<longleftrightarrow> fwd (nid_val b) (nid_val n) \<le> fwd (nid_val b) (nid_val f)"

locale node_registry =
  fixes nodes_of :: "'g \<Rightarrow> NodeID set" and inv :: "'g \<Rightarrow> bool"
    and node_count :: "'g \<Rightarrow> nat result"
    and nodes_by_range :: "NodeID option \<Rightarrow> NodeID option \<Rightarrow> 'g \<Rightarrow> NodeID list result"
  assumes nodes_normal: "inv g \<Longrightarrow> n \<in> nodes_of g \<Longrightarrow> nid_IsNormal n"
    and count: "inv g \<Longrightarrow> finite (nodes_of g) \<and> node_count g = Inr (card (nodes_of g))"
    and range_all: "inv g \<Longrightarrow>
      \<exists>ns. nodes_by_range None None g = Inr ns \<and> distinct ns \<and> set ns = nodes_of g"
    and range_between: "inv g \<Longrightarrow> nid_IsNormal b \<Longrightarrow> nid_IsNormal f \<Longrightarrow>
      \<exists>ns. nodes_by_range (Some b) (Some f) g = Inr ns \<and> distinct ns \<and>
           set ns = {n \<in> nodes_of g. in_ring_range b f n}"

definition gw_inv :: "SimpleGateway \<Rightarrow> bool" where
  "gw_inv h \<longleftrightarrow> gomap_wf (gw_nodes h) \<and> (\<forall>n\<in>set (mkeys (gw_nodes h)). nid_IsNormal n)"

lemma in_ring_range_le:
  assumes "nid_IsNormal b" "nid_IsNormal f" "nid_IsNormal n" "b \<le> f"
  shows "in_ring_range b f n \<longleftrightarrow> b \<le> n \<and> n \<le> f"
  using assms nid_val_lt [of f] nid_val_lt [of n] by (auto simp: in_ring_range_def fwd_val le_val)

lemma in_ring_range_gt:
  assumes "nid_IsNormal b" "nid_IsNormal f" "nid_IsNormal n" "\<not> b \<le> f"
  shows "in_ring_range b f n \<longleftrightarrow> n \<le> f \<or> b \<le> n"
  using assms nid_val_lt [of b] nid_val_lt [of n] by (auto simp: in_ring_range_def fwd_val le_val)

interpretation simple: node_registry "\<lambda>h. set (mkeys (gw_nodes h))" gw_inv gw_GetNodeCount gw_GetNodesByRange
proof unfold_locales
  fix g b f
  assume inv: "gw_inv g" and n: "nid_IsNormal b" "nid_IsNormal f"
  let ?ks = "mkeys (gw_nodes g)"
  have d: "distinct ?ks" using inv by (simp add: gw_inv_def distinct_mkeys)
  have nk: "nid_IsNormal k" if "k \<in> set ?ks" for k using inv that by (simp add: gw_inv_def)
  show "\<exists>ns. gw_GetNodesByRange (Some b) (Some f) g = Inr ns \<and> distinct ns \<and>
     set ns = {k \<in> set ?ks. in_ring_range b f k}"
  proof (cases "b \<le> f")
    case True
    with n have "Compare b f \<le> 0" by (simp add: Compare_sign)
    with d n nk True show ?thesis
      by (auto simp: gw_GetNodesByRange_def Compare_sign in_ring_range_le)
  next
    case False
    with n have "\<not> Compare b f \<le> 0" by (simp add: Compare_sign)
    with d n nk False show ?thesis
      by (auto simp: gw_GetNodesByRange_def Compare_sign in_ring_range_gt)
  qed
qed (auto simp: gw_inv_def gw_GetNodeCount_def gw_GetNodesByRange_def distinct_mkeys length_eq_card_mkeys)

end
