(* ===== verification/Controller.thy ===== *)
theory Controller
  imports Channel Gateway
begin

text \<open>
  The controller of the seed (\<open>src/seed/controller/controller.go\<close>): assignment and expiry of
  nodes, keepalive, reconciliation of a node's neighbours with the registry, and the
  signalling channels.

  The controller holds a gateway through an interface: the record \<open>GatewayOps\<close>. A call
  works on the pair of the gateway's state and the controller's. A call that waits in a
  \<open>select\<close> is cut into steps: what it does before waiting, what it does on waking up for
  the given reason, and its deferred cleanup.
\<close>

record ControllerImpl =
  normalLifespan :: duration
  shortLifespan :: duration
  ctl_interval :: duration
  signalChannels :: "(NodeID, Signal Channel) gomap"
  keepaliveChannels :: "(NodeID, bool Channel) gomap"

record 'g GatewayOps =
  gi_AssignNode :: "time \<Rightarrow> 'g \<Rightarrow> (NodeID result \<times> 'g) outcome"
  gi_UnassignNode :: "NodeID \<Rightarrow> 'g \<times> ControllerImpl \<Rightarrow> (unit result \<times> ('g \<times> ControllerImpl)) outcome"
  gi_GetNodeCount :: "'g \<Rightarrow> nat result"
  gi_UpdateNodeLifespan :: "NodeID \<Rightarrow> time \<Rightarrow> 'g \<Rightarrow> unit result \<times> 'g"
  gi_GetNodesByRange :: "NodeID option \<Rightarrow> NodeID option \<Rightarrow> 'g \<Rightarrow> NodeID list result"
  gi_GetNodes :: "'g \<Rightarrow> (NodeID, time) gomap result"
  gi_SubscribeKeepalive :: "NodeID \<Rightarrow> 'g \<Rightarrow> unit result"
  gi_UnsubscribeKeepalive :: "NodeID \<Rightarrow> 'g \<Rightarrow> unit result"
  gi_PublishKeepaliveRequest :: "NodeID \<Rightarrow> 'g \<times> ControllerImpl \<Rightarrow> (unit result \<times> ('g \<times> ControllerImpl)) outcome"
  gi_SubscribeSignal :: "NodeID \<Rightarrow> 'g \<Rightarrow> bool result \<times> 'g"
  gi_UnsubscribeSignal :: "NodeID \<Rightarrow> 'g \<Rightarrow> unit result \<times> 'g"
  gi_PublishSignal :: "time \<Rightarrow> Signal \<Rightarrow> bool \<Rightarrow> 'g \<times> ControllerImpl \<Rightarrow> (unit result \<times> ('g \<times> ControllerImpl)) outcome"

definition NewController :: "duration \<Rightarrow> duration \<Rightarrow> duration \<Rightarrow> ControllerImpl" where
  "NewController normal short interval =
     \<lparr>normalLifespan = normal, shortLifespan = short, ctl_interval = interval,
      signalChannels = [], keepaliveChannels = []\<rparr>"

subsection \<open>Callbacks from the gateway\<close>

definition ctl_HandleUnassignNode :: "NodeID \<Rightarrow> 'g \<times> ControllerImpl \<Rightarrow> (unit result \<times> ('g \<times> ControllerImpl)) outcome" where
  "ctl_HandleUnassignNode nodeID w =
     (case w of (g, c) \<Rightarrow>
        let c = (if mhas (signalChannels c) nodeID
                 then c\<lparr>signalChannels := mdel nodeID (signalChannels c)\<rparr> else c);
            c = (if mhas (keepaliveChannels c) nodeID
                 then c\<lparr>keepaliveChannels := mdel nodeID (keepaliveChannels c)\<rparr> else c)
        in Inr (Inr (), (g, c)))"

definition ctl_HandleKeepaliveRequest ::
  "(NodeID \<Rightarrow> time \<Rightarrow> 'g \<Rightarrow> unit result \<times> 'g) \<Rightarrow> time \<Rightarrow> NodeID \<Rightarrow> 'g \<times> ControllerImpl \<Rightarrow>
     (unit result \<times> ('g \<times> ControllerImpl)) outcome" where
  "ctl_HandleKeepaliveRequest updateNodeLifespan now nodeID w =
     (case w of (g, c) \<Rightarrow>
        (case updateNodeLifespan nodeID (now + shortLifespan c) g of
           (Inl err, g) \<Rightarrow> Inr (Inl (''failed to update node lifespan: '' @ err), (g, c))
         | (Inr _, g) \<Rightarrow>
             (case mget (keepaliveChannels c) nodeID of
                None \<Rightarrow> Inr (Inr (), (g, c))
              | Some ch \<Rightarrow> Inr (Inr (), (g, c\<lparr>keepaliveChannels :=
                    mput nodeID (snd (ch_SendWhenNotFull True ch)) (keepaliveChannels c)\<rparr>)))))"

definition ctl_HandleSignal :: "Signal \<Rightarrow> bool \<Rightarrow> 'g \<times> ControllerImpl \<Rightarrow> (unit result \<times> ('g \<times> ControllerImpl)) outcome" where
  "ctl_HandleSignal signal relayToNext w =
     (case w of (g, c) \<Rightarrow>
        (case NewNodeIDFromProto (sg_DstNodeId signal) of
           Inl err \<Rightarrow> Inl (Panic (''invalid dst node id in the packet: '' @ err))
         | Inr dstNodeID \<Rightarrow>
             let key = (if relayToNext
                        then fst (GetNextByMap dstNodeID (map (\<lambda>(k, ch). (k, Some ch)) (signalChannels c)) None)
                        else Some dstNodeID)
             in case Option.bind key (mget (signalChannels c)) of
                  None \<Rightarrow> Inr (Inl ''node not found'', w)
                | Some ch \<Rightarrow> obind (ch_Send signal ch) (\<lambda>(_, ch').
                    Inr (Inr (), (g, c\<lparr>signalChannels := mput (the key) ch' (signalChannels c)\<rparr>)))))"

subsection \<open>Is a node the only one?\<close>

definition ctl_isAlone :: "'g GatewayOps \<Rightarrow> NodeID \<Rightarrow> 'g \<Rightarrow> bool result" where
  "ctl_isAlone gw nodeID g =
     (case gi_GetNodeCount gw g of
        Inl err \<Rightarrow> Inl (''failed to get node count: '' @ err)
      | Inr nodeCount \<Rightarrow>
          if nodeCount = 0 then Inr True
          else if nodeCount \<noteq> 1 then Inr False
          else (case gi_GetNodesByRange gw None None g of
                  Inl err \<Rightarrow> Inl (''failed to get nodes by range: '' @ err)
                | Inr nodes \<Rightarrow>
                    if length nodes = 0 then Inr True
                    else if length nodes = 1 \<and> nodes ! 0 = nodeID then Inr True
                    else Inr False))"

subsection \<open>Assignment, expiry\<close>

definition ctl_AssignNode :: "'g GatewayOps \<Rightarrow> time \<Rightarrow> 'g \<times> ControllerImpl \<Rightarrow> ((NodeID \<times> bool) result \<times> ('g \<times> ControllerImpl)) outcome" where
  "ctl_AssignNode gw now w =
     (case w of (g, c) \<Rightarrow>
        obind (gi_AssignNode gw (now + normalLifespan c) g) (\<lambda>(r, g).
          case r of
            Inl err \<Rightarrow> Inr (Inl (''failed to assign node: '' @ err), (g, c))
          | Inr nodeID \<Rightarrow>
              (case ctl_isAlone gw nodeID g of
                 Inl err \<Rightarrow> Inr (Inl (''failed to check if node is alone: '' @ err), (g, c))
               | Inr isAlone \<Rightarrow> Inr (Inr (nodeID, isAlone), (g, c)))))"

definition ctl_UnassignNode :: "'g GatewayOps \<Rightarrow> NodeID \<Rightarrow> 'g \<times> ControllerImpl \<Rightarrow> (unit result \<times> ('g \<times> ControllerImpl)) outcome" where
  "ctl_UnassignNode gw nodeID w =
     obind (gi_UnassignNode gw nodeID w) (\<lambda>(r, w).
       case r of
         Inl err \<Rightarrow> Inr (Inl (''failed to unassign node: '' @ err), w)
       | Inr _ \<Rightarrow> Inr (Inr (), w))"

definition ctl_cleanup :: "'g GatewayOps \<Rightarrow> time \<Rightarrow> 'g \<times> ControllerImpl \<Rightarrow> (unit result \<times> ('g \<times> ControllerImpl)) outcome" where
  "ctl_cleanup gw now w =
     (case gi_GetNodes gw (fst w) of
        Inl err \<Rightarrow> Inr (Inl (''failed to get nodes: '' @ err), w)
      | Inr nodes \<Rightarrow>
          obind (ofold (\<lambda>(nodeID, lifetime) w.
                    if now > lifetime then obind (gi_UnassignNode gw nodeID w) (\<lambda>(_, w). Inr w)
                    else Inr w) nodes w)
            (\<lambda>w. Inr (Inr (), w)))"

text \<open>
  The loop of the controller, on a sequence of what it waits for: a tick of its timer at the
  given moment, or \<open>None\<close> for the end of the context. The flag says whether it has returned.
\<close>

fun ctl_Run :: "'g GatewayOps \<Rightarrow> time option list \<Rightarrow> 'g \<times> ControllerImpl \<Rightarrow> (bool \<times> ('g \<times> ControllerImpl)) outcome" where
  "ctl_Run gw [] w = Inr (False, w)"
| "ctl_Run gw (None # evs) w = Inr (True, w)"
| "ctl_Run gw (Some now # evs) w = obind (ctl_cleanup gw now w) (\<lambda>(_, w). ctl_Run gw evs w)"

subsection \<open>Keepalive\<close>

text \<open>Up to the \<open>select\<close>: the cleanup is deferred only after the last of these calls.\<close>

definition ctl_Keepalive_begin :: "'g GatewayOps \<Rightarrow> time \<Rightarrow> NodeID \<Rightarrow> 'g \<times> ControllerImpl \<Rightarrow> unit result \<times> ('g \<times> ControllerImpl)" where
  "ctl_Keepalive_begin gw now nodeID w =
     (case w of (g, c) \<Rightarrow>
        if mhas (keepaliveChannels c) nodeID
        then (Inl ''node already subscribed to keepalive'', (g, c))
        else
          let c = c\<lparr>keepaliveChannels := mput nodeID (NewChannel 1) (keepaliveChannels c)\<rparr>
          in case gi_UpdateNodeLifespan gw nodeID (now + normalLifespan c) g of
               (Inl err, g) \<Rightarrow> (Inl (''failed to update node lifespan: '' @ err), (g, c))
             | (Inr _, g) \<Rightarrow>
                 (case gi_SubscribeKeepalive gw nodeID g of
                    Inl err \<Rightarrow> (Inl (''failed to subscribe keepalive request: '' @ err), (g, c))
                  | Inr _ \<Rightarrow> (Inr (), (g, c))))"

datatype wake = CtxDone | Receive | Timer

text \<open>
  Waking up; the channel object is the registered one, or a closed one once
  \<open>HandleUnassignNode\<close> has removed it. Then the deferred cleanup.
\<close>

definition ctl_Keepalive_wake :: "'g GatewayOps \<Rightarrow> wake \<Rightarrow> NodeID \<Rightarrow> 'g \<times> ControllerImpl \<Rightarrow> bool result outcome" where
  "ctl_Keepalive_wake gw ev nodeID w =
     (case w of (g, c) \<Rightarrow>
        let alone = (case ctl_isAlone gw nodeID g of
                       Inl err \<Rightarrow> Inl (''failed to check if node is alone: '' @ err)
                     | Inr isAlone \<Rightarrow> Inr isAlone);
            closed = Inl ''keepalive channel closed''
        in case ev of
             CtxDone \<Rightarrow> Inr (Inr False)
           | Timer \<Rightarrow> Inr alone
           | Receive \<Rightarrow>
               (case mget (keepaliveChannels c) nodeID of
                  None \<Rightarrow> Inr closed
                | Some ch \<Rightarrow> obind (ch_recv ch) (\<lambda>(v, _).
                    Inr (if v = Some True then alone else closed))))"

definition ctl_Keepalive_end :: "'g GatewayOps \<Rightarrow> NodeID \<Rightarrow> 'g \<times> ControllerImpl \<Rightarrow> 'g \<times> ControllerImpl" where
  "ctl_Keepalive_end gw nodeID w =
     (case w of (g, c) \<Rightarrow>
        let c = c\<lparr>keepaliveChannels := mdel nodeID (keepaliveChannels c)\<rparr>
        in case gi_UnsubscribeKeepalive gw nodeID g of _ \<Rightarrow> (g, c))"

subsection \<open>Reconciliation\<close>

fun reconcile_loop :: "NodeID list \<Rightarrow> NodeID list \<Rightarrow> bool" where
  "reconcile_loop [] nodeIDMap = (length nodeIDMap = 0)"
| "reconcile_loop (nextNodeID # rest) nodeIDMap =
     (if nextNodeID \<notin> set nodeIDMap then False
      else reconcile_loop rest (removeAll nextNodeID nodeIDMap))"

fun publish_keepalives :: "'g GatewayOps \<Rightarrow> NodeID list \<Rightarrow> 'g \<times> ControllerImpl \<Rightarrow> (unit result \<times> ('g \<times> ControllerImpl)) outcome" where
  "publish_keepalives gw [] w = Inr (Inr (), w)"
| "publish_keepalives gw (d # ds) w =
     obind (gi_PublishKeepaliveRequest gw d w) (\<lambda>(r, w).
       case r of
         Inl err \<Rightarrow> Inr (Inl (''failed to publish keepalive request for disconnected node: '' @ err), w)
       | Inr _ \<Rightarrow> publish_keepalives gw ds w)"

definition reconcile_match :: "'g GatewayOps \<Rightarrow> NodeID \<Rightarrow> NodeID list \<Rightarrow> 'g \<Rightarrow> bool result" where
  "reconcile_match gw nodeID nextNodeIDs g =
     (if length nextNodeIDs = 0 then
        (case ctl_isAlone gw nodeID g of
           Inl err \<Rightarrow> Inl (''failed to check if node is alone: '' @ err)
         | Inr isAlone \<Rightarrow> Inr isAlone)
      else
        (case gi_GetNodesByRange gw (Some (nextNodeIDs ! 0)) (Some (nextNodeIDs ! (length nextNodeIDs - 1))) g of
           Inl err \<Rightarrow> Inl (''failed to get nodes by range: '' @ err)
         | Inr nodeIDs \<Rightarrow>
             let nodeIDMap = fold (\<lambda>n m. if Compare n nodeID = 0 then m else List.insert n m) nodeIDs []
             in if length nodeIDMap \<noteq> length nextNodeIDs then Inr False
                else Inr (reconcile_loop nextNodeIDs nodeIDMap)))"

definition ctl_ReconcileNextNodes ::
  "'g GatewayOps \<Rightarrow> NodeID \<Rightarrow> NodeID list \<Rightarrow> NodeID list \<Rightarrow> 'g \<times> ControllerImpl \<Rightarrow>
     (bool result \<times> ('g \<times> ControllerImpl)) outcome" where
  "ctl_ReconcileNextNodes gw nodeID nextNodeIDs disconnectedIDs w =
     obind (publish_keepalives gw disconnectedIDs w) (\<lambda>(r, w).
       case r of
         Inl err \<Rightarrow> Inr (Inl err, w)
       | Inr _ \<Rightarrow> Inr (reconcile_match gw nodeID nextNodeIDs (fst w), w))"

subsection \<open>Signals\<close>

definition ctl_validateSignal :: "Signal \<Rightarrow> NodeID \<Rightarrow> unit result" where
  "ctl_validateSignal signal srcNodeID =
     (case NewNodeIDFromProto (sg_SrcNodeId signal) of
        Inl err \<Rightarrow> Inl (''failed to parse src node id in signal packet: '' @ err)
      | Inr signalSrcNodeID \<Rightarrow>
          if srcNodeID \<noteq> signalSrcNodeID then Inl ''src node id is invalid''
          else (case NewNodeIDFromProto (sg_DstNodeId signal) of
                  Inl err \<Rightarrow> Inl (''failed to parse dst node id in signal packet: '' @ err)
                | Inr _ \<Rightarrow>
                    if sg_Content signal = Signal_unset then Inl ''signal content is required''
                    else Inr ()))"

definition is_next_offer :: "Signal \<Rightarrow> bool" where
  "is_next_offer signal = (case sg_Content signal of Signal_Offer _ ty _ \<Rightarrow> ty = 1 | _ \<Rightarrow> False)"

definition ctl_SendSignal ::
  "'g GatewayOps \<Rightarrow> time \<Rightarrow> NodeID \<Rightarrow> Signal option \<Rightarrow> 'g \<times> ControllerImpl \<Rightarrow> (unit result \<times> ('g \<times> ControllerImpl)) outcome" where
  "ctl_SendSignal gw now nodeID signal w =
     (case ctl_isAlone gw nodeID (fst w) of
        Inl err \<Rightarrow> Inr (Inl (''failed to check if node is alone: '' @ err), w)
      | Inr isAlone \<Rightarrow>
          if \<not> isAlone then
            (case signal of
               None \<Rightarrow> Inr (Inl ''request error (signal is required)'', w)
             | Some s \<Rightarrow>
                 (case ctl_validateSignal s nodeID of
                    Inl err \<Rightarrow> Inr (Inl err, w)
                  | Inr _ \<Rightarrow>
                      let relayToNext = is_next_offer s
                      in obind (gi_PublishSignal gw now s relayToNext w) (\<lambda>(r, w).
                           case r of
                             Inl err \<Rightarrow> Inr (Inl (''failed to publish signal: '' @ err), w)
                           | Inr _ \<Rightarrow> Inr (Inr (), w))))
          else Inr (Inr (), w))"

text \<open>Polling: subscribe and register the channel, then forward what arrives, then clean up.\<close>

definition ctl_PollSignal_begin :: "'g GatewayOps \<Rightarrow> NodeID \<Rightarrow> 'g \<times> ControllerImpl \<Rightarrow> bool result \<times> ('g \<times> ControllerImpl)" where
  "ctl_PollSignal_begin gw nodeID w =
     (case w of (g, c) \<Rightarrow>
        if mhas (signalChannels c) nodeID then (Inl ''node already subscribed to signal'', (g, c))
        else (case gi_SubscribeSignal gw nodeID g of
                (Inl err, g) \<Rightarrow> (Inl (''failed to subscribe to signal: '' @ err), (g, c))
              | (Inr spawn, g) \<Rightarrow>
                  (Inr spawn, (g, c\<lparr>signalChannels := mput nodeID (NewChannel 100) (signalChannels c)\<rparr>))))"

text \<open>One turn of the loop: \<open>None\<close> leaves it, \<open>Some sent\<close> continues; \<open>send\<close> gets the signal.\<close>

definition ctl_PollSignal_turn :: "wake \<Rightarrow> NodeID \<Rightarrow> 'g \<times> ControllerImpl \<Rightarrow> (Signal option \<times> ('g \<times> ControllerImpl)) outcome" where
  "ctl_PollSignal_turn ev nodeID w =
     (case w of (g, c) \<Rightarrow>
        (case mget (signalChannels c) nodeID of
           None \<Rightarrow> Inr (None, w)
         | Some ch \<Rightarrow>
             (case ev of
                Receive \<Rightarrow> obind (ch_recv ch) (\<lambda>(v, ch').
                  Inr (v, (g, c\<lparr>signalChannels := mput nodeID ch' (signalChannels c)\<rparr>)))
              | _ \<Rightarrow> Inr (None, w))))"

definition ctl_PollSignal_end :: "'g GatewayOps \<Rightarrow> NodeID \<Rightarrow> 'g \<times> ControllerImpl \<Rightarrow> 'g \<times> ControllerImpl" where
  "ctl_PollSignal_end gw nodeID w =
     (case w of (g, c) \<Rightarrow>
        case gi_UnsubscribeSignal gw nodeID g of
          (_, g) \<Rightarrow> (g, c\<lparr>signalChannels := mdel nodeID (signalChannels c)\<rparr>))"

subsection \<open>What the controller gets from any registry\<close>

lemma reconcile_loop_iff:
  "distinct m \<Longrightarrow> reconcile_loop next m \<longleftrightarrow> distinct next \<and> set next = set m"
proof (induction "next" arbitrary: m)
  case Nil
  then show ?case by auto
next
  case (Cons x xs)
  then show ?case
    by (auto simp: Cons.IH [of "removeAll x m"] distinct_removeAll)
qed

lemma fold_insert_except:
  "distinct m \<Longrightarrow>
   distinct (fold (\<lambda>n m. if Compare n k = 0 then m else List.insert n m) ns m) \<and>
   set (fold (\<lambda>n m. if Compare n k = 0 then m else List.insert n m) ns m) = set m \<union> (set ns - {k})"
proof (induction ns arbitrary: m)
  case Nil
  then show ?case by simp
next
  case (Cons n ns)
  have "Compare n k = 0 \<longleftrightarrow> n = k" by (auto simp: Compare_def)
  with Cons.IH [of m] Cons.IH [of "List.insert n m"] Cons.prems show ?case by auto
qed

context node_registry
begin

lemma isAlone_spec:
  assumes "gi_GetNodeCount gw = node_count" "gi_GetNodesByRange gw = nodes_by_range" "inv g"
  shows "ctl_isAlone gw n g = Inr (nodes_of g \<subseteq> {n})"
proof -
  obtain ns where ns: "nodes_by_range None None g = Inr ns" "distinct ns" "set ns = nodes_of g"
    using range_all [OF assms(3)] by auto
  have fin: "finite (nodes_of g)" and cnt: "node_count g = Inr (card (nodes_of g))"
    using count [OF assms(3)] by auto
  have len: "length ns = card (nodes_of g)" using ns(2,3) distinct_card by fastforce
  show ?thesis
  proof (cases "card (nodes_of g) = 1")
    case True
    then obtain a where a: "nodes_of g = {a}" by (auto simp: card_1_singleton_iff)
    with ns len True have "ns = [a]" by (cases ns) auto
    with a cnt ns assms show ?thesis by (simp add: ctl_isAlone_def)
  next
    case False
    have "nodes_of g \<subseteq> {n} \<longleftrightarrow> nodes_of g = {}"
      using False by (metis card_1_singleton_iff empty_subsetI is_singletonI' subset_singletonD One_nat_def)
    with False cnt fin assms show ?thesis by (simp add: ctl_isAlone_def)
  qed
qed

lemma reconcile_spec:
  assumes "gi_GetNodesByRange gw = nodes_by_range" "inv g"
    and "next \<noteq> []" "\<forall>m\<in>set next. nid_IsNormal m"
  shows "reconcile_match gw n next g = Inr (distinct next \<and>
     set next = {m \<in> nodes_of g. in_ring_range (hd next) (last next) m} - {n})"
proof -
  have ends: "next ! 0 = hd next" "next ! (length next - 1) = last next"
    using assms(3) by (simp_all add: hd_conv_nth last_conv_nth)
  obtain ns where ns: "nodes_by_range (Some (hd next)) (Some (last next)) g = Inr ns"
    "set ns = {m \<in> nodes_of g. in_ring_range (hd next) (last next) m}"
    using range_between [OF assms(2), of "hd next" "last next"] assms(3,4) by auto
  define m where "m = fold (\<lambda>a m. if Compare a n = 0 then m else List.insert a m) ns []"
  have m: "distinct m" "set m = set ns - {n}"
    unfolding m_def using fold_insert_except [of "[]" n ns] by simp_all
  have "reconcile_match gw n next g = Inr (length m = length next \<and> reconcile_loop next m)"
    unfolding reconcile_match_def ends using assms(1,3) ns(1) by (simp add: m_def Let_def)
  also have "length m = length next \<and> reconcile_loop next m \<longleftrightarrow> distinct next \<and> set next = set m"
    unfolding reconcile_loop_iff [OF m(1)] using m(1) by (metis distinct_card)
  finally show ?thesis by (simp add: m(2) ns(2))
qed

end

end
