(* ===== verification/Seed.thy ===== *)
theory Seed
  imports Controller
begin

text \<open>
  The seed put together (\<open>src/seed/seed.go\<close>): the controller on the in-memory gateway, which
  calls the controller back through the seed. Then the service the nodes call
  (\<open>src/seed/server\<close>), which keeps the identifier of a node in the session of its client.

  The session store and the environment are arguments; a request is the session read for it.
  A service method that waits in the controller is cut where the controller's is.
\<close>

subsection \<open>Construction\<close>

record ('g, 's) options =
  opt_sessionStore :: "'s option"
  opt_gateway :: "'g option"
  opt_normalLifespan :: duration
  opt_shortLifespan :: duration

definition WithSessionStore :: "'s \<Rightarrow> ('g, 's) options \<Rightarrow> ('g, 's) options" where
  "WithSessionStore store o' = o'\<lparr>opt_sessionStore := Some store\<rparr>"

definition WithGateway :: "'g \<Rightarrow> ('g, 's) options \<Rightarrow> ('g, 's) options" where
  "WithGateway gateway o' = o'\<lparr>opt_gateway := Some gateway\<rparr>"

definition WithLifespan :: "duration \<Rightarrow> duration \<Rightarrow> ('g, 's) options \<Rightarrow> ('g, 's) options" where
  "WithLifespan normal short o' = o'\<lparr>opt_normalLifespan := normal, opt_shortLifespan := short\<rparr>"

text \<open>Division of durations rounds towards zero. The cookie store made of the key of the environment is \<open>newCookieStore\<close>.\<close>

definition NewSeed ::
  "'g \<Rightarrow> (string \<Rightarrow> 's) \<Rightarrow> string \<Rightarrow> (('g, 's) options \<Rightarrow> ('g, 's) options) list \<Rightarrow>
     (('g \<times> ControllerImpl) \<times> 's) outcome" where
  "NewSeed newSimpleGateway newCookieStore cookieKeyPair optionSetters =
     (let options = fold (\<lambda>setter o'. setter o') optionSetters
            \<lparr>opt_sessionStore = None, opt_gateway = None,
             opt_normalLifespan = 30 * 60 * 1000000000, opt_shortLifespan = 10 * 1000000000\<rparr>
      in obind (case opt_sessionStore options of
                  Some store \<Rightarrow> Inr store
                | None \<Rightarrow> if cookieKeyPair = [] then Inl (Panic ''please set COLONIO_COOKIE_SECRET_KEY_PAIR'')
                          else Inr (newCookieStore cookieKeyPair))
           (\<lambda>store.
              let gateway = (case opt_gateway options of Some g \<Rightarrow> g | None \<Rightarrow> newSimpleGateway);
                  controller = NewController (opt_normalLifespan options) (opt_shortLifespan options)
                    (if 0 \<le> opt_shortLifespan options then opt_shortLifespan options div 2 else - (- opt_shortLifespan options div 2))
              in Inr ((gateway, controller), store)))"

text \<open>What the gateway calls back: the seed passes each call on to its controller.\<close>

definition seed_handler :: "time \<Rightarrow> (SimpleGateway \<times> ControllerImpl) Handler" where
  "seed_handler now =
     \<lparr>HandleUnassignNode = ctl_HandleUnassignNode,
      HandleKeepaliveRequest = ctl_HandleKeepaliveRequest gw_UpdateNodeLifespan now,
      HandleSignal = ctl_HandleSignal\<rparr>"

text \<open>The in-memory gateway, with the seed as its handler, behind the interface.\<close>

definition simple_ops :: "(NodeID list \<Rightarrow> NodeID result) \<Rightarrow> time \<Rightarrow> SimpleGateway GatewayOps" where
  "simple_ops gen now =
     \<lparr>gi_AssignNode = gw_AssignNode gen,
      gi_UnassignNode = gw_UnassignNode (seed_handler now),
      gi_GetNodeCount = gw_GetNodeCount,
      gi_UpdateNodeLifespan = gw_UpdateNodeLifespan,
      gi_GetNodesByRange = gw_GetNodesByRange,
      gi_GetNodes = gw_GetNodes,
      gi_SubscribeKeepalive = gw_SubscribeKeepalive,
      gi_UnsubscribeKeepalive = gw_UnsubscribeKeepalive,
      gi_PublishKeepaliveRequest = gw_PublishKeepaliveRequest (seed_handler now),
      gi_SubscribeSignal = gw_SubscribeSignal,
      gi_UnsubscribeSignal = gw_UnsubscribeSignal,
      gi_PublishSignal = gw_PublishSignal (seed_handler now)\<rparr>"

subsection \<open>Sessions\<close>

record session =
  sess_nodeID :: "string option"
  sess_MaxAge :: int

record 'r SessionStore =
  store_Get :: "'r \<Rightarrow> session result"
  store_Save :: "session \<Rightarrow> unit result"

definition newSession :: "'r SessionStore \<Rightarrow> 'r \<Rightarrow> session result" where
  "newSession store request =
     (case store_Get store request of
        Inl err \<Rightarrow> Inl (''failed to get session: '' @ err)
      | Inr s \<Rightarrow> Inr s)"

definition sess_getNodeID :: "session \<Rightarrow> NodeID option" where
  "sess_getNodeID s =
     (case sess_nodeID s of
        None \<Rightarrow> None
      | Some v \<Rightarrow> (case NewNodeIDFromString v of Inl _ \<Rightarrow> None | Inr nodeID \<Rightarrow> Some nodeID))"

definition sess_setNodeID :: "NodeID \<Rightarrow> session \<Rightarrow> session outcome" where
  "sess_setNodeID nodeID s = obind (nid_String nodeID) (\<lambda>v. Inr (s\<lparr>sess_nodeID := Some v\<rparr>))"

definition sess_write :: "'r SessionStore \<Rightarrow> session \<Rightarrow> unit result" where
  "sess_write store s = store_Save store s"

definition sess_delete :: "'r SessionStore \<Rightarrow> session \<Rightarrow> unit result \<times> session" where
  "sess_delete store s = (let s = s\<lparr>sess_MaxAge := -1\<rparr> in (store_Save store s, s))"

subsection \<open>The service\<close>

text \<open>Every failure is reported to the client as an internal error; its message is added in \<open>Seed_Http\<close>.\<close>

datatype rpc_error = CodeInternal | CodeUnimplemented

type_synonym ('g, 'a) served = "((rpc_error + 'a) \<times> ('g \<times> ControllerImpl) \<times> session) outcome"

definition srv_AssignNode ::
  "'g GatewayOps \<Rightarrow> 'r SessionStore \<Rightarrow> time \<Rightarrow> session \<Rightarrow> 'g \<times> ControllerImpl \<Rightarrow> ('g, proto_NodeID \<times> bool) served" where
  "srv_AssignNode gw store now s w =
     obind (case sess_getNodeID s of
              None \<Rightarrow> Inr (Inr (), w)
            | Some nodeID \<Rightarrow> ctl_UnassignNode gw nodeID w) (\<lambda>(r, w).
       case r of
         Inl err \<Rightarrow> Inr (Inl CodeInternal, w, s)
       | Inr _ \<Rightarrow>
           obind (ctl_AssignNode gw now w) (\<lambda>(r, w).
             case r of
               Inl err \<Rightarrow> Inr (Inl CodeInternal, w, s)
             | Inr (nodeID, isAlone) \<Rightarrow>
                 obind (sess_setNodeID nodeID s) (\<lambda>s.
                   case sess_write store s of
                     Inl err \<Rightarrow> Inr (Inl CodeInternal, w, s)
                   | Inr _ \<Rightarrow> obind (nid_Proto nodeID) (\<lambda>p. Inr (Inr (p, isAlone), w, s)))))"

definition srv_UnassignNode ::
  "'g GatewayOps \<Rightarrow> 'r SessionStore \<Rightarrow> session \<Rightarrow> 'g \<times> ControllerImpl \<Rightarrow> ('g, unit) served" where
  "srv_UnassignNode gw store s w =
     (let s' = snd (sess_delete store s)
      in case sess_getNodeID s of
           None \<Rightarrow> Inr (Inr (), w, s')
         | Some nodeID \<Rightarrow>
             obind (ctl_UnassignNode gw nodeID w) (\<lambda>(r, w).
               case r of
                 Inl err \<Rightarrow> Inr (Inl CodeInternal, w, s')
               | Inr _ \<Rightarrow> Inr (Inr (), w, s')))"

text \<open>Before the controller waits, and after it has woken up for the given reason.\<close>

definition srv_Keepalive_begin ::
  "'g GatewayOps \<Rightarrow> time \<Rightarrow> session \<Rightarrow> 'g \<times> ControllerImpl \<Rightarrow> (rpc_error + NodeID) \<times> ('g \<times> ControllerImpl)" where
  "srv_Keepalive_begin gw now s w =
     (case sess_getNodeID s of
        None \<Rightarrow> (Inl CodeInternal, w)
      | Some nodeID \<Rightarrow>
          (case ctl_Keepalive_begin gw now nodeID w of
             (Inl err, w) \<Rightarrow> (Inl CodeInternal, w)
           | (Inr _, w) \<Rightarrow> (Inr nodeID, w)))"

definition srv_Keepalive_finish ::
  "'g GatewayOps \<Rightarrow> 'r SessionStore \<Rightarrow> wake \<Rightarrow> NodeID \<Rightarrow> session \<Rightarrow> 'g \<times> ControllerImpl \<Rightarrow> ('g, bool) served" where
  "srv_Keepalive_finish gw store ev nodeID s w =
     obind (ctl_Keepalive_wake gw ev nodeID w) (\<lambda>r.
       let w = ctl_Keepalive_end gw nodeID w
       in case r of
            Inl err \<Rightarrow> Inr (Inl CodeInternal, w, s)
          | Inr isAlone \<Rightarrow>
              (case sess_write store s of
                 Inl err \<Rightarrow> Inr (Inl CodeInternal, w, s)
               | Inr _ \<Rightarrow> Inr (Inr isAlone, w, s)))"

definition nil_list :: "'a list option \<Rightarrow> 'a list" where
  "nil_list xs = (case xs of None \<Rightarrow> [] | Some ys \<Rightarrow> ys)"

definition srv_ReconcileNextNodes ::
  "'g GatewayOps \<Rightarrow> proto_NodeID option list option \<Rightarrow> proto_NodeID option list option \<Rightarrow> session \<Rightarrow>
     'g \<times> ControllerImpl \<Rightarrow> ('g, bool) served" where
  "srv_ReconcileNextNodes gw next_node_ids disconnected_node_ids s w =
     (case sess_getNodeID s of
        None \<Rightarrow> Inr (Inl CodeInternal, w, s)
      | Some nodeID \<Rightarrow>
          (case ConvertNodeIDsFromProto next_node_ids of
             Inl err \<Rightarrow> Inr (Inl CodeInternal, w, s)
           | Inr nextNodeIDs \<Rightarrow>
               (case ConvertNodeIDsFromProto disconnected_node_ids of
                  Inl err \<Rightarrow> Inr (Inl CodeInternal, w, s)
                | Inr disconnectedIDs \<Rightarrow>
                    obind (ctl_ReconcileNextNodes gw nodeID (nil_list nextNodeIDs) (nil_list disconnectedIDs) w) (\<lambda>(r, w).
                      case r of
                        Inl err \<Rightarrow> Inr (Inl CodeInternal, w, s)
                      | Inr matched \<Rightarrow> Inr (Inr matched, w, s)))))"

definition srv_SendSignal ::
  "'g GatewayOps \<Rightarrow> time \<Rightarrow> Signal option \<Rightarrow> session \<Rightarrow> 'g \<times> ControllerImpl \<Rightarrow> ('g, unit) served" where
  "srv_SendSignal gw now signal s w =
     (case sess_getNodeID s of
        None \<Rightarrow> Inr (Inl CodeInternal, w, s)
      | Some nodeID \<Rightarrow>
          obind (ctl_SendSignal gw now nodeID signal w) (\<lambda>(r, w).
            case r of
              Inl err \<Rightarrow> Inr (Inl CodeInternal, w, s)
            | Inr _ \<Rightarrow> Inr (Inr (), w, s)))"

text \<open>
  Polling: \<open>first\<close> says whether the empty first message could be sent. The turns of the loop
  are the controller's; a signal the stream does not take is logged and dropped.
\<close>

definition srv_PollSignal_begin ::
  "'g GatewayOps \<Rightarrow> bool \<Rightarrow> session \<Rightarrow> 'g \<times> ControllerImpl \<Rightarrow> (rpc_error + NodeID \<times> bool) \<times> ('g \<times> ControllerImpl)" where
  "srv_PollSignal_begin gw first s w =
     (case sess_getNodeID s of
        None \<Rightarrow> (Inl CodeInternal, w)
      | Some nodeID \<Rightarrow>
          if \<not> first then (Inl CodeInternal, w)
          else (case ctl_PollSignal_begin gw nodeID w of
                  (Inl err, w) \<Rightarrow> (Inl CodeInternal, w)
                | (Inr spawn, w) \<Rightarrow> (Inr (nodeID, spawn), w)))"

end
