(* ===== verification/Logger.thy ===== *)
theory Logger
  imports Node_ID
begin

text \<open>
  The loggers of the seed (\<open>src/seed/misc/logger.go\<close>): a context carries a request identifier and
  the node it is for, and a logger made from it prints both. Of a context only these two values
  are modelled, of a logger its attributes; the draw of the random source is an argument.
\<close>

record log_context =
  contextKeyRequestID :: "string option"
  contextKeyNodeID :: "NodeID option option"

type_synonym log_attrs = "(string \<times> string) list"

definition NewLoggerContext :: "63 word \<Rightarrow> NodeID option \<Rightarrow> 'z log_context_scheme \<Rightarrow> 'z log_context_scheme" where
  "NewLoggerContext draw nodeID ctx =
     ctx\<lparr>contextKeyRequestID := Some (hex16 (ucast draw)), contextKeyNodeID := Some nodeID\<rparr>"

definition request_id :: "'z log_context_scheme \<Rightarrow> string outcome" where
  "request_id ctx =
     (case contextKeyRequestID ctx of
        None \<Rightarrow> Inl (Panic ''context should contain a request ID'')
      | Some requestID \<Rightarrow> if requestID = [] then Inl (Panic ''context should contain a request ID'') else Inr requestID)"

definition NewLogger :: "'z log_context_scheme \<Rightarrow> log_attrs \<Rightarrow> log_attrs outcome" where
  "NewLogger ctx logger =
     obind (request_id ctx) (\<lambda>requestID.
       let logger = logger @ [(''reqID'', requestID)]
       in case contextKeyNodeID ctx of
            Some (Some nodeID) \<Rightarrow> obind (nid_String nodeID) (\<lambda>s. Inr (logger @ [(''reqNodeID'', s)]))
          | _ \<Rightarrow> Inr logger)"

definition ErrorByContext :: "'z log_context_scheme \<Rightarrow> string outcome" where
  "ErrorByContext ctx = obind (request_id ctx) (\<lambda>requestID. Inr (''reqID: '' @ requestID))"

lemma request_id_new [simp]: "request_id (NewLoggerContext draw nodeID ctx) = Inr (hex16 (ucast draw))"
proof -
  have "length (hex16 (ucast draw)) = 16" by (rule hex16_props(1))
  then have "hex16 (ucast draw) \<noteq> []" by auto
  then show ?thesis by (simp add: request_id_def NewLoggerContext_def)
qed

text \<open>
  In a context of \<open>NewLoggerContext\<close>, for no node or for one a program can come by, a logger can be
  made and an error reported; both carry the request's identifier, sixteen digits of it.
\<close>

theorem logger_in_context:
  assumes "case nodeID of None \<Rightarrow> True | Some n \<Rightarrow> made_id n"
  shows "\<exists>reqID attrs. length reqID = 16 \<and> NewLogger (NewLoggerContext draw nodeID ctx) logger = Inr attrs \<and>
     (''reqID'', reqID) \<in> set attrs \<and> ErrorByContext (NewLoggerContext draw nodeID ctx) = Inr (''reqID: '' @ reqID)"
proof -
  let ?ctx = "NewLoggerContext draw nodeID ctx" and ?r = "hex16 (ucast draw)"
  have r: "length ?r = 16" by (rule hex16_props(1))
  have q: "request_id ?ctx = Inr ?r" by (rule request_id_new)
  have "\<exists>attrs. NewLogger ?ctx logger = Inr attrs \<and> (''reqID'', ?r) \<in> set attrs"
  proof (cases nodeID)
    case None
    then show ?thesis unfolding NewLogger_def q by (simp add: NewLoggerContext_def)
  next
    case (Some n)
    then obtain s where "nid_String n = Inr s"
      using made_String [of n] assms by (auto simp: no_fault_iff)
    then show ?thesis using Some unfolding NewLogger_def q by (simp add: NewLoggerContext_def)
  qed
  with r q show ?thesis by (auto simp: ErrorByContext_def)
qed

end
