(* ===== verification/Seed_Rpc.thy ===== *)
theory Seed_Rpc
  imports Seed Logger
begin

text \<open>
  How a call reaches the seed's service: the response a handler writes, the writer the server puts
  before it to count (\<open>bypass\<close> of \<open>src/seed/server/server.go\<close>), and the generated client and
  handler of the service (\<open>src/api/colonio/v1alpha/v1alphaconnect/seed.connect.go\<close>).

  Of \<open>net/http\<close> a response is its status and its body. The connect library reads a request into
  a message or refuses it, and turns an answer into what is written: these are the fields of
  \<open>connect_lib\<close>, an argument of every definition that uses them.
\<close>

subsection \<open>Response writers\<close>

record 'w ResponseWriter =
  hw_WriteHeader :: "int \<Rightarrow> 'w \<Rightarrow> unit outcome \<times> 'w"
  hw_Write :: "string \<Rightarrow> 'w \<Rightarrow> nat result \<times> 'w"
  hw_Flush :: "'w \<Rightarrow> 'w"

text \<open>What a handler does with its writer, and the run of it, which a panic ends.\<close>

datatype resp_op = DoHeader int | DoWrite string | DoFlush

fun resp_run :: "'w ResponseWriter \<Rightarrow> resp_op list \<Rightarrow> 'w \<Rightarrow> unit outcome \<times> 'w" where
  "resp_run wr [] w = (Inr (), w)"
| "resp_run wr (DoHeader code # ops) w =
     (case hw_WriteHeader wr code w of (Inl f, w) \<Rightarrow> (Inl f, w) | (Inr _, w) \<Rightarrow> resp_run wr ops w)"
| "resp_run wr (DoWrite data # ops) w = resp_run wr ops (snd (hw_Write wr data w))"
| "resp_run wr (DoFlush # ops) w = resp_run wr ops (hw_Flush wr w)"

text \<open>
  The writer of \<open>net/http\<close>: the first status that is not an informational one is sent, later ones
  are ignored; a body without a status is sent with 200, and some statuses allow none.
\<close>

record http_response =
  rw_status :: "int option"
  rw_body :: string

definition net_WriteHeader :: "int \<Rightarrow> http_response \<Rightarrow> unit outcome \<times> http_response" where
  "net_WriteHeader code w =
     (if rw_status w \<noteq> None then (Inr (), w)
      else if code < 100 \<or> 999 < code then (Inl (Panic ''invalid WriteHeader code''), w)
      else if code \<le> 199 \<and> code \<noteq> 101 then (Inr (), w)
      else (Inr (), w\<lparr>rw_status := Some code\<rparr>))"

definition bodyAllowed :: "int \<Rightarrow> bool" where
  "bodyAllowed code \<longleftrightarrow> \<not> (100 \<le> code \<and> code \<le> 199) \<and> code \<noteq> 204 \<and> code \<noteq> 304"

definition net_Write :: "string \<Rightarrow> http_response \<Rightarrow> nat result \<times> http_response" where
  "net_Write data w =
     (let code = (case rw_status w of None \<Rightarrow> 200 | Some code \<Rightarrow> code); w = w\<lparr>rw_status := Some code\<rparr>
      in if data = [] then (Inr 0, w)
         else if \<not> bodyAllowed code then (Inl ''http: request method or response status code does not allow body'', w)
         else (Inr (length data), w\<lparr>rw_body := rw_body w @ data\<rparr>))"

definition net_Flush :: "http_response \<Rightarrow> http_response" where
  "net_Flush w = (if rw_status w = None then w\<lparr>rw_status := Some 200\<rparr> else w)"

definition http_writer :: "http_response ResponseWriter" where
  "http_writer = \<lparr>hw_WriteHeader = net_WriteHeader, hw_Write = net_Write, hw_Flush = net_Flush\<rparr>"

text \<open>\<open>http.Error\<close> and \<open>http.NotFound\<close>.\<close>

definition http_Error :: "string \<Rightarrow> int \<Rightarrow> resp_op list" where
  "http_Error msg code = [DoHeader code, DoWrite (msg @ [CHR 0x0A])]"

definition http_NotFound :: "resp_op list" where
  "http_NotFound = http_Error ''404 page not found'' 404"

subsection \<open>The counting writer\<close>

record 'w bypass =
  bp_ResponseWriter :: 'w
  statusCode :: int
  bodySize :: nat

definition new_bypass :: "'w \<Rightarrow> 'w bypass" where
  "new_bypass w = \<lparr>bp_ResponseWriter = w, statusCode = 200, bodySize = 0\<rparr>"

definition bp_WriteHeader :: "'w ResponseWriter \<Rightarrow> int \<Rightarrow> 'w bypass \<Rightarrow> unit outcome \<times> 'w bypass" where
  "bp_WriteHeader wr code b =
     (let b = b\<lparr>statusCode := code\<rparr>; (r, w) = hw_WriteHeader wr code (bp_ResponseWriter b)
      in (r, b\<lparr>bp_ResponseWriter := w\<rparr>))"

definition bp_Write :: "'w ResponseWriter \<Rightarrow> string \<Rightarrow> 'w bypass \<Rightarrow> nat result \<times> 'w bypass" where
  "bp_Write wr data b =
     (let b = b\<lparr>bodySize := bodySize b + length data\<rparr>; (r, w) = hw_Write wr data (bp_ResponseWriter b)
      in (r, b\<lparr>bp_ResponseWriter := w\<rparr>))"

text \<open>\<open>Flush\<close> is that of the embedded \<open>http.Flusher\<close>, which is the same object.\<close>

definition bypass_writer :: "'w ResponseWriter \<Rightarrow> 'w bypass ResponseWriter" where
  "bypass_writer wr =
     \<lparr>hw_WriteHeader = bp_WriteHeader wr, hw_Write = bp_Write wr,
      hw_Flush = (\<lambda>b. b\<lparr>bp_ResponseWriter := hw_Flush wr (bp_ResponseWriter b)\<rparr>)\<rparr>"

subsection \<open>The service and its procedures\<close>

definition SeedServiceName :: string where
  "SeedServiceName = ''api.colonio.v1alpha.SeedService''"

definition SeedServiceAssignNodeProcedure :: string where
  "SeedServiceAssignNodeProcedure = ''/api.colonio.v1alpha.SeedService/AssignNode''"

definition SeedServiceUnassignNodeProcedure :: string where
  "SeedServiceUnassignNodeProcedure = ''/api.colonio.v1alpha.SeedService/UnassignNode''"

definition SeedServiceKeepaliveProcedure :: string where
  "SeedServiceKeepaliveProcedure = ''/api.colonio.v1alpha.SeedService/Keepalive''"

definition SeedServiceReconcileNextNodesProcedure :: string where
  "SeedServiceReconcileNextNodesProcedure = ''/api.colonio.v1alpha.SeedService/ReconcileNextNodes''"

definition SeedServiceSendSignalProcedure :: string where
  "SeedServiceSendSignalProcedure = ''/api.colonio.v1alpha.SeedService/SendSignal''"

definition SeedServicePollSignalProcedure :: string where
  "SeedServicePollSignalProcedure = ''/api.colonio.v1alpha.SeedService/PollSignal''"

text \<open>An error of the connect library: its code and its message.\<close>

type_synonym connect_error = "rpc_error \<times> string"

text \<open>A request: what the server logs of it, its path, and the rest (cookies, headers, body).\<close>

record 'b http_request =
  rq_RemoteAddr :: string
  rq_Method :: string
  rq_RequestURI :: string
  rq_ContentLength :: int
  rq_Path :: string
  rq_rest :: 'b

text \<open>The context of a request carries the session beside what the logger needs.\<close>

record request_context = log_context +
  ContextKeySession :: "session option"

datatype rpc_response =
    AssignNodeResponse proto_NodeID bool
  | UnassignNodeResponse
  | KeepaliveResponse bool
  | ReconcileNextNodesResponse bool
  | SendSignalResponse

text \<open>
  The interface of the service. A method gets the context and the state of the service; it
  answers, and the session in the context may have changed. The two methods that wait give what they
  wait for; \<open>PollSignal\<close> is told whether its stream takes the first message, and gives what it has
  sent on it.
\<close>

type_synonym ('w, 'a) rpc_method = "request_context \<Rightarrow> 'w \<Rightarrow> ((connect_error + 'a) \<times> 'w \<times> request_context) outcome"

record 'w SeedServiceHandler =
  svc_AssignNode :: "('w, rpc_response) rpc_method"
  svc_UnassignNode :: "('w, rpc_response) rpc_method"
  svc_Keepalive :: "('w, NodeID) rpc_method"
  svc_ReconcileNextNodes :: "proto_NodeID option list option \<times> proto_NodeID option list option \<Rightarrow> ('w, rpc_response) rpc_method"
  svc_SendSignal :: "Signal option \<Rightarrow> ('w, rpc_response) rpc_method"
  svc_PollSignal :: "bool \<Rightarrow> request_context \<Rightarrow> 'w \<Rightarrow> (Signal list list \<times> (connect_error + NodeID \<times> bool) \<times> 'w \<times> request_context) outcome"

definition unimplemented :: "string \<Rightarrow> ('w, 'a) rpc_method" where
  "unimplemented name ctx w = Inr (Inl (CodeUnimplemented, name @ '' is not implemented''), w, ctx)"

definition UnimplementedSeedServiceHandler :: "'w SeedServiceHandler" where
  "UnimplementedSeedServiceHandler =
     \<lparr>svc_AssignNode = unimplemented ''api.colonio.v1alpha.SeedService.AssignNode'',
      svc_UnassignNode = unimplemented ''api.colonio.v1alpha.SeedService.UnassignNode'',
      svc_Keepalive = unimplemented ''api.colonio.v1alpha.SeedService.Keepalive'',
      svc_ReconcileNextNodes = (\<lambda>m. unimplemented ''api.colonio.v1alpha.SeedService.ReconcileNextNodes''),
      svc_SendSignal = (\<lambda>m. unimplemented ''api.colonio.v1alpha.SeedService.SendSignal''),
      svc_PollSignal = (\<lambda>b ctx w. obind (unimplemented ''api.colonio.v1alpha.SeedService.PollSignal'' ctx w) (\<lambda>r. Inr ([], r)))\<rparr>"

subsection \<open>The generated handler\<close>

text \<open>
  The connect library: a request for an empty message, for the next nodes or for a signal is read
  or refused with a response of the library's own; an answer, an error, a message of a stream and the
  end of a stream are written in the protocol of the request.
\<close>

record 'b connect_lib =
  cn_empty :: "'b http_request \<Rightarrow> resp_op list + unit"
  cn_nextNodes :: "'b http_request \<Rightarrow> resp_op list + proto_NodeID option list option \<times> proto_NodeID option list option"
  cn_signal :: "'b http_request \<Rightarrow> resp_op list + Signal option"
  cn_reply :: "'b http_request \<Rightarrow> rpc_response \<Rightarrow> resp_op list"
  cn_error :: "'b http_request \<Rightarrow> connect_error \<Rightarrow> resp_op list"
  cn_message :: "'b http_request \<Rightarrow> Signal list \<Rightarrow> resp_op list"
  cn_end :: "'b http_request \<Rightarrow> connect_error option \<Rightarrow> resp_op list"

datatype rpc_wait = OnKeepalive NodeID | OnSignals NodeID bool

text \<open>A handler has answered, or it waits, with what it has written so far.\<close>

datatype rpc_run = Answered "resp_op list" | Waits "resp_op list" rpc_wait

type_synonym 'w handled = "(rpc_run \<times> 'w \<times> request_context) outcome"

definition unary_answer :: "'b connect_lib \<Rightarrow> 'b http_request \<Rightarrow> connect_error + rpc_response \<Rightarrow> resp_op list" where
  "unary_answer lib req r = (case r of Inl e \<Rightarrow> cn_error lib req e | Inr a \<Rightarrow> cn_reply lib req a)"

definition unary_handler ::
  "'b connect_lib \<Rightarrow> 'b http_request \<Rightarrow> resp_op list + 'm \<Rightarrow> ('m \<Rightarrow> ('w, rpc_response) rpc_method) \<Rightarrow> request_context \<Rightarrow> 'w \<Rightarrow> 'w handled" where
  "unary_handler lib req msg call ctx w =
     (case msg of Inl ops \<Rightarrow> Inr (Answered ops, w, ctx)
      | Inr m \<Rightarrow> obind (call m ctx w) (\<lambda>(r, w, ctx). Inr (Answered (unary_answer lib req r), w, ctx)))"

definition keepalive_handler ::
  "'b connect_lib \<Rightarrow> 'b http_request \<Rightarrow> ('w, NodeID) rpc_method \<Rightarrow> request_context \<Rightarrow> 'w \<Rightarrow> 'w handled" where
  "keepalive_handler lib req call ctx w =
     (case cn_empty lib req of Inl ops \<Rightarrow> Inr (Answered ops, w, ctx)
      | Inr _ \<Rightarrow> obind (call ctx w) (\<lambda>(r, w, ctx).
          Inr (case r of Inl e \<Rightarrow> Answered (cn_error lib req e) | Inr n \<Rightarrow> Waits [] (OnKeepalive n), w, ctx)))"

definition stream_handler ::
  "'b connect_lib \<Rightarrow> bool \<Rightarrow> 'b http_request \<Rightarrow> (bool \<Rightarrow> request_context \<Rightarrow> 'w \<Rightarrow> (Signal list list \<times> (connect_error + NodeID \<times> bool) \<times> 'w \<times> request_context) outcome) \<Rightarrow>
   request_context \<Rightarrow> 'w \<Rightarrow> 'w handled" where
  "stream_handler lib first req call ctx w =
     (case cn_empty lib req of Inl ops \<Rightarrow> Inr (Answered ops, w, ctx)
      | Inr _ \<Rightarrow> obind (call first ctx w) (\<lambda>(msgs, r, w, ctx).
          let ops = concat (map (cn_message lib req) msgs)
          in Inr (case r of Inl e \<Rightarrow> Answered (ops @ cn_end lib req (Some e))
                  | Inr (n, spawn) \<Rightarrow> Waits ops (OnSignals n spawn), w, ctx)))"

text \<open>The path the handler is mounted on, and the handler, which chooses by the path of the request.\<close>

definition NewSeedServiceHandler ::
  "'b connect_lib \<Rightarrow> bool \<Rightarrow> 'w SeedServiceHandler \<Rightarrow>
   string \<times> ('b http_request \<Rightarrow> request_context \<Rightarrow> 'w \<Rightarrow> 'w handled)" where
  "NewSeedServiceHandler lib first svc =
     (''/api.colonio.v1alpha.SeedService/'',
      \<lambda>req ctx w.
        if rq_Path req = SeedServiceAssignNodeProcedure then
          unary_handler lib req (cn_empty lib req) (\<lambda>_. svc_AssignNode svc) ctx w
        else if rq_Path req = SeedServiceUnassignNodeProcedure then
          unary_handler lib req (cn_empty lib req) (\<lambda>_. svc_UnassignNode svc) ctx w
        else if rq_Path req = SeedServiceKeepaliveProcedure then
          keepalive_handler lib req (svc_Keepalive svc) ctx w
        else if rq_Path req = SeedServiceReconcileNextNodesProcedure then
          unary_handler lib req (cn_nextNodes lib req) (svc_ReconcileNextNodes svc) ctx w
        else if rq_Path req = SeedServiceSendSignalProcedure then
          unary_handler lib req (cn_signal lib req) (svc_SendSignal svc) ctx w
        else if rq_Path req = SeedServicePollSignalProcedure then
          stream_handler lib first req (svc_PollSignal svc) ctx w
        else Inr (Answered http_NotFound, w, ctx))"

subsection \<open>The generated client\<close>

text \<open>The client keeps one URL per procedure; a call goes to the URL of its procedure.\<close>

record seedServiceClient =
  cl_assignNode :: string
  cl_unassignNode :: string
  cl_keepalive :: string
  cl_reconcileNextNodes :: string
  cl_sendSignal :: string
  cl_pollSignal :: string

definition TrimRight :: "string \<Rightarrow> char \<Rightarrow> string" where
  "TrimRight s ch = rev (dropWhile (\<lambda>x. x = ch) (rev s))"

definition NewSeedServiceClient :: "string \<Rightarrow> seedServiceClient" where
  "NewSeedServiceClient baseURL =
     (let baseURL = TrimRight baseURL (CHR ''/'')
      in \<lparr>cl_assignNode = baseURL @ SeedServiceAssignNodeProcedure,
          cl_unassignNode = baseURL @ SeedServiceUnassignNodeProcedure,
          cl_keepalive = baseURL @ SeedServiceKeepaliveProcedure,
          cl_reconcileNextNodes = baseURL @ SeedServiceReconcileNextNodesProcedure,
          cl_sendSignal = baseURL @ SeedServiceSendSignalProcedure,
          cl_pollSignal = baseURL @ SeedServicePollSignalProcedure\<rparr>)"

text \<open>
  The methods of the client: \<open>CallUnary\<close> and \<open>CallServerStream\<close> of the library, given the URL, the
  context and the request, are arguments.
\<close>

definition client_AssignNode :: "(string \<Rightarrow> 'x \<Rightarrow> 'q \<Rightarrow> 'a) \<Rightarrow> seedServiceClient \<Rightarrow> 'x \<Rightarrow> 'q \<Rightarrow> 'a" where
  "client_AssignNode CallUnary c ctx req = CallUnary (cl_assignNode c) ctx req"

definition client_UnassignNode :: "(string \<Rightarrow> 'x \<Rightarrow> 'q \<Rightarrow> 'a) \<Rightarrow> seedServiceClient \<Rightarrow> 'x \<Rightarrow> 'q \<Rightarrow> 'a" where
  "client_UnassignNode CallUnary c ctx req = CallUnary (cl_unassignNode c) ctx req"

definition client_Keepalive :: "(string \<Rightarrow> 'x \<Rightarrow> 'q \<Rightarrow> 'a) \<Rightarrow> seedServiceClient \<Rightarrow> 'x \<Rightarrow> 'q \<Rightarrow> 'a" where
  "client_Keepalive CallUnary c ctx req = CallUnary (cl_keepalive c) ctx req"

definition client_ReconcileNextNodes :: "(string \<Rightarrow> 'x \<Rightarrow> 'q \<Rightarrow> 'a) \<Rightarrow> seedServiceClient \<Rightarrow> 'x \<Rightarrow> 'q \<Rightarrow> 'a" where
  "client_ReconcileNextNodes CallUnary c ctx req = CallUnary (cl_reconcileNextNodes c) ctx req"

definition client_SendSignal :: "(string \<Rightarrow> 'x \<Rightarrow> 'q \<Rightarrow> 'a) \<Rightarrow> seedServiceClient \<Rightarrow> 'x \<Rightarrow> 'q \<Rightarrow> 'a" where
  "client_SendSignal CallUnary c ctx req = CallUnary (cl_sendSignal c) ctx req"

definition client_PollSignal :: "(string \<Rightarrow> 'x \<Rightarrow> 'q \<Rightarrow> 'a) \<Rightarrow> seedServiceClient \<Rightarrow> 'x \<Rightarrow> 'q \<Rightarrow> 'a" where
  "client_PollSignal CallServerStream c ctx req = CallServerStream (cl_pollSignal c) ctx req"

subsection \<open>What a writer promises\<close>

text \<open>
  The interface of a response writer, as far as a server relies on it: \<open>sent\<close> is the status
  that has gone out. A status of 200 or more goes out if none has; a status that has gone out
  stays; a body goes out with the status, or with 200.
\<close>

locale response_writer =
  fixes wr :: "'w ResponseWriter" and sent :: "'w \<Rightarrow> int option"
  assumes header_new: "sent w = None \<Longrightarrow> 200 \<le> code \<Longrightarrow> code \<le> 999 \<Longrightarrow>
      \<exists>w'. hw_WriteHeader wr code w = (Inr (), w') \<and> sent w' = Some code"
    and header_again: "sent w = Some c \<Longrightarrow> \<exists>w'. hw_WriteHeader wr code w = (Inr (), w') \<and> sent w' = Some c"
    and write_sends: "sent (snd (hw_Write wr data w)) = Some (case sent w of None \<Rightarrow> 200 | Some c \<Rightarrow> c)"
    and flush_sends: "sent (hw_Flush wr w) = Some (case sent w of None \<Rightarrow> 200 | Some c \<Rightarrow> c)"
begin

lemma run_sent: "sent w = Some c \<Longrightarrow> \<exists>w'. resp_run wr ops w = (Inr (), w') \<and> sent w' = Some c"
proof (induction ops arbitrary: w)
  case (Cons op ops)
  show ?case
  proof (cases op)
    case (DoHeader code)
    with header_again [OF Cons.prems, of code] Cons.IH show ?thesis by auto
  next
    case (DoWrite data)
    with write_sends [of data w] Cons.prems Cons.IH [of "snd (hw_Write wr data w)"] show ?thesis by simp
  next
    case DoFlush
    with flush_sends [of w] Cons.prems Cons.IH [of "hw_Flush wr w"] show ?thesis by simp
  qed
qed simp

text \<open>A handler that sets one status, first, or none: that status, or 200, is what goes out.\<close>

lemma run_header:
  assumes "sent w = None" "200 \<le> code" "code \<le> 999"
  shows "\<exists>w'. resp_run wr (DoHeader code # ops) w = (Inr (), w') \<and> sent w' = Some code"
proof -
  obtain w' where "hw_WriteHeader wr code w = (Inr (), w')" "sent w' = Some code"
    using header_new [OF assms] by blast
  then show ?thesis using run_sent [of w' code ops] by simp
qed

lemma run_no_header:
  assumes "sent w = None" "op \<noteq> DoFlush \<Longrightarrow> \<exists>data. op = DoWrite data"
  shows "\<exists>w'. resp_run wr (op # ops) w = (Inr (), w') \<and> sent w' = Some 200"
proof (cases "op = DoFlush")
  case True
  with flush_sends [of w] assms(1) run_sent [of "hw_Flush wr w"] show ?thesis by simp
next
  case False
  then obtain data where "op = DoWrite data" using assms(2) by blast
  with write_sends [of data w] assms(1) run_sent [of "snd (hw_Write wr data w)"] show ?thesis by simp
qed

end

interpretation net: response_writer http_writer rw_status
  by unfold_locales (auto simp: http_writer_def net_WriteHeader_def net_Write_def net_Flush_def Let_def split: option.splits)

context response_writer
begin

text \<open>The counting writer before a writer is a writer again.\<close>

lemma bypass_ok: "response_writer (bypass_writer wr) (\<lambda>b. sent (bp_ResponseWriter b))"
proof
  fix b :: "'w bypass" and code :: int
  assume "sent (bp_ResponseWriter b) = None" "200 \<le> code" "code \<le> 999"
  from header_new [OF this] show
    "\<exists>b'. hw_WriteHeader (bypass_writer wr) code b = (Inr (), b') \<and> sent (bp_ResponseWriter b') = Some code"
    by (auto simp: bypass_writer_def bp_WriteHeader_def)
next
  fix b :: "'w bypass" and code c :: int
  assume "sent (bp_ResponseWriter b) = Some c"
  from header_again [OF this, of code] show
    "\<exists>b'. hw_WriteHeader (bypass_writer wr) code b = (Inr (), b') \<and> sent (bp_ResponseWriter b') = Some c"
    by (auto simp: bypass_writer_def bp_WriteHeader_def)
next
  fix b :: "'w bypass" and data
  show "sent (bp_ResponseWriter (snd (hw_Write (bypass_writer wr) data b))) =
    Some (case sent (bp_ResponseWriter b) of None \<Rightarrow> 200 | Some c \<Rightarrow> c)"
    using write_sends [of data "bp_ResponseWriter b"]
    by (cases "hw_Write wr data (bp_ResponseWriter b)") (simp add: bypass_writer_def bp_Write_def)
qed (simp add: bypass_writer_def flush_sends)

end

interpretation counted: response_writer "bypass_writer http_writer" "\<lambda>b. rw_status (bp_ResponseWriter b)"
  by (rule net.bypass_ok)

text \<open>
  The counting writer is transparent: the response written through it is the one written without it,
  and so is a panic. It has counted every byte given to it and holds the last status.
\<close>

fun bytes_written :: "resp_op list \<Rightarrow> nat" where
  "bytes_written [] = 0"
| "bytes_written (DoWrite data # ops) = length data + bytes_written ops"
| "bytes_written (op # ops) = bytes_written ops"

fun last_status :: "int \<Rightarrow> resp_op list \<Rightarrow> int" where
  "last_status c [] = c"
| "last_status c (DoHeader code # ops) = last_status code ops"
| "last_status c (op # ops) = last_status c ops"

lemma bypass_transparent:
  "map_prod id bp_ResponseWriter (resp_run (bypass_writer wr) ops b) = resp_run wr ops (bp_ResponseWriter b)"
proof (induction ops arbitrary: b)
  case (Cons op ops)
  then show ?case
    by (cases op) (auto simp: bypass_writer_def bp_WriteHeader_def bp_Write_def Let_def split: prod.splits sum.splits)
qed simp

lemma bypass_counts:
  "resp_run (bypass_writer wr) ops b = (Inr (), b') \<Longrightarrow>
   bodySize b' = bodySize b + bytes_written ops \<and> statusCode b' = last_status (statusCode b) ops"
proof (induction ops arbitrary: b)
  case (Cons op ops)
  show ?case
  proof (cases op)
    case (DoHeader code)
    then obtain w where "hw_WriteHeader wr code (bp_ResponseWriter b) = (Inr (), w)"
      and "resp_run (bypass_writer wr) ops (b\<lparr>statusCode := code, bp_ResponseWriter := w\<rparr>) = (Inr (), b')"
      using Cons.prems by (auto simp: bypass_writer_def bp_WriteHeader_def Let_def split: prod.splits sum.splits)
    with Cons.IH [OF this(2)] DoHeader show ?thesis by simp
  next
    case (DoWrite data)
    then have "resp_run (bypass_writer wr) ops (snd (bp_Write wr data b)) = (Inr (), b')"
      using Cons.prems by (simp add: bypass_writer_def)
    from Cons.IH [OF this] DoWrite show ?thesis by (simp add: bp_Write_def Let_def split: prod.splits)
  next
    case DoFlush
    with Cons.prems have "resp_run (bypass_writer wr) ops (b\<lparr>bp_ResponseWriter := hw_Flush wr (bp_ResponseWriter b)\<rparr>) = (Inr (), b')"
      by (simp add: bypass_writer_def)
    from Cons.IH [OF this] DoFlush show ?thesis by simp
  qed
qed simp

lemma net_Write_length:
  "rw_status w = Some code \<Longrightarrow> bodyAllowed code \<Longrightarrow> rw_status (snd (net_Write data w)) = Some code \<and>
     length (rw_body (snd (net_Write data w))) = length (rw_body w) + length data"
  by (simp add: net_Write_def Let_def)

lemma net_writes:
  assumes "rw_status w = Some code" "bodyAllowed code"
  shows "\<exists>w'. resp_run http_writer ops w = (Inr (), w') \<and> rw_status w' = Some code \<and>
     length (rw_body w') = length (rw_body w) + bytes_written ops"
  using assms
proof (induction ops arbitrary: w)
  case (Cons op ops)
  show ?case
  proof (cases op)
    case (DoWrite data)
    from net_Write_length [OF Cons.prems, of data] Cons.IH [OF _ Cons.prems(2), of "snd (net_Write data w)"] DoWrite
    show ?thesis by (auto simp: http_writer_def)
  qed (use Cons in \<open>simp_all add: http_writer_def net_WriteHeader_def net_Flush_def\<close>)
qed simp

end
