(* ===== verification/Accessors.thy ===== *)
theory Accessors
  imports Seed_Rpc
begin

text \<open>
  The accessors of the generated messages (\<open>src/api/colonio/v1alpha\<close>) that the program calls. A message is a
  pointer, so an accessor takes an option: of a nil message it gives the zero value of the field. An accessor of a
  oneof gives the message inside if that is the one set, nil otherwise. The components' definitions take their messages apart
  by cases; the lemmas below say that this is what the accessors give.
\<close>

subsection \<open>Packets\<close>

definition PacketContent_GetError :: "PacketContent option \<Rightarrow> (32 word \<times> string) option" where
  "PacketContent_GetError x = (case x of Some (Content_Error code msg) \<Rightarrow> Some (code, msg) | _ \<Rightarrow> None)"

definition PacketContent_GetRouting :: "PacketContent option \<Rightarrow> (RoutingMsg) option" where
  "PacketContent_GetRouting x = (case x of Some (Content_Routing r) \<Rightarrow> Some r | _ \<Rightarrow> None)"

definition PacketContent_GetMessaging :: "PacketContent option \<Rightarrow> (string \<times> bytes) option" where
  "PacketContent_GetMessaging x = (case x of Some (Content_Messaging name msg) \<Rightarrow> Some (name, msg) | _ \<Rightarrow> None)"

definition PacketContent_GetMessagingResponse :: "PacketContent option \<Rightarrow> (bytes) option" where
  "PacketContent_GetMessagingResponse x = (case x of Some (Content_MessagingResponse b) \<Rightarrow> Some b | _ \<Rightarrow> None)"

definition PacketContent_GetSpread :: "PacketContent option \<Rightarrow> (SpreadMsg) option" where
  "PacketContent_GetSpread x = (case x of Some (Content_Spread m) \<Rightarrow> Some m | _ \<Rightarrow> None)"

definition PacketContent_GetSpreadKnock :: "PacketContent option \<Rightarrow> (SpreadKnockMsg) option" where
  "PacketContent_GetSpreadKnock x = (case x of Some (Content_SpreadKnock m) \<Rightarrow> Some m | _ \<Rightarrow> None)"

definition PacketContent_GetSpreadKnockResponse :: "PacketContent option \<Rightarrow> (bool) option" where
  "PacketContent_GetSpreadKnockResponse x = (case x of Some (Content_SpreadKnockResponse b) \<Rightarrow> Some b | _ \<Rightarrow> None)"

definition PacketContent_GetSpreadRelay :: "PacketContent option \<Rightarrow> (SpreadMsg) option" where
  "PacketContent_GetSpreadRelay x = (case x of Some (Content_SpreadRelay m) \<Rightarrow> Some m | _ \<Rightarrow> None)"

definition PacketContent_GetSpreadRelayResponse :: "PacketContent option \<Rightarrow> (bool) option" where
  "PacketContent_GetSpreadRelayResponse x = (case x of Some (Content_SpreadRelayResponse b) \<Rightarrow> Some b | _ \<Rightarrow> None)"

definition Routing_GetNodeRecords :: "RoutingMsg option \<Rightarrow> (string, RoutingNodeRecord) gomap" where
  "Routing_GetNodeRecords x = (case x of Some r \<Rightarrow> NodeRecords r | None \<Rightarrow> [])"

subsection \<open>Signals\<close>

definition Signal_GetDstNodeId :: "Signal option \<Rightarrow> proto_NodeID option" where
  "Signal_GetDstNodeId x = (case x of Some s \<Rightarrow> sg_DstNodeId s | None \<Rightarrow> None)"

definition Signal_GetSrcNodeId :: "Signal option \<Rightarrow> proto_NodeID option" where
  "Signal_GetSrcNodeId x = (case x of Some s \<Rightarrow> sg_SrcNodeId s | None \<Rightarrow> None)"

definition Signal_GetContent :: "Signal option \<Rightarrow> SignalContent" where
  "Signal_GetContent x = (case x of Some s \<Rightarrow> sg_Content s | None \<Rightarrow> Signal_unset)"

definition Signal_GetOffer :: "Signal option \<Rightarrow> (32 word \<times> int \<times> string) option" where
  "Signal_GetOffer x = (case Signal_GetContent x of Signal_Offer i ty sdp \<Rightarrow> Some (i, ty, sdp) | _ \<Rightarrow> None)"

definition Signal_GetAnswer :: "Signal option \<Rightarrow> (32 word \<times> 32 word \<times> string) option" where
  "Signal_GetAnswer x = (case Signal_GetContent x of Signal_Answer i st sdp \<Rightarrow> Some (i, st, sdp) | _ \<Rightarrow> None)"

definition Signal_GetIce :: "Signal option \<Rightarrow> (32 word \<times> string list) option" where
  "Signal_GetIce x = (case Signal_GetContent x of Signal_Ice i ices \<Rightarrow> Some (i, ices) | _ \<Rightarrow> None)"

definition SignalOffer_GetType :: "(32 word \<times> int \<times> string) option \<Rightarrow> int" where
  "SignalOffer_GetType x = (case x of Some (i, ty, sdp) \<Rightarrow> ty | None \<Rightarrow> 0)"

subsection \<open>Calls of the seed\<close>

definition AssignNodeResponse_GetNodeId :: "rpc_response option \<Rightarrow> proto_NodeID option" where
  "AssignNodeResponse_GetNodeId x = (case x of Some (AssignNodeResponse p b) \<Rightarrow> Some p | _ \<Rightarrow> None)"

definition AssignNodeResponse_GetIsAlone :: "rpc_response option \<Rightarrow> bool" where
  "AssignNodeResponse_GetIsAlone x = (case x of Some (AssignNodeResponse p b) \<Rightarrow> b | _ \<Rightarrow> False)"

definition KeepaliveResponse_GetIsAlone :: "rpc_response option \<Rightarrow> bool" where
  "KeepaliveResponse_GetIsAlone x = (case x of Some (KeepaliveResponse b) \<Rightarrow> b | _ \<Rightarrow> False)"

type_synonym ReconcileNextNodesRequest = "proto_NodeID option list option \<times> proto_NodeID option list option"

definition ReconcileNextNodesRequest_GetNextNodeIds :: "ReconcileNextNodesRequest option \<Rightarrow> proto_NodeID option list option" where
  "ReconcileNextNodesRequest_GetNextNodeIds x = (case x of Some (ns, ds) \<Rightarrow> ns | None \<Rightarrow> None)"

definition ReconcileNextNodesRequest_GetDisconnectedNodeIds :: "ReconcileNextNodesRequest option \<Rightarrow> proto_NodeID option list option" where
  "ReconcileNextNodesRequest_GetDisconnectedNodeIds x = (case x of Some (ns, ds) \<Rightarrow> ds | None \<Rightarrow> None)"

subsection \<open>What they agree with\<close>

text \<open>Of the accessors of a oneof exactly one gives a message if one is set, and none otherwise.\<close>

definition content_accessors :: "PacketContent option \<Rightarrow> bool list" where
  "content_accessors x =
     [PacketContent_GetError x \<noteq> None, PacketContent_GetRouting x \<noteq> None, PacketContent_GetMessaging x \<noteq> None,
      PacketContent_GetMessagingResponse x \<noteq> None, PacketContent_GetSpread x \<noteq> None, PacketContent_GetSpreadKnock x \<noteq> None,
      PacketContent_GetSpreadKnockResponse x \<noteq> None, PacketContent_GetSpreadRelay x \<noteq> None,
      PacketContent_GetSpreadRelayResponse x \<noteq> None]"

lemmas content_accessor_defs = PacketContent_GetError_def PacketContent_GetRouting_def PacketContent_GetMessaging_def
  PacketContent_GetMessagingResponse_def PacketContent_GetSpread_def PacketContent_GetSpreadKnock_def
  PacketContent_GetSpreadKnockResponse_def PacketContent_GetSpreadRelay_def PacketContent_GetSpreadRelayResponse_def

theorem content_one_of:
  "length (filter id (content_accessors x)) = (if x = None \<or> x = Some Content_unset then 0 else 1)"
proof (cases x)
  case (Some content)
  then show ?thesis by (cases content) (simp_all add: content_accessors_def content_accessor_defs)
qed (simp add: content_accessors_def content_accessor_defs)

theorem signal_one_of:
  "length (filter id [Signal_GetOffer x \<noteq> None, Signal_GetAnswer x \<noteq> None, Signal_GetIce x \<noteq> None]) =
     (if Signal_GetContent x = Signal_unset then 0 else 1)"
  by (cases "Signal_GetContent x") (simp_all add: Signal_GetOffer_def Signal_GetAnswer_def Signal_GetIce_def)

text \<open>The seed's test for an offer to the next node, in terms of the accessors.\<close>

theorem next_offer_accessors:
  "is_next_offer s \<longleftrightarrow> Signal_GetOffer (Some s) \<noteq> None \<and> SignalOffer_GetType (Signal_GetOffer (Some s)) = 1"
  by (simp add: is_next_offer_def Signal_GetOffer_def Signal_GetContent_def SignalOffer_GetType_def split: SignalContent.splits)

end
