(* ===== verification/Seed_Props.thy ===== *)
theory Seed_Props
  imports Seed
begin

text \<open>
  What the seed guarantees in every state it can reach, for every order in which the calls
  of its clients, its own timer and its delivering goroutines come: the registry and the
  channels agree, a signal goes to the right node, and reconciliation and expiry do what
  they say.
\<close>

type_synonym seed_state = "SimpleGateway \<times> ControllerImpl"

text \<open>What the generator of identifiers promises: an ordinary identifier that is not in use.\<close>

definition generator_ok :: "(NodeID list \<Rightarrow> NodeID result) \<Rightarrow> bool" where
  "generator_ok gen \<longleftrightarrow> (\<forall>ex n. gen ex = Inr n \<longrightarrow> nid_IsNormal n \<and> n \<notin> set ex)"

inductive seed_step :: "seed_state \<Rightarrow> seed_state \<Rightarrow> bool" where
  assign: "generator_ok gen \<Longrightarrow> ctl_AssignNode (simple_ops gen now) now w = Inr (r, w') \<Longrightarrow> seed_step w w'"
| unassign: "ctl_UnassignNode (simple_ops gen now) n w = Inr (r', w') \<Longrightarrow> seed_step w w'"
| cleanup: "ctl_cleanup (simple_ops gen now) now w = Inr (r', w') \<Longrightarrow> seed_step w w'"
| keepalive_begin: "ctl_Keepalive_begin (simple_ops gen now) now n w = (r', w') \<Longrightarrow> seed_step w w'"
| keepalive_end: "seed_step w (ctl_Keepalive_end (simple_ops gen now) n w)"
| reconcile: "ctl_ReconcileNextNodes (simple_ops gen now) n next disc w = Inr (rb, w') \<Longrightarrow> seed_step w w'"
| send: "ctl_SendSignal (simple_ops gen now) now n sg w = Inr (r', w') \<Longrightarrow> seed_step w w'"
| poll_begin: "ctl_PollSignal_begin (simple_ops gen now) n w = (rb, w') \<Longrightarrow> seed_step w w'"
| deliver: "gw_deliverWaiting (seed_handler now) n orphan w = Inr w' \<Longrightarrow> seed_step w w'"
| poll_turn: "ctl_PollSignal_turn ev n w = Inr (x, w') \<Longrightarrow> seed_step w w'"
| poll_end: "seed_step w (ctl_PollSignal_end (simple_ops gen now) n w)"

inductive seed_reachable :: "seed_state \<Rightarrow> bool" where
  start: "seed_reachable (NewSimpleGateway, NewController normal short interval)"
| step: "seed_reachable w \<Longrightarrow> seed_step w w' \<Longrightarrow> seed_reachable w'"

subsection \<open>The invariant\<close>

definition subscribed :: "SimpleGateway \<Rightarrow> NodeID \<Rightarrow> bool" where
  "subscribed g n \<longleftrightarrow> (\<exists>e. mget (gw_nodes g) n = Some e \<and> subscribingSignal e)"

definition channels_ok :: "nat \<Rightarrow> (NodeID, 'a Channel) gomap \<Rightarrow> bool" where
  "channels_ok k m \<longleftrightarrow> gomap_wf m \<and> (\<forall>n ch. mget m n = Some ch \<longrightarrow> ch_open ch \<and> ch_cap ch = k \<and> ch_wf ch)"

text \<open>A waiting signal has a destination, which is the node it waits for unless it goes to the next one.\<close>

definition waiting_ok :: "NodeID \<Rightarrow> nodeEntry \<Rightarrow> bool" where
  "waiting_ok n e \<longleftrightarrow> (\<forall>x\<in>set (waitingSignals e). \<exists>d. NewNodeIDFromProto (sg_DstNodeId (se_signal x)) = Inr d \<and>
     (\<not> se_relayToNext x \<longrightarrow> d = n))"

definition entries_ok :: "SimpleGateway \<Rightarrow> bool" where
  "entries_ok g \<longleftrightarrow> (\<forall>n e. mget (gw_nodes g) n = Some e \<longrightarrow> waiting_ok n e)"

definition seed_inv :: "seed_state \<Rightarrow> bool" where
  "seed_inv w \<longleftrightarrow> (case w of (g, c) \<Rightarrow> gw_inv g \<and> entries_ok g \<and> channels_ok 100 (signalChannels c) \<and>
     channels_ok 1 (keepaliveChannels c) \<and> (\<forall>n. mhas (signalChannels c) n \<longleftrightarrow> subscribed g n))"

lemma channels_ok_mput [intro]:
  "channels_ok k m \<Longrightarrow> ch_open ch \<Longrightarrow> ch_cap ch = k \<Longrightarrow> ch_wf ch \<Longrightarrow> channels_ok k (mput n ch m)"
  by (simp add: channels_ok_def)

lemma channels_ok_mdel [intro]: "channels_ok k m \<Longrightarrow> channels_ok k (mdel n m)"
  by (simp add: channels_ok_def)

lemma channels_ok_Nil [simp]: "channels_ok k []"
  by (simp add: channels_ok_def)

lemma channels_ok_get:
  "channels_ok k m \<Longrightarrow> mget m n = Some ch \<Longrightarrow> ch_open ch \<and> ch_cap ch = k \<and> length (ch_buf ch) \<le> k"
  by (auto simp: channels_ok_def ch_wf_def)

lemma NewChannel_ok [simp]: "ch_open (NewChannel k)" "ch_cap (NewChannel k) = k"
  by (simp_all add: NewChannel_def)

lemma entries_ok_simps [simp]:
  "entries_ok g \<Longrightarrow> waiting_ok n e \<Longrightarrow> entries_ok (g\<lparr>gw_nodes := mput n e (gw_nodes g)\<rparr>)"
  "entries_ok g \<Longrightarrow> entries_ok (g\<lparr>gw_nodes := mdel n (gw_nodes g)\<rparr>)"
  by (simp_all add: entries_ok_def)

lemma waiting_ok_simps [simp]:
  "waiting_ok n (e\<lparr>lifespan := t\<rparr>) = waiting_ok n e" "waiting_ok n (e\<lparr>subscribingSignal := b\<rparr>) = waiting_ok n e"
  "waiting_ok n (e\<lparr>waitingSignals := []\<rparr>)"
  by (simp_all add: waiting_ok_def)

lemma seed_inv_entry: "seed_inv (g, c) \<Longrightarrow> mget (gw_nodes g) n = Some e \<Longrightarrow> waiting_ok n e \<and> nid_IsNormal n"
  unfolding seed_inv_def entries_ok_def gw_inv_def using mhas_mget [of "gw_nodes g" n e] by (simp add: mhas_iff)

lemma gw_inv_mput: "gw_inv g \<Longrightarrow> nid_IsNormal n \<Longrightarrow> gw_inv (g\<lparr>gw_nodes := mput n e (gw_nodes g)\<rparr>)"
  by (simp add: gw_inv_def)

lemma gw_inv_mdel: "gw_inv g \<Longrightarrow> gw_inv (g\<lparr>gw_nodes := mdel n (gw_nodes g)\<rparr>)"
  by (simp add: gw_inv_def)

lemma gw_inv_normal: "gw_inv g \<Longrightarrow> mget (gw_nodes g) n = Some e \<Longrightarrow> nid_IsNormal n"
  unfolding gw_inv_def using mhas_mget [of "gw_nodes g" n e] by (simp add: mhas_iff)

lemma subscribed_mput [simp]:
  "subscribed (g\<lparr>gw_nodes := mput n e (gw_nodes g)\<rparr>) m \<longleftrightarrow> (if m = n then subscribingSignal e else subscribed g m)"
  by (simp add: subscribed_def)

lemma subscribed_mdel [simp]:
  "subscribed (g\<lparr>gw_nodes := mdel n (gw_nodes g)\<rparr>) m \<longleftrightarrow> m \<noteq> n \<and> subscribed g m"
  by (simp add: subscribed_def)

subsection \<open>What each operation does, in a state where the invariant holds\<close>

lemma simple_ops_sel [simp]:
  "gi_AssignNode (simple_ops gen now) = gw_AssignNode gen"
  "gi_UnassignNode (simple_ops gen now) = gw_UnassignNode (seed_handler now)"
  "gi_GetNodeCount (simple_ops gen now) = gw_GetNodeCount"
  "gi_UpdateNodeLifespan (simple_ops gen now) = gw_UpdateNodeLifespan"
  "gi_GetNodesByRange (simple_ops gen now) = gw_GetNodesByRange"
  "gi_GetNodes (simple_ops gen now) = gw_GetNodes"
  "gi_SubscribeKeepalive (simple_ops gen now) = gw_SubscribeKeepalive"
  "gi_UnsubscribeKeepalive (simple_ops gen now) = gw_UnsubscribeKeepalive"
  "gi_PublishKeepaliveRequest (simple_ops gen now) = gw_PublishKeepaliveRequest (seed_handler now)"
  "gi_SubscribeSignal (simple_ops gen now) = gw_SubscribeSignal"
  "gi_UnsubscribeSignal (simple_ops gen now) = gw_UnsubscribeSignal"
  "gi_PublishSignal (simple_ops gen now) = gw_PublishSignal (seed_handler now)"
  by (simp_all add: simple_ops_def)

lemma seed_handler_sel [simp]:
  "HandleUnassignNode (seed_handler now) = ctl_HandleUnassignNode"
  "HandleKeepaliveRequest (seed_handler now) = ctl_HandleKeepaliveRequest gw_UpdateNodeLifespan now"
  "HandleSignal (seed_handler now) = ctl_HandleSignal"
  by (simp_all add: seed_handler_def)

lemma mdel_absent: "\<not> mhas m k \<Longrightarrow> mdel k m = m"
  by (simp add: mhas_iff mkeys_def delete_id)

fun drop_node :: "NodeID \<Rightarrow> seed_state \<Rightarrow> seed_state" where
  "drop_node n (g, c) = (g\<lparr>gw_nodes := mdel n (gw_nodes g)\<rparr>,
     c\<lparr>signalChannels := mdel n (signalChannels c), keepaliveChannels := mdel n (keepaliveChannels c)\<rparr>)"

lemma unassign_eq: "gw_UnassignNode (seed_handler now) n w = Inr (Inr (), drop_node n w)"
  by (cases w) (auto simp: gw_UnassignNode_def ctl_HandleUnassignNode_def Let_def mdel_absent)

lemma drop_node_inv: "seed_inv w \<Longrightarrow> seed_inv (drop_node n w)"
  by (cases w) (auto simp: seed_inv_def gw_inv_mdel)

definition drop_expired :: "time \<Rightarrow> NodeID \<times> time \<Rightarrow> seed_state \<Rightarrow> seed_state" where
  "drop_expired t p w = (if t > snd p then drop_node (fst p) w else w)"

lemma cleanup_eq:
  "ctl_cleanup (simple_ops gen now) t w =
     Inr (Inr (), fold (drop_expired t) (map (\<lambda>(n, e). (n, lifespan e)) (gw_nodes (fst w))) w)"
proof -
  have "ofold (\<lambda>(nodeID, lifetime) w. if t > lifetime
          then obind (gw_UnassignNode (seed_handler now) nodeID w) (\<lambda>(_, w). Inr w) else Inr w) nodes w
     = Inr (fold (drop_expired t) nodes w)" for nodes
    by (rule ofold_eq_fold) (auto simp: drop_expired_def unassign_eq)
  then show ?thesis unfolding ctl_cleanup_def gw_GetNodes_def simple_ops_sel by simp
qed

lemma cleanup_inv:
  assumes "seed_inv w" "ctl_cleanup (simple_ops gen now) t w = Inr (r, w')"
  shows "seed_inv w'"
proof -
  have "seed_inv (fold (drop_expired t) nodes w)" for nodes
    using assms(1) by (rule fold_invariant_in [of seed_inv]) (auto simp: drop_expired_def drop_node_inv)
  with assms(2) show ?thesis by (auto simp: cleanup_eq)
qed

lemma ch_send_ok:
  assumes "channels_ok k m" "mget m n = Some ch"
  shows "ch_Send v ch = (if length (ch_buf ch) < k then Inr (Inr (), ch\<lparr>ch_buf := ch_buf ch @ [v]\<rparr>) else Inl Blocked)"
  using channels_ok_get [OF assms] by (simp add: ch_Send_def)

lemma HandleSignal_inv:
  assumes "seed_inv w" "ctl_HandleSignal sg relay w = Inr (r, w')"
  shows "seed_inv w' \<and> fst w' = fst w"
proof -
  obtain g c where w: "w = (g, c)" by (cases w)
  from assms(2) consider "w' = w"
    | k ch ch' r1 where "mget (signalChannels c) k = Some ch" "ch_Send sg ch = Inr (r1, ch')"
        "w' = (g, c\<lparr>signalChannels := mput k ch' (signalChannels c)\<rparr>)"
    by (auto simp: ctl_HandleSignal_def w Let_def obind_eq_Inr bind_eq_Some_conv split: sum.splits option.splits)
  then show ?thesis
  proof cases
    case 1
    with assms(1) show ?thesis by simp
  next
    case 2
    have ch: "channels_ok 100 (signalChannels c)" using assms(1) by (simp add: seed_inv_def w)
    have "length (ch_buf ch) < 100" and ch': "ch' = ch\<lparr>ch_buf := ch_buf ch @ [sg]\<rparr>"
      using 2(2) unfolding ch_send_ok [OF ch 2(1)] by (auto split: if_splits)
    then have "channels_ok 100 (mput k ch' (signalChannels c))"
      using ch channels_ok_get [OF ch 2(1)] by (intro channels_ok_mput) (simp_all add: ch_wf_def)
    then show ?thesis using assms(1) mhas_mget [OF 2(1)] by (auto simp: seed_inv_def w 2(3))
  qed
qed

lemma isAlone_simple: "gw_inv g \<Longrightarrow> ctl_isAlone (simple_ops gen now) n g = Inr (set (mkeys (gw_nodes g)) \<subseteq> {n})"
  by (rule simple.isAlone_spec) simp_all

definition fresh_entry :: "time \<Rightarrow> nodeEntry" where
  "fresh_entry t = \<lparr>lifespan = t, subscribingSignal = False, waitingSignals = []\<rparr>"

lemma fresh_entry_simps [simp]:
  "lifespan (fresh_entry t) = t" "\<not> subscribingSignal (fresh_entry t)" "waitingSignals (fresh_entry t) = []"
  "waiting_ok n (fresh_entry t)"
  by (simp_all add: fresh_entry_def waiting_ok_def)

lemma assign_eq:
  assumes "gw_inv g" "generator_ok gen" "gen (mkeys (gw_nodes g)) = Inr n"
  shows "ctl_AssignNode (simple_ops gen now) t (g, c) =
     Inr (Inr (n, set (mkeys (gw_nodes g)) \<subseteq> {n}),
       (g\<lparr>gw_nodes := mput n (fresh_entry (t + normalLifespan c)) (gw_nodes g)\<rparr>, c))"
proof -
  have n: "nid_IsNormal n" "\<not> mhas (gw_nodes g) n" using assms(2,3) by (auto simp: generator_ok_def mhas_iff)
  from isAlone_simple [OF gw_inv_mput [OF assms(1) n(1)]] n assms(3) show ?thesis
    by (simp add: ctl_AssignNode_def gw_AssignNode_def fresh_entry_def)
qed

lemma assign_err:
  "gen (mkeys (gw_nodes g)) = Inl err \<Longrightarrow> \<exists>e. ctl_AssignNode (simple_ops gen now) t (g, c) = Inr (Inl e, (g, c))"
  by (simp add: ctl_AssignNode_def gw_AssignNode_def)

lemma assign_inv:
  assumes "seed_inv w" "generator_ok gen" "ctl_AssignNode (simple_ops gen now) t w = Inr (r, w')"
  shows "seed_inv w'"
proof -
  obtain g c where w: "w = (g, c)" by (cases w)
  have inv: "gw_inv g" using assms(1) by (simp add: seed_inv_def w)
  show ?thesis
  proof (cases "gen (mkeys (gw_nodes g))")
    case (Inl err)
    with assms assign_err [of gen g err now t c] show ?thesis by (auto simp: w)
  next
    case (Inr n)
    then have n: "nid_IsNormal n" "n \<notin> set (mkeys (gw_nodes g))" using assms(2) by (auto simp: generator_ok_def)
    then have "\<not> subscribed g n" by (auto simp: subscribed_def mhas_mget simp flip: mhas_iff)
    with assms n assign_eq [OF inv assms(2) Inr] show ?thesis
      by (auto simp: seed_inv_def w gw_inv_mput split: if_splits)
  qed
qed

lemma lifespan_inv:
  assumes "seed_inv (g, c)" "gw_UpdateNodeLifespan n t g = (r, g')"
  shows "seed_inv (g', c)"
proof (cases "mget (gw_nodes g) n")
  case None
  with assms show ?thesis by (auto simp: gw_UpdateNodeLifespan_def)
next
  case (Some e)
  then have g': "g' = g\<lparr>gw_nodes := mput n (e\<lparr>lifespan := t\<rparr>) (gw_nodes g)\<rparr>"
    using assms(2) by (simp add: gw_UpdateNodeLifespan_def)
  have "nid_IsNormal n" "waiting_ok n e" using seed_inv_entry [OF assms(1) Some] by auto
  moreover have "subscribed g n \<longleftrightarrow> subscribingSignal e" using Some by (simp add: subscribed_def)
  ultimately show ?thesis using assms(1) by (auto simp: seed_inv_def g' gw_inv_mput)
qed

lemma keepalive_channels_inv:
  "seed_inv (g, c) \<Longrightarrow> channels_ok 1 ks \<Longrightarrow> seed_inv (g, c\<lparr>keepaliveChannels := ks\<rparr>)"
  by (simp add: seed_inv_def)

lemma seed_inv_keepalive: "seed_inv (g, c) \<Longrightarrow> channels_ok 1 (keepaliveChannels c)"
  by (simp add: seed_inv_def)

lemma keepalive_begin_inv:
  assumes "seed_inv w" "ctl_Keepalive_begin (simple_ops gen now) t n w = (r, w')"
  shows "seed_inv w'"
proof -
  obtain g c where w: "w = (g, c)" by (cases w)
  let ?c = "c\<lparr>keepaliveChannels := mput n (NewChannel 1) (keepaliveChannels c)\<rparr>"
  have 1: "seed_inv (g, ?c)"
    using assms(1) seed_inv_keepalive [of g c] by (auto simp: w intro!: keepalive_channels_inv channels_ok_mput)
  obtain rl g' where u: "gw_UpdateNodeLifespan n (t + normalLifespan c) g = (rl, g')"
    by (cases "gw_UpdateNodeLifespan n (t + normalLifespan c) g")
  from assms(2) u have "w' = w \<or> w' = (g', ?c)"
    by (auto simp: ctl_Keepalive_begin_def w Let_def split: sum.splits if_splits)
  with lifespan_inv [OF 1 u] assms(1) show ?thesis by auto
qed

lemma keepalive_end_inv:
  assumes "seed_inv w"
  shows "seed_inv (ctl_Keepalive_end (simple_ops gen now) n w)"
  using assms seed_inv_keepalive
  by (cases w) (auto simp: ctl_Keepalive_end_def Let_def intro!: keepalive_channels_inv)

lemma publish_keepalive_inv:
  assumes "seed_inv w" "gw_PublishKeepaliveRequest (seed_handler now) n w = Inr (r, w')"
  shows "seed_inv w'"
proof -
  obtain g c where w: "w = (g, c)" by (cases w)
  obtain rl g' where u: "gw_UpdateNodeLifespan n (now + shortLifespan c) g = (rl, g')"
    by (cases "gw_UpdateNodeLifespan n (now + shortLifespan c) g")
  have 1: "seed_inv (g', c)" using lifespan_inv [OF _ u] assms(1) w by simp
  from assms(2) u consider "w' = w" | "w' = (g', c)"
    | ch where "mget (keepaliveChannels c) n = Some ch"
       "w' = (g', c\<lparr>keepaliveChannels := mput n (snd (ch_SendWhenNotFull True ch)) (keepaliveChannels c)\<rparr>)"
    by (auto simp: gw_PublishKeepaliveRequest_def ctl_HandleKeepaliveRequest_def w
        split: sum.splits if_splits option.splits)
  then show ?thesis
  proof cases
    case 3
    have ks: "channels_ok 1 (keepaliveChannels c)" using seed_inv_keepalive [OF 1] .
    from channels_ok_get [OF ks 3(1)] have "channels_ok 1 (mput n (snd (ch_SendWhenNotFull True ch)) (keepaliveChannels c))"
      by (intro channels_ok_mput [OF ks]) (auto simp: ch_SendWhenNotFull_def ch_wf_def)
    with 1 show ?thesis by (auto simp: 3(2) intro!: keepalive_channels_inv)
  qed (use assms(1) 1 in auto)
qed

lemma publish_keepalives_inv:
  "seed_inv w \<Longrightarrow> publish_keepalives (simple_ops gen now) ds w = Inr (r, w') \<Longrightarrow> seed_inv w'"
proof (induction ds arbitrary: w)
  case (Cons d ds)
  from Cons.prems(2) obtain r1 w1 where 1: "gw_PublishKeepaliveRequest (seed_handler now) d w = Inr (r1, w1)"
    "(case r1 of Inl err \<Rightarrow> Inr (Inl (''failed to publish keepalive request for disconnected node: '' @ err), w1)
       | Inr _ \<Rightarrow> publish_keepalives (simple_ops gen now) ds w1) = Inr (r, w')"
    by (auto simp: obind_eq_Inr)
  with publish_keepalive_inv [OF Cons.prems(1) 1(1)] Cons.IH [of w1] show ?case by (auto split: sum.splits)
qed simp

lemma reconcile_inv:
  assumes "seed_inv w" "ctl_ReconcileNextNodes (simple_ops gen now) n nxt disc w = Inr (r, w')"
  shows "seed_inv w'"
proof -
  from assms(2) obtain r1 w1 where 1: "publish_keepalives (simple_ops gen now) disc w = Inr (r1, w1)"
    and "w' = w1"
    unfolding ctl_ReconcileNextNodes_def by (cases "publish_keepalives (simple_ops gen now) disc w") (auto split: sum.splits)
  with assms(1) publish_keepalives_inv show ?thesis by blast
qed

lemma validated_dst:
  "ctl_validateSignal sg n = Inr u \<Longrightarrow> \<exists>d. NewNodeIDFromProto (sg_DstNodeId sg) = Inr d \<and> nid_IsNormal d"
  by (auto simp: ctl_validateSignal_def FromProto_normal split: sum.splits if_splits)

lemma waiting_inv:
  assumes "seed_inv (g, c)" "mget (gw_nodes g) k = Some e" "subscribingSignal e' = subscribingSignal e"
    and "waiting_ok k e \<Longrightarrow> waiting_ok k e'"
  shows "seed_inv (g\<lparr>gw_nodes := mput k e' (gw_nodes g)\<rparr>, c)"
proof -
  have "nid_IsNormal k" "waiting_ok k e'" using seed_inv_entry [OF assms(1,2)] assms(4) by auto
  moreover have "subscribed g k \<longleftrightarrow> subscribingSignal e" using assms(2) by (simp add: subscribed_def)
  ultimately show ?thesis using assms(1,3) by (auto simp: seed_inv_def gw_inv_mput split: if_splits)
qed

lemma PublishSignal_inv:
  assumes "seed_inv w" "gw_PublishSignal (seed_handler now) t sg relay w = Inr (r, w')"
  shows "seed_inv w'"
proof -
  obtain g c where w: "w = (g, c)" by (cases w)
  from assms(2) consider "w' = w" | "ctl_HandleSignal sg relay w = Inr (r, w')"
    | k e d where "mget (gw_nodes g) k = Some e" "NewNodeIDFromProto (sg_DstNodeId sg) = Inr d" "\<not> relay \<longrightarrow> d = k"
       "w' = (g\<lparr>gw_nodes := mput k (e\<lparr>waitingSignals := waitingSignals e @
          [\<lparr>se_timestamp = t, se_signal = sg, se_relayToNext = relay\<rparr>]\<rparr>) (gw_nodes g)\<rparr>, c)"
    by (auto simp: gw_PublishSignal_def w Let_def bind_eq_Some_conv split: sum.splits option.splits if_splits)
  then show ?thesis
  proof cases
    case 3
    with assms(1) show ?thesis by (auto simp: w waiting_ok_def intro!: waiting_inv [of g c k e])
  qed (use assms(1) HandleSignal_inv in auto)
qed

lemma SendSignal_inv:
  assumes "seed_inv w" "ctl_SendSignal (simple_ops gen now) t n sg w = Inr (r, w')"
  shows "seed_inv w'"
proof -
  note def = assms(2) [unfolded ctl_SendSignal_def simple_ops_sel Let_def]
  have "w' = w \<or> (\<exists>r s relay. gw_PublishSignal (seed_handler now) t s relay w = Inr (r, w'))"
  proof (cases "ctl_isAlone (simple_ops gen now) n (fst w)")
    case (Inr alone)
    show ?thesis
    proof (cases "alone \<or> sg = None")
      case False
      then obtain s where s: "sg = Some s" by auto
      with False Inr def show ?thesis
        by (cases "ctl_validateSignal s n"; cases "gw_PublishSignal (seed_handler now) t s (is_next_offer s) w")
          (auto split: sum.splits)
    qed (use Inr def in \<open>auto split: if_splits\<close>)
  qed (use def in simp)
  with assms(1) PublishSignal_inv show ?thesis by blast
qed

lemma PollSignal_begin_inv:
  assumes "seed_inv w" "ctl_PollSignal_begin (simple_ops gen now) n w = (r, w')"
  shows "seed_inv w'"
proof -
  obtain g c where w: "w = (g, c)" by (cases w)
  from assms(2) consider "w' = w"
    | e where "mget (gw_nodes g) n = Some e"
       "w' = (g\<lparr>gw_nodes := mput n (e\<lparr>subscribingSignal := True\<rparr>) (gw_nodes g)\<rparr>,
           c\<lparr>signalChannels := mput n (NewChannel 100) (signalChannels c)\<rparr>)"
    by (auto simp: ctl_PollSignal_begin_def gw_SubscribeSignal_def w split: option.splits if_splits)
  then show ?thesis
  proof cases
    case 2
    have "nid_IsNormal n" "waiting_ok n e" using seed_inv_entry [OF assms(1) [unfolded w] 2(1)] by auto
    with assms(1) show ?thesis by (auto simp: seed_inv_def w 2(2) gw_inv_mput)
  qed (use assms(1) in simp)
qed

lemma deliver_inv:
  assumes "seed_inv w" "gw_deliverWaiting (seed_handler now) n orphan w = Inr w'"
  shows "seed_inv w'"
proof -
  define es where "es = (case mget (gw_nodes (fst w)) n of None \<Rightarrow> orphan | Some e \<Rightarrow> waitingSignals e)"
  obtain w1 where 1: "ofold (\<lambda>entry w. obind (ctl_HandleSignal (se_signal entry) (se_relayToNext entry) w) (\<lambda>(_, w). Inr w)) es w = Inr w1"
    "(case w1 of (h, c) \<Rightarrow> case mget (gw_nodes h) n of None \<Rightarrow> Inr (h, c)
       | Some e \<Rightarrow> Inr (h\<lparr>gw_nodes := mput n (e\<lparr>waitingSignals := []\<rparr>) (gw_nodes h)\<rparr>, c)) = (Inr w' :: seed_state outcome)"
    using assms(2) unfolding gw_deliverWaiting_def Let_def es_def [symmetric] seed_handler_sel obind_eq_Inr by blast
  have "seed_inv w1"
    using assms(1) _ 1(1) by (rule ofold_invariant [of seed_inv]) (auto simp: obind_eq_Inr dest: HandleSignal_inv)
  with 1(2) show ?thesis by (auto split: prod.splits option.splits intro!: waiting_inv)
qed

lemma PollSignal_turn_inv:
  assumes "seed_inv w" "ctl_PollSignal_turn ev n w = Inr (x, w')"
  shows "seed_inv w'"
proof -
  obtain g c where w: "w = (g, c)" by (cases w)
  from assms(2) consider "w' = w"
    | ch ch' where "mget (signalChannels c) n = Some ch" "ch_recv ch = Inr (x, ch')"
       "w' = (g, c\<lparr>signalChannels := mput n ch' (signalChannels c)\<rparr>)"
    by (auto simp: ctl_PollSignal_turn_def w obind_eq_Inr split: option.splits wake.splits)
  then show ?thesis
  proof cases
    case 2
    have ch: "channels_ok 100 (signalChannels c)" using assms(1) by (simp add: seed_inv_def w)
    from channels_ok_get [OF ch 2(1)] 2(2) have "channels_ok 100 (mput n ch' (signalChannels c))"
      by (intro channels_ok_mput [OF ch]) (auto simp: ch_recv_def ch_wf_def split: list.splits if_splits)
    then show ?thesis using assms(1) mhas_mget [OF 2(1)] by (auto simp: seed_inv_def w 2(3))
  qed (use assms(1) in simp)
qed

lemma PollSignal_end_inv:
  assumes "seed_inv w"
  shows "seed_inv (ctl_PollSignal_end (simple_ops gen now) n w)"
proof -
  obtain g c where w: "w = (g, c)" by (cases w)
  show ?thesis
  proof (cases "mget (gw_nodes g) n")
    case None
    then have "\<not> subscribed g n" by (simp add: subscribed_def)
    with assms None show ?thesis by (auto simp: ctl_PollSignal_end_def gw_UnsubscribeSignal_def w seed_inv_def)
  next
    case (Some e)
    have "nid_IsNormal n" "waiting_ok n e" using seed_inv_entry [OF assms [unfolded w] Some] by auto
    with assms Some show ?thesis
      by (auto simp: ctl_PollSignal_end_def gw_UnsubscribeSignal_def w seed_inv_def gw_inv_mput)
  qed
qed

lemma seed_step_inv: "seed_step w w' \<Longrightarrow> seed_inv w \<Longrightarrow> seed_inv w'"
proof (induction rule: seed_step.induct)
  case (unassign gen now n w r' w')
  then show ?case by (auto simp: ctl_UnassignNode_def unassign_eq drop_node_inv)
qed (auto intro: assign_inv cleanup_inv keepalive_begin_inv keepalive_end_inv reconcile_inv SendSignal_inv
      PollSignal_begin_inv deliver_inv PollSignal_turn_inv PollSignal_end_inv)

lemma seed_reachable_inv: "seed_reachable w \<Longrightarrow> seed_inv w"
proof (induction rule: seed_reachable.induct)
  case (start normal short interval)
  show ?case by (simp add: seed_inv_def NewSimpleGateway_def NewController_def gw_inv_def subscribed_def entries_ok_def)
qed (rule seed_step_inv)

subsection \<open>Expiry\<close>

definition expired_in :: "time \<Rightarrow> (NodeID \<times> time) list \<Rightarrow> NodeID \<Rightarrow> bool" where
  "expired_in t ns n \<longleftrightarrow> (\<exists>l. (n, l) \<in> set ns \<and> l < t)"

lemma expired_in_simps [simp]:
  "\<not> expired_in t [] n" "expired_in t ((m, l) # ns) n \<longleftrightarrow> n = m \<and> l < t \<or> expired_in t ns n"
  by (auto simp: expired_in_def)

lemma drop_expired_keys:
  assumes "fold (drop_expired t) ns (g, c) = (g', c')"
  shows "mget (gw_nodes g') n = (if expired_in t ns n then None else mget (gw_nodes g) n) \<and>
     mget (signalChannels c') n = (if expired_in t ns n then None else mget (signalChannels c) n) \<and>
     mget (keepaliveChannels c') n = (if expired_in t ns n then None else mget (keepaliveChannels c) n)"
  using assms
proof (induction ns arbitrary: g c)
  case (Cons p ns)
  obtain m l where p: "p = (m, l)" by (cases p)
  show ?case
  proof (cases "l < t")
    case True
    from Cons.IH [of "g\<lparr>gw_nodes := mdel m (gw_nodes g)\<rparr>"] Cons.prems True show ?thesis
      by (simp add: p drop_expired_def)
  next
    case False
    with Cons.IH [of g c] Cons.prems show ?thesis by (simp add: p drop_expired_def)
  qed
qed simp

lemma cleanup_result:
  assumes "seed_inv (g, c)"
  shows "\<exists>g' c'. ctl_cleanup (simple_ops gen now) t (g, c) = Inr (Inr (), (g', c')) \<and>
     (\<forall>n. let gone = (\<exists>e. mget (gw_nodes g) n = Some e \<and> lifespan e < t) in
        mget (gw_nodes g') n = (if gone then None else mget (gw_nodes g) n) \<and>
        mget (signalChannels c') n = (if gone then None else mget (signalChannels c) n) \<and>
        mget (keepaliveChannels c') n = (if gone then None else mget (keepaliveChannels c) n))"
proof -
  let ?ns = "map (\<lambda>(n, e). (n, lifespan e)) (gw_nodes g)"
  have wf: "gomap_wf (gw_nodes g)" using assms by (simp add: seed_inv_def gw_inv_def)
  have gone: "expired_in t ?ns n \<longleftrightarrow> (\<exists>e. mget (gw_nodes g) n = Some e \<and> lifespan e < t)" for n
    by (force simp: gomap_wf_mget_iff [OF wf] expired_in_def)
  obtain g' c' where "fold (drop_expired t) ?ns (g, c) = (g', c')" by (cases "fold (drop_expired t) ?ns (g, c)")
  then show ?thesis
    using drop_expired_keys [of t ?ns g c g' c', unfolded gone] by (auto simp: cleanup_eq Let_def)
qed


subsection \<open>Signals\<close>

text \<open>The node a signal is for: its destination, or the next node on the ring after it.\<close>

definition signal_target :: "NodeID set \<Rightarrow> bool \<Rightarrow> NodeID \<Rightarrow> NodeID \<Rightarrow> bool" where
  "signal_target nodes relay d k \<longleftrightarrow> (if relay then ring_next d nodes k else k = d \<and> d \<in> nodes)"

abbreviation registered :: "SimpleGateway \<Rightarrow> NodeID set" where
  "registered g \<equiv> set (mkeys (gw_nodes g))"

lemma next_key:
  assumes "nid_IsNormal d" "\<forall>k\<in>set (mkeys m). nid_IsNormal k"
  shows "Option.bind (if relay then fst (GetNextByMap d (map (\<lambda>(k, e). (k, Some e)) m) None) else Some d) (mget m) = Some e \<longleftrightarrow>
     (\<exists>k. signal_target (set (mkeys m)) relay d k \<and> mget m k = Some e)"
    and "signal_target (set (mkeys m)) relay d k \<Longrightarrow>
     (if relay then fst (GetNextByMap d (map (\<lambda>(k, e). (k, Some e)) m) None) else Some d) = Some k"
proof -
  have keys: "mkeys (map (\<lambda>(k, e). (k, Some e)) m) = mkeys m" by simp
  have spec: "fst (GetNextByMap d (map (\<lambda>(k, e). (k, Some e)) m) None) = Some k \<longleftrightarrow> ring_next d (set (mkeys m)) k" for k
    using GetNextByMap_spec [of d "map (\<lambda>(k, e). (k, Some e)) m" None k] assms by (simp only: keys)
  show "Option.bind (if relay then fst (GetNextByMap d (map (\<lambda>(k, e). (k, Some e)) m) None) else Some d) (mget m) = Some e \<longleftrightarrow>
     (\<exists>k. signal_target (set (mkeys m)) relay d k \<and> mget m k = Some e)"
    by (auto simp: bind_eq_Some_conv spec signal_target_def mhas_mget simp flip: mhas_iff)
  show "signal_target (set (mkeys m)) relay d k \<Longrightarrow>
     (if relay then fst (GetNextByMap d (map (\<lambda>(k, e). (k, Some e)) m) None) else Some d) = Some k"
    by (auto simp: spec signal_target_def)
qed

lemma signal_target_in: "signal_target nodes relay d k \<Longrightarrow> k \<in> nodes"
  by (auto simp: signal_target_def ring_next_def split: if_splits)

text \<open>The next subscribed node is the next registered one, when that one is subscribed.\<close>

lemma signal_target_subset:
  "signal_target nodes relay d k \<Longrightarrow> S \<subseteq> nodes \<Longrightarrow> k \<in> S \<Longrightarrow> signal_target S relay d k"
  by (auto simp: signal_target_def ring_next_def split: if_splits)

lemma HandleSignal_target:
  assumes inv: "seed_inv (g, c)" and d: "NewNodeIDFromProto (sg_DstNodeId sg) = Inr d"
    and k: "signal_target (registered g) relay d k" "mget (signalChannels c) k = Some ch"
  shows "ctl_HandleSignal sg relay (g, c) =
     (if length (ch_buf ch) < 100
      then Inr (Inr (), (g, c\<lparr>signalChannels := mput k (ch\<lparr>ch_buf := ch_buf ch @ [sg]\<rparr>) (signalChannels c)\<rparr>))
      else Inl Blocked)"
proof -
  let ?S = "set (mkeys (signalChannels c))"
  have chs: "channels_ok 100 (signalChannels c)" and sub: "\<And>n. mhas (signalChannels c) n \<longleftrightarrow> subscribed g n"
    using inv by (simp_all add: seed_inv_def)
  have S: "?S \<subseteq> registered g" using sub by (auto simp: subscribed_def mhas_mget simp flip: mhas_iff)
  then have norm: "nid_IsNormal d" "\<forall>k\<in>?S. nid_IsNormal k"
    using inv FromProto_normal [OF d] by (auto simp: seed_inv_def gw_inv_def)
  have "signal_target ?S relay d k"
    using signal_target_subset [OF k(1) S] mhas_mget [OF k(2)] by (simp add: mhas_iff)
  from next_key(2) [OF norm this] k(2) d ch_send_ok [OF chs k(2), of sg] show ?thesis
    by (simp add: ctl_HandleSignal_def Let_def)
qed

lemma HandleSignal_explicit:
  assumes "seed_inv (g, c)" "NewNodeIDFromProto (sg_DstNodeId sg) = Inr d" "mget (signalChannels c) d = Some ch"
    "length (ch_buf ch) < 100"
  shows "ctl_HandleSignal sg False (g, c) =
     Inr (Inr (), (g, c\<lparr>signalChannels := mput d (ch\<lparr>ch_buf := ch_buf ch @ [sg]\<rparr>) (signalChannels c)\<rparr>))"
proof -
  have "subscribed g d" using assms(1) mhas_mget [OF assms(3)] by (simp add: seed_inv_def)
  then have "signal_target (registered g) False d d"
    by (auto simp: signal_target_def subscribed_def mhas_mget simp flip: mhas_iff)
  from HandleSignal_target [OF assms(1,2) this assms(3)] assms(4) show ?thesis by simp
qed

definition queued :: "time \<Rightarrow> Signal \<Rightarrow> bool \<Rightarrow> nodeEntry \<Rightarrow> nodeEntry" where
  "queued now sg relay e = e\<lparr>waitingSignals := waitingSignals e @
     [\<lparr>se_timestamp = now, se_signal = sg, se_relayToNext = relay\<rparr>]\<rparr>"

text \<open>The result of sending a valid signal when another node is registered.\<close>

definition sent_to :: "time \<Rightarrow> Signal \<Rightarrow> bool \<Rightarrow> NodeID \<Rightarrow> seed_state \<Rightarrow> (unit result \<times> seed_state) outcome" where
  "sent_to now sg relay k w =
     (case w of (g, c) \<Rightarrow>
        (case mget (signalChannels c) k of
           None \<Rightarrow> Inr (Inr (), (g\<lparr>gw_nodes := mput k (queued now sg relay (the (mget (gw_nodes g) k))) (gw_nodes g)\<rparr>, c))
         | Some ch \<Rightarrow>
             if length (ch_buf ch) < 100
             then Inr (Inr (), (g, c\<lparr>signalChannels := mput k (ch\<lparr>ch_buf := ch_buf ch @ [sg]\<rparr>) (signalChannels c)\<rparr>))
             else Inl Blocked))"

lemma PublishSignal_target:
  assumes inv: "seed_inv (g, c)" and d: "NewNodeIDFromProto (sg_DstNodeId sg) = Inr d"
    and k: "signal_target (registered g) relay d k"
  shows "gw_PublishSignal (seed_handler t) now sg relay (g, c) = sent_to now sg relay k (g, c)"
proof -
  have norm: "nid_IsNormal d" "\<forall>k\<in>registered g. nid_IsNormal k"
    using inv FromProto_normal [OF d] by (auto simp: seed_inv_def gw_inv_def)
  have key: "(if relay then fst (GetNextByMap d (map (\<lambda>(k, e). (k, Some e)) (gw_nodes g)) None) else Some d) = Some k"
    using next_key(2) [OF norm k] .
  from signal_target_in [OF k] obtain e where e: "mget (gw_nodes g) k = Some e" by (auto simp: mhas_def simp flip: mhas_iff)
  have sub: "mhas (signalChannels c) k \<longleftrightarrow> subscribingSignal e" using inv e by (simp add: seed_inv_def subscribed_def)
  show ?thesis
  proof (cases "mget (signalChannels c) k")
    case None
    with sub have "\<not> subscribingSignal e" by (simp add: mhas_def)
    with None d key e show ?thesis by (simp add: gw_PublishSignal_def Let_def sent_to_def queued_def)
  next
    case (Some ch)
    with sub have "subscribingSignal e" by (simp add: mhas_def)
    with Some d key e HandleSignal_target [OF inv d k Some] show ?thesis
      by (simp add: gw_PublishSignal_def Let_def sent_to_def)
  qed
qed

lemma PublishSignal_nobody:
  assumes inv: "seed_inv (g, c)" and d: "NewNodeIDFromProto (sg_DstNodeId sg) = Inr d"
    and none: "\<nexists>k. signal_target (registered g) relay d k"
  shows "gw_PublishSignal (seed_handler t) now sg relay (g, c) = Inr (Inr (), (g, c))"
proof -
  have norm: "nid_IsNormal d" "\<forall>k\<in>registered g. nid_IsNormal k"
    using inv FromProto_normal [OF d] by (auto simp: seed_inv_def gw_inv_def)
  have "Option.bind (if relay then fst (GetNextByMap d (map (\<lambda>(k, e). (k, Some e)) (gw_nodes g)) None) else Some d)
     (mget (gw_nodes g)) = None"
    using next_key(1) [OF norm, of relay] none by (metis not_Some_eq)
  with d show ?thesis by (simp add: gw_PublishSignal_def Let_def)
qed

lemma SendSignal_publish:
  assumes "gw_inv g" "\<not> registered g \<subseteq> {n}" "ctl_validateSignal sg n = Inr ()"
  shows "ctl_SendSignal (simple_ops gen t) now n (Some sg) (g, c) =
     obind (gw_PublishSignal (seed_handler t) now sg (is_next_offer sg) (g, c)) (\<lambda>(r, w).
       case r of Inl err \<Rightarrow> Inr (Inl (''failed to publish signal: '' @ err), w) | Inr _ \<Rightarrow> Inr (Inr (), w))"
  using assms isAlone_simple [OF assms(1), of gen t n] by (simp add: ctl_SendSignal_def Let_def)

lemma SendSignal_routed:
  assumes inv: "seed_inv (g, c)" and other: "\<not> registered g \<subseteq> {n}"
    and v: "ctl_validateSignal sg n = Inr ()" "NewNodeIDFromProto (sg_DstNodeId sg) = Inr d"
  shows "signal_target (registered g) (is_next_offer sg) d k \<Longrightarrow>
      ctl_SendSignal (simple_ops gen t) now n (Some sg) (g, c) = sent_to now sg (is_next_offer sg) k (g, c)"
    and "\<nexists>k. signal_target (registered g) (is_next_offer sg) d k \<Longrightarrow>
      ctl_SendSignal (simple_ops gen t) now n (Some sg) (g, c) = Inr (Inr (), (g, c))"
proof -
  have gi: "gw_inv g" using inv by (simp add: seed_inv_def)
  note eq = SendSignal_publish [OF gi other v(1), of gen t now c]
  show "signal_target (registered g) (is_next_offer sg) d k \<Longrightarrow>
      ctl_SendSignal (simple_ops gen t) now n (Some sg) (g, c) = sent_to now sg (is_next_offer sg) k (g, c)"
    unfolding eq PublishSignal_target [OF inv v(2)]
    by (auto simp: sent_to_def split: option.splits)
  show "\<nexists>k. signal_target (registered g) (is_next_offer sg) d k \<Longrightarrow>
      ctl_SendSignal (simple_ops gen t) now n (Some sg) (g, c) = Inr (Inr (), (g, c))"
    unfolding eq by (simp add: PublishSignal_nobody [OF inv v(2)])
qed

text \<open>
  C11. Signals go where they should, in every reachable state in which the sender is not
  alone: a valid signal reaches the node it is for, which is its destination or, for an
  offer to the next node, the registered node that walking forward around the ring from the
  destination meets first. It is appended to the channel of that node if the node is polling
  (the call waits while the channel holds 100 signals), else to the signals waiting for it.
  Nothing else changes. Without such a node the signal is dropped.
\<close>

theorem signal_routed:
  assumes "seed_reachable (g, c)" "\<not> registered g \<subseteq> {n}"
    and "ctl_validateSignal sg n = Inr ()" "NewNodeIDFromProto (sg_DstNodeId sg) = Inr d"
  shows "(\<forall>k. signal_target (registered g) (is_next_offer sg) d k \<longrightarrow>
       ctl_SendSignal (simple_ops gen now) now n (Some sg) (g, c) = sent_to now sg (is_next_offer sg) k (g, c)) \<and>
     ((\<nexists>k. signal_target (registered g) (is_next_offer sg) d k) \<longrightarrow>
       ctl_SendSignal (simple_ops gen now) now n (Some sg) (g, c) = Inr (Inr (), (g, c)))"
  using SendSignal_routed [OF seed_reachable_inv [OF assms(1)] assms(2-4)] by blast

lemma handle_all:
  assumes "seed_inv (g, c)" "mget (signalChannels c) n = Some ch"
    "\<forall>x\<in>set xs. \<not> se_relayToNext x \<and> NewNodeIDFromProto (sg_DstNodeId (se_signal x)) = Inr n"
    "length (ch_buf ch) + length xs \<le> 100"
  shows "\<exists>c'. ofold (\<lambda>entry w. obind (ctl_HandleSignal (se_signal entry) (se_relayToNext entry) w) (\<lambda>(_, w). Inr w)) xs (g, c)
       = Inr (g, c') \<and> mget (signalChannels c') n = Some (ch\<lparr>ch_buf := ch_buf ch @ map se_signal xs\<rparr>)"
  using assms
proof (induction xs arbitrary: c ch)
  case (Cons x xs)
  let ?ch = "ch\<lparr>ch_buf := ch_buf ch @ [se_signal x]\<rparr>"
  let ?c = "c\<lparr>signalChannels := mput n ?ch (signalChannels c)\<rparr>"
  have h: "ctl_HandleSignal (se_signal x) (se_relayToNext x) (g, c) = Inr (Inr (), (g, ?c))"
    using HandleSignal_explicit [OF Cons.prems(1) _ Cons.prems(2)] Cons.prems(3,4) by simp
  have "seed_inv (g, ?c)" using HandleSignal_inv [OF Cons.prems(1) h] by simp
  from Cons.IH [OF this, of ?ch] Cons.prems(3,4) h show ?case by simp
qed simp

lemma seed_inv_not_subscribed:
  assumes "seed_inv (g, c)" "mget (gw_nodes g) n = Some e" "\<not> subscribingSignal e"
  shows "mget (signalChannels c) n = None"
proof -
  have "\<not> mhas (signalChannels c) n" using assms by (auto simp: seed_inv_def subscribed_def)
  then show ?thesis by (simp add: mhas_def)
qed

lemma seed_inv_PollSignal_begin:
  assumes "seed_inv (g, c)" "mget (gw_nodes g) n = Some e" "\<not> subscribingSignal e"
  shows "ctl_PollSignal_begin (simple_ops gen now) n (g, c) =
     (Inr (waitingSignals e \<noteq> []), (g\<lparr>gw_nodes := mput n (e\<lparr>subscribingSignal := True\<rparr>) (gw_nodes g)\<rparr>,
        c\<lparr>signalChannels := mput n (NewChannel 100) (signalChannels c)\<rparr>))"
  using seed_inv_not_subscribed [OF assms] assms(2)
  by (simp add: ctl_PollSignal_begin_def gw_SubscribeSignal_def mhas_def)

lemma deliver_waiting:
  assumes inv: "seed_inv (g, c)" and e: "mget (gw_nodes g) n = Some e" "\<not> subscribingSignal e"
    and ex: "\<forall>x\<in>set (waitingSignals e). \<not> se_relayToNext x" and len: "length (waitingSignals e) \<le> 100"
  shows "\<exists>w w' ch. ctl_PollSignal_begin (simple_ops gen now) n (g, c) = (Inr (waitingSignals e \<noteq> []), w) \<and>
     gw_deliverWaiting (seed_handler t) n orphan w = Inr w' \<and>
     mget (signalChannels (snd w')) n = Some ch \<and> ch_buf ch = map se_signal (waitingSignals e) \<and>
     (\<exists>e'. mget (gw_nodes (fst w')) n = Some e' \<and> waitingSignals e' = [])"
proof -
  let ?g = "g\<lparr>gw_nodes := mput n (e\<lparr>subscribingSignal := True\<rparr>) (gw_nodes g)\<rparr>"
  let ?c = "c\<lparr>signalChannels := mput n (NewChannel 100) (signalChannels c)\<rparr>"
  note poll = seed_inv_PollSignal_begin [OF inv e, of gen now]
  have inv': "seed_inv (?g, ?c)" using PollSignal_begin_inv [OF inv poll] .
  have "\<forall>x\<in>set (waitingSignals e). \<not> se_relayToNext x \<and> NewNodeIDFromProto (sg_DstNodeId (se_signal x)) = Inr n"
    using seed_inv_entry [OF inv e(1)] ex by (auto simp: waiting_ok_def)
  with handle_all [OF inv', of n "NewChannel 100" "waitingSignals e"] len obtain c' where
    c': "ofold (\<lambda>entry w. obind (ctl_HandleSignal (se_signal entry) (se_relayToNext entry) w) (\<lambda>(_, w). Inr w)) (waitingSignals e) (?g, ?c)
       = Inr (?g, c')" "mget (signalChannels c') n = Some (NewChannel 100\<lparr>ch_buf := map se_signal (waitingSignals e)\<rparr>)"
    by (auto simp: NewChannel_def)
  from c'(1) have "gw_deliverWaiting (seed_handler t) n orphan (?g, ?c) =
     Inr (?g\<lparr>gw_nodes := mput n (e\<lparr>subscribingSignal := True, waitingSignals := []\<rparr>) (gw_nodes ?g)\<rparr>, c')"
    by (simp add: gw_deliverWaiting_def)
  with poll c'(2) show ?thesis by auto
qed

lemma signal_stored_result:
  assumes "seed_reachable (g, c)" "\<not> registered g \<subseteq> {n}"
    and "ctl_validateSignal sg n = Inr ()" "NewNodeIDFromProto (sg_DstNodeId sg) = Inr d" "\<not> is_next_offer sg"
    and "mget (gw_nodes g) d = Some e" "\<not> subscribingSignal e"
    and "\<forall>x\<in>set (waitingSignals e). \<not> se_relayToNext x" "length (waitingSignals e) < 100"
  shows "\<exists>w1 w2 w3 ch. ctl_SendSignal (simple_ops gen now) now n (Some sg) (g, c) = Inr (Inr (), w1) \<and>
     ctl_PollSignal_begin (simple_ops gen t) d w1 = (Inr True, w2) \<and>
     gw_deliverWaiting (seed_handler t') d orphan w2 = Inr w3 \<and>
     mget (signalChannels (snd w3)) d = Some ch \<and> ch_buf ch = map se_signal (waitingSignals e) @ [sg] \<and>
     (\<exists>e'. mget (gw_nodes (fst w3)) d = Some e' \<and> waitingSignals e' = [])"
proof -
  have inv: "seed_inv (g, c)" using seed_reachable_inv [OF assms(1)] .
  let ?e = "queued now sg False e"
  let ?g = "g\<lparr>gw_nodes := mput d ?e (gw_nodes g)\<rparr>"
  have "signal_target (registered g) (is_next_offer sg) d d"
    using assms(5) mhas_mget [OF assms(6)] by (simp add: signal_target_def mhas_iff)
  moreover have "mget (signalChannels c) d = None"
    using seed_inv_not_subscribed [OF inv assms(6,7)] .
  ultimately have send: "ctl_SendSignal (simple_ops gen now) now n (Some sg) (g, c) = Inr (Inr (), (?g, c))"
    using SendSignal_routed(1) [OF inv assms(2-4)] assms(5,6) by (simp add: sent_to_def)
  have "seed_inv (?g, c)" using SendSignal_inv [OF inv send] .
  from deliver_waiting [OF this, of d ?e gen t t' orphan] assms(7-9) send show ?thesis
    by (force simp: queued_def)
qed

text \<open>
  Store and forward, in every reachable state: a signal sent to a registered node that
  is not polling is not lost. Once that node polls and the goroutine of its subscription has
  run, its channel holds all the signals that waited for it, in the order in which they were
  sent, this one last, and none waits any more.
\<close>

theorem signal_stored_and_forwarded:
  assumes "seed_reachable (g, c)" "\<not> registered g \<subseteq> {n}"
    and "ctl_validateSignal sg n = Inr ()" "NewNodeIDFromProto (sg_DstNodeId sg) = Inr d" "\<not> is_next_offer sg"
    and "mget (gw_nodes g) d = Some e" "\<not> subscribingSignal e"
    and "\<forall>x\<in>set (waitingSignals e). \<not> se_relayToNext x" "length (waitingSignals e) < 100"
  shows "\<exists>w1 w2 w3 ch. ctl_SendSignal (simple_ops gen now) now n (Some sg) (g, c) = Inr (Inr (), w1) \<and>
     ctl_PollSignal_begin (simple_ops gen t) d w1 = (Inr True, w2) \<and>
     gw_deliverWaiting (seed_handler t') d orphan w2 = Inr w3 \<and>
     mget (signalChannels (snd w3)) d = Some ch \<and> ch_buf ch = map se_signal (waitingSignals e) @ [sg] \<and>
     (\<exists>e'. mget (gw_nodes (fst w3)) d = Some e' \<and> waitingSignals e' = [])"
  by (rule signal_stored_result [OF assms])

subsection \<open>Reconciliation\<close>

definition given_until :: "time \<Rightarrow> NodeID list \<Rightarrow> SimpleGateway \<Rightarrow> SimpleGateway \<Rightarrow> bool" where
  "given_until t ds g g' \<longleftrightarrow> (\<forall>m. mget (gw_nodes g') m =
     (if m \<in> set ds then map_option (\<lambda>e. e\<lparr>lifespan := t\<rparr>) (mget (gw_nodes g) m) else mget (gw_nodes g) m))"

lemma given_until_registered: "given_until t ds g g' \<Longrightarrow> registered g' = registered g"
  by (auto simp: given_until_def set_mkeys dom_def split: if_splits)

lemma publish_keepalive_one:
  "\<exists>g' c'. gw_PublishKeepaliveRequest (seed_handler now) d (g, c) = Inr (Inr (), (g', c')) \<and>
     given_until (now + shortLifespan c) [d] g g' \<and> shortLifespan c' = shortLifespan c"
proof (cases "mget (gw_nodes g) d")
  case None
  then show ?thesis by (auto simp: gw_PublishKeepaliveRequest_def mhas_def given_until_def)
next
  case (Some e)
  then show ?thesis
    by (cases "mget (keepaliveChannels c) d")
      (auto simp: gw_PublishKeepaliveRequest_def mhas_def given_until_def ctl_HandleKeepaliveRequest_def gw_UpdateNodeLifespan_def)
qed

lemma publish_keepalives_ok:
  "\<exists>g' c'. publish_keepalives (simple_ops gen now) ds (g, c) = Inr (Inr (), (g', c')) \<and>
     given_until (now + shortLifespan c) ds g g' \<and> shortLifespan c' = shortLifespan c"
proof (induction ds arbitrary: g c)
  case Nil
  show ?case by (simp add: given_until_def)
next
  case (Cons d ds)
  obtain g1 c1 where 1: "gw_PublishKeepaliveRequest (seed_handler now) d (g, c) = Inr (Inr (), (g1, c1))"
    "given_until (now + shortLifespan c) [d] g g1" "shortLifespan c1 = shortLifespan c"
    using publish_keepalive_one by blast
  obtain g2 c2 where 2: "publish_keepalives (simple_ops gen now) ds (g1, c1) = Inr (Inr (), (g2, c2))"
    "given_until (now + shortLifespan c) ds g1 g2" "shortLifespan c2 = shortLifespan c"
    using Cons.IH [of g1 c1] 1(3) by auto
  have "given_until (now + shortLifespan c) (d # ds) g g2"
    using 1(2) 2(2) by (auto simp: given_until_def option.map_comp comp_def)
  with 1 2 show ?case by auto
qed

lemma reconcile_eq:
  assumes inv: "seed_inv (g, c)" and norm: "\<forall>m\<in>set nxt. nid_IsNormal m"
  shows "\<exists>g' c'. ctl_ReconcileNextNodes (simple_ops gen now) n nxt disc (g, c) =
       Inr (Inr (if nxt = [] then registered g \<subseteq> {n}
                 else distinct nxt \<and> set nxt = {m \<in> registered g. in_ring_range (hd nxt) (last nxt) m} - {n}), (g', c')) \<and>
     given_until (now + shortLifespan c) disc g g' \<and> shortLifespan c' = shortLifespan c"
proof -
  obtain g' c' where p: "publish_keepalives (simple_ops gen now) disc (g, c) = Inr (Inr (), (g', c'))"
    "given_until (now + shortLifespan c) disc g g'" "shortLifespan c' = shortLifespan c"
    using publish_keepalives_ok by blast
  have inv': "gw_inv g'" using publish_keepalives_inv [OF inv p(1)] by (simp add: seed_inv_def)
  note reg = given_until_registered [OF p(2)]
  have "reconcile_match (simple_ops gen now) n nxt g' = Inr (if nxt = [] then registered g \<subseteq> {n}
     else distinct nxt \<and> set nxt = {m \<in> registered g. in_ring_range (hd nxt) (last nxt) m} - {n})"
  proof (cases "nxt = []")
    case True
    with isAlone_simple [OF inv', of gen now n] reg show ?thesis by (simp add: reconcile_match_def)
  next
    case False
    with simple.reconcile_spec [OF _ inv' False norm, of "simple_ops gen now" n] reg show ?thesis by simp
  qed
  with p show ?thesis by (simp add: ctl_ReconcileNextNodes_def)
qed

text \<open>
  Reconciliation is exact in every reachable state: the seed answers that the reported
  next nodes match exactly when the list has no repetition and holds precisely the other
  registered nodes met from its first entry forward around the ring to its last (or, for an
  empty list, when nobody else is registered). The nodes reported as disconnected, if
  registered, are left the short lifespan; nothing else in the registry changes.
\<close>

theorem reconcile_exact:
  assumes "seed_reachable (g, c)" "\<forall>m\<in>set nxt. nid_IsNormal m"
  shows "\<exists>g' c'. ctl_ReconcileNextNodes (simple_ops gen now) n nxt disc (g, c) =
       Inr (Inr (if nxt = [] then registered g \<subseteq> {n}
                 else distinct nxt \<and> set nxt = {m \<in> registered g. in_ring_range (hd nxt) (last nxt) m} - {n}), (g', c')) \<and>
     given_until (now + shortLifespan c) disc g g'"
  using reconcile_eq [OF seed_reachable_inv [OF assms(1)] assms(2), of gen now n disc] by blast

text \<open>
  C27. A node reported as disconnected leaves the network unless it shows up: from any
  reachable state, after the report the cleanup keeps it for the short lifespan and, if
  nothing happens in between, unassigns it after that.
\<close>

theorem disconnected_node_expires:
  assumes "seed_reachable (g, c)" "d \<in> registered g" "d \<in> set disc" "\<forall>m\<in>set nxt. nid_IsNormal m"
  shows "\<exists>r w' r' w''. ctl_ReconcileNextNodes (simple_ops gen now) n nxt disc (g, c) = Inr (Inr r, w') \<and>
     ctl_cleanup (simple_ops gen t) t w' = Inr (r', w'') \<and>
     (d \<in> registered (fst w'') \<longleftrightarrow> t \<le> now + shortLifespan c)"
proof -
  have inv: "seed_inv (g, c)" using seed_reachable_inv [OF assms(1)] .
  from reconcile_eq [OF inv assms(4), of gen now n disc] obtain r g' c' where
    r: "ctl_ReconcileNextNodes (simple_ops gen now) n nxt disc (g, c) = Inr (Inr r, (g', c'))"
    "given_until (now + shortLifespan c) disc g g'" by blast
  obtain e where "mget (gw_nodes g) d = Some e" using assms(2) by (auto simp: mhas_def simp flip: mhas_iff)
  then have e: "mget (gw_nodes g') d = Some (e\<lparr>lifespan := now + shortLifespan c\<rparr>)"
    using r(2) assms(3) by (simp add: given_until_def)
  obtain g'' c'' where cl: "ctl_cleanup (simple_ops gen t) t (g', c') = Inr (Inr (), (g'', c''))"
    "mget (gw_nodes g'') d = (if now + shortLifespan c < t then None else mget (gw_nodes g') d)"
    using cleanup_result [OF reconcile_inv [OF inv r(1)], of gen t t] e by (auto simp: Let_def)
  have "d \<in> registered g'' \<longleftrightarrow> t \<le> now + shortLifespan c"
    using cl(2) e by (simp add: mhas_def flip: mhas_iff)
  with r(1) cl(1) show ?thesis by fastforce
qed

subsection \<open>The service\<close>

lemma sess_roundtrip:
  assumes "nid_IsNormal n"
  shows "\<exists>s'. sess_setNodeID n s = Inr s' \<and> sess_getNodeID s' = Some n"
proof -
  obtain v where "nid_String n = Inr v" "NewNodeIDFromString v = Inr n"
    using nid_String_normal [OF assms] FromString_String [OF assms] by blast
  then show ?thesis by (simp add: sess_setNodeID_def sess_getNodeID_def)
qed

text \<open>
  A client holds one node: if identifiers can be drawn and the session can be saved, a
  request for a node succeeds in every reachable state; the node the session held is
  unassigned, the new one is registered with the normal lifespan, the session and the answer
  name it, and the client is told that it is alone exactly if it is the only node.
\<close>

theorem assign_replaces:
  assumes "seed_reachable (g, c)" "generator_ok gen"
    and "\<forall>ex. set ex \<subseteq> registered g \<longrightarrow> (\<exists>n. gen ex = Inr n)" "\<forall>s. store_Save store s = Inr ()"
  shows "\<exists>n p s' g' c'. srv_AssignNode (simple_ops gen now) store now s (g, c) =
       Inr (Inr (p, registered g' = {n}), (g', c'), s') \<and>
     sess_getNodeID s' = Some n \<and> NewNodeIDFromProto (Some p) = Inr n \<and>
     registered g' = insert n (registered g - set_option (sess_getNodeID s)) \<and>
     mget (gw_nodes g') n = Some (fresh_entry (now + normalLifespan c)) \<and>
     n \<notin> registered g - set_option (sess_getNodeID s)"
proof -
  obtain w1 where u: "(case sess_getNodeID s of None \<Rightarrow> Inr (Inr (), (g, c))
       | Some nodeID \<Rightarrow> ctl_UnassignNode (simple_ops gen now) nodeID (g, c)) = Inr (Inr (), w1)"
    and w1: "w1 = (case sess_getNodeID s of None \<Rightarrow> (g, c) | Some m \<Rightarrow> drop_node m (g, c))"
    by (cases "sess_getNodeID s") (auto simp: ctl_UnassignNode_def unassign_eq)
  obtain g1 c1 where gc1: "w1 = (g1, c1)" by (cases w1)
  have reg1: "registered g1 = registered g - set_option (sess_getNodeID s)" and ls: "normalLifespan c1 = normalLifespan c"
    using w1 gc1 by (auto split: option.splits)
  have inv1: "seed_inv (g1, c1)"
    using w1 gc1 seed_reachable_inv [OF assms(1)] drop_node_inv by (auto split: option.splits simp del: drop_node.simps)
  then have gi: "gw_inv g1" by (simp add: seed_inv_def)
  obtain n where n: "gen (mkeys (gw_nodes g1)) = Inr n" using assms(3) reg1 by (metis Diff_subset)
  then have nn: "nid_IsNormal n" "n \<notin> registered g1" using assms(2) by (auto simp: generator_ok_def)
  let ?g = "g1\<lparr>gw_nodes := mput n (fresh_entry (now + normalLifespan c)) (gw_nodes g1)\<rparr>"
  have a: "ctl_AssignNode (simple_ops gen now) now w1 = Inr (Inr (n, registered ?g = {n}), (?g, c1))"
    using assign_eq [OF gi assms(2) n, of now now c1] by (auto simp: gc1 ls)
  obtain s' where s': "sess_setNodeID n s = Inr s'" "sess_getNodeID s' = Some n" using sess_roundtrip [OF nn(1)] by blast
  obtain p where p: "nid_Proto n = Inr p" using nid_Proto_normal [OF nn(1)] by blast
  have "srv_AssignNode (simple_ops gen now) store now s (g, c) = Inr (Inr (p, registered ?g = {n}), (?g, c1), s')"
    unfolding srv_AssignNode_def u using a s'(1) p assms(4) by (simp add: sess_write_def)
  moreover have "registered ?g = insert n (registered g - set_option (sess_getNodeID s))" using reg1 by simp
  moreover have "mget (gw_nodes ?g) n = Some (fresh_entry (now + normalLifespan c))" by simp
  ultimately show ?thesis using s'(2) FromProto_Proto [OF p] nn(2) reg1 by blast
qed

subsection \<open>A seed with two nodes\<close>

definition seed_a :: NodeID where "seed_a = NodeID typeNormal 0 1"
definition seed_b :: NodeID where "seed_b = NodeID typeNormal 0 2"

definition demo_gen :: "NodeID list \<Rightarrow> NodeID result" where
  "demo_gen ex = (case defaultNodeIDGenerator [(0, 1), (0, 2), (0, 3)] ex of None \<Rightarrow> Inl ''none'' | Some n \<Rightarrow> Inr n)"

definition demo_seed :: seed_state where
  "demo_seed = (\<lparr>gw_nodes = [(seed_a, fresh_entry 30), (seed_b, fresh_entry 31)]\<rparr>, NewController 30 10 5)"

definition demo_offer :: Signal where
  "demo_offer = \<lparr>sg_DstNodeId = Some \<lparr>p_Id0 = 0, p_Id1 = 2\<rparr>, sg_SrcNodeId = Some \<lparr>p_Id0 = 0, p_Id1 = 1\<rparr>,
     sg_Content = Signal_Offer 7 0 ''sdp''\<rparr>"

lemma default_generator_ok:
  "defaultNodeIDGenerator draws ex = Some n \<Longrightarrow> nid_IsNormal n \<and> n \<notin> set ex"
  by (induction draws ex rule: defaultNodeIDGenerator.induct)
    (auto simp: Let_def NewRandomNodeID_def nid_IsNormal_def split: if_splits)

lemma demo_gen_ok: "generator_ok demo_gen"
  using default_generator_ok
  by (auto simp: generator_ok_def demo_gen_def simp del: defaultNodeIDGenerator.simps split: option.splits)

lemma demo_ids [simp]: "seed_a \<noteq> seed_b" "seed_b \<noteq> seed_a" "nid_IsNormal seed_a" "nid_IsNormal seed_b"
  by (simp_all add: seed_a_def seed_b_def nid_IsNormal_def)

lemma demo_registered [simp]: "registered (fst demo_seed) = {seed_a, seed_b}"
  by (simp add: demo_seed_def)

lemma demo_reachable: "seed_reachable (fst demo_seed, snd demo_seed)"
proof -
  let ?c = "NewController 30 10 5"
  let ?g = "\<lparr>gw_nodes = [(seed_a, fresh_entry 30)]\<rparr>"
  have inv: "gw_inv NewSimpleGateway" "gw_inv ?g" by (simp_all add: gw_inv_def NewSimpleGateway_def)
  have gen: "demo_gen (mkeys (gw_nodes NewSimpleGateway)) = Inr seed_a" "demo_gen (mkeys (gw_nodes ?g)) = Inr seed_b"
    by (simp_all add: demo_gen_def NewSimpleGateway_def NewRandomNodeID_def seed_a_def seed_b_def)
  have "ctl_AssignNode (simple_ops demo_gen 0) 0 (NewSimpleGateway, ?c) = Inr (Inr (seed_a, True), (?g, ?c))"
    using assign_eq [OF inv(1) demo_gen_ok gen(1), of 0 0 ?c] by (simp add: NewSimpleGateway_def NewController_def)
  then have 1: "seed_reachable (?g, ?c)"
    using seed_reachable.start seed_step.assign [OF demo_gen_ok] seed_reachable.step by blast
  have "ctl_AssignNode (simple_ops demo_gen 1) 1 (?g, ?c) = Inr (Inr (seed_b, False), demo_seed)"
    using assign_eq [OF inv(2) demo_gen_ok gen(2), of 1 1 ?c] by (auto simp: demo_seed_def NewController_def)
  with 1 seed_step.assign [OF demo_gen_ok] seed_reachable.step show ?thesis by fastforce
qed

lemma demo_offer_valid:
  "ctl_validateSignal demo_offer seed_a = Inr ()" "NewNodeIDFromProto (sg_DstNodeId demo_offer) = Inr seed_b"
  "\<not> is_next_offer demo_offer"
  by (simp_all add: demo_offer_def ctl_validateSignal_def NewNodeIDFromProto_def seed_a_def seed_b_def is_next_offer_def)

lemma demo_entry_b: "mget (gw_nodes (fst demo_seed)) seed_b = Some (fresh_entry 31)"
  by (simp add: demo_seed_def)


theorem signal_routed_witness:
  "ctl_SendSignal (simple_ops demo_gen 5) 5 seed_a (Some demo_offer) (fst demo_seed, snd demo_seed) =
     sent_to 5 demo_offer False seed_b (fst demo_seed, snd demo_seed)"
proof -
  have "signal_target (registered (fst demo_seed)) (is_next_offer demo_offer) seed_b seed_b"
    by (simp add: signal_target_def demo_offer_valid)
  with signal_routed [OF demo_reachable _ demo_offer_valid(1,2), of demo_gen 5] demo_offer_valid(3) show ?thesis
    by simp
qed

theorem signal_stored_and_forwarded_witness:
  "\<exists>w1 w2 w3 ch. ctl_SendSignal (simple_ops demo_gen 5) 5 seed_a (Some demo_offer) (fst demo_seed, snd demo_seed) = Inr (Inr (), w1) \<and>
     ctl_PollSignal_begin (simple_ops demo_gen 6) seed_b w1 = (Inr True, w2) \<and>
     gw_deliverWaiting (seed_handler 7) seed_b [] w2 = Inr w3 \<and>
     mget (signalChannels (snd w3)) seed_b = Some ch \<and> ch_buf ch = map se_signal (waitingSignals (fresh_entry 31)) @ [demo_offer] \<and>
     (\<exists>e'. mget (gw_nodes (fst w3)) seed_b = Some e' \<and> waitingSignals e' = [])"
  by (rule signal_stored_and_forwarded [OF demo_reachable _ demo_offer_valid demo_entry_b]) simp_all

theorem reconcile_exact_witness:
  "\<exists>g' c'. ctl_ReconcileNextNodes (simple_ops demo_gen 5) seed_a [seed_b] [seed_b] (fst demo_seed, snd demo_seed) =
       Inr (Inr True, (g', c')) \<and> given_until (5 + 10) [seed_b] (fst demo_seed) g'"
proof -
  have r: "in_ring_range seed_b seed_b m \<longleftrightarrow> m = seed_b" if "m \<in> {seed_a, seed_b}" for m
    using that by (subst in_ring_range_le) auto
  have "{m \<in> registered (fst demo_seed). in_ring_range seed_b seed_b m} - {seed_a} = {seed_b}"
    using r demo_registered by auto
  with reconcile_exact [OF demo_reachable, of "[seed_b]" demo_gen 5 seed_a "[seed_b]"] show ?thesis
    by (simp add: demo_seed_def NewController_def)
qed

theorem disconnected_node_expires_witness:
  "\<exists>r w' r' w''. ctl_ReconcileNextNodes (simple_ops demo_gen 5) seed_a [] [seed_b] (fst demo_seed, snd demo_seed) = Inr (Inr r, w') \<and>
     ctl_cleanup (simple_ops demo_gen 16) 16 w' = Inr (r', w'') \<and>
     (seed_b \<in> registered (fst w'') \<longleftrightarrow> 16 \<le> 5 + shortLifespan (snd demo_seed))"
  by (rule disconnected_node_expires [OF demo_reachable]) simp_all

theorem assign_replaces_witness:
  "\<exists>n p s' g' c'. srv_AssignNode (simple_ops demo_gen 9) \<lparr>store_Get = \<lambda>r :: nat. Inl ''none'', store_Save = \<lambda>s. Inr ()\<rparr> 9
        \<lparr>sess_nodeID = None, sess_MaxAge = 0\<rparr> (fst demo_seed, snd demo_seed) =
       Inr (Inr (p, registered g' = {n}), (g', c'), s') \<and>
     sess_getNodeID s' = Some n \<and> NewNodeIDFromProto (Some p) = Inr n \<and>
     registered g' = insert n (registered (fst demo_seed) - set_option (sess_getNodeID \<lparr>sess_nodeID = None, sess_MaxAge = 0\<rparr>)) \<and>
     mget (gw_nodes g') n = Some (fresh_entry (9 + normalLifespan (snd demo_seed))) \<and>
     n \<notin> registered (fst demo_seed) - set_option (sess_getNodeID \<lparr>sess_nodeID = None, sess_MaxAge = 0\<rparr>)"
proof (rule assign_replaces [OF demo_reachable demo_gen_ok])
  have "NodeID typeNormal 0 3 \<notin> {seed_a, seed_b}" by (simp add: seed_a_def seed_b_def)
  then show "\<forall>ex. set ex \<subseteq> registered (fst demo_seed) \<longrightarrow> (\<exists>n. demo_gen ex = Inr n)"
    unfolding demo_registered by (auto simp: demo_gen_def NewRandomNodeID_def Let_def split: option.splits)
qed simp

end
