(* ===== verification/Seed_Http.thy ===== *)
theory Seed_Http
  imports Seed_Rpc Seed_Props
begin

text \<open>
  The seed's server as its clients meet it (\<open>Server\<close> of \<open>src/seed/server/server.go\<close>): it is mounted
  on a mux, reads the session of a request, gives the request a number, logs it and hands it to the
  generated handler, which calls the methods of \<open>Seed\<close>.

  A request whose method waits in the controller is cut there, like the method: \<open>ServeHTTP\<close> is then
  \<open>Pending\<close>, and \<open>ServeHTTP_resume\<close> is the rest of it.
\<close>

subsection \<open>The mux\<close>

text \<open>
  \<open>http.ServeMux\<close> for patterns that are paths: a pattern that ends in a slash is the root of a
  tree, and the longest pattern that fits wins. A pattern can be registered once.
\<close>

type_synonym 'h ServeMux = "(string \<times> 'h) list"

definition mux_Handle :: "string \<Rightarrow> 'h \<Rightarrow> 'h ServeMux \<Rightarrow> 'h ServeMux outcome" where
  "mux_Handle pattern h mux =
     (if pattern = [] then Inl (Panic ''http: invalid pattern'')
      else if pattern \<in> set (map fst mux) then Inl (Panic ''http: multiple registrations'')
      else Inr (mux @ [(pattern, h)]))"

definition pattern_fits :: "string \<Rightarrow> string \<Rightarrow> bool" where
  "pattern_fits path pattern \<longleftrightarrow>
     pattern = path \<or> (pattern \<noteq> [] \<and> last pattern = CHR ''/'' \<and> take (length pattern) path = pattern)"

definition mux_handler :: "string \<Rightarrow> 'h ServeMux \<Rightarrow> 'h option" where
  "mux_handler path mux =
     map_option snd (fold (\<lambda>(p, h) best. if pattern_fits path p \<and>
            (case best of None \<Rightarrow> True | Some (q, _) \<Rightarrow> length q < length p) then Some (p, h) else best) mux None)"

subsection \<open>The server\<close>

record 'r server_Options =
  so_Logger :: log_attrs
  so_SessionStore :: "'r SessionStore"

record ('r, 'h) Server =
  sv_logger :: log_attrs
  sv_sessionStore :: "'r SessionStore"
  sv_connectHandler :: "'h option"

definition NewServer :: "'r server_Options \<Rightarrow> ('r, 'h) Server" where
  "NewServer options =
     \<lparr>sv_logger = so_Logger options, sv_sessionStore = so_SessionStore options, sv_connectHandler = None\<rparr>"

text \<open>A request that the mux gives to the server is a call of its \<open>ServeHTTP\<close>, \<open>target\<close>.\<close>

definition RegisterService ::
  "'b connect_lib \<Rightarrow> bool \<Rightarrow> 'w SeedServiceHandler \<Rightarrow> 't \<Rightarrow> 't ServeMux \<Rightarrow>
   ('r, 'b http_request \<Rightarrow> request_context \<Rightarrow> 'w \<Rightarrow> 'w handled) Server \<Rightarrow>
   (('r, 'b http_request \<Rightarrow> request_context \<Rightarrow> 'w \<Rightarrow> 'w handled) Server \<times> 't ServeMux) outcome" where
  "RegisterService lib first svc target mux c =
     (let (path, handler) = NewSeedServiceHandler lib first svc; c = c\<lparr>sv_connectHandler := Some handler\<rparr>
      in obind (mux_Handle path target mux) (\<lambda>mux. Inr (c, mux)))"

subsection \<open>The methods\<close>

text \<open>
  What every method does around its work: it makes its logger, takes the session out of the context,
  and reports a failure by the number of the request.
\<close>

definition context_session :: "request_context \<Rightarrow> session outcome" where
  "context_session ctx =
     (case ContextKeySession ctx of
        None \<Rightarrow> Inl (Panic ''interface conversion: interface is nil, not *session'')
      | Some s \<Rightarrow> Inr s)"

definition in_context ::
  "log_attrs \<Rightarrow> request_context \<Rightarrow> (session \<Rightarrow> ((rpc_error + 'a) \<times> 'w \<times> session) outcome) \<Rightarrow>
   ((connect_error + 'a) \<times> 'w \<times> request_context) outcome" where
  "in_context logger ctx work =
     obind (NewLogger ctx logger) (\<lambda>_. obind (context_session ctx) (\<lambda>s. obind (work s) (\<lambda>(r, w, s).
       let ctx = ctx\<lparr>ContextKeySession := Some s\<rparr>
       in case r of
            Inr a \<Rightarrow> Inr (Inr a, w, ctx)
          | Inl code \<Rightarrow> obind (ErrorByContext ctx) (\<lambda>msg. Inr (Inl (code, msg), w, ctx)))))"

definition reply_with :: "('a \<Rightarrow> 'b) \<Rightarrow> ((rpc_error + 'a) \<times> 'w \<times> session) outcome \<Rightarrow> ((rpc_error + 'b) \<times> 'w \<times> session) outcome" where
  "reply_with f r = obind r (\<lambda>(r, x). Inr (map_sum id f r, x))"

text \<open>What \<open>PollSignal\<close> sends before it calls the controller: an empty message, if the session has a node.\<close>

definition first_message :: "bool \<Rightarrow> request_context \<Rightarrow> Signal list list" where
  "first_message first ctx =
     (case ContextKeySession ctx of
        Some s \<Rightarrow> if sess_getNodeID s \<noteq> None \<and> first then [[]] else []
      | None \<Rightarrow> [])"

text \<open>The server's own methods in the place of all six that it embeds.\<close>

definition server_service ::
  "'g GatewayOps \<Rightarrow> 'r SessionStore \<Rightarrow> time \<Rightarrow> log_attrs \<Rightarrow> ('g \<times> ControllerImpl) SeedServiceHandler" where
  "server_service gw store now logger = UnimplementedSeedServiceHandler
     \<lparr>svc_AssignNode := (\<lambda>ctx w. in_context logger ctx (\<lambda>s.
        reply_with (\<lambda>(nodeID, isAlone). AssignNodeResponse nodeID isAlone) (srv_AssignNode gw store now s w))),
      svc_UnassignNode := (\<lambda>ctx w. in_context logger ctx (\<lambda>s.
        reply_with (\<lambda>_. UnassignNodeResponse) (srv_UnassignNode gw store s w))),
      svc_Keepalive := (\<lambda>ctx w. in_context logger ctx (\<lambda>s.
        let (r, w) = srv_Keepalive_begin gw now s w in Inr (r, w, s))),
      svc_ReconcileNextNodes := (\<lambda>(nextNodes, disconnected) ctx w. in_context logger ctx (\<lambda>s.
        reply_with ReconcileNextNodesResponse (srv_ReconcileNextNodes gw nextNodes disconnected s w))),
      svc_SendSignal := (\<lambda>signal ctx w. in_context logger ctx (\<lambda>s.
        reply_with (\<lambda>_. SendSignalResponse) (srv_SendSignal gw now signal s w))),
      svc_PollSignal := (\<lambda>first ctx w.
        obind (in_context logger ctx (\<lambda>s. let (r, w) = srv_PollSignal_begin gw first s w in Inr (r, w, s)))
          (\<lambda>r. Inr (first_message first ctx, r)))\<rparr>"

text \<open>The rest of \<open>Keepalive\<close> after the controller has woken up, and what is written then.\<close>

definition keepalive_rest ::
  "'b connect_lib \<Rightarrow> 'b http_request \<Rightarrow> 'g GatewayOps \<Rightarrow> 'r SessionStore \<Rightarrow> log_attrs \<Rightarrow> wake \<Rightarrow> NodeID \<Rightarrow>
   request_context \<Rightarrow> 'g \<times> ControllerImpl \<Rightarrow> ('g \<times> ControllerImpl) handled" where
  "keepalive_rest lib req gw store logger ev nodeID ctx w =
     obind (in_context logger ctx (\<lambda>s. reply_with KeepaliveResponse (srv_Keepalive_finish gw store ev nodeID s w)))
       (\<lambda>(r, w, ctx). Inr (Answered (unary_answer lib req r), w, ctx))"

subsection \<open>A request\<close>

datatype log_value = LString string | LNumber int

record log_entry =
  le_msg :: string
  le_logger :: log_attrs
  le_attrs :: "(string \<times> log_value) list"

text \<open>A request on its way: the counting writer, its logger and what was logged.\<close>

record 'w flight =
  fl_bypass :: "'w bypass"
  fl_logger :: log_attrs
  fl_log :: "log_entry list"

datatype 'w http_run =
    Served "unit outcome" 'w "log_entry list"
  | Pending request_context rpc_wait "'w flight"

datatype 'w begun = Refused "unit outcome" 'w "log_entry list" | Flying request_context "'w flight"

definition request_entry :: "'b http_request \<Rightarrow> log_attrs \<Rightarrow> log_entry" where
  "request_entry req logger =
     \<lparr>le_msg = ''request'', le_logger = logger,
      le_attrs = [(''from'', LString (rq_RemoteAddr req)), (''method'', LString (rq_Method req)),
                  (''uri'', LString (rq_RequestURI req)), (''contentLength'', LNumber (rq_ContentLength req))]\<rparr>"

text \<open>Up to the call of the handler; \<open>flusher\<close> tells whether the response can be flushed.\<close>

definition ServeHTTP_begin ::
  "'w ResponseWriter \<Rightarrow> bool \<Rightarrow> 63 word \<Rightarrow> ('b http_request, 'h) Server \<Rightarrow> 'b http_request \<Rightarrow> 'w \<Rightarrow> 'w begun" where
  "ServeHTTP_begin wr flusher draw c req resp =
     (case newSession (sv_sessionStore c) req of
        Inl err \<Rightarrow>
          (let entry = \<lparr>le_msg = ''failed to create session'', le_logger = sv_logger c, le_attrs = [(''error'', LString err)]\<rparr>;
               (r, resp) = resp_run wr (http_Error ''session error'' 500) resp
           in Refused r resp [entry])
      | Inr s \<Rightarrow>
          (let ctxWithSession = \<lparr>contextKeyRequestID = None, contextKeyNodeID = None, ContextKeySession = Some s\<rparr>;
               nodeID = sess_getNodeID s;
               ctx = NewLoggerContext draw nodeID ctxWithSession
           in case NewLogger ctx (sv_logger c) of
                Inl f \<Rightarrow> Refused (Inl f) resp []
              | Inr logger \<Rightarrow>
                  let entries = [request_entry req logger]
                  in if \<not> flusher then Refused (Inl (Panic ''interface conversion: missing method Flush'')) resp entries
                     else Flying ctx \<lparr>fl_bypass = new_bypass resp, fl_logger = logger, fl_log = entries\<rparr>))"

text \<open>
  The deferred entry about the response; it is logged if the handler panics, too. After a panic of the
  handler, from which the HTTP server recovers, the state of the seed is left open (\<open>None\<close>).
\<close>

definition ServeHTTP_end :: "unit outcome \<Rightarrow> 'w flight \<Rightarrow> 'w http_run" where
  "ServeHTTP_end r fl =
     Served r (bp_ResponseWriter (fl_bypass fl)) (fl_log fl @
       [\<lparr>le_msg = ''response'', le_logger = fl_logger fl,
         le_attrs = [(''statusCode'', LNumber (statusCode (fl_bypass fl))), (''bodySize'', LNumber (int (bodySize (fl_bypass fl))))]\<rparr>])"

definition flight_write :: "'w ResponseWriter \<Rightarrow> resp_op list \<Rightarrow> 'w flight \<Rightarrow> unit outcome \<times> 'w flight" where
  "flight_write wr ops fl =
     (let (r, b) = resp_run (bypass_writer wr) ops (fl_bypass fl) in (r, fl\<lparr>fl_bypass := b\<rparr>))"

definition ServeHTTP_resume :: "'w ResponseWriter \<Rightarrow> resp_op list \<Rightarrow> 'w flight \<Rightarrow> 'w http_run" where
  "ServeHTTP_resume wr ops fl = (let (r, fl) = flight_write wr ops fl in ServeHTTP_end r fl)"

definition ServeHTTP ::
  "'w ResponseWriter \<Rightarrow> bool \<Rightarrow> 63 word \<Rightarrow>
   ('b http_request, 'b http_request \<Rightarrow> request_context \<Rightarrow> 's \<Rightarrow> 's handled) Server \<Rightarrow> 'b http_request \<Rightarrow> 'w \<Rightarrow> 's \<Rightarrow>
   'w http_run \<times> 's option" where
  "ServeHTTP wr flusher draw c req resp w =
     (case ServeHTTP_begin wr flusher draw c req resp of
        Refused r resp entries \<Rightarrow> (Served r resp entries, Some w)
      | Flying ctx fl \<Rightarrow>
          (case sv_connectHandler c of
             None \<Rightarrow> (ServeHTTP_end (Inl (Panic ''nil pointer dereference'')) fl, Some w)
           | Some handler \<Rightarrow>
               (case handler req ctx w of
                  Inl f \<Rightarrow> (ServeHTTP_end (Inl f) fl, None)
                | Inr (Answered ops, w, _) \<Rightarrow> (ServeHTTP_resume wr ops fl, Some w)
                | Inr (Waits ops wait, w, ctx) \<Rightarrow>
                    (case flight_write wr ops fl of
                       (Inl f, fl) \<Rightarrow> (ServeHTTP_end (Inl f) fl, None)
                     | (Inr _, fl) \<Rightarrow> (Pending ctx wait fl, Some w)))))"

text \<open>One turn of the loop of \<open>PollSignal\<close>: a signal is written and the request goes on, or it ends.\<close>

definition poll_rest ::
  "'b connect_lib \<Rightarrow> 'b http_request \<Rightarrow> 'w ResponseWriter \<Rightarrow> 'g GatewayOps \<Rightarrow> wake \<Rightarrow> request_context \<Rightarrow> NodeID \<Rightarrow> bool \<Rightarrow>
   'w flight \<Rightarrow> 'g \<times> ControllerImpl \<Rightarrow> ('w http_run \<times> ('g \<times> ControllerImpl)) outcome" where
  "poll_rest lib req wr gw ev ctx nodeID spawn fl w =
     obind (ctl_PollSignal_turn ev nodeID w) (\<lambda>(x, w).
       case x of
         Some signal \<Rightarrow>
           (case flight_write wr (cn_message lib req [signal]) fl of
              (Inl f, fl) \<Rightarrow> Inl f
            | (Inr _, fl) \<Rightarrow> Inr (Pending ctx (OnSignals nodeID spawn) fl, w))
       | None \<Rightarrow> Inr (ServeHTTP_resume wr (cn_end lib req None) fl, ctl_PollSignal_end gw nodeID w))"

subsection \<open>The seed's routine\<close>

text \<open>The controller's loop behind \<open>time.NewTicker\<close>, which panics on an interval that is not positive.\<close>

definition seed_Run :: "'g GatewayOps \<Rightarrow> time option list \<Rightarrow> 'g \<times> ControllerImpl \<Rightarrow> (bool \<times> ('g \<times> ControllerImpl)) outcome" where
  "seed_Run gw evs w =
     (if ctl_interval (snd w) \<le> 0 then Inl (Panic ''non-positive interval for NewTicker'') else ctl_Run gw evs w)"

end
