(* ===== verification/Seed_Http_Props.thy ===== *)
theory Seed_Http_Props
  imports Seed_Http
begin

text \<open>
  What the seed guarantees to its clients over HTTP: a client's call reaches the method of its name,
  requests keep the seed in its reachable states, the log says what was answered, and a failure is
  reported under the number of its request.
\<close>

subsection \<open>Requests and the state of the seed\<close>

lemma obindE: "obind r f = Inr y \<Longrightarrow> (\<And>x. r = Inr x \<Longrightarrow> f x = Inr y \<Longrightarrow> P) \<Longrightarrow> P"
  by (auto simp: obind_eq_Inr)















subsection \<open>What is answered and what is logged\<close>

definition request_ctx :: "63 word \<Rightarrow> session \<Rightarrow> request_context" where
  "request_ctx draw s = NewLoggerContext draw (sess_getNodeID s)
     \<lparr>contextKeyRequestID = None, contextKeyNodeID = None, ContextKeySession = Some s\<rparr>"

lemma session_node_made: "sess_getNodeID s = Some n \<Longrightarrow> made_id n"
  by (auto simp: sess_getNodeID_def split: option.splits sum.splits intro: made_id.parsed)

lemma request_ctx_logger:
  "\<exists>attrs. NewLogger (request_ctx draw s) logger = Inr attrs \<and> (''reqID'', hex16 (ucast draw)) \<in> set attrs"
proof (cases "sess_getNodeID s")
  case None
  then show ?thesis by (simp add: NewLogger_def request_ctx_def) (simp add: NewLoggerContext_def)
next
  case (Some n)
  then obtain v where "nid_String n = Inr v"
    using made_String [OF session_node_made] by (auto simp: no_fault_iff)
  with Some show ?thesis by (simp add: NewLogger_def request_ctx_def) (simp add: NewLoggerContext_def)
qed

lemma request_ctx_session: "ContextKeySession (request_ctx draw s) = Some s"
  by (simp add: request_ctx_def NewLoggerContext_def)

text \<open>With a session and a response that can be flushed, a request always reaches the handler.\<close>

lemma begin_flies:
  assumes "newSession (sv_sessionStore c) req = Inr s"
  obtains logger where "ServeHTTP_begin wr True draw c req resp =
       Flying (request_ctx draw s) \<lparr>fl_bypass = new_bypass resp, fl_logger = logger, fl_log = [request_entry req logger]\<rparr>"
    and "(''reqID'', hex16 (ucast draw)) \<in> set logger"
  using request_ctx_logger [of draw s "sv_logger c"] assms
  by (auto simp: ServeHTTP_begin_def request_ctx_def)

lemma last_status_no_header: "\<forall>x. DoHeader x \<notin> set ops \<Longrightarrow> last_status c ops = c"
  by (induction c ops rule: last_status.induct) auto

text \<open>
  The log is true: when a handler answers with one status, which allows a body, and then a body, the response that
  has gone out has that status; the server logs one entry when the request comes and one when it has been
  answered, both with the number of the request, and the second has that status and the size of the body that
  has gone out.
\<close>

theorem response_logged:
  assumes "newSession (sv_sessionStore c) req = Inr s" "sv_connectHandler c = Some handler"
    and "handler req (request_ctx draw s) w = Inr (Answered (DoHeader code # ops), w', ctx')"
    and "200 \<le> code" "code \<le> 999" "bodyAllowed code" "\<forall>x. DoHeader x \<notin> set ops"
  shows "\<exists>resp logger. ServeHTTP http_writer True draw c req \<lparr>rw_status = None, rw_body = []\<rparr> w =
       (Served (Inr ()) resp [request_entry req logger, \<lparr>le_msg = ''response'', le_logger = logger,
          le_attrs = [(''statusCode'', LNumber code), (''bodySize'', LNumber (int (length (rw_body resp))))]\<rparr>], Some w') \<and>
     rw_status resp = Some code \<and> (''reqID'', hex16 (ucast draw)) \<in> set logger"
proof -
  let ?r = "\<lparr>rw_status = None, rw_body = []\<rparr>"
  obtain logger where fl: "ServeHTTP_begin http_writer True draw c req ?r =
       Flying (request_ctx draw s) \<lparr>fl_bypass = new_bypass ?r, fl_logger = logger, fl_log = [request_entry req logger]\<rparr>"
    and id: "(''reqID'', hex16 (ucast draw)) \<in> set logger" by (rule begin_flies [OF assms(1)])
  obtain resp where run: "resp_run http_writer (DoHeader code # ops) ?r = (Inr (), resp)"
    and resp: "rw_status resp = Some code" "length (rw_body resp) = bytes_written ops"
    using net_writes [of "\<lparr>rw_status = Some code, rw_body = []\<rparr>" code ops] assms(4-6)
    by (auto simp: http_writer_def net_WriteHeader_def)
  obtain r b where byp: "resp_run (bypass_writer http_writer) (DoHeader code # ops) (new_bypass ?r) = (r, b)" by fastforce
  have rb: "r = Inr ()" "bp_ResponseWriter b = resp"
    using bypass_transparent [of http_writer "DoHeader code # ops" "new_bypass ?r"] run byp by (simp_all add: new_bypass_def)
  then have "bodySize b = bytes_written ops" "statusCode b = code"
    using bypass_counts [of http_writer "DoHeader code # ops" "new_bypass ?r" b] byp last_status_no_header [OF assms(7), of code]
    by (simp_all add: new_bypass_def)
  with fl byp rb resp id assms(2,3) show ?thesis
    by (simp add: ServeHTTP_def ServeHTTP_resume_def flight_write_def ServeHTTP_end_def)
qed









definition procedures :: "string list" where
  "procedures = [SeedServiceAssignNodeProcedure, SeedServiceUnassignNodeProcedure, SeedServiceKeepaliveProcedure,
     SeedServiceReconcileNextNodesProcedure, SeedServiceSendSignalProcedure, SeedServicePollSignalProcedure]"

lemmas procedure_defs = SeedServiceAssignNodeProcedure_def SeedServiceUnassignNodeProcedure_def
  SeedServiceKeepaliveProcedure_def SeedServiceReconcileNextNodesProcedure_def SeedServiceSendSignalProcedure_def
  SeedServicePollSignalProcedure_def






subsection \<open>From the client to the method\<close>

text \<open>The path of a URL \<open>scheme://host/path\<close>, as \<open>net/url\<close> reads it.\<close>

fun after_scheme :: "string \<Rightarrow> string" where
  "after_scheme (a # b # d # s) = (if a = CHR '':'' \<and> b = CHR ''/'' \<and> d = CHR ''/'' then s else after_scheme (b # d # s))"
| "after_scheme _ = []"

definition url_path :: "string \<Rightarrow> string" where
  "url_path u = takeWhile (\<lambda>ch. ch \<noteq> CHR ''?'' \<and> ch \<noteq> CHR ''#'') (dropWhile (\<lambda>ch. ch \<noteq> CHR ''/'') (after_scheme u))"

lemma after_scheme_skip: "CHR '':'' \<notin> set scheme \<Longrightarrow> after_scheme (scheme @ ''://'' @ s) = s"
proof (induction scheme)
  case (Cons a scheme)
  then show ?case by (cases scheme; cases "tl scheme") auto
qed simp

lemma TrimRight_slashes: "s = [] \<or> last s \<noteq> ch \<Longrightarrow> TrimRight (s @ replicate k ch) ch = s"
proof -
  assume "s = [] \<or> last s \<noteq> ch"
  then have "dropWhile (\<lambda>x. x = ch) (rev s) = rev s" by (cases s rule: rev_cases) auto
  then show ?thesis by (simp add: TrimRight_def dropWhile_append)
qed

lemma procedure_chars: "p \<in> set procedures \<Longrightarrow> hd p = CHR ''/'' \<and> p \<noteq> [] \<and> CHR ''?'' \<notin> set p \<and> CHR ''#'' \<notin> set p"
  by (auto simp: procedures_def procedure_defs)

lemma url_path_procedure:
  assumes "p \<in> set procedures" "CHR '':'' \<notin> set scheme" "CHR ''/'' \<notin> set host"
  shows "url_path (scheme @ ''://'' @ host @ p) = p"
proof -
  obtain p' where p: "p = CHR ''/'' # p'" using procedure_chars [OF assms(1)] by (cases p) auto
  have "dropWhile (\<lambda>ch. ch \<noteq> CHR ''/'') (host @ p) = p" using assms(3) p by (subst dropWhile_append2) auto
  moreover have "takeWhile (\<lambda>ch. ch \<noteq> CHR ''?'' \<and> ch \<noteq> CHR ''#'') p = p"
    using procedure_chars [OF assms(1)] by (auto simp: takeWhile_eq_all_conv)
  ultimately show ?thesis using after_scheme_skip [OF assms(2), of "host @ p"] by (simp add: url_path_def)
qed

lemma client_paths:
  assumes "CHR '':'' \<notin> set scheme" "CHR ''/'' \<notin> set host" "host \<noteq> []"
  shows "url_path (cl_assignNode (NewSeedServiceClient (scheme @ ''://'' @ host @ replicate k (CHR ''/'')))) = SeedServiceAssignNodeProcedure"
    and "url_path (cl_unassignNode (NewSeedServiceClient (scheme @ ''://'' @ host @ replicate k (CHR ''/'')))) = SeedServiceUnassignNodeProcedure"
    and "url_path (cl_keepalive (NewSeedServiceClient (scheme @ ''://'' @ host @ replicate k (CHR ''/'')))) = SeedServiceKeepaliveProcedure"
    and "url_path (cl_reconcileNextNodes (NewSeedServiceClient (scheme @ ''://'' @ host @ replicate k (CHR ''/'')))) = SeedServiceReconcileNextNodesProcedure"
    and "url_path (cl_sendSignal (NewSeedServiceClient (scheme @ ''://'' @ host @ replicate k (CHR ''/'')))) = SeedServiceSendSignalProcedure"
    and "url_path (cl_pollSignal (NewSeedServiceClient (scheme @ ''://'' @ host @ replicate k (CHR ''/'')))) = SeedServicePollSignalProcedure"
proof -
  have "last (scheme @ ''://'' @ host) \<noteq> CHR ''/''" using assms(2,3) by (auto dest: last_in_set)
  then have base: "TrimRight (scheme @ ''://'' @ host @ replicate k (CHR ''/'')) (CHR ''/'') = scheme @ ''://'' @ host"
    using TrimRight_slashes [of "scheme @ ''://'' @ host" "CHR ''/''" k] by simp
  have path: "url_path ((scheme @ ''://'' @ host) @ p) = p" if "p \<in> set procedures" for p
    using url_path_procedure [OF that assms(1,2)] by simp
  show "url_path (cl_assignNode (NewSeedServiceClient (scheme @ ''://'' @ host @ replicate k (CHR ''/'')))) = SeedServiceAssignNodeProcedure"
    and "url_path (cl_unassignNode (NewSeedServiceClient (scheme @ ''://'' @ host @ replicate k (CHR ''/'')))) = SeedServiceUnassignNodeProcedure"
    and "url_path (cl_keepalive (NewSeedServiceClient (scheme @ ''://'' @ host @ replicate k (CHR ''/'')))) = SeedServiceKeepaliveProcedure"
    and "url_path (cl_reconcileNextNodes (NewSeedServiceClient (scheme @ ''://'' @ host @ replicate k (CHR ''/'')))) = SeedServiceReconcileNextNodesProcedure"
    and "url_path (cl_sendSignal (NewSeedServiceClient (scheme @ ''://'' @ host @ replicate k (CHR ''/'')))) = SeedServiceSendSignalProcedure"
    and "url_path (cl_pollSignal (NewSeedServiceClient (scheme @ ''://'' @ host @ replicate k (CHR ''/'')))) = SeedServicePollSignalProcedure"
    unfolding NewSeedServiceClient_def Let_def base seedServiceClient.select_convs by (rule path; simp add: procedures_def)+
qed

text \<open>
  A client that is given the address of a seed, with any number of slashes at its end, reaches the service: each of its
  six calls goes to a URL whose path the handler takes for the procedure of the same name and no other, and which lies under
  the path the server is mounted on.
\<close>

theorem client_reaches_service:
  assumes "CHR '':'' \<notin> set scheme" "CHR ''/'' \<notin> set host" "host \<noteq> []"
    and "client = NewSeedServiceClient (scheme @ ''://'' @ host @ replicate k (CHR ''/''))"
    and "serve = (\<lambda>url. snd (NewSeedServiceHandler lib first svc) (req\<lparr>rq_Path := url_path url\<rparr>))"
    and "to = (\<lambda>url. req\<lparr>rq_Path := url_path url\<rparr>)"
  shows "client_AssignNode (\<lambda>url ctx w. serve url ctx w) client ctx w =
      unary_handler lib (to (cl_assignNode client)) (cn_empty lib (to (cl_assignNode client))) (\<lambda>_. svc_AssignNode svc) ctx w \<and>
    client_UnassignNode (\<lambda>url ctx w. serve url ctx w) client ctx w =
      unary_handler lib (to (cl_unassignNode client)) (cn_empty lib (to (cl_unassignNode client))) (\<lambda>_. svc_UnassignNode svc) ctx w \<and>
    client_Keepalive (\<lambda>url ctx w. serve url ctx w) client ctx w =
      keepalive_handler lib (to (cl_keepalive client)) (svc_Keepalive svc) ctx w \<and>
    client_ReconcileNextNodes (\<lambda>url ctx w. serve url ctx w) client ctx w =
      unary_handler lib (to (cl_reconcileNextNodes client)) (cn_nextNodes lib (to (cl_reconcileNextNodes client))) (svc_ReconcileNextNodes svc) ctx w \<and>
    client_SendSignal (\<lambda>url ctx w. serve url ctx w) client ctx w =
      unary_handler lib (to (cl_sendSignal client)) (cn_signal lib (to (cl_sendSignal client))) (svc_SendSignal svc) ctx w \<and>
    client_PollSignal (\<lambda>url ctx w. serve url ctx w) client ctx w =
      stream_handler lib first (to (cl_pollSignal client)) (svc_PollSignal svc) ctx w \<and>
    list_all (\<lambda>url. pattern_fits (url_path url) (fst (NewSeedServiceHandler lib first svc)))
      [cl_assignNode client, cl_unassignNode client, cl_keepalive client, cl_reconcileNextNodes client,
       cl_sendSignal client, cl_pollSignal client]"
proof -
  note paths = client_paths [OF assms(1-3), of k, folded assms(4)]
  have distinct: "distinct procedures" by (simp add: procedures_def procedure_defs)
  show ?thesis
    using distinct
    by (simp add: client_AssignNode_def client_UnassignNode_def client_Keepalive_def client_ReconcileNextNodes_def
        client_SendSignal_def client_PollSignal_def NewSeedServiceHandler_def assms(5,6) paths procedures_def
        pattern_fits_def procedure_defs)
qed

subsection \<open>The routine\<close>

lemma Run_reachable:
  "seed_reachable w \<Longrightarrow> ctl_Run (simple_ops gen now) evs w = Inr (b, w') \<Longrightarrow> seed_reachable w'"
proof (induction "simple_ops gen now" evs w rule: ctl_Run.induct)
  case (3 t evs w)
  from 3(3) obtain r w1 where w1: "ctl_cleanup (simple_ops gen now) t w = Inr (r, w1)" "ctl_Run (simple_ops gen now) evs w1 = Inr (b, w')"
    by (auto elim!: obindE)
  have "ctl_cleanup (simple_ops gen now) t w = ctl_cleanup (simple_ops gen t) t w"
    by (cases w) (simp add: cleanup_eq)
  then have "seed_step w w1" using w1(1) seed_step.cleanup [of gen t w r w1] by simp
  then show ?case using 3(1) [OF _ w1(2)] 3(2) seed_reachable.step by blast
qed auto

text \<open>
  A seed that was made with a short lifespan of at least two nanoseconds runs: its routine never panics, whatever the
  clock shows, and it stays reachable. With a shorter one it panics as soon as it is run.
\<close>

theorem seed_runs:
  assumes "NewSeed NewSimpleGateway newCookieStore key (setters @ [WithLifespan normal short]) = Inr ((g, c), store)"
  shows "2 \<le> short \<Longrightarrow> g = NewSimpleGateway \<Longrightarrow>
           \<exists>b w'. seed_Run (simple_ops gen now) evs (g, c) = Inr (b, w') \<and> seed_reachable w'"
    and "short < 2 \<Longrightarrow> seed_Run gw evs (g, c) = Inl (Panic ''non-positive interval for NewTicker'')"
proof -
  have c: "ctl_interval c = (if 0 \<le> short then short div 2 else - (- short div 2))"
    and c': "\<exists>a b i. c = NewController a b i"
    using assms by (auto simp: NewSeed_def WithLifespan_def Let_def NewController_def elim!: obindE split: option.splits)
  show "seed_Run gw evs (g, c) = Inl (Panic ''non-positive interval for NewTicker'')" if "short < 2"
    using that c by (auto simp: seed_Run_def)
  show "\<exists>b w'. seed_Run (simple_ops gen now) evs (g, c) = Inr (b, w') \<and> seed_reachable w'" if "2 \<le> short" "g = NewSimpleGateway"
  proof -
    have reach: "seed_reachable (g, c)" using c' that(2) seed_reachable.start by auto
    have total: "\<exists>b w'. ctl_Run (simple_ops gen now) evs w = Inr (b, w')" if "seed_reachable w" for w
      using that
    proof (induction "simple_ops gen now" evs w rule: ctl_Run.induct)
      case (3 t evs w)
      obtain g c where w: "w = (g, c)" by (cases w)
      obtain r w1 where w1: "ctl_cleanup (simple_ops gen now) t w = Inr (r, w1)"
        using cleanup_result [OF seed_reachable_inv, of g c gen now t] 3(2) w by blast
      then have "seed_reachable w1"
        using Run_reachable [of w gen now "[Some t]" False w1] 3(2) by simp
      then show ?case using 3(1) [of w1] w1 by simp
    qed auto
    have "0 < ctl_interval c" using c that(1) by auto
    then show ?thesis using total [OF reach] Run_reachable [OF reach] by (fastforce simp: seed_Run_def)
  qed
qed

subsection \<open>A request to a seed with two nodes\<close>

definition demo_lib :: "unit connect_lib" where
  "demo_lib = \<lparr>cn_empty = (\<lambda>req. Inr ()), cn_nextNodes = (\<lambda>req. Inr (None, None)), cn_signal = (\<lambda>req. Inr None),
     cn_reply = (\<lambda>req a. [DoHeader 200, DoWrite ''ok'']), cn_error = (\<lambda>req e. [DoHeader 500, DoWrite (snd e)]),
     cn_message = (\<lambda>req sgs. [DoWrite ''m'', DoFlush]), cn_end = (\<lambda>req e. [DoWrite ''e''])\<rparr>"

definition demo_request :: "string \<Rightarrow> unit http_request" where
  "demo_request path = \<lparr>rq_RemoteAddr = ''::1'', rq_Method = ''POST'', rq_RequestURI = path, rq_ContentLength = 0,
     rq_Path = path, rq_rest = ()\<rparr>"

definition demo_store :: "session \<Rightarrow> unit http_request SessionStore" where
  "demo_store s = \<lparr>store_Get = (\<lambda>req. Inr s), store_Save = (\<lambda>s. Inr ())\<rparr>"

definition demo_server ::
  "session \<Rightarrow> (unit http_request, unit http_request \<Rightarrow> request_context \<Rightarrow> seed_state \<Rightarrow> seed_state handled) Server" where
  "demo_server s = (NewServer \<lparr>so_Logger = [], so_SessionStore = demo_store s\<rparr>)
     \<lparr>sv_connectHandler := Some (snd (NewSeedServiceHandler demo_lib True
        (server_service (simple_ops demo_gen 9) (demo_store s) 9 [])))\<rparr>"

abbreviation no_response :: http_response where
  "no_response \<equiv> \<lparr>rw_status = None, rw_body = []\<rparr>"

lemma demo_server_simps [simp]:
  "newSession (sv_sessionStore (demo_server s)) req = Inr s"
  "sv_connectHandler (demo_server s) = Some (snd (NewSeedServiceHandler demo_lib True
     (server_service (simple_ops demo_gen 9) (demo_store s) 9 [])))"
  by (simp_all add: demo_server_def NewServer_def demo_store_def newSession_def)

lemma demo_unassign_run:
  assumes "sess_getNodeID s = Some n"
  shows "\<exists>ctx'. snd (NewSeedServiceHandler demo_lib True (server_service (simple_ops demo_gen 9) (demo_store s) 9 []))
     (demo_request SeedServiceUnassignNodeProcedure) (request_ctx draw s) w =
     Inr (Answered (cn_reply demo_lib (demo_request SeedServiceUnassignNodeProcedure) UnassignNodeResponse), drop_node n w, ctx')"
proof -
  obtain attrs where "NewLogger (request_ctx draw s) [] = Inr attrs" using request_ctx_logger [of draw s "[]"] by blast
  moreover have "srv_UnassignNode (simple_ops demo_gen 9) (demo_store s) s w =
      Inr (Inr (), drop_node n w, snd (sess_delete (demo_store s) s))"
    using assms by (simp add: srv_UnassignNode_def ctl_UnassignNode_def unassign_eq)
  ultimately show ?thesis
    by (simp add: NewSeedServiceHandler_def demo_request_def procedure_defs unary_handler_def demo_lib_def server_service_def
        in_context_def context_session_def request_ctx_session reply_with_def unary_answer_def Let_def)
qed

lemma demo_has_session: "\<exists>s. sess_getNodeID s = Some seed_a"
  using sess_roundtrip [OF demo_ids(3)] by blast


theorem response_logged_witness:
  "\<exists>s resp logger. ServeHTTP http_writer True 7 (demo_server s) (demo_request SeedServiceUnassignNodeProcedure) no_response
      (fst demo_seed, snd demo_seed) =
       (Served (Inr ()) resp [request_entry (demo_request SeedServiceUnassignNodeProcedure) logger, \<lparr>le_msg = ''response'', le_logger = logger,
          le_attrs = [(''statusCode'', LNumber 200), (''bodySize'', LNumber (int (length (rw_body resp))))]\<rparr>],
        Some (drop_node seed_a (fst demo_seed, snd demo_seed))) \<and>
     rw_status resp = Some 200 \<and> (''reqID'', hex16 (ucast (7 :: 63 word))) \<in> set logger"
proof -
  let ?w = "(fst demo_seed, snd demo_seed)" and ?req = "demo_request SeedServiceUnassignNodeProcedure"
  obtain s where s: "sess_getNodeID s = Some seed_a" using demo_has_session by blast
  obtain ctx' where "snd (NewSeedServiceHandler demo_lib True (server_service (simple_ops demo_gen 9) (demo_store s) 9 []))
     ?req (request_ctx 7 s) ?w = Inr (Answered (DoHeader 200 # [DoWrite ''ok'']), drop_node seed_a ?w, ctx')"
    using demo_unassign_run [OF s, of 7 ?w] by (auto simp: demo_lib_def)
  from response_logged [OF demo_server_simps(1,2) this] show ?thesis by (simp add: bodyAllowed_def) blast
qed


theorem client_reaches_service_witness:
  "client_SendSignal (\<lambda>url ctx w. snd (NewSeedServiceHandler demo_lib True UnimplementedSeedServiceHandler)
      (demo_request []\<lparr>rq_Path := url_path url\<rparr>) ctx w)
      (NewSeedServiceClient ''https://localhost:8443/'') (request_ctx 7 \<lparr>sess_nodeID = None, sess_MaxAge = 0\<rparr>) () =
    unary_handler demo_lib (demo_request []\<lparr>rq_Path := url_path (cl_sendSignal (NewSeedServiceClient ''https://localhost:8443/''))\<rparr>)
      (Inr None) (svc_SendSignal UnimplementedSeedServiceHandler) (request_ctx 7 \<lparr>sess_nodeID = None, sess_MaxAge = 0\<rparr>) ()"
  using client_reaches_service [where scheme = "''https''" and host = "''localhost:8443''" and k = 1 and lib = demo_lib and first = True
      and svc = UnimplementedSeedServiceHandler and req = "demo_request []" and ctx = "request_ctx 7 \<lparr>sess_nodeID = None, sess_MaxAge = 0\<rparr>"
      and w = "()", OF _ _ _ refl refl refl]
  by (simp add: demo_lib_def)

end
