(* ===== verification/Routing1D.thy ===== *)
theory Routing1D
  imports Packets Map_Helper
begin

text \<open>
  Routing on the ring of identifiers (\<open>src/node/internal/network/routing/routing_1d.go\<close>): the
  connected nodes with what they report of their own connections, the sorted table of
  reachable identifiers, the next nodes on both sides, and the choice of the next step.

  The callback \<open>reconcileNextNodes\<close> of the configuration is an argument, as is the clock.
  Scores are integers; a product with a \<open>float64\<close> rate is computed on reals.
\<close>

definition linksMin :: nat where "linksMin = 4"
definition linkKeepLinkDuration :: duration where "linkKeepLinkDuration = 60000000000"
definition ONE_SIDE_NEXT_COUNT :: nat where "ONE_SIDE_NEXT_COUNT = 2"

definition requireUpdateConnections :: int where "requireUpdateConnections = 0x1"
definition requireExchangeRouting :: int where "requireExchangeRouting = 0x2"

definition levelRanges :: "NodeID list" where
  "levelRanges = map (\<lambda>hi. NewNormalNodeID hi 0xFFFFFFFFFFFFFFFF)
     [0x0001FFFFFFFFFFFF, 0x0007FFFFFFFFFFFF, 0x001FFFFFFFFFFFFF, 0x007FFFFFFFFFFFFF,
      0x01FFFFFFFFFFFFFF, 0x07FFFFFFFFFFFFFF, 0x1FFFFFFFFFFFFFFF, 0x7FFFFFFFFFFFFFFF]"

definition levelRangesCount :: nat where "levelRangesCount = length levelRanges"

record neighborhoodInfo =
  ni_timestamp :: time
  ni_level :: int
  secondNeighborhoods :: "NodeID list"
  oddScore :: int
  scoreByRecv :: int

record routeInfo1D =
  ri_nodeID :: NodeID
  ri_firstNeighborhood :: NodeID
  ri_level :: int
  scoreBySend :: int

record routing1D =
  r1_localNodeID :: NodeID
  nextNodeMatched :: bool
  frontwardNextNodeIDs :: "NodeID list"
  backwardNextNodeIDs :: "NodeID list"
  neighborhoodInfos :: "(NodeID, neighborhoodInfo) gomap"
  routeInfos :: "routeInfo1D list"

type_synonym reconcile_fn = "NodeID list \<Rightarrow> NodeID list \<Rightarrow> bool result"

definition newRouting1D :: "NodeID \<Rightarrow> routing1D" where
  "newRouting1D localNodeID =
     \<lparr>r1_localNodeID = localNodeID, nextNodeMatched = False, frontwardNextNodeIDs = [],
      backwardNextNodeIDs = [], neighborhoodInfos = [], routeInfos = []\<rparr>"

subsection \<open>Private helpers\<close>

fun level_from :: "int \<Rightarrow> NodeID \<Rightarrow> NodeID list \<Rightarrow> int" where
  "level_from idx d [] = -1"
| "level_from idx d (l # ls) = (if Smaller d l then idx else level_from (idx + 1) d ls)"

definition calcLevel :: "routing1D \<Rightarrow> NodeID \<Rightarrow> int outcome" where
  "calcLevel r nodeID = obind (nid_Sub nodeID (r1_localNodeID r)) (\<lambda>d. Inr (level_from 0 d levelRanges))"

text \<open>The map from an identifier to the connected node that leads to it.\<close>

definition route_second :: "NodeID \<Rightarrow> NodeID \<Rightarrow> NodeID \<Rightarrow> (NodeID, NodeID) gomap \<Rightarrow> (NodeID, NodeID) gomap outcome" where
  "route_second localNodeID first second idMap =
     (if nid_Equal (Some localNodeID) (Some second) then Inr idMap
      else case mget idMap second of
        None \<Rightarrow> Inr (mput second first idMap)
      | Some via \<Rightarrow>
          if nid_Equal (Some via) (Some second) then Inr idMap
          else obind (DistanceFrom via second) (\<lambda>distance1.
               obind (DistanceFrom first second) (\<lambda>distance2.
                 Inr (if Smaller distance2 distance1 then mput second first idMap else idMap))))"

definition route_first :: "NodeID \<Rightarrow> NodeID \<times> neighborhoodInfo \<Rightarrow> (NodeID, NodeID) gomap \<Rightarrow> (NodeID, NodeID) gomap outcome" where
  "route_first localNodeID = (\<lambda>(first, info) idMap.
     ofold (route_second localNodeID first) (secondNeighborhoods info) (mput first first idMap))"

definition append_routes :: "routing1D \<Rightarrow> (NodeID, NodeID) gomap \<Rightarrow> routeInfo1D list \<Rightarrow> routeInfo1D list outcome" where
  "append_routes r idMap infos =
     ofold (\<lambda>(nodeID, connectedNodeID) infos.
        obind (calcLevel r nodeID) (\<lambda>level.
          Inr (infos @ [\<lparr>ri_nodeID = nodeID, ri_firstNeighborhood = connectedNodeID,
                         ri_level = level, scoreBySend = 0\<rparr>]))) idMap infos"

definition updateRouteInfos :: "routing1D \<Rightarrow> routing1D outcome" where
  "updateRouteInfos r =
     obind (ofold (route_first (r1_localNodeID r)) (neighborhoodInfos r) []) (\<lambda>idMap.
       let kept = filter (\<lambda>rInfo. mhas idMap (ri_nodeID rInfo)) (routeInfos r);
           kept' = map (\<lambda>rInfo. rInfo\<lparr>ri_firstNeighborhood := the (mget idMap (ri_nodeID rInfo))\<rparr>) kept;
           idMap' = fold (\<lambda>rInfo m. mdel (ri_nodeID rInfo) m) kept idMap
       in obind (append_routes r idMap' kept') (\<lambda>infos.
            Inr (r\<lparr>routeInfos := sort_by (\<lambda>a b. Compare (ri_nodeID a) (ri_nodeID b)) infos\<rparr>)))"

definition next_of :: "routing1D \<Rightarrow> NodeID list" where
  "next_of r = rev (backwardNextNodeIDs r) @ frontwardNextNodeIDs r"

definition updateNextNodeMatched :: "reconcile_fn \<Rightarrow> NodeID list \<Rightarrow> routing1D \<Rightarrow> routing1D" where
  "updateNextNodeMatched reconcileNextNodes previousNextNodeIDs r =
     (let disconnectedNodeIDs = filter (\<lambda>old. \<not> mhas (neighborhoodInfos r) old) previousNextNodeIDs
      in case reconcileNextNodes (next_of r) disconnectedNodeIDs of
           Inl err \<Rightarrow> r
         | Inr matched \<Rightarrow> r\<lparr>nextNodeMatched := matched\<rparr>)"

text \<open>The known identifiers, a Go set, and the next nodes chosen from them.\<close>

definition knownNodeIDs :: "(NodeID, neighborhoodInfo) gomap \<Rightarrow> NodeID list" where
  "knownNodeIDs infos =
     fold (\<lambda>(nodeID, info) known. fold List.insert (secondNeighborhoods info) (List.insert nodeID known)) infos []"

definition next_nodes :: "NodeID \<Rightarrow> NodeID list \<Rightarrow> NodeID list \<times> NodeID list" where
  "next_nodes localNodeID known =
     (if length known = 1 then (known, known)
      else
        let larger = SortNodeIDs (filter (\<lambda>n. \<not> Smaller n localNodeID) known);
            smaller = SortNodeIDs (filter (\<lambda>n. Smaller n localNodeID) known);
            nodeIDs = larger @ smaller
        in if length nodeIDs \<ge> ONE_SIDE_NEXT_COUNT * 2
           then (take ONE_SIDE_NEXT_COUNT nodeIDs, rev (drop (length nodeIDs - ONE_SIDE_NEXT_COUNT) nodeIDs))
           else (take (length nodeIDs div 2) nodeIDs, rev (drop (length nodeIDs div 2) nodeIDs)))"

definition updateNextNodeIDs :: "reconcile_fn \<Rightarrow> routing1D \<Rightarrow> routing1D" where
  "updateNextNodeIDs reconcileNextNodes r =
     (let previous = backwardNextNodeIDs r @ frontwardNextNodeIDs r
      in updateNextNodeMatched reconcileNextNodes previous
           (if length (neighborhoodInfos r) = 0
            then r\<lparr>frontwardNextNodeIDs := [], backwardNextNodeIDs := []\<rparr>
            else case next_nodes (r1_localNodeID r) (knownNodeIDs (neighborhoodInfos r)) of
                   (front, back) \<Rightarrow> r\<lparr>frontwardNextNodeIDs := front, backwardNextNodeIDs := back\<rparr>))"

definition connectedToNextNodes :: "routing1D \<Rightarrow> bool" where
  "connectedToNextNodes r \<longleftrightarrow>
     (\<forall>n\<in>set (frontwardNextNodeIDs r). mhas (neighborhoodInfos r) n) \<and>
     (\<forall>n\<in>set (backwardNextNodeIDs r). mhas (neighborhoodInfos r) n)"

definition score_rate :: "int \<Rightarrow> real" where
  "score_rate scoreSum = (if scoreSum \<ge> 1024 * 1024 then (1024 * 1024) / of_int scoreSum else 1)"

definition normalizeScore :: "routing1D \<Rightarrow> routing1D" where
  "normalizeScore r =
     (let scoreSum = sum_list (map (\<lambda>(_, info). scoreByRecv info) (neighborhoodInfos r));
          r = r\<lparr>neighborhoodInfos := map (\<lambda>(n, info). (n, info\<lparr>scoreByRecv :=
                go_trunc (of_int (scoreByRecv info) * score_rate scoreSum)\<rparr>)) (neighborhoodInfos r)\<rparr>;
          sum64 = sum_list (map scoreBySend (routeInfos r))
      in r\<lparr>routeInfos := map (\<lambda>ri. ri\<lparr>scoreBySend :=
             go_trunc (of_int (scoreBySend ri) * score_rate sum64)\<rparr>) (routeInfos r)\<rparr>)"

definition isBetween :: "NodeID \<Rightarrow> NodeID \<Rightarrow> NodeID \<Rightarrow> bool outcome" where
  "isBetween a b target =
     (if nid_Equal (Some a) (Some b) then Inl (Panic ''a and b should be different'')
      else if Smaller a b then Inr (\<not> Smaller target a \<and> Smaller target b)
      else Inr (\<not> Smaller target a \<or> Smaller target b))"

subsection \<open>Operations\<close>

definition r1_subRoutine :: "reconcile_fn \<Rightarrow> routing1D \<Rightarrow> routing1D" where
  "r1_subRoutine reconcileNextNodes r =
     (if \<not> nextNodeMatched r then updateNextNodeMatched reconcileNextNodes [] r else r)"

definition r1_getStability :: "routing1D \<Rightarrow> bool \<times> NodeID list" where
  "r1_getStability r = (nextNodeMatched r, rev (backwardNextNodeIDs r) @ frontwardNextNodeIDs r)"

definition add_neighborhood :: "time \<Rightarrow> NodeID \<Rightarrow> routing1D \<times> bool \<Rightarrow> (routing1D \<times> bool) outcome" where
  "add_neighborhood now nodeID = (\<lambda>(r, updated).
     if mhas (neighborhoodInfos r) nodeID then Inr (r, updated)
     else obind (calcLevel r nodeID) (\<lambda>level.
       Inr (r\<lparr>neighborhoodInfos := mput nodeID
               \<lparr>ni_timestamp = now, ni_level = level, secondNeighborhoods = [], oddScore = 0, scoreByRecv = 0\<rparr>
               (neighborhoodInfos r)\<rparr>, True)))"

definition r1_updateNodeConnections :: "reconcile_fn \<Rightarrow> time \<Rightarrow> NodeID list \<Rightarrow> routing1D \<Rightarrow> (int \<times> routing1D) outcome" where
  "r1_updateNodeConnections reconcileNextNodes now connections r =
     obind (ofold (add_neighborhood now) connections (r, False)) (\<lambda>(r, updated).
       let remaining = filter (\<lambda>(nodeID, _). nodeID \<in> set connections) (neighborhoodInfos r);
           updated = (updated \<or> length remaining \<noteq> length (neighborhoodInfos r));
           r = r\<lparr>neighborhoodInfos := remaining\<rparr>
       in if \<not> updated then Inr (0, r)
          else obind (updateRouteInfos r) (\<lambda>r.
            let r = updateNextNodeIDs reconcileNextNodes r
            in Inr (if connectedToNextNodes r then requireExchangeRouting
                    else requireExchangeRouting OR requireUpdateConnections, r)))"

text \<open>The loop over the table; it counts the packet at the chosen entry.\<close>

fun scan_routes :: "NodeID \<Rightarrow> routeInfo1D \<Rightarrow> routeInfo1D list \<Rightarrow> routeInfo1D option" where
  "scan_routes dst candidate [] = None"
| "scan_routes dst candidate (info # infos) =
     (if Smaller dst (ri_nodeID info) then Some candidate else scan_routes dst info infos)"

definition count_send :: "NodeID \<Rightarrow> routeInfo1D list \<Rightarrow> routeInfo1D list" where
  "count_send n = map (\<lambda>ri. if ri_nodeID ri = n then ri\<lparr>scoreBySend := scoreBySend ri + 1\<rparr> else ri)"

definition route_lookup :: "NodeID \<Rightarrow> routing1D \<Rightarrow> (NodeID option \<times> routing1D) outcome" where
  "route_lookup dst r =
     (if routeInfos r = [] then Inl (Panic ''index out of range'')
      else let last_info = last (routeInfos r)
           in if \<not> Smaller dst (ri_nodeID last_info) then Inr (Some (ri_firstNeighborhood last_info), r)
              else case scan_routes dst last_info (routeInfos r) of
                     Some candidate \<Rightarrow>
                       Inr (Some (ri_firstNeighborhood candidate),
                            r\<lparr>routeInfos := count_send (ri_nodeID candidate) (routeInfos r)\<rparr>)
                   | None \<Rightarrow> Inl (Panic ''next step node should be found in routing infos''))"

definition head_or_panic :: "'a list \<Rightarrow> 'a outcome" where
  "head_or_panic xs = (case xs of [] \<Rightarrow> Inl (Panic ''index out of range'') | x # _ \<Rightarrow> Inr x)"

definition r1_getNextStep :: "Packet \<Rightarrow> routing1D \<Rightarrow> (NodeID option \<times> routing1D) outcome" where
  "r1_getNextStep packet r =
     (let isExplicit = has_mode (Mode packet) PacketModeExplicit;
          dst = DstNodeID packet;
          here = (if isExplicit then None else Some NodeLocal)
      in if nid_Equal (Some dst) (Some NodeLocal) \<or> nid_Equal (Some dst) (Some (r1_localNodeID r))
         then Inr (Some NodeLocal, r)
         else if nid_Equal (Some dst) (Some NodeNeighborhoods) then Inr (Some NodeNeighborhoods, r)
         else if length (frontwardNextNodeIDs r) + length (backwardNextNodeIDs r) = 0 then Inr (here, r)
         else
           obind (head_or_panic (frontwardNextNodeIDs r)) (\<lambda>front.
           obind (isBetween (r1_localNodeID r) front dst) (\<lambda>inFront.
             if inFront then Inr (here, r)
             else
               obind (head_or_panic (backwardNextNodeIDs r)) (\<lambda>back.
               obind (isBetween back (r1_localNodeID r) dst) (\<lambda>inBack.
                 if inBack \<and> isExplicit \<and> \<not> nid_Equal (Some back) (Some dst) then Inr (None, r)
                 else route_lookup dst r)))))"

definition r1_countRecvPacket :: "NodeID \<Rightarrow> routing1D \<Rightarrow> routing1D" where
  "r1_countRecvPacket from r =
     (case mget (neighborhoodInfos r) from of
        None \<Rightarrow> r
      | Some info \<Rightarrow> r\<lparr>neighborhoodInfos :=
          mput from (info\<lparr>scoreByRecv := scoreByRecv info + 1\<rparr>) (neighborhoodInfos r)\<rparr>)"

text \<open>Which second neighbours the report still names, then the loop over the report.\<close>

fun keep_reported :: "(string, RoutingNodeRecord) gomap \<Rightarrow> NodeID list \<Rightarrow> NodeID list outcome" where
  "keep_reported recs [] = Inr []"
| "keep_reported recs (n # ns) =
     obind (nid_String n) (\<lambda>s. obind (keep_reported recs ns) (\<lambda>rest.
       Inr (if mhas recs s then n # rest else rest)))"

fun read_records :: "NodeID \<Rightarrow> (string, RoutingNodeRecord) gomap \<Rightarrow> NodeID list \<times> bool \<times> int \<Rightarrow>
    unit result \<times> (NodeID list \<times> bool \<times> int)" where
  "read_records localNodeID [] s = (Inr (), s)"
| "read_records localNodeID ((nodeIDStr, rec) # recs) (second, updated, odd_sc) =
     (case NewNodeIDFromString nodeIDStr of
        Inl err \<Rightarrow> (Inl (''failed to parse node id '' @ err), (second, updated, odd_sc))
      | Inr nodeID \<Rightarrow>
          if nid_Equal (Some nodeID) (Some localNodeID)
          then read_records localNodeID recs (second, updated, R1DScore rec)
          else if nodeID \<in> set second then read_records localNodeID recs (second, updated, odd_sc)
          else read_records localNodeID recs (second @ [nodeID], True, odd_sc))"

definition r1_recvRoutingPacket ::
  "reconcile_fn \<Rightarrow> NodeID \<Rightarrow> RoutingMsg \<Rightarrow> routing1D \<Rightarrow> (int result \<times> routing1D) outcome" where
  "r1_recvRoutingPacket reconcileNextNodes src content r =
     (if nid_Equal (Some (r1_localNodeID r)) (Some src)
      then Inl (Panic ''it is not allowed to receive packet from local node'')
      else case mget (neighborhoodInfos r) src of
        None \<Rightarrow> Inr (Inr 0, r)
      | Some info \<Rightarrow>
          obind (keep_reported (NodeRecords content) (secondNeighborhoods info)) (\<lambda>kept.
            let updated = (length kept \<noteq> length (secondNeighborhoods info))
            in case read_records (r1_localNodeID r) (NodeRecords content) (kept, updated, 0) of
                 (res, (second, updated, odd_sc)) \<Rightarrow>
                   let put = (\<lambda>info. r\<lparr>neighborhoodInfos := mput src info (neighborhoodInfos r)\<rparr>);
                       info = info\<lparr>secondNeighborhoods := second\<rparr>
                   in case res of
                        Inl err \<Rightarrow> Inr (Inl err, put info)
                      | Inr _ \<Rightarrow>
                          let r = put (info\<lparr>oddScore := odd_sc\<rparr>)
                          in if \<not> updated then Inr (Inr 0, r)
                             else obind (updateRouteInfos r) (\<lambda>r.
                               let r = updateNextNodeIDs reconcileNextNodes r
                               in Inr (Inr (if connectedToNextNodes r then 0 else requireUpdateConnections), r))))"

definition r1_setupRoutingPacket :: "RoutingMsg \<Rightarrow> routing1D \<Rightarrow> (RoutingMsg \<times> routing1D) outcome" where
  "r1_setupRoutingPacket content r =
     (let r = normalizeScore r
      in obind (ofold (\<lambda>(nodeID, info) content.
            obind (nid_String nodeID) (\<lambda>s.
              Inr (content\<lparr>NodeRecords := (case mget (NodeRecords content) s of
                     None \<Rightarrow> mput s \<lparr>R1DScore = scoreByRecv info, rn_R2DPosition = None\<rparr> (NodeRecords content)
                   | Some rec \<Rightarrow> mput s (rec\<lparr>R1DScore := scoreByRecv info\<rparr>) (NodeRecords content))\<rparr>)))
          (neighborhoodInfos r) content) (\<lambda>content. Inr (content, r)))"

subsection \<open>Choosing the connections\<close>

record conn_choice =
  cc_required :: "NodeID list"
  cc_keep :: "NodeID list"
  cc_count :: "nat \<Rightarrow> nat"
  cc_cands :: "nat \<Rightarrow> (NodeID, int) gomap"

definition require :: "NodeID \<Rightarrow> conn_choice \<Rightarrow> conn_choice" where
  "require n c = c\<lparr>cc_required := List.insert n (cc_required c)\<rparr>"

definition nearest_is_local :: "NodeID \<Rightarrow> NodeID \<Rightarrow> NodeID list \<Rightarrow> bool" where
  "nearest_is_local localNodeID neighbor second =
     (let larger = SortNodeIDs (localNodeID # filter (\<lambda>n. \<not> Smaller n neighbor) second);
          smaller = SortNodeIDs (localNodeID # filter (\<lambda>n. Smaller n neighbor) second)
      in nid_Equal (Some (larger ! 0)) (Some localNodeID) \<or>
         nid_Equal (Some (smaller ! (length smaller - 1))) (Some localNodeID))"

definition choose_neighbor :: "time \<Rightarrow> routing1D \<Rightarrow> NodeID \<times> neighborhoodInfo \<Rightarrow> conn_choice \<Rightarrow> conn_choice" where
  "choose_neighbor now r = (\<lambda>(n, info) c.
     if ni_level info = -1 then c\<lparr>cc_keep := List.insert n (cc_keep c)\<rparr>
     else
       let lv = nat (ni_level info);
           need = (require n c)\<lparr>cc_count := (cc_count c)(lv := cc_count c lv + 1)\<rparr>
       in if length (neighborhoodInfos r) < linksMin \<or> length (secondNeighborhoods info) < linksMin \<or>
             now < ni_timestamp info + linkKeepLinkDuration
          then need
          else if nearest_is_local (r1_localNodeID r) n (secondNeighborhoods info) then need
          else c\<lparr>cc_cands := (cc_cands c)(lv := mput n (scoreByRecv info) (cc_cands c lv))\<rparr>)"

definition choose_route :: "routing1D \<Rightarrow> routeInfo1D \<Rightarrow> conn_choice \<Rightarrow> conn_choice" where
  "choose_route r ri c =
     (if ri_level ri = -1 then c
      else if ri_nodeID ri \<in> set (cc_required c) then c
      else if mhas (neighborhoodInfos r) (ri_nodeID ri) then c
      else let lv = nat (ri_level ri)
           in c\<lparr>cc_cands := (cc_cands c)(lv := mput (ri_nodeID ri) (scoreBySend ri) (cc_cands c lv))\<rparr>)"

definition max_score :: "(NodeID, int) gomap \<Rightarrow> NodeID option" where
  "max_score cands = snd (fold (\<lambda>(n, score) (best, node).
      if best < score then (score, Some n) else (best, node)) cands (-1, None))"

fun fill_level :: "nat \<Rightarrow> nat \<Rightarrow> conn_choice \<Rightarrow> conn_choice outcome" where
  "fill_level level 0 c = Inr c"
| "fill_level level (Suc i) c =
     (if length (cc_cands c level) = 0 then Inr c
      else case max_score (cc_cands c level) of
             None \<Rightarrow> Inl (Panic ''nil pointer dereference'')
           | Some n \<Rightarrow> fill_level level i
               ((require n c)\<lparr>cc_cands := (cc_cands c)(level := mdel n (cc_cands c level))\<rparr>))"

definition r1_getConnections :: "time \<Rightarrow> routing1D \<Rightarrow> ((NodeID list \<times> NodeID list) \<times> routing1D) outcome" where
  "r1_getConnections now r =
     (let r = normalizeScore r;
          c = \<lparr>cc_required = [], cc_keep = [], cc_count = (\<lambda>_. 0), cc_cands = (\<lambda>_. [])\<rparr>;
          c = fold require (frontwardNextNodeIDs r) c;
          c = fold require (backwardNextNodeIDs r) c;
          c = fold (choose_neighbor now r) (neighborhoodInfos r) c;
          c = fold (choose_route r) (routeInfos r) c
      in obind (ofold (\<lambda>level c. if cc_count c level \<ge> 2 then Inr c
                                  else fill_level level (2 - cc_count c level) c)
                  [0..<levelRangesCount] c)
           (\<lambda>c. Inr ((cc_required c, cc_keep c), r)))"

end
