(* ===== verification/Routing1D_Table.thy ===== *)
theory Routing1D_Table
  imports Routing1D
begin

text \<open>
  What the table and the next nodes of the ring routing hold after an update: the table is
  sorted, has one entry per known identifier, and leads to it through a connected node,
  the nearest of those that report it; the next nodes are the first ones met when walking
  the ring from the local identifier in either direction.
\<close>

subsection \<open>The route map\<close>

text \<open>
  What the map holds once the connected nodes \<open>F\<close> and the reports \<open>S\<close> (connected node,
  reported node) have been visited.
\<close>

definition route_at :: "NodeID set \<Rightarrow> (NodeID \<times> NodeID) set \<Rightarrow> NodeID \<Rightarrow> NodeID option \<Rightarrow> bool" where
  "route_at F S k v' = (case v' of
        None \<Rightarrow> k \<notin> F \<and> k \<notin> snd ` S
      | Some v \<Rightarrow> if k \<in> F then v = k
                  else (v, k) \<in> S \<and> (\<forall>f. (f, k) \<in> S \<longrightarrow> ring_dist (nid_val v) (nid_val k) \<le> ring_dist (nid_val f) (nid_val k)))"

definition route_map_ok :: "NodeID set \<Rightarrow> (NodeID \<times> NodeID) set \<Rightarrow> (NodeID, NodeID) gomap \<Rightarrow> bool" where
  "route_map_ok F S m \<longleftrightarrow> gomap_wf m \<and> fst ` S \<subseteq> F \<and> (\<forall>k. route_at F S k (mget m k))"

lemma route_at_other [simp]:
  "k \<noteq> f \<Longrightarrow> route_at (insert f F) S k v \<longleftrightarrow> route_at F S k v"
  "k \<noteq> s \<Longrightarrow> route_at F (insert (f, s) S) k v \<longleftrightarrow> route_at F S k v"
  by (auto simp: route_at_def split: option.splits)

lemma route_map_okD:
  assumes "route_map_ok F S m"
  shows "set (mkeys m) = F \<union> snd ` S"
    "k \<in> F \<Longrightarrow> mget m k = Some k"
    "mget m k = Some v \<Longrightarrow> k \<notin> F \<Longrightarrow> (v, k) \<in> S"
    "mget m k = Some v \<Longrightarrow> k \<notin> F \<Longrightarrow> (f, k) \<in> S \<Longrightarrow> ring_dist (nid_val v) (nid_val k) \<le> ring_dist (nid_val f) (nid_val k)"
    "mget m k = Some v \<Longrightarrow> v \<in> F"
proof -
  have sub: "fst ` S \<subseteq> F" using assms by (simp add: route_map_ok_def)
  have at: "route_at F S k (mget m k)" for k using assms by (simp add: route_map_ok_def)
  show "k \<in> F \<Longrightarrow> mget m k = Some k"
    "mget m k = Some v \<Longrightarrow> k \<notin> F \<Longrightarrow> (v, k) \<in> S"
    "mget m k = Some v \<Longrightarrow> k \<notin> F \<Longrightarrow> (f, k) \<in> S \<Longrightarrow> ring_dist (nid_val v) (nid_val k) \<le> ring_dist (nid_val f) (nid_val k)"
    using at [of k] by (auto simp: route_at_def split: option.splits)
  show "mget m k = Some v \<Longrightarrow> v \<in> F" using at [of k] sub by (force simp: route_at_def split: if_splits)
  have "mget m k = None \<longleftrightarrow> k \<notin> F \<union> snd ` S" for k
    using at [of k] by (force simp: route_at_def split: option.splits if_splits)
  then have "k \<in> set (mkeys m) \<longleftrightarrow> k \<in> F \<union> snd ` S" for k by (metis domIff set_mkeys)
  then show "set (mkeys m) = F \<union> snd ` S" by blast
qed

lemma route_map_ok_first: "route_map_ok F S m \<Longrightarrow> route_map_ok (insert f F) S (mput f f m)"
proof -
  assume ok: "route_map_ok F S m"
  have "route_at (insert f F) S k (mget (mput f f m) k)" for k
    using ok by (cases "k = f") (simp_all add: route_map_ok_def route_at_def [of _ _ f])
  with ok show ?thesis by (auto simp: route_map_ok_def)
qed

lemma route_map_ok_put:
  assumes "route_map_ok F S m" "f \<in> F" "gomap_wf m'" "route_at F (insert (f, s) S) s (mget m' s)"
    "\<And>k. k \<noteq> s \<Longrightarrow> mget m' k = mget m k"
  shows "route_map_ok F (insert (f, s) S) m'"
proof -
  have "route_at F (insert (f, s) S) k (mget m' k)" for k
    using assms(1,4,5) by (cases "k = s") (simp_all add: route_map_ok_def)
  with assms(1-3) show ?thesis by (auto simp: route_map_ok_def)
qed

lemma route_map_ok_second:
  assumes ok: "route_map_ok F S m" and f: "f \<in> F" and normal: "nid_IsNormal s" "s \<noteq> localNodeID" "\<forall>x\<in>F. nid_IsNormal x"
  shows "\<exists>m'. route_second localNodeID f s m = Inr m' \<and> route_map_ok F (insert (f, s) S) m'"
proof -
  have wf: "gomap_wf m" and at: "route_at F S s (mget m s)" using ok by (auto simp: route_map_ok_def)
  consider "mget m s = None" | "mget m s = Some s" | via where "mget m s = Some via" "via \<noteq> s" by fastforce
  then show ?thesis
  proof cases
    case 1
    have "route_map_ok F (insert (f, s) S) (mput s f m)"
      using 1 at wf by (intro route_map_ok_put [OF ok f]) (auto simp: route_at_def image_iff)
    with 1 normal show ?thesis by (auto simp: route_second_def)
  next
    case 2
    have "s \<in> F" using route_map_okD(5) [OF ok 2] .
    then have "route_map_ok F (insert (f, s) S) m"
      using 2 at wf by (intro route_map_ok_put [OF ok f]) (auto simp: route_at_def)
    with 2 normal show ?thesis by (auto simp: route_second_def)
  next
    case 3
    have viaF: "via \<in> F" and sF: "s \<notin> F"
      using route_map_okD(5) [OF ok 3(1)] route_map_okD(2) [OF ok, of s] 3 by auto
    obtain d1 d2 where d1: "DistanceFrom via s = Inr d1" "nid_IsNormal d1" "nid_val d1 = ring_dist (nid_val via) (nid_val s)"
      and d2: "DistanceFrom f s = Inr d2" "nid_IsNormal d2" "nid_val d2 = ring_dist (nid_val f) (nid_val s)"
      using DistanceFrom_val [of via s] DistanceFrom_val [of f s] f viaF normal by auto
    define m' where "m' = (if Smaller d2 d1 then mput s f m else m)"
    have "route_map_ok F (insert (f, s) S) m'"
      using at wf 3 sF d1 d2 by (intro route_map_ok_put [OF ok f])
        (fastforce simp: route_at_def m'_def Smaller_val)+
    moreover have "route_second localNodeID f s m = Inr m'"
      using 3 normal d1 d2 by (auto simp: route_second_def m'_def)
    ultimately show ?thesis by blast
  qed
qed

lemma route_map_ok_seconds:
  assumes "route_map_ok F S m" "f \<in> F" "\<forall>s\<in>set ss. nid_IsNormal s \<and> s \<noteq> localNodeID" "\<forall>x\<in>F. nid_IsNormal x"
  shows "\<exists>m'. ofold (route_second localNodeID f) ss m = Inr m' \<and> route_map_ok F (S \<union> {f} \<times> set ss) m'"
  using assms
proof (induction ss arbitrary: S m)
  case Nil
  then show ?case by simp
next
  case (Cons s ss)
  obtain m1 where m1: "route_second localNodeID f s m = Inr m1" "route_map_ok F (insert (f, s) S) m1"
    using route_map_ok_second [of F S m f s localNodeID] Cons.prems by auto
  from Cons.IH [OF m1(2)] Cons.prems obtain m' where
    "ofold (route_second localNodeID f) ss m1 = Inr m'" "route_map_ok F (insert (f, s) S \<union> {f} \<times> set ss) m'"
    by auto
  moreover have "insert (f, s) S \<union> {f} \<times> set ss = S \<union> {f} \<times> set (s # ss)" by auto
  ultimately show ?case using m1(1) by auto
qed

text \<open>Identifiers of a table of connected nodes: who is connected, and who reports whom.\<close>

definition firsts :: "(NodeID, neighborhoodInfo) gomap \<Rightarrow> NodeID set" where
  "firsts infos = set (mkeys infos)"

definition reports :: "(NodeID, neighborhoodInfo) gomap \<Rightarrow> (NodeID \<times> NodeID) set" where
  "reports infos = {(f, s). \<exists>info. (f, info) \<in> set infos \<and> s \<in> set (secondNeighborhoods info)}"

definition infos_ok :: "NodeID \<Rightarrow> (NodeID, neighborhoodInfo) gomap \<Rightarrow> bool" where
  "infos_ok localNodeID infos \<longleftrightarrow> gomap_wf infos \<and>
     (\<forall>n\<in>firsts infos \<union> snd ` reports infos. nid_IsNormal n \<and> n \<noteq> localNodeID)"

lemma firsts_reports_Cons:
  "firsts ((f, info) # infos) = insert f (firsts infos)"
  "reports ((f, info) # infos) = {f} \<times> set (secondNeighborhoods info) \<union> reports infos"
  by (auto simp: firsts_def reports_def)

lemma infos_ok_Cons:
  "infos_ok l ((f, info) # infos) \<longleftrightarrow> f \<notin> firsts infos \<and> nid_IsNormal f \<and> f \<noteq> l \<and>
     (\<forall>s\<in>set (secondNeighborhoods info). nid_IsNormal s \<and> s \<noteq> l) \<and> infos_ok l infos"
proof -
  have "snd ` ({f} \<times> A) = A" for A :: "NodeID set" by force
  then have "snd ` reports ((f, info) # infos) = set (secondNeighborhoods info) \<union> snd ` reports infos"
    by (simp only: firsts_reports_Cons image_Un)
  moreover have "gomap_wf ((f, info) # infos) \<longleftrightarrow> f \<notin> firsts infos \<and> gomap_wf infos"
    by (simp add: firsts_def)
  ultimately show ?thesis
    unfolding infos_ok_def by (simp only: firsts_reports_Cons ball_Un ball_simps) blast
qed

lemma route_map_fold:
  assumes "infos_ok l infos" "route_map_ok F S m" "\<forall>x\<in>F. nid_IsNormal x"
  shows "\<exists>m'. ofold (route_first l) infos m = Inr m' \<and> route_map_ok (F \<union> firsts infos) (S \<union> reports infos) m'"
  using assms
proof (induction infos arbitrary: F S m)
  case Nil
  then show ?case by (simp add: firsts_def reports_def)
next
  case (Cons p infos)
  obtain f info where p: "p = (f, info)" by fastforce
  with Cons.prems have pr: "nid_IsNormal f" "\<forall>s\<in>set (secondNeighborhoods info). nid_IsNormal s \<and> s \<noteq> l" "infos_ok l infos"
    by (auto simp: infos_ok_Cons)
  obtain m1 where m1: "route_first l (f, info) m = Inr m1"
    "route_map_ok (insert f F) (S \<union> {f} \<times> set (secondNeighborhoods info)) m1"
    using route_map_ok_seconds [OF route_map_ok_first [OF Cons.prems(2), of f], of f "secondNeighborhoods info" l] pr Cons.prems(3)
    by (auto simp: route_first_def)
  from Cons.IH [OF pr(3) m1(2)] pr(1) Cons.prems(3) obtain m' where
    "ofold (route_first l) infos m1 = Inr m'"
    "route_map_ok (insert f F \<union> firsts infos) (S \<union> {f} \<times> set (secondNeighborhoods info) \<union> reports infos) m'"
    by auto
  moreover have "insert f F \<union> firsts infos = F \<union> firsts (p # infos)"
    "S \<union> {f} \<times> set (secondNeighborhoods info) \<union> reports infos = S \<union> reports (p # infos)"
    by (auto simp: p firsts_reports_Cons)
  ultimately show ?case using m1(1) p by simp
qed

lemma route_map_all:
  assumes "infos_ok l infos"
  shows "\<exists>m. ofold (route_first l) infos [] = Inr m \<and> route_map_ok (firsts infos) (reports infos) m"
proof -
  have "route_map_ok {} {} []" by (simp add: route_map_ok_def route_at_def)
  from route_map_fold [OF assms this] show ?thesis by simp
qed

subsection \<open>The table of routes\<close>

definition level_of :: "NodeID \<Rightarrow> NodeID \<Rightarrow> int" where
  "level_of l n = (case nid_Sub n l of Inr d \<Rightarrow> level_from 0 d levelRanges | Inl _ \<Rightarrow> -1)"

lemma calcLevel_eq:
  "nid_IsNormal (r1_localNodeID r) \<Longrightarrow> nid_IsNormal n \<Longrightarrow> calcLevel r n = Inr (level_of (r1_localNodeID r) n)"
  using nid_Sub_val [of n "r1_localNodeID r"] by (auto simp: calcLevel_def level_of_def)

lemma level_from_range:
  "0 \<le> i \<Longrightarrow> level_from i d ls = -1 \<or> i \<le> level_from i d ls \<and> level_from i d ls < i + int (length ls)"
proof (induction ls arbitrary: i)
  case (Cons a ls)
  from Cons.IH [of "i + 1"] Cons.prems show ?case by auto
qed simp

lemma level_of_range: "-1 \<le> level_of l n \<and> level_of l n < int levelRangesCount"
proof (cases "nid_Sub n l")
  case (Inr d)
  with level_from_range [of 0 d levelRanges] show ?thesis
    by (auto simp: level_of_def levelRangesCount_def)
qed (simp add: level_of_def)

definition new_route :: "NodeID \<Rightarrow> NodeID \<times> NodeID \<Rightarrow> routeInfo1D" where
  "new_route l = (\<lambda>(n, via). \<lparr>ri_nodeID = n, ri_firstNeighborhood = via, ri_level = level_of l n, scoreBySend = 0\<rparr>)"

lemma append_routes_eq:
  "nid_IsNormal (r1_localNodeID r) \<Longrightarrow> \<forall>n\<in>set (mkeys m). nid_IsNormal n \<Longrightarrow>
   append_routes r m infos = Inr (infos @ map (new_route (r1_localNodeID r)) m)"
  unfolding append_routes_def
  by (induction m arbitrary: infos) (auto simp: calcLevel_eq new_route_def)

lemma fold_mdel_filter:
  "fold (\<lambda>x m. mdel (g x) m) xs m = filter (\<lambda>(k, v). k \<notin> g ` set xs) m"
  by (induction xs arbitrary: m) (auto simp: AList.delete_eq intro!: filter_cong)

interpretation route_cmp: comparator "\<lambda>a b. Compare (ri_nodeID a) (ri_nodeID b)" ri_nodeID "\<lambda>a. wf_id (ri_nodeID a)"
  by unfold_locales (rule Compare_sign)

text \<open>The table after an update: sorted, one entry per known identifier, each with its route.\<close>

definition table_ok :: "NodeID \<Rightarrow> (NodeID, NodeID) gomap \<Rightarrow> routeInfo1D list \<Rightarrow> bool" where
  "table_ok l m infos \<longleftrightarrow> sorted (map ri_nodeID infos) \<and> distinct (map ri_nodeID infos) \<and>
     ri_nodeID ` set infos = set (mkeys m) \<and>
     (\<forall>ri\<in>set infos. mget m (ri_nodeID ri) = Some (ri_firstNeighborhood ri))"

lemma updateRouteInfos_table:
  assumes l: "nid_IsNormal (r1_localNodeID r)" and ok: "infos_ok (r1_localNodeID r) (neighborhoodInfos r)"
    and d: "distinct (map ri_nodeID (routeInfos r))"
    and sc: "\<forall>ri\<in>set (routeInfos r). 0 \<le> scoreBySend ri \<and> ri_level ri = level_of (r1_localNodeID r) (ri_nodeID ri)"
  shows "\<exists>m infos. updateRouteInfos r = Inr (r\<lparr>routeInfos := infos\<rparr>) \<and>
     route_map_ok (firsts (neighborhoodInfos r)) (reports (neighborhoodInfos r)) m \<and>
     table_ok (r1_localNodeID r) m infos \<and>
     (\<forall>ri\<in>set infos. 0 \<le> scoreBySend ri \<and> ri_level ri = level_of (r1_localNodeID r) (ri_nodeID ri))"
proof -
  let ?l = "r1_localNodeID r"
  obtain m where m: "ofold (route_first ?l) (neighborhoodInfos r) [] = Inr m"
    "route_map_ok (firsts (neighborhoodInfos r)) (reports (neighborhoodInfos r)) m"
    using route_map_all [OF ok] by blast
  have wf: "gomap_wf m" using m(2) by (simp add: route_map_ok_def)
  have normal: "\<forall>n\<in>set (mkeys m). nid_IsNormal n"
    using ok route_map_okD(1) [OF m(2)] by (auto simp: infos_ok_def)
  define kept where "kept = filter (\<lambda>ri. mhas m (ri_nodeID ri)) (routeInfos r)"
  define kept' where "kept' = map (\<lambda>ri. ri\<lparr>ri_firstNeighborhood := the (mget m (ri_nodeID ri))\<rparr>) kept"
  define m' where "m' = filter (\<lambda>(k, v). k \<notin> ri_nodeID ` set kept) m"
  define infos where "infos = kept' @ map (new_route ?l) m'"
  define res where "res = sort_by (\<lambda>a b. Compare (ri_nodeID a) (ri_nodeID b)) infos"
  have ids: "map ri_nodeID kept' = map ri_nodeID kept" "map ri_nodeID (map (new_route ?l) m') = mkeys m'"
    by (simp_all add: kept'_def new_route_def mkeys_def split_def)
  have keys': "mkeys m' = filter (\<lambda>k. k \<notin> ri_nodeID ` set kept) (mkeys m)"
    by (simp add: m'_def mkeys_filter_key)
  have keptk: "ri_nodeID ` set kept \<subseteq> set (mkeys m)" by (auto simp: kept_def mhas_iff)
  have "append_routes r m' kept' = Inr infos"
    using append_routes_eq [OF l, of m'] normal by (simp add: keys' infos_def)
  then have upd: "updateRouteInfos r = Inr (r\<lparr>routeInfos := res\<rparr>)"
    unfolding updateRouteInfos_def m(1) obind_simps Let_def fold_mdel_filter
      kept_def [symmetric] kept'_def [symmetric] m'_def [symmetric] res_def by simp
  have allids: "map ri_nodeID infos = map ri_nodeID kept @ mkeys m'"
    using ids by (simp add: infos_def)
  have set_ids: "ri_nodeID ` set infos = set (mkeys m)"
    using arg_cong [OF allids, of set] keptk by (auto simp: keys')
  have "distinct (map ri_nodeID infos)"
    unfolding allids using d wf keptk
    by (auto simp: keys' kept_def distinct_map_filter distinct_mkeys)
  then have dist: "distinct (map ri_nodeID res)"
    by (simp add: res_def distinct_map)
  have "sorted (map ri_nodeID res)"
    unfolding res_def using normal set_ids by (intro route_cmp.sorted_sort_by) (metis imageI wf_id_normal)
  moreover have "\<forall>ri\<in>set infos. mget m (ri_nodeID ri) = Some (ri_firstNeighborhood ri)"
  proof -
    have "mget m (ri_nodeID ri) = Some (ri_firstNeighborhood ri)" if "ri \<in> set kept'" for ri
      using that by (auto simp: kept'_def kept_def mhas_def)
    moreover have "mget m (ri_nodeID ri) = Some (ri_firstNeighborhood ri)" if "ri \<in> set (map (new_route ?l) m')" for ri
      using that gomap_wf_mget_iff [OF wf] by (auto simp: new_route_def m'_def)
    ultimately show ?thesis by (auto simp: infos_def)
  qed
  ultimately have "table_ok ?l m res"
    using dist set_ids by (simp add: table_ok_def res_def)
  moreover have "\<forall>ri\<in>set res. 0 \<le> scoreBySend ri \<and> ri_level ri = level_of ?l (ri_nodeID ri)"
    using sc by (auto simp: res_def infos_def kept'_def kept_def new_route_def)
  ultimately show ?thesis using m(2) upd by blast
qed

subsection \<open>The next nodes\<close>

lemma known_fold:
  "distinct ks \<Longrightarrow> distinct (fold List.insert ns ks) \<and> set (fold List.insert ns ks) = set ks \<union> set ns"
  by (induction ns arbitrary: ks) auto

lemma known_set:
  "distinct (knownNodeIDs infos) \<and> set (knownNodeIDs infos) = firsts infos \<union> snd ` reports infos"
proof -
  have "distinct ks \<Longrightarrow>
    distinct (fold (\<lambda>(n, i) ks. fold List.insert (secondNeighborhoods i) (List.insert n ks)) infos ks) \<and>
    set (fold (\<lambda>(n, i) ks. fold List.insert (secondNeighborhoods i) (List.insert n ks)) infos ks)
      = set ks \<union> firsts infos \<union> snd ` reports infos" for ks
  proof (induction infos arbitrary: ks)
    case Nil
    then show ?case by (simp add: firsts_def reports_def)
  next
    case (Cons p infos)
    obtain n i where p: "p = (n, i)" by fastforce
    have "snd ` ({n} \<times> A) = A" for A :: "NodeID set" by force
    then have e: "snd ` reports (p # infos) = set (secondNeighborhoods i) \<union> snd ` reports infos"
      "firsts (p # infos) = insert n (firsts infos)"
      unfolding p by (simp_all only: firsts_reports_Cons image_Un)
    show ?case
      using Cons.IH [of "fold List.insert (secondNeighborhoods i) (List.insert n ks)"] Cons.prems
        known_fold [of "List.insert n ks" "secondNeighborhoods i"]
      unfolding e by (auto simp: p)
  qed
  from this [of "[]"] show ?thesis by (simp add: knownNodeIDs_def)
qed

text \<open>The identifiers in the order in which walking forward from the local one meets them.\<close>

definition ring_list :: "NodeID \<Rightarrow> NodeID list \<Rightarrow> NodeID list" where
  "ring_list l ks = SortNodeIDs (filter (\<lambda>n. \<not> Smaller n l) ks) @ SortNodeIDs (filter (\<lambda>n. Smaller n l) ks)"

lemma sorted_wrt_mono_in:
  "sorted_wrt R xs \<Longrightarrow> (\<And>x y. x \<in> set xs \<Longrightarrow> y \<in> set xs \<Longrightarrow> R x y \<Longrightarrow> Q x y) \<Longrightarrow> sorted_wrt Q xs"
  by (induction xs) auto

lemma ring_list_sorted:
  assumes l: "nid_IsNormal l" and n: "\<forall>n\<in>set ks. nid_IsNormal n" and d: "distinct ks"
  shows "sorted_wrt (\<lambda>a b. fwd (nid_val l) (nid_val a) < fwd (nid_val l) (nid_val b)) (ring_list l ks)"
    "set (ring_list l ks) = set ks" "length (ring_list l ks) = length ks"
proof -
  let ?hi = "filter (\<lambda>n. \<not> Smaller n l) ks" and ?lo = "filter (\<lambda>n. Smaller n l) ks"
  have srt: "SortNodeIDs ?hi = sort ?hi" "SortNodeIDs ?lo = sort ?lo" using n by (simp_all add: SortNodeIDs_sort)
  have less: "Smaller a l \<longleftrightarrow> a < l" if "a \<in> set ks" for a using that n l by (simp add: Smaller_less)
  have strict: "sorted_wrt (<) (sort ?hi)" "sorted_wrt (<) (sort ?lo)" using d by (simp_all add: strict_sorted_iff)
  have "sorted_wrt (\<lambda>a b. fwd (nid_val l) (nid_val a) < fwd (nid_val l) (nid_val b)) (sort ?hi)"
    using l n less by (intro sorted_wrt_mono_in [OF strict(1)]) (auto simp: fwd_val less_val le_val)
  moreover have "sorted_wrt (\<lambda>a b. fwd (nid_val l) (nid_val a) < fwd (nid_val l) (nid_val b)) (sort ?lo)"
    using l n less nid_val_lt [of l] by (intro sorted_wrt_mono_in [OF strict(2)]) (auto simp: fwd_val less_val le_val)
  moreover have "fwd (nid_val l) (nid_val a) < fwd (nid_val l) (nid_val b)" if "a \<in> set ?hi" "b \<in> set ?lo" for a b
    using that l n less nid_val_lt [of a] by (auto simp: fwd_val less_val le_val)
  ultimately show "sorted_wrt (\<lambda>a b. fwd (nid_val l) (nid_val a) < fwd (nid_val l) (nid_val b)) (ring_list l ks)"
    by (simp add: ring_list_def srt sorted_wrt_append)
  show "set (ring_list l ks) = set ks" "length (ring_list l ks) = length ks"
    using sum_length_filter_compl [of "\<lambda>n. Smaller n l" ks] by (auto simp: ring_list_def SortNodeIDs_def)
qed

definition front_count :: "nat \<Rightarrow> nat" where
  "front_count n = (if n \<le> 1 then n else if n \<ge> 2 * ONE_SIDE_NEXT_COUNT then ONE_SIDE_NEXT_COUNT else n div 2)"

definition back_count :: "nat \<Rightarrow> nat" where
  "back_count n = (if n \<le> 1 then n else if n \<ge> 2 * ONE_SIDE_NEXT_COUNT then ONE_SIDE_NEXT_COUNT else n - n div 2)"

lemma next_nodes_ring_list:
  assumes "nid_IsNormal l" "\<forall>n\<in>set ks. nid_IsNormal n" "distinct ks"
  shows "next_nodes l ks = (take (front_count (length ks)) (ring_list l ks),
                            take (back_count (length ks)) (rev (ring_list l ks)))"
proof (cases "length ks = 1")
  case True
  then obtain k where "ks = [k]" by (auto simp: length_Suc_conv)
  then show ?thesis
    by (simp add: next_nodes_def ring_list_def front_count_def back_count_def SortNodeIDs_def sort_by_def)
next
  case False
  define ns where "ns = ring_list l ks"
  have len: "length ns = length ks" using ring_list_sorted(3) [OF assms] by (simp add: ns_def)
  have "next_nodes l ks = (if length ns \<ge> ONE_SIDE_NEXT_COUNT * 2
      then (take ONE_SIDE_NEXT_COUNT ns, rev (drop (length ns - ONE_SIDE_NEXT_COUNT) ns))
      else (take (length ns div 2) ns, rev (drop (length ns div 2) ns)))"
    using False unfolding next_nodes_def ns_def ring_list_def Let_def by (simp only: if_False)
  with False len show ?thesis
    by (auto simp: ns_def [symmetric] front_count_def back_count_def rev_drop ONE_SIDE_NEXT_COUNT_def le_Suc_eq)
qed

lemma next_nodes_nonempty:
  "ks \<noteq> [] \<Longrightarrow> 0 < front_count (length ks) \<and> 0 < back_count (length ks)"
  by (cases ks) (auto simp: front_count_def back_count_def ONE_SIDE_NEXT_COUNT_def)

end
