(* ===== verification/Routing1D_Correct.thy ===== *)
theory Routing1D_Correct
  imports Routing1D_Table
begin

text \<open>
  The invariant of the ring routing, kept by every operation, and what it gives: the next
  step never panics, is a connected node, and makes progress on the ring.
\<close>

subsection \<open>The invariant\<close>

definition info_ok :: "NodeID \<Rightarrow> NodeID \<Rightarrow> neighborhoodInfo \<Rightarrow> bool" where
  "info_ok l n i \<longleftrightarrow> 0 \<le> scoreByRecv i \<and> ni_level i = level_of l n \<and> distinct (secondNeighborhoods i)"

definition route_ok :: "NodeID \<Rightarrow> routeInfo1D \<Rightarrow> bool" where
  "route_ok l ri \<longleftrightarrow> 0 \<le> scoreBySend ri \<and> ri_level ri = level_of l (ri_nodeID ri)"

text \<open>What holds before the tables are refreshed.\<close>

definition r1_pre :: "routing1D \<Rightarrow> bool" where
  "r1_pre r \<longleftrightarrow> nid_IsNormal (r1_localNodeID r) \<and> infos_ok (r1_localNodeID r) (neighborhoodInfos r) \<and>
     (\<forall>(n, i)\<in>set (neighborhoodInfos r). info_ok (r1_localNodeID r) n i) \<and>
     distinct (map ri_nodeID (routeInfos r)) \<and> (\<forall>ri\<in>set (routeInfos r). route_ok (r1_localNodeID r) ri)"

text \<open>What routing needs, at every moment.\<close>

definition r1_usable :: "routing1D \<Rightarrow> bool" where
  "r1_usable r \<longleftrightarrow> sorted (map ri_nodeID (routeInfos r)) \<and>
     (\<forall>ri\<in>set (routeInfos r). nid_IsNormal (ri_nodeID ri) \<and> ri_nodeID ri \<noteq> r1_localNodeID r \<and>
        ri_firstNeighborhood ri \<in> firsts (neighborhoodInfos r)) \<and>
     (\<forall>n\<in>firsts (neighborhoodInfos r). \<exists>ri\<in>set (routeInfos r). ri_nodeID ri = n \<and> ri_firstNeighborhood ri = n) \<and>
     (frontwardNextNodeIDs r = [] \<longleftrightarrow> neighborhoodInfos r = []) \<and>
     (backwardNextNodeIDs r = [] \<longleftrightarrow> neighborhoodInfos r = []) \<and>
     (\<forall>n\<in>set (frontwardNextNodeIDs r) \<union> set (backwardNextNodeIDs r). nid_IsNormal n \<and> n \<noteq> r1_localNodeID r)"

definition r1_inv :: "routing1D \<Rightarrow> bool" where
  "r1_inv r \<longleftrightarrow> r1_pre r \<and> r1_usable r"

text \<open>
  The tables agree with the connected nodes and their reports: so after every successful
  update. A report that cannot be parsed is applied in part and leaves them as they were.
\<close>

definition r1_synced :: "routing1D \<Rightarrow> bool" where
  "r1_synced r \<longleftrightarrow>
     (\<exists>m. route_map_ok (firsts (neighborhoodInfos r)) (reports (neighborhoodInfos r)) m \<and>
          table_ok (r1_localNodeID r) m (routeInfos r)) \<and>
     (neighborhoodInfos r \<noteq> [] \<longrightarrow>
        (frontwardNextNodeIDs r, backwardNextNodeIDs r)
          = next_nodes (r1_localNodeID r) (knownNodeIDs (neighborhoodInfos r)))"

definition known :: "routing1D \<Rightarrow> NodeID set" where
  "known r = firsts (neighborhoodInfos r) \<union> snd ` reports (neighborhoodInfos r)"

lemma known_normal: "r1_pre r \<Longrightarrow> n \<in> known r \<Longrightarrow> nid_IsNormal n \<and> n \<noteq> r1_localNodeID r"
  by (auto simp: r1_pre_def infos_ok_def known_def)

lemma firsts_empty_iff [simp]: "firsts infos = {} \<longleftrightarrow> infos = []"
  by (cases infos) (simp_all add: firsts_def)

lemma updateNextNodeMatched_same [simp]:
  "r1_localNodeID (updateNextNodeMatched f p r) = r1_localNodeID r"
  "neighborhoodInfos (updateNextNodeMatched f p r) = neighborhoodInfos r"
  "routeInfos (updateNextNodeMatched f p r) = routeInfos r"
  "frontwardNextNodeIDs (updateNextNodeMatched f p r) = frontwardNextNodeIDs r"
  "backwardNextNodeIDs (updateNextNodeMatched f p r) = backwardNextNodeIDs r"
  by (simp_all add: updateNextNodeMatched_def Let_def split: sum.splits)

lemma updateNextNodeIDs_same [simp]:
  "r1_localNodeID (updateNextNodeIDs f r) = r1_localNodeID r"
  "neighborhoodInfos (updateNextNodeIDs f r) = neighborhoodInfos r"
  "routeInfos (updateNextNodeIDs f r) = routeInfos r"
  by (simp_all add: updateNextNodeIDs_def Let_def split: prod.splits)

lemma updateNextNodeIDs_next:
  "neighborhoodInfos r = [] \<Longrightarrow> frontwardNextNodeIDs (updateNextNodeIDs f r) = [] \<and> backwardNextNodeIDs (updateNextNodeIDs f r) = []"
  "neighborhoodInfos r \<noteq> [] \<Longrightarrow>
     (frontwardNextNodeIDs (updateNextNodeIDs f r), backwardNextNodeIDs (updateNextNodeIDs f r))
       = next_nodes (r1_localNodeID r) (knownNodeIDs (neighborhoodInfos r))"
  by (simp_all add: updateNextNodeIDs_def Let_def split: prod.splits)

lemma known_list:
  assumes "r1_pre r"
  shows "\<forall>n\<in>set (knownNodeIDs (neighborhoodInfos r)). nid_IsNormal n" "distinct (knownNodeIDs (neighborhoodInfos r))"
    "set (knownNodeIDs (neighborhoodInfos r)) = known r"
  using known_set [of "neighborhoodInfos r"] known_normal [OF assms] by (auto simp: known_def)

lemma next_nodes_props:
  assumes "r1_pre r" "neighborhoodInfos r \<noteq> []"
    "(front, back) = next_nodes (r1_localNodeID r) (knownNodeIDs (neighborhoodInfos r))"
  shows "front \<noteq> []" "back \<noteq> []" "set front \<subseteq> known r" "set back \<subseteq> known r"
    "hd front = hd (ring_list (r1_localNodeID r) (knownNodeIDs (neighborhoodInfos r)))"
    "hd back = last (ring_list (r1_localNodeID r) (knownNodeIDs (neighborhoodInfos r)))"
proof -
  let ?ks = "knownNodeIDs (neighborhoodInfos r)" and ?l = "r1_localNodeID r"
  have l: "nid_IsNormal ?l" using assms(1) by (simp add: r1_pre_def)
  note k = known_list [OF assms(1)]
  have ne: "?ks \<noteq> []" using assms(2) k(3) by (force simp: known_def)
  note rl = ring_list_sorted(2,3) [OF l k(1,2)]
  from assms(3) have f: "front = take (front_count (length ?ks)) (ring_list ?l ?ks)"
    and b: "back = take (back_count (length ?ks)) (rev (ring_list ?l ?ks))"
    by (simp_all add: next_nodes_ring_list [OF l k(1,2)])
  have rne: "ring_list ?l ?ks \<noteq> []" using ne rl(2) by auto
  show "front \<noteq> []" "back \<noteq> []" using next_nodes_nonempty [OF ne] rne by (simp_all add: f b)
  show "set front \<subseteq> known r" "set back \<subseteq> known r"
    using rl(1) k(3) by (auto simp: f b dest!: in_set_takeD)
  show "hd front = hd (ring_list ?l ?ks)" "hd back = last (ring_list ?l ?ks)"
    using next_nodes_nonempty [OF ne] rne by (simp_all add: f b hd_rev)
qed

text \<open>A refresh of both tables establishes everything.\<close>

lemma refresh_ok:
  assumes "r1_pre r"
  shows "\<exists>r1. updateRouteInfos r = Inr r1 \<and> r1_inv (updateNextNodeIDs f r1) \<and>
     r1_synced (updateNextNodeIDs f r1) \<and> neighborhoodInfos r1 = neighborhoodInfos r \<and>
     r1_localNodeID r1 = r1_localNodeID r"
proof -
  let ?l = "r1_localNodeID r" and ?n = "neighborhoodInfos r"
  obtain m infos where u: "updateRouteInfos r = Inr (r\<lparr>routeInfos := infos\<rparr>)"
    "route_map_ok (firsts ?n) (reports ?n) m" "table_ok ?l m infos" "\<forall>ri\<in>set infos. route_ok ?l ri"
    using updateRouteInfos_table [of r] assms by (fastforce simp: r1_pre_def route_ok_def)
  define r1 where "r1 = r\<lparr>routeInfos := infos\<rparr>"
  define r2 where "r2 = updateNextNodeIDs f r1"
  have same: "neighborhoodInfos r2 = ?n" "r1_localNodeID r2 = ?l" "routeInfos r2 = infos"
    by (simp_all add: r2_def r1_def)
  have pre: "r1_pre r2"
    using assms u(3,4) by (simp add: r1_pre_def same table_ok_def)
  have nx: "?n \<noteq> [] \<Longrightarrow> (frontwardNextNodeIDs r2, backwardNextNodeIDs r2) = next_nodes ?l (knownNodeIDs ?n)"
    "?n = [] \<Longrightarrow> frontwardNextNodeIDs r2 = [] \<and> backwardNextNodeIDs r2 = []"
    using updateNextNodeIDs_next [of r1 f] by (simp_all add: r1_def r2_def)
  have known: "known r2 = set (mkeys m)" using route_map_okD(1) [OF u(2)] by (simp add: known_def same)
  have ids: "ri_nodeID ` set infos = known r2" using u(3) known by (simp add: table_ok_def)
  have routes: "mget m (ri_nodeID ri) = Some (ri_firstNeighborhood ri)" if "ri \<in> set infos" for ri
    using u(3) that by (simp add: table_ok_def)
  have a: "\<forall>ri\<in>set infos. nid_IsNormal (ri_nodeID ri) \<and> ri_nodeID ri \<noteq> ?l \<and> ri_firstNeighborhood ri \<in> firsts ?n"
    using known_normal [OF pre] ids route_map_okD(5) [OF u(2)] routes same by (metis imageI)
  have b: "\<exists>ri\<in>set infos. ri_nodeID ri = n \<and> ri_firstNeighborhood ri = n" if "n \<in> firsts ?n" for n
  proof -
    from that have "n \<in> ri_nodeID ` set infos" by (simp add: ids known_def same)
    then obtain ri where "ri \<in> set infos" "ri_nodeID ri = n" by auto
    with routes route_map_okD(2) [OF u(2) that] show ?thesis by force
  qed
  have c: "\<forall>x\<in>set (frontwardNextNodeIDs r2) \<union> set (backwardNextNodeIDs r2). nid_IsNormal x \<and> x \<noteq> ?l"
    "frontwardNextNodeIDs r2 = [] \<longleftrightarrow> ?n = []" "backwardNextNodeIDs r2 = [] \<longleftrightarrow> ?n = []"
    using nx next_nodes_props(1-4) [OF pre, of "frontwardNextNodeIDs r2" "backwardNextNodeIDs r2"] known_normal [OF pre]
    by (cases "?n = []"; auto simp: same)+
  have "r1_usable r2"
    using a b c u(3) by (simp add: r1_usable_def same table_ok_def)
  moreover have "r1_synced r2" using u(2,3) nx(1) by (auto simp: r1_synced_def same)
  ultimately show ?thesis using pre u(1) by (auto simp: r1_inv_def r2_def r1_def)
qed

subsection \<open>Every operation keeps the invariant\<close>

lemma r1_inv_new: "nid_IsNormal l \<Longrightarrow> r1_inv (newRouting1D l) \<and> r1_synced (newRouting1D l)"
  by (simp add: r1_inv_def r1_pre_def r1_usable_def r1_synced_def newRouting1D_def infos_ok_def firsts_def
      reports_def table_ok_def exI [of _ "[]"] route_map_ok_def route_at_def)

lemma r1_inv_subRoutine:
  "r1_inv r \<Longrightarrow> r1_inv (r1_subRoutine f r)" "r1_synced r \<Longrightarrow> r1_synced (r1_subRoutine f r)"
proof -
  have "r1_inv (updateNextNodeMatched f p r) \<longleftrightarrow> r1_inv r" "r1_synced (updateNextNodeMatched f p r) \<longleftrightarrow> r1_synced r" for p
    by (simp_all only: r1_inv_def r1_pre_def r1_usable_def r1_synced_def updateNextNodeMatched_same)
  then show "r1_inv r \<Longrightarrow> r1_inv (r1_subRoutine f r)" "r1_synced r \<Longrightarrow> r1_synced (r1_subRoutine f r)"
    by (simp_all add: r1_subRoutine_def)
qed

lemma reports_mget:
  "gomap_wf infos \<Longrightarrow> reports infos = {(f, s). \<exists>i. mget infos f = Some i \<and> s \<in> set (secondNeighborhoods i)}"
  by (simp add: reports_def gomap_wf_mget_iff)

lemma info_ok_mget:
  "gomap_wf infos \<Longrightarrow> (\<forall>(n, i)\<in>set infos. P n i) \<longleftrightarrow> (\<forall>n i. mget infos n = Some i \<longrightarrow> P n i)"
  by (auto simp: gomap_wf_mget_iff)

text \<open>Adding the new connections.\<close>

lemma add_neighborhoods:
  assumes "r1_pre r" "\<forall>n\<in>set conns. nid_IsNormal n \<and> n \<noteq> r1_localNodeID r"
  shows "\<exists>infos u'. ofold (add_neighborhood now) conns (r, u) = Inr (r\<lparr>neighborhoodInfos := infos\<rparr>, u') \<and>
     r1_pre (r\<lparr>neighborhoodInfos := infos\<rparr>) \<and> firsts infos = firsts (neighborhoodInfos r) \<union> set conns \<and>
     (u' \<or> infos = neighborhoodInfos r \<and> \<not> u)"
  using assms
proof (induction conns arbitrary: r u)
  case Nil
  then show ?case by (intro exI [of _ "neighborhoodInfos r"]) auto
next
  case (Cons n conns)
  let ?l = "r1_localNodeID r"
  show ?case
  proof (cases "mhas (neighborhoodInfos r) n")
    case True
    then have "n \<in> firsts (neighborhoodInfos r)" by (simp add: firsts_def mhas_iff)
    moreover have "add_neighborhood now n (r, u) = Inr (r, u)" using True by (simp add: add_neighborhood_def)
    ultimately show ?thesis using Cons.IH [OF Cons.prems(1), of u] Cons.prems(2) by auto
  next
    case False
    define i where "i = \<lparr>ni_timestamp = now, ni_level = level_of ?l n, secondNeighborhoods = [], oddScore = 0, scoreByRecv = 0\<rparr>"
    define r1 where "r1 = r\<lparr>neighborhoodInfos := mput n i (neighborhoodInfos r)\<rparr>"
    have step: "add_neighborhood now n (r, u) = Inr (r1, True)"
      using False Cons.prems calcLevel_eq [of r n] by (simp add: add_neighborhood_def r1_def i_def r1_pre_def)
    have wf: "gomap_wf (neighborhoodInfos r)" using Cons.prems by (simp add: r1_pre_def infos_ok_def)
    have fr: "firsts (neighborhoodInfos r1) = insert n (firsts (neighborhoodInfos r))"
      by (simp add: firsts_def r1_def)
    have "mget (neighborhoodInfos r) n = None" using False by (simp add: mhas_def)
    then have rp: "reports (neighborhoodInfos r1) = reports (neighborhoodInfos r)"
      using wf by (auto simp: reports_mget r1_def i_def split: if_splits)
    have "r1_pre r1"
      using Cons.prems wf unfolding r1_pre_def infos_ok_def fr rp
      by (auto simp: r1_def info_ok_mget i_def info_ok_def gomap_wf_mget_iff)
    from Cons.IH [OF this, of True] Cons.prems(2) step fr show ?thesis
      by (auto simp: r1_def)
  qed
qed

lemma r1_pre_subset:
  assumes "r1_pre r" "gomap_wf rest" "set rest \<subseteq> set (neighborhoodInfos r)"
  shows "r1_pre (r\<lparr>neighborhoodInfos := rest\<rparr>)"
proof -
  have "firsts rest \<subseteq> firsts (neighborhoodInfos r)" "reports rest \<subseteq> reports (neighborhoodInfos r)"
    using assms(3) by (auto simp: firsts_def reports_def mkeys_def)
  then have "firsts rest \<union> snd ` reports rest \<subseteq> firsts (neighborhoodInfos r) \<union> snd ` reports (neighborhoodInfos r)"
    by blast
  moreover have "\<forall>n\<in>firsts (neighborhoodInfos r) \<union> snd ` reports (neighborhoodInfos r).
      nid_IsNormal n \<and> n \<noteq> r1_localNodeID r"
    using assms(1) unfolding r1_pre_def infos_ok_def by blast
  ultimately have "infos_ok (r1_localNodeID r) rest" using assms(2) unfolding infos_ok_def by blast
  moreover have "\<forall>(n, i)\<in>set rest. info_ok (r1_localNodeID r) n i" using assms(1,3) unfolding r1_pre_def by blast
  ultimately show ?thesis using assms(1) by (simp add: r1_pre_def)
qed

theorem r1_inv_updateNodeConnections:
  assumes "r1_inv r" "\<forall>n\<in>set conns. nid_IsNormal n \<and> n \<noteq> r1_localNodeID r"
  shows "\<exists>req r'. r1_updateNodeConnections f now conns r = Inr (req, r') \<and> r1_inv r' \<and>
     firsts (neighborhoodInfos r') = set conns \<and> r1_localNodeID r' = r1_localNodeID r \<and> (r1_synced r \<longrightarrow> r1_synced r') \<and>
     (req = 0 \<and> firsts (neighborhoodInfos r) = set conns \<or> req = requireExchangeRouting \<or>
      req = requireExchangeRouting OR requireUpdateConnections)"
proof -
  have pre: "r1_pre r" using assms(1) by (simp add: r1_inv_def)
  obtain infos u where st: "ofold (add_neighborhood now) conns (r, False) = Inr (r\<lparr>neighborhoodInfos := infos\<rparr>, u)"
    "r1_pre (r\<lparr>neighborhoodInfos := infos\<rparr>)" "firsts infos = firsts (neighborhoodInfos r) \<union> set conns"
    "u \<or> infos = neighborhoodInfos r"
    using add_neighborhoods [OF pre assms(2)] by blast
  define rest where "rest = filter (\<lambda>(n, _). n \<in> set conns) infos"
  have fr: "firsts rest = set conns" using st(3) by (auto simp: firsts_def rest_def mkeys_filter_key)
  show ?thesis
  proof (cases "u \<or> length rest \<noteq> length infos")
    case False
    then have "\<forall>x\<in>set infos. (case x of (n, _) \<Rightarrow> n \<in> set conns)"
      using length_filter_less [of _ infos "\<lambda>(n, _). n \<in> set conns"] unfolding rest_def by fastforce
    then have same: "rest = infos" by (simp add: rest_def filter_id_conv)
    from False st(4) have inf: "infos = neighborhoodInfos r" by simp
    have "filter (\<lambda>(n, _). n \<in> set conns) (neighborhoodInfos r) = neighborhoodInfos r"
      using same by (simp add: rest_def inf)
    then have "r1_updateNodeConnections f now conns r = Inr (0, r)"
      unfolding r1_updateNodeConnections_def st(1) using False by (simp add: inf)
    moreover have "firsts (neighborhoodInfos r) = set conns" using fr same inf by simp
    ultimately show ?thesis using assms(1) by blast
  next
    case True
    have "r1_pre (r\<lparr>neighborhoodInfos := rest\<rparr>)"
      using r1_pre_subset [OF st(2), of rest] st(2) by (simp add: rest_def r1_pre_def infos_ok_def)
    from refresh_ok [OF this, of f] obtain r1 where r1: "updateRouteInfos (r\<lparr>neighborhoodInfos := rest\<rparr>) = Inr r1"
      "r1_inv (updateNextNodeIDs f r1)" "r1_synced (updateNextNodeIDs f r1)"
      "neighborhoodInfos r1 = neighborhoodInfos (r\<lparr>neighborhoodInfos := rest\<rparr>)"
      "r1_localNodeID r1 = r1_localNodeID (r\<lparr>neighborhoodInfos := rest\<rparr>)" by blast
    have "r1_updateNodeConnections f now conns r =
        Inr (if connectedToNextNodes (updateNextNodeIDs f r1) then requireExchangeRouting
             else requireExchangeRouting OR requireUpdateConnections, updateNextNodeIDs f r1)"
      unfolding r1_updateNodeConnections_def st(1) using True r1(1)
      by (auto simp: rest_def [symmetric] Let_def)
    moreover have "firsts (neighborhoodInfos (updateNextNodeIDs f r1)) = set conns" using r1(4) fr by simp
    ultimately show ?thesis using r1(2,3,5) by simp
  qed
qed

text \<open>Changing the data kept for one connected node.\<close>

lemma r1_inv_put:
  assumes inv: "r1_inv r" and "mget (neighborhoodInfos r) n = Some i"
    and ok: "info_ok (r1_localNodeID r) n i'" "\<forall>s\<in>set (secondNeighborhoods i'). nid_IsNormal s \<and> s \<noteq> r1_localNodeID r"
  shows "r1_inv (r\<lparr>neighborhoodInfos := mput n i' (neighborhoodInfos r)\<rparr>)"
proof -
  let ?l = "r1_localNodeID r" and ?n = "neighborhoodInfos r"
  have pre: "r1_pre r" and us: "r1_usable r" using inv by (auto simp: r1_inv_def)
  have wf: "gomap_wf ?n" using pre by (simp add: r1_pre_def infos_ok_def)
  have "n \<in> firsts ?n" using assms(2) by (force simp: firsts_def set_mkeys)
  then have fr: "firsts (mput n i' ?n) = firsts ?n" by (auto simp: firsts_def)
  have "reports (mput n i' ?n) \<subseteq> reports ?n \<union> {n} \<times> set (secondNeighborhoods i')"
    using wf by (auto simp: reports_mget split: if_splits)
  then have rp: "snd ` reports (mput n i' ?n) \<subseteq> snd ` reports ?n \<union> set (secondNeighborhoods i')" by fastforce
  have kn: "\<forall>x\<in>firsts ?n \<union> snd ` reports ?n. nid_IsNormal x \<and> x \<noteq> ?l"
    using pre unfolding r1_pre_def infos_ok_def by blast
  have "infos_ok ?l (mput n i' ?n)"
    unfolding infos_ok_def fr using wf kn rp ok(2) by blast
  moreover have "\<forall>(m, i)\<in>set (mput n i' ?n). info_ok ?l m i"
    using pre ok(1) wf by (auto simp: info_ok_mget r1_pre_def)
  ultimately have "r1_pre (r\<lparr>neighborhoodInfos := mput n i' ?n\<rparr>)"
    using pre by (simp add: r1_pre_def)
  moreover have "mput n i' ?n = [] \<longleftrightarrow> ?n = []" using fr firsts_empty_iff by metis
  ultimately show ?thesis
    using us by (simp add: r1_inv_def r1_usable_def fr)
qed

text \<open>Scores, times and levels do not count for the tables.\<close>

definition shape :: "(NodeID, neighborhoodInfo) gomap \<Rightarrow> (NodeID \<times> NodeID list) list" where
  "shape infos = map (\<lambda>(k, x). (k, secondNeighborhoods x)) infos"

lemma same_shape:
  assumes "shape a = shape b"
  shows "firsts a = firsts b" "reports a = reports b" "knownNodeIDs a = knownNodeIDs b" "mkeys a = mkeys b"
proof -
  have "knownNodeIDs m = fold (\<lambda>(n, ss) ks. fold List.insert ss (List.insert n ks)) (shape m) []" for m
    by (simp add: knownNodeIDs_def shape_def fold_map comp_def split_def)
  moreover have "mkeys m = map fst (shape m)" for m by (simp add: mkeys_def shape_def split_def)
  moreover have "reports m = {(f, s). \<exists>ss. (f, ss) \<in> set (shape m) \<and> s \<in> set ss}" for m
    by (force simp: reports_def shape_def)
  ultimately show "firsts a = firsts b" "reports a = reports b" "knownNodeIDs a = knownNodeIDs b" "mkeys a = mkeys b"
    using assms by (simp_all add: firsts_def)
qed

lemma r1_synced_put:
  assumes "r1_synced r" "gomap_wf (neighborhoodInfos r)" "mget (neighborhoodInfos r) n = Some i"
    and "secondNeighborhoods i' = secondNeighborhoods i"
  shows "r1_synced (r\<lparr>neighborhoodInfos := mput n i' (neighborhoodInfos r)\<rparr>)"
proof -
  let ?n = "neighborhoodInfos r"
  have "shape (mput n i' m) = shape m" if "mget m n = Some i" for m
    using that assms(4) by (induction m) (auto simp: shape_def split: if_splits)
  note sh = same_shape [OF this [OF assms(3)]]
  have "mput n i' ?n \<noteq> []" "?n \<noteq> []" using assms(3) by auto
  with sh show ?thesis using assms(1) by (simp add: r1_synced_def)
qed

theorem r1_inv_countRecvPacket:
  assumes "r1_inv r"
  shows "r1_inv (r1_countRecvPacket n r)" "r1_synced r \<Longrightarrow> r1_synced (r1_countRecvPacket n r)"
proof -
  show "r1_inv (r1_countRecvPacket n r)"
  proof (cases "mget (neighborhoodInfos r) n")
    case (Some i)
    have pre: "r1_pre r" using assms by (simp add: r1_inv_def)
    then have wf: "gomap_wf (neighborhoodInfos r)" by (simp add: r1_pre_def infos_ok_def)
    have "info_ok (r1_localNodeID r) n i" using pre Some wf by (auto simp: r1_pre_def info_ok_mget)
    moreover have "\<forall>s\<in>set (secondNeighborhoods i). s \<in> known r"
      using Some wf by (force simp: known_def reports_mget)
    ultimately show ?thesis
      using Some known_normal [OF pre] r1_inv_put [OF assms Some, of "i\<lparr>scoreByRecv := scoreByRecv i + 1\<rparr>"]
      by (simp add: r1_countRecvPacket_def info_ok_def)
  qed (simp add: r1_countRecvPacket_def assms)
  assume "r1_synced r"
  then show "r1_synced (r1_countRecvPacket n r)"
    using assms by (auto simp: r1_countRecvPacket_def r1_inv_def r1_pre_def infos_ok_def
        intro!: r1_synced_put split: option.splits)
qed

subsection \<open>Reports of the connected nodes\<close>

lemma keep_reported_eq:
  "\<forall>n\<in>set ns. nid_IsNormal n \<Longrightarrow>
   keep_reported recs ns = Inr (filter (\<lambda>n. \<exists>s. nid_String n = Inr s \<and> mhas recs s) ns)"
  by (induction ns) (auto simp: nid_String_normal)

definition reported_ids :: "(string, RoutingNodeRecord) gomap \<Rightarrow> NodeID set" where
  "reported_ids recs = {n. \<exists>s. mhas recs s \<and> NewNodeIDFromString s = Inr n}"

lemma reported_ids_simps:
  "reported_ids [] = {}"
  "NewNodeIDFromString s = Inr n \<Longrightarrow> reported_ids ((s, rec) # recs) = insert n (reported_ids recs)"
  by (auto simp: reported_ids_def)

lemma read_records_ok:
  assumes "distinct second" "\<forall>n\<in>set second. nid_IsNormal n \<and> n \<noteq> l"
    "read_records l recs (second, u, od) = (res, (second', u', od'))"
  shows "distinct second' \<and> (\<forall>n\<in>set second'. nid_IsNormal n \<and> n \<noteq> l) \<and> (u' \<or> \<not> u \<and> second' = second) \<and>
     (res = Inr () \<longrightarrow> set second' = set second \<union> (reported_ids recs - {l}))"
  using assms
proof (induction recs arbitrary: second u od)
  case Nil
  then show ?case by (auto simp: reported_ids_simps)
next
  case (Cons p recs)
  obtain s rec where p: "p = (s, rec)" by fastforce
  show ?case
  proof (cases "NewNodeIDFromString s")
    case (Inl e)
    with Cons.prems p show ?thesis by auto
  next
    case (Inr n)
    then have n: "nid_IsNormal n" by (rule FromString_normal)
    have ids: "reported_ids (p # recs) = insert n (reported_ids recs)"
      using Inr by (simp add: p reported_ids_simps)
    consider "n = l" | "n \<noteq> l" "n \<in> set second" | "n \<noteq> l" "n \<notin> set second" by blast
    then show ?thesis
    proof cases
      case 1
      with Cons.prems p Inr have "read_records l recs (second, u, R1DScore rec) = (res, (second', u', od'))" by simp
      from Cons.IH [OF Cons.prems(1,2) this] 1 show ?thesis unfolding ids by simp
    next
      case 2
      with Cons.prems p Inr have "read_records l recs (second, u, od) = (res, (second', u', od'))" by simp
      from Cons.IH [OF Cons.prems(1,2) this] 2 show ?thesis unfolding ids by (simp add: insert_absorb insert_Diff_if)
    next
      case 3
      with Cons.prems p Inr have "read_records l recs (second @ [n], True, od) = (res, (second', u', od'))" by simp
      from Cons.IH [OF _ _ this] Cons.prems(1,2) 3 n have
        "distinct second' \<and> (\<forall>n\<in>set second'. nid_IsNormal n \<and> n \<noteq> l) \<and> u' \<and>
         (res = Inr () \<longrightarrow> set second' = set (second @ [n]) \<union> (reported_ids recs - {l}))" by simp
      with 3 show ?thesis unfolding ids by auto
    qed
  qed
qed

text \<open>
  A report of a neighbour, by how it ends: an identifier that cannot be parsed, a report that changes nothing, or
  one after which the tables are refreshed.
\<close>

lemma recvRoutingPacket_cases:
  assumes inv: "r1_inv r" and src: "src \<noteq> r1_localNodeID r" and Some: "mget (neighborhoodInfos r) src = Some i"
  obtains (unparsed) err i1 where
      "r1_recvRoutingPacket f src content r = Inr (Inl err, r\<lparr>neighborhoodInfos := mput src i1 (neighborhoodInfos r)\<rparr>)"
      "r1_inv (r\<lparr>neighborhoodInfos := mput src i1 (neighborhoodInfos r)\<rparr>)"
  | (unchanged) i2 where
      "r1_recvRoutingPacket f src content r = Inr (Inr 0, r\<lparr>neighborhoodInfos := mput src i2 (neighborhoodInfos r)\<rparr>)"
      "r1_inv (r\<lparr>neighborhoodInfos := mput src i2 (neighborhoodInfos r)\<rparr>)"
      "secondNeighborhoods i2 = secondNeighborhoods i" "set (secondNeighborhoods i2) = reported_ids (NodeRecords content) - {r1_localNodeID r}"
  | (refreshed) i2 where
      "r1_recvRoutingPacket f src content r =
         obind (updateRouteInfos (r\<lparr>neighborhoodInfos := mput src i2 (neighborhoodInfos r)\<rparr>)) (\<lambda>r. let r = updateNextNodeIDs f r
           in Inr (Inr (if connectedToNextNodes r then 0 else requireUpdateConnections), r))"
      "r1_inv (r\<lparr>neighborhoodInfos := mput src i2 (neighborhoodInfos r)\<rparr>)"
      "set (secondNeighborhoods i2) = reported_ids (NodeRecords content) - {r1_localNodeID r}"
proof -
  let ?l = "r1_localNodeID r" and ?n = "neighborhoodInfos r" and ?recs = "NodeRecords content"
  have pre: "r1_pre r" using inv by (simp add: r1_inv_def)
  then have wf: "gomap_wf ?n" by (simp add: r1_pre_def infos_ok_def)
  have iok: "info_ok ?l src i" using pre Some wf by (auto simp: r1_pre_def info_ok_mget)
  have "\<forall>s\<in>set (secondNeighborhoods i). s \<in> known r" using Some wf by (force simp: known_def reports_mget)
  then have sec: "\<forall>s\<in>set (secondNeighborhoods i). nid_IsNormal s \<and> s \<noteq> ?l" using known_normal [OF pre] by blast
  define kept where "kept = filter (\<lambda>n. \<exists>s. nid_String n = Inr s \<and> mhas ?recs s) (secondNeighborhoods i)"
  have keep: "keep_reported ?recs (secondNeighborhoods i) = Inr kept"
    using keep_reported_eq [of "secondNeighborhoods i"] sec by (simp add: kept_def)
  define u where "u = (length kept \<noteq> length (secondNeighborhoods i))"
  have kept_all: "\<not> u \<Longrightarrow> kept = secondNeighborhoods i"
    using length_filter_less [of _ "secondNeighborhoods i" "\<lambda>n. \<exists>s. nid_String n = Inr s \<and> mhas ?recs s"]
    unfolding u_def kept_def by (fastforce simp: filter_id_conv)
  have kept_rep: "set kept \<subseteq> reported_ids ?recs - {?l}"
    using sec by (auto simp: kept_def reported_ids_def dest: FromString_String)
  obtain res second u' od' where rd: "read_records ?l ?recs (kept, u, 0) = (res, (second, u', od'))"
    by (metis surj_pair)
  have d: "distinct kept" "\<forall>n\<in>set kept. nid_IsNormal n \<and> n \<noteq> ?l"
    using iok sec by (auto simp: kept_def info_ok_def)
  note rr = read_records_ok [OF d rd]
  define i1 where "i1 = i\<lparr>secondNeighborhoods := second\<rparr>"
  define i2 where "i2 = i1\<lparr>oddScore := od'\<rparr>"
  have code: "r1_recvRoutingPacket f src content r = (case res of
      Inl err \<Rightarrow> Inr (Inl err, r\<lparr>neighborhoodInfos := mput src i1 ?n\<rparr>)
    | Inr _ \<Rightarrow> if \<not> u' then Inr (Inr 0, r\<lparr>neighborhoodInfos := mput src i2 ?n\<rparr>)
        else obind (updateRouteInfos (r\<lparr>neighborhoodInfos := mput src i2 ?n\<rparr>)) (\<lambda>r. let r = updateNextNodeIDs f r
               in Inr (Inr (if connectedToNextNodes r then 0 else requireUpdateConnections), r)))"
    using src Some keep rd
    by (simp add: r1_recvRoutingPacket_def u_def [symmetric] i1_def i2_def Let_def split: sum.splits)
  have ok: "info_ok ?l src i1" "info_ok ?l src i2" using iok rr by (simp_all add: info_ok_def i1_def i2_def)
  have inv1: "r1_inv (r\<lparr>neighborhoodInfos := mput src i1 ?n\<rparr>)" "r1_inv (r\<lparr>neighborhoodInfos := mput src i2 ?n\<rparr>)"
    using rr ok by (intro r1_inv_put [OF inv Some]; simp add: i1_def i2_def)+
  have rep: "set (secondNeighborhoods i2) = reported_ids ?recs - {?l}" if "res = Inr ()"
    using rr that Un_absorb1 [OF kept_rep] by (simp add: i2_def i1_def)
  have same: "secondNeighborhoods i2 = secondNeighborhoods i" if "\<not> u'" "res = Inr ()"
    using rr kept_all that by (simp add: i2_def i1_def)
  show ?thesis
  proof (cases res)
    case (Inl err)
    with code inv1(1) show ?thesis by (intro unparsed) simp_all
  next
    case (Inr x)
    then show ?thesis using code inv1(2) rep same by (cases u') (auto intro: unchanged refreshed)
  qed
qed

text \<open>
  A report: the identifiers it names become the second neighbours, and the tables follow;
  if one of them cannot be parsed, an error, and the tables stay usable.
\<close>

theorem r1_inv_recvRoutingPacket:
  assumes inv: "r1_inv r" and src: "src \<noteq> r1_localNodeID r"
  shows "\<exists>res r'. r1_recvRoutingPacket f src content r = Inr (res, r') \<and> r1_inv r' \<and>
     firsts (neighborhoodInfos r') = firsts (neighborhoodInfos r) \<and>
     (\<forall>req. res = Inr req \<longrightarrow> (r1_synced r \<longrightarrow> r1_synced r') \<and>
        (\<forall>i'. mget (neighborhoodInfos r') src = Some i' \<longrightarrow>
          set (secondNeighborhoods i') = reported_ids (NodeRecords content) - {r1_localNodeID r}))"
proof (cases "mget (neighborhoodInfos r) src")
  case None
  then show ?thesis using inv src by (auto simp: r1_recvRoutingPacket_def)
next
  case (Some i)
  let ?n = "neighborhoodInfos r"
  have wf: "gomap_wf ?n" using inv by (simp add: r1_inv_def r1_pre_def infos_ok_def)
  have fr: "firsts (mput src x ?n) = firsts ?n" for x
    using Some by (auto simp: firsts_def set_mkeys split: if_splits)
  from inv src Some show ?thesis
  proof (cases rule: recvRoutingPacket_cases [where f = f and content = content])
    case (unparsed err i1)
    with fr show ?thesis by simp
  next
    case (unchanged i2)
    have "r1_synced r \<longrightarrow> r1_synced (r\<lparr>neighborhoodInfos := mput src i2 ?n\<rparr>)"
      using r1_synced_put [OF _ wf Some, of i2] unchanged(3) by simp
    with unchanged fr show ?thesis by simp
  next
    case (refreshed i2)
    have "r1_pre (r\<lparr>neighborhoodInfos := mput src i2 ?n\<rparr>)" using refreshed(2) by (simp add: r1_inv_def)
    from refresh_ok [OF this, of f] obtain r1 where r1:
      "updateRouteInfos (r\<lparr>neighborhoodInfos := mput src i2 ?n\<rparr>) = Inr r1"
      "r1_inv (updateNextNodeIDs f r1)" "r1_synced (updateNextNodeIDs f r1)"
      "neighborhoodInfos r1 = mput src i2 ?n" by auto
    have "mget (neighborhoodInfos (updateNextNodeIDs f r1)) src = Some i2"
      "firsts (neighborhoodInfos (updateNextNodeIDs f r1)) = firsts ?n"
      using r1(4) fr by simp_all
    with r1(1-3) refreshed(1,3) show ?thesis by (simp add: Let_def)
  qed
qed

end
