(* ===== verification/Routing1D_Next.thy ===== *)
theory Routing1D_Next
  imports Routing1D_Correct
begin

text \<open>
  The next step on the ring, the choice of connections, and the reports two nodes exchange.
  The next step never panics; with tables in step with the reports it leads towards the
  last known identifier before the destination; in a network whose tables are in step,
  forwarding from node to node ends.
\<close>

subsection \<open>The next step\<close>

lemma fwd_shift:
  "fwd (nid_val a) (nid_val b) =
     (if fwd (nid_val l) (nid_val a) \<le> fwd (nid_val l) (nid_val b)
      then fwd (nid_val l) (nid_val b) - fwd (nid_val l) (nid_val a)
      else ring + fwd (nid_val l) (nid_val b) - fwd (nid_val l) (nid_val a))"
  using nid_val_lt [of a] nid_val_lt [of b] nid_val_lt [of l] unfolding fwd_nid
  by (cases "nid_val l \<le> nid_val a"; cases "nid_val l \<le> nid_val b"; cases "nid_val a \<le> nid_val b") simp_all

lemma fwd_lt: "fwd (nid_val a) (nid_val b) < ring"
  using nid_val_lt [of a] nid_val_lt [of b] unfolding fwd_nid by (cases "nid_val a \<le> nid_val b") simp_all

lemma fwd_self [simp]: "fwd (nid_val a) (nid_val a) = 0"
  by (simp add: fwd_nid)

lemma fwd_pos:
  "nid_IsNormal a \<Longrightarrow> nid_IsNormal b \<Longrightarrow> a \<noteq> b \<Longrightarrow> 0 < fwd (nid_val a) (nid_val b)"
  by (metis fwd_inject fwd_self gr0I)

text \<open>The half-open arc of the ring.\<close>

lemma isBetween_arc:
  assumes "nid_IsNormal a" "nid_IsNormal b" "nid_IsNormal t" "a \<noteq> b"
  shows "isBetween a b t = Inr (fwd (nid_val a) (nid_val t) < fwd (nid_val a) (nid_val b))"
proof -
  have "nid_val a \<noteq> nid_val b" using assms nid_val_inject by blast
  then show ?thesis
    using assms nid_val_lt [of a] nid_val_lt [of b] nid_val_lt [of t] unfolding fwd_nid
    by (cases "nid_val a \<le> nid_val b"; cases "nid_val a \<le> nid_val t")
       (simp_all add: isBetween_def Smaller_val, linarith+)
qed

lemma isBetween_no_fault: "a \<noteq> b \<Longrightarrow> \<exists>v. isBetween a b t = Inr v"
  by (simp add: isBetween_def)

lemma sorted_le_last: "sorted ys \<Longrightarrow> y \<in> set ys \<Longrightarrow> y \<le> last ys"
  by (induction ys) auto

lemma scan_routes_found:
  "\<exists>x\<in>set xs. Smaller dst (ri_nodeID x) \<Longrightarrow> \<exists>c\<in>insert cand (set xs). scan_routes dst cand xs = Some c"
  by (induction xs arbitrary: cand) auto

lemma scan_routes_sorted:
  assumes "scan_routes dst cand xs = Some c" "sorted (map ri_nodeID xs)"
    "wf_id dst" "\<forall>x\<in>set xs. wf_id (ri_nodeID x)"
  shows "c = cand \<and> (\<forall>x\<in>set xs. dst < ri_nodeID x) \<or>
     c \<in> set xs \<and> ri_nodeID c \<le> dst \<and> (\<forall>x\<in>set xs. ri_nodeID x \<le> ri_nodeID c \<or> dst < ri_nodeID x)"
  using assms
proof (induction xs arbitrary: cand)
  case (Cons x xs)
  show ?case
  proof (cases "dst < ri_nodeID x")
    case True
    then have "c = cand" using Cons.prems by (auto simp: Smaller_less)
    with True Cons.prems(2) show ?thesis by auto
  next
    case False
    with Cons.prems have "scan_routes dst x xs = Some c" by (simp add: Smaller_less)
    from Cons.IH [OF this] Cons.prems False show ?thesis by fastforce
  qed
qed simp

lemma route_lookup_no_fault:
  assumes "routeInfos r \<noteq> []"
  shows "\<exists>ri r'. ri \<in> set (routeInfos r) \<and> route_lookup dst r = Inr (Some (ri_firstNeighborhood ri), r') \<and>
     (r' = r \<or> (\<exists>n. r' = r\<lparr>routeInfos := count_send n (routeInfos r)\<rparr>))"
proof (cases "Smaller dst (ri_nodeID (last (routeInfos r)))")
  case True
  then obtain c where c: "c \<in> insert (last (routeInfos r)) (set (routeInfos r))"
    "scan_routes dst (last (routeInfos r)) (routeInfos r) = Some c"
    using scan_routes_found [of "routeInfos r" dst] assms last_in_set by metis
  from c(1) assms have "c \<in> set (routeInfos r)" by auto
  with c(2) True assms show ?thesis by (intro exI [of _ c]) (auto simp: route_lookup_def Let_def)
next
  case False
  with assms show ?thesis
    by (intro exI [of _ "last (routeInfos r)"]) (auto simp: route_lookup_def Let_def)
qed

text \<open>The chosen entry is the last identifier met before the destination.\<close>

lemma route_lookup_nearest:
  assumes "routeInfos r \<noteq> []" "sorted (map ri_nodeID (routeInfos r))" "nid_IsNormal dst"
    "\<forall>ri\<in>set (routeInfos r). nid_IsNormal (ri_nodeID ri)"
  shows "\<exists>ri r'. ri \<in> set (routeInfos r) \<and> route_lookup dst r = Inr (Some (ri_firstNeighborhood ri), r') \<and>
     (\<forall>x\<in>set (routeInfos r). fwd (nid_val (ri_nodeID ri)) (nid_val dst) \<le> fwd (nid_val (ri_nodeID x)) (nid_val dst))"
proof -
  let ?xs = "routeInfos r" and ?la = "last (routeInfos r)"
  have la: "?la \<in> set ?xs" using assms(1) by simp
  have max: "ri_nodeID x \<le> ri_nodeID ?la" if "x \<in> set ?xs" for x
    using sorted_le_last [OF assms(2), of "ri_nodeID x"] that assms(1) by (simp add: last_map)
  have near: "fwd (nid_val (ri_nodeID c)) (nid_val dst) \<le> fwd (nid_val (ri_nodeID x)) (nid_val dst)"
    if "c \<in> set ?xs" "x \<in> set ?xs" "ri_nodeID c \<le> dst" "ri_nodeID x \<le> ri_nodeID c \<or> dst < ri_nodeID x" for c x
    using that assms(3,4) nid_val_lt [of "ri_nodeID x"] by (auto simp: fwd_nid le_val less_val)
  show ?thesis
  proof (cases "dst < ri_nodeID ?la")
    case False
    with la max near [of ?la] assms show ?thesis
      by (intro exI [of _ ?la]) (auto simp: route_lookup_def Let_def Smaller_less)
  next
    case True
    then have sm: "Smaller dst (ri_nodeID ?la)" using la assms(3,4) by (simp add: Smaller_less)
    then obtain c where c: "scan_routes dst ?la ?xs = Some c" using scan_routes_found [of ?xs dst] la by blast
    have res: "\<exists>r'. route_lookup dst r = Inr (Some (ri_firstNeighborhood c), r')"
      using assms(1) sm c by (simp add: route_lookup_def Let_def)
    from scan_routes_sorted [OF c assms(2)] assms(3,4)
    consider "c = ?la" "\<forall>x\<in>set ?xs. dst < ri_nodeID x"
      | "c \<in> set ?xs" "ri_nodeID c \<le> dst" "\<forall>x\<in>set ?xs. ri_nodeID x \<le> ri_nodeID c \<or> dst < ri_nodeID x" by auto
    then show ?thesis
    proof cases
      case 1
      have "fwd (nid_val (ri_nodeID c)) (nid_val dst) \<le> fwd (nid_val (ri_nodeID x)) (nid_val dst)" if "x \<in> set ?xs" for x
        using that 1 max [OF that] la assms(3,4) by (auto simp: fwd_nid le_val less_val)
      with res 1 la show ?thesis by blast
    next
      case 2
      with res near show ?thesis by blast
    qed
  qed
qed

lemma count_send_same:
  "map ri_nodeID (count_send n xs) = map ri_nodeID xs"
  "map ri_firstNeighborhood (count_send n xs) = map ri_firstNeighborhood xs"
  "ri \<in> set (count_send n xs) \<Longrightarrow> \<exists>x\<in>set xs. ri_nodeID ri = ri_nodeID x \<and> ri_firstNeighborhood ri = ri_firstNeighborhood x \<and>
     ri_level ri = ri_level x \<and> scoreBySend x \<le> scoreBySend ri"
  by (auto simp: count_send_def)

lemma count_send_kept:
  "x \<in> set xs \<Longrightarrow> \<exists>ri\<in>set (count_send n xs). ri_nodeID ri = ri_nodeID x \<and> ri_firstNeighborhood ri = ri_firstNeighborhood x"
  by (induction xs) (auto simp: count_send_def)

lemma r1_inv_count_send:
  assumes "r1_inv r"
  shows "r1_inv (r\<lparr>routeInfos := count_send n (routeInfos r)\<rparr>)"
proof -
  let ?xs = "routeInfos r"
  have pre: "r1_pre r" and us: "r1_usable r" using assms by (auto simp: r1_inv_def)
  have "\<forall>ri\<in>set (count_send n ?xs). route_ok (r1_localNodeID r) ri"
    using pre by (fastforce simp: r1_pre_def route_ok_def dest!: count_send_same(3))
  with pre have "r1_pre (r\<lparr>routeInfos := count_send n ?xs\<rparr>)" by (simp add: r1_pre_def count_send_same)
  moreover have "r1_usable (r\<lparr>routeInfos := count_send n ?xs\<rparr>)"
  proof -
    have "\<forall>ri\<in>set (count_send n ?xs). nid_IsNormal (ri_nodeID ri) \<and> ri_nodeID ri \<noteq> r1_localNodeID r \<and>
        ri_firstNeighborhood ri \<in> firsts (neighborhoodInfos r)"
      using us unfolding r1_usable_def by (metis count_send_same(3))
    moreover have "\<forall>m\<in>firsts (neighborhoodInfos r). \<exists>ri\<in>set (count_send n ?xs). ri_nodeID ri = m \<and> ri_firstNeighborhood ri = m"
      using us unfolding r1_usable_def by (metis count_send_kept)
    ultimately show ?thesis using us by (simp add: r1_usable_def count_send_same)
  qed
  ultimately show ?thesis by (simp add: r1_inv_def)
qed

lemma routeInfos_nonempty:
  assumes "r1_inv r" "frontwardNextNodeIDs r \<noteq> [] \<or> backwardNextNodeIDs r \<noteq> []"
  shows "routeInfos r \<noteq> []" "frontwardNextNodeIDs r \<noteq> []" "backwardNextNodeIDs r \<noteq> []" "neighborhoodInfos r \<noteq> []"
proof -
  have us: "r1_usable r" using assms(1) by (simp add: r1_inv_def)
  with assms(2) show ne: "neighborhoodInfos r \<noteq> []" "frontwardNextNodeIDs r \<noteq> []" "backwardNextNodeIDs r \<noteq> []"
    by (auto simp: r1_usable_def)
  then obtain n where "n \<in> firsts (neighborhoodInfos r)" using firsts_empty_iff by (metis ex_in_conv)
  with us show "routeInfos r \<noteq> []" by (auto simp: r1_usable_def)
qed

text \<open>In every state that satisfies the invariant, for every packet.\<close>

lemma r1_getNextStep_ok:
  assumes inv: "r1_inv r"
  shows "\<exists>n r'. r1_getNextStep p r = Inr (n, r') \<and> r1_inv r' \<and>
     (n = None \<or> n = Some NodeLocal \<or> n = Some NodeNeighborhoods \<and> DstNodeID p = NodeNeighborhoods \<or>
      (\<exists>k\<in>firsts (neighborhoodInfos r). n = Some k))"
proof (cases "DstNodeID p = NodeLocal \<or> DstNodeID p = r1_localNodeID r \<or> DstNodeID p = NodeNeighborhoods \<or>
    frontwardNextNodeIDs r = [] \<and> backwardNextNodeIDs r = []")
  case True
  with inv show ?thesis by (auto simp: r1_getNextStep_def Let_def)
next
  case False
  note ne = routeInfos_nonempty [OF inv]
  have us: "r1_usable r" using inv by (simp add: r1_inv_def)
  obtain f fs b bs where fb: "frontwardNextNodeIDs r = f # fs" "backwardNextNodeIDs r = b # bs"
    using ne(2,3) False by (metis neq_Nil_conv)
  obtain x where x: "isBetween (r1_localNodeID r) f (DstNodeID p) = Inr x"
    using us fb isBetween_no_fault [of "r1_localNodeID r" f] by (fastforce simp: r1_usable_def)
  obtain y where y: "isBetween b (r1_localNodeID r) (DstNodeID p) = Inr y"
    using us fb isBetween_no_fault [of b "r1_localNodeID r"] by (fastforce simp: r1_usable_def)
  have rne: "routeInfos r \<noteq> []" using ne(1) False by blast
  obtain ri r' where ri: "ri \<in> set (routeInfos r)" "route_lookup (DstNodeID p) r = Inr (Some (ri_firstNeighborhood ri), r')"
    "r' = r \<or> (\<exists>n. r' = r\<lparr>routeInfos := count_send n (routeInfos r)\<rparr>)"
    using route_lookup_no_fault [OF rne] by blast
  have "r1_inv r'" using ri(3) inv r1_inv_count_send by auto
  moreover have "ri_firstNeighborhood ri \<in> firsts (neighborhoodInfos r)" using us ri(1) by (auto simp: r1_usable_def)
  ultimately show ?thesis
    using False fb x y ri(2) inv by (auto simp: r1_getNextStep_def Let_def head_or_panic_def)
qed

text \<open>The nodes at both ends of the next nodes, seen from the local node.\<close>

lemma ring_ends:
  assumes pre: "r1_pre r" and sync: "r1_synced r" and ne: "neighborhoodInfos r \<noteq> []"
  shows "hd (frontwardNextNodeIDs r) \<in> known r" "hd (backwardNextNodeIDs r) \<in> known r"
    "m \<in> known r \<Longrightarrow> fwd (nid_val (r1_localNodeID r)) (nid_val (hd (frontwardNextNodeIDs r))) \<le> fwd (nid_val (r1_localNodeID r)) (nid_val m)"
    "m \<in> known r \<Longrightarrow> fwd (nid_val (r1_localNodeID r)) (nid_val m) \<le> fwd (nid_val (r1_localNodeID r)) (nid_val (hd (backwardNextNodeIDs r)))"
proof -
  let ?l = "r1_localNodeID r" and ?ks = "knownNodeIDs (neighborhoodInfos r)"
  let ?rl = "ring_list ?l ?ks" and ?f = "\<lambda>n. fwd (nid_val ?l) (nid_val n)"
  have "(frontwardNextNodeIDs r, backwardNextNodeIDs r) = next_nodes ?l ?ks"
    using sync ne by (simp add: r1_synced_def)
  note np = next_nodes_props [OF pre ne this]
  have l: "nid_IsNormal ?l" using pre by (simp add: r1_pre_def)
  note k = known_list [OF pre] and rl = ring_list_sorted [OF l known_list(1,2) [OF pre]]
  show "hd (frontwardNextNodeIDs r) \<in> known r" "hd (backwardNextNodeIDs r) \<in> known r"
    using np(1-4) by auto
  have rne: "?rl \<noteq> []" using np(1,3) rl(2) k(3) by force
  have srt: "sorted (map ?f ?rl)"
    using rl(1) unfolding sorted_map by (rule sorted_wrt_mono_rel [rotated]) simp
  assume m: "m \<in> known r"
  then have "?f m \<in> set (map ?f ?rl)" using rl(2) k(3) by auto
  then have "?f m \<le> last (map ?f ?rl)" "hd (map ?f ?rl) \<le> ?f m"
    using sorted_le_last [OF srt] srt rne by (blast, cases ?rl) auto
  then show "?f (hd (frontwardNextNodeIDs r)) \<le> ?f m" "?f m \<le> ?f (hd (backwardNextNodeIDs r))"
    using np(5,6) rne by (simp_all add: last_map hd_map)
qed

text \<open>What an entry of a table in step with the reports says.\<close>

definition leads_to :: "routing1D \<Rightarrow> NodeID \<Rightarrow> NodeID \<Rightarrow> bool" where
  "leads_to r k t \<longleftrightarrow> k \<in> firsts (neighborhoodInfos r) \<and>
     (if t \<in> firsts (neighborhoodInfos r) then k = t
      else (k, t) \<in> reports (neighborhoodInfos r) \<and>
        (\<forall>f. (f, t) \<in> reports (neighborhoodInfos r) \<longrightarrow>
           ring_dist (nid_val k) (nid_val t) \<le> ring_dist (nid_val f) (nid_val t)))"

lemma synced_routes:
  assumes "r1_synced r"
  shows "ri_nodeID ` set (routeInfos r) = known r"
    "ri \<in> set (routeInfos r) \<Longrightarrow> leads_to r (ri_firstNeighborhood ri) (ri_nodeID ri)"
proof -
  obtain m where m: "route_map_ok (firsts (neighborhoodInfos r)) (reports (neighborhoodInfos r)) m"
    "table_ok (r1_localNodeID r) m (routeInfos r)" using assms by (auto simp: r1_synced_def)
  show "ri_nodeID ` set (routeInfos r) = known r"
    using m(2) route_map_okD(1) [OF m(1)] by (simp add: table_ok_def known_def)
  assume "ri \<in> set (routeInfos r)"
  then have g: "mget m (ri_nodeID ri) = Some (ri_firstNeighborhood ri)" using m(2) by (simp add: table_ok_def)
  show "leads_to r (ri_firstNeighborhood ri) (ri_nodeID ri)"
    using route_map_okD(2) [OF m(1), of "ri_nodeID ri"] route_map_okD(3,4) [OF m(1) g] route_map_okD(5) [OF m(1) g] g
    by (auto simp: leads_to_def)
qed

definition ring_pred :: "NodeID \<Rightarrow> NodeID set \<Rightarrow> NodeID \<Rightarrow> bool" where
  "ring_pred d S t \<longleftrightarrow> t \<in> S \<and> (\<forall>m\<in>S. fwd (nid_val t) (nid_val d) \<le> fwd (nid_val m) (nid_val d))"

text \<open>
  The two halves of the ring as a synchronised table sees it: before the first frontward node the local node is the predecessor
  of the destination; beyond it the route that is looked up leads to it.
\<close>

lemma before_front:
  assumes pre: "r1_pre r" and dst: "nid_IsNormal d"
    and front: "\<And>m. m \<in> known r \<Longrightarrow> fwd (nid_val (r1_localNodeID r)) (nid_val d) < fwd (nid_val (r1_localNodeID r)) (nid_val m)"
  shows "ring_pred d (insert (r1_localNodeID r) (known r)) (r1_localNodeID r) \<and> d \<notin> known r"
proof -
  have "fwd (nid_val (r1_localNodeID r)) (nid_val d) \<le> fwd (nid_val m) (nid_val d)" if "m \<in> known r" for m
    using fwd_shift [of m d "r1_localNodeID r"] front [OF that] fwd_lt [of "r1_localNodeID r" m] by simp
  then show ?thesis using front by (auto simp: ring_pred_def)
qed

lemma beyond_front:
  assumes inv: "r1_inv r" and sync: "r1_synced r" and dst: "nid_IsNormal d" and front: "front \<in> known r"
    and beyond: "\<not> fwd (nid_val (r1_localNodeID r)) (nid_val d) < fwd (nid_val (r1_localNodeID r)) (nid_val front)"
    and routes: "routeInfos r \<noteq> []"
  obtains k r' t where "route_lookup d r = Inr (Some k, r')" "ring_pred d (insert (r1_localNodeID r) (known r)) t"
    "t \<noteq> r1_localNodeID r" "leads_to r k t"
proof -
  let ?l = "r1_localNodeID r"
  have pre: "r1_pre r" and us: "r1_usable r" using inv by (auto simp: r1_inv_def)
  obtain ri r' where ri: "ri \<in> set (routeInfos r)" "route_lookup d r = Inr (Some (ri_firstNeighborhood ri), r')"
    "\<forall>x\<in>set (routeInfos r). fwd (nid_val (ri_nodeID ri)) (nid_val d) \<le> fwd (nid_val (ri_nodeID x)) (nid_val d)"
    using route_lookup_nearest [OF routes _ dst] us by (auto simp: r1_usable_def)
  define t where "t = ri_nodeID ri"
  have best: "fwd (nid_val t) (nid_val d) \<le> fwd (nid_val m) (nid_val d)" if "m \<in> known r" for m
    using ri(3) that unfolding synced_routes(1) [OF sync, symmetric] t_def by blast
  have tk: "t \<in> known r" using ri(1) synced_routes(1) [OF sync] by (auto simp: t_def)
  have l: "nid_IsNormal ?l" using pre by (simp add: r1_pre_def)
  have "0 < fwd (nid_val ?l) (nid_val front)" using fwd_pos [OF l] known_normal [OF pre front] by auto
  then have "fwd (nid_val front) (nid_val d) < fwd (nid_val ?l) (nid_val d)"
    using fwd_shift [of front d ?l] beyond by auto
  with best [OF front] have "ring_pred d (insert ?l (known r)) t" using best tk by (auto simp: ring_pred_def)
  moreover have "t \<noteq> ?l" "leads_to r (ri_firstNeighborhood ri) t"
    using known_normal [OF pre tk] synced_routes(2) [OF sync ri(1)] by (auto simp: t_def)
  ultimately show ?thesis using that ri(2) by blast
qed

text \<open>After the last backward node no known node is the destination.\<close>

lemma after_back:
  assumes pre: "r1_pre r" and dst: "nid_IsNormal d" and bck: "bck \<in> known r" "bck \<noteq> d"
    and last: "\<And>m. m \<in> known r \<Longrightarrow> fwd (nid_val (r1_localNodeID r)) (nid_val m) \<le> fwd (nid_val (r1_localNodeID r)) (nid_val bck)"
    and after: "fwd (nid_val bck) (nid_val d) < fwd (nid_val bck) (nid_val (r1_localNodeID r))"
  shows "d \<notin> known r"
proof
  let ?l = "r1_localNodeID r"
  have l: "nid_IsNormal ?l" using pre by (simp add: r1_pre_def)
  have bn: "nid_IsNormal bck" "bck \<noteq> ?l" using known_normal [OF pre bck(1)] by auto
  then have pos: "0 < fwd (nid_val ?l) (nid_val bck)" using fwd_pos [OF l] by auto
  assume "d \<in> known r"
  then have "fwd (nid_val ?l) (nid_val d) \<le> fwd (nid_val ?l) (nid_val bck)" by (rule last)
  moreover have "fwd (nid_val ?l) (nid_val d) \<noteq> fwd (nid_val ?l) (nid_val bck)"
    using fwd_inject [OF l dst bn(1)] bck(2) by auto
  ultimately show False using after fwd_shift [of bck d ?l] fwd_shift [of bck ?l ?l] pos by auto
qed

lemma getNextStep_synced:
  assumes inv: "r1_inv r" and sync: "r1_synced r"
    and dst: "nid_IsNormal (DstNodeID p)" "DstNodeID p \<noteq> r1_localNodeID r"
  shows "\<exists>n r'. r1_getNextStep p r = Inr (n, r') \<and>
     (case n of
        None \<Rightarrow> has_mode (Mode p) PacketModeExplicit \<and> DstNodeID p \<notin> known r
      | Some k \<Rightarrow>
          k = NodeLocal \<and> \<not> has_mode (Mode p) PacketModeExplicit \<and>
            ring_pred (DstNodeID p) (insert (r1_localNodeID r) (known r)) (r1_localNodeID r) \<or>
          (\<exists>t. ring_pred (DstNodeID p) (insert (r1_localNodeID r) (known r)) t \<and> t \<noteq> r1_localNodeID r \<and> leads_to r k t))"
proof -
  let ?l = "r1_localNodeID r" and ?d = "DstNodeID p" and ?f = "\<lambda>n. fwd (nid_val (r1_localNodeID r)) (nid_val n)"
  have pre: "r1_pre r" and us: "r1_usable r" using inv by (auto simp: r1_inv_def)
  have l: "nid_IsNormal ?l" using pre by (simp add: r1_pre_def)
  have special: "?d \<noteq> NodeLocal" "?d \<noteq> NodeNeighborhoods" using dst(1) by auto
  show ?thesis
  proof (cases "neighborhoodInfos r = []")
    case True
    then have "known r = {}" by (simp add: known_def firsts_def reports_def)
    moreover have "frontwardNextNodeIDs r = []" "backwardNextNodeIDs r = []" using us True by (auto simp: r1_usable_def)
    ultimately show ?thesis using special dst(2) by (auto simp: r1_getNextStep_def Let_def ring_pred_def)
  next
    case False
    then have fbne: "frontwardNextNodeIDs r \<noteq> []" "backwardNextNodeIDs r \<noteq> []" using us by (auto simp: r1_usable_def)
    then obtain front fs bck bs where fb: "frontwardNextNodeIDs r = front # fs" "backwardNextNodeIDs r = bck # bs"
      by (metis neq_Nil_conv)
    note ends = ring_ends [OF pre sync False, unfolded fb list.sel]
    have bt: "isBetween ?l front ?d = Inr (?f ?d < ?f front)"
      "isBetween bck ?l ?d = Inr (fwd (nid_val bck) (nid_val ?d) < fwd (nid_val bck) (nid_val ?l))"
      using isBetween_arc known_normal [OF pre] ends(1,2) l dst(1) by auto
    show ?thesis
    proof (cases "?f ?d < ?f front")
      case True
      have "ring_pred ?d (insert ?l (known r)) ?l \<and> ?d \<notin> known r"
        using True ends(3) by (intro before_front [OF pre dst(1)]) fastforce
      moreover have "r1_getNextStep p r = Inr (if has_mode (Mode p) PacketModeExplicit then None else Some NodeLocal, r)"
        using special dst(2) fb bt(1) True by (simp add: r1_getNextStep_def Let_def head_or_panic_def)
      ultimately show ?thesis by auto
    next
      case notFront: False
      have rne: "routeInfos r \<noteq> []" using routeInfos_nonempty(1) [OF inv] fb by simp
      obtain k r' t where "route_lookup ?d r = Inr (Some k, r')" "ring_pred ?d (insert ?l (known r)) t" "t \<noteq> ?l" "leads_to r k t"
        by (rule beyond_front [OF inv sync dst(1) ends(1) notFront rne])
      moreover have "?d \<notin> known r" if "fwd (nid_val bck) (nid_val ?d) < fwd (nid_val bck) (nid_val ?l)" "bck \<noteq> ?d"
        using after_back [OF pre dst(1) ends(2) that(2) ends(4) that(1)] .
      ultimately show ?thesis
        using special dst(2) fb bt notFront by (auto simp: r1_getNextStep_def Let_def head_or_panic_def)
    qed
  qed
qed

subsection \<open>Scores and connections\<close>

lemma go_trunc_nonneg: "0 \<le> x \<Longrightarrow> 0 \<le> go_trunc x"
  by (simp add: go_trunc_def)

lemma score_rate_nonneg: "0 \<le> score_rate s"
  by (simp add: score_rate_def)

lemma normalizeScore_same:
  "r1_localNodeID (normalizeScore r) = r1_localNodeID r"
  "shape (neighborhoodInfos (normalizeScore r)) = shape (neighborhoodInfos r)"
  "map ri_nodeID (routeInfos (normalizeScore r)) = map ri_nodeID (routeInfos r)"
  "frontwardNextNodeIDs (normalizeScore r) = frontwardNextNodeIDs r"
  "backwardNextNodeIDs (normalizeScore r) = backwardNextNodeIDs r"
  by (simp_all add: normalizeScore_def Let_def shape_def split_def)

lemma shape_empty [simp]: "shape infos = [] \<longleftrightarrow> infos = []"
  by (simp add: shape_def)

lemma r1_inv_normalizeScore:
  assumes "r1_inv r"
  shows "r1_inv (normalizeScore r)"
proof -
  let ?r = "normalizeScore r"
  have pre: "r1_pre r" and us: "r1_usable r" using assms by (auto simp: r1_inv_def)
  note sh = same_shape [OF normalizeScore_same(2) [of r]]
  have emp: "neighborhoodInfos ?r = [] \<longleftrightarrow> neighborhoodInfos r = []" using sh(1) firsts_empty_iff by metis
  have wf: "gomap_wf (neighborhoodInfos ?r) \<longleftrightarrow> gomap_wf (neighborhoodInfos r)"
    using sh(4) by (simp add: gomap_wf_def mkeys_def)
  have "infos_ok (r1_localNodeID ?r) (neighborhoodInfos ?r)"
    using pre by (simp add: r1_pre_def infos_ok_def sh wf normalizeScore_same)
  moreover have "\<forall>(n, i)\<in>set (neighborhoodInfos ?r). info_ok (r1_localNodeID ?r) n i"
    using pre by (force simp: r1_pre_def normalizeScore_def Let_def info_ok_def score_rate_nonneg intro!: go_trunc_nonneg)
  moreover have "\<forall>ri\<in>set (routeInfos ?r). route_ok (r1_localNodeID ?r) ri"
    using pre by (force simp: r1_pre_def normalizeScore_def Let_def route_ok_def score_rate_nonneg intro!: go_trunc_nonneg)
  ultimately have "r1_pre ?r" using pre by (simp add: r1_pre_def normalizeScore_same)
  moreover have "\<forall>ri\<in>set (routeInfos ?r). nid_IsNormal (ri_nodeID ri) \<and> ri_nodeID ri \<noteq> r1_localNodeID r \<and>
        ri_firstNeighborhood ri \<in> firsts (neighborhoodInfos r)"
    using us by (auto simp: r1_usable_def normalizeScore_def Let_def)
  moreover have "\<forall>n\<in>firsts (neighborhoodInfos r). \<exists>ri\<in>set (routeInfos ?r). ri_nodeID ri = n \<and> ri_firstNeighborhood ri = n"
    using us by (fastforce simp: r1_usable_def normalizeScore_def Let_def)
  ultimately show ?thesis
    using us by (simp add: r1_inv_def r1_usable_def sh(1) emp normalizeScore_same)
qed

lemma max_score_fold:
  fixes cands :: "(NodeID, int) gomap"
  assumes "\<forall>(n, s)\<in>set cands. 0 \<le> s"
    "fold (\<lambda>(n, score) (best, node). if best < score then (score, Some n) else (best, node)) cands (b, x) = (b', x')"
  shows "(x' = x \<and> b' = b \<and> (\<forall>(n, s)\<in>set cands. s \<le> b)) \<or>
    (\<exists>n. x' = Some n \<and> (n, b') \<in> set cands \<and> b < b' \<and> (\<forall>(n, s)\<in>set cands. s \<le> b'))"
  using assms
proof (induction cands arbitrary: b x)
  case (Cons p cands)
  obtain n s where p: "p = (n, s)" by fastforce
  show ?case
  proof (cases "b < s")
    case True
    with Cons.IH [of s "Some n"] Cons.prems p
    have "(x' = Some n \<and> b' = s \<and> (\<forall>(m, t)\<in>set cands. t \<le> s)) \<or>
      (\<exists>m. x' = Some m \<and> (m, b') \<in> set cands \<and> s < b' \<and> (\<forall>(m, t)\<in>set cands. t \<le> b'))" by simp
    with True show ?thesis unfolding p by (elim disjE exE) auto
  next
    case False
    with Cons.IH [of b x] Cons.prems p
    have "(x' = x \<and> b' = b \<and> (\<forall>(m, t)\<in>set cands. t \<le> b)) \<or>
      (\<exists>m. x' = Some m \<and> (m, b') \<in> set cands \<and> b < b' \<and> (\<forall>(m, t)\<in>set cands. t \<le> b'))" by simp
    with False show ?thesis unfolding p by (elim disjE exE) auto
  qed
qed simp

lemma max_score_some:
  assumes "\<forall>(n, s)\<in>set cands. 0 \<le> s" "cands \<noteq> []"
  shows "\<exists>n s. max_score cands = Some n \<and> (n, s) \<in> set cands \<and> (\<forall>(n', s')\<in>set cands. s' \<le> s)"
proof -
  obtain b' x' where f: "fold (\<lambda>(n, score) (best, node). if best < score then (score, Some n) else (best, node)) cands (-1, None) = (b', x')"
    by fastforce
  have "\<not> (\<forall>(n, s)\<in>set cands. s \<le> -1)"
    using assms by (cases cands) auto
  with max_score_fold [OF assms(1) f] f show ?thesis by (auto simp: max_score_def)
qed

definition choice_ok :: "NodeID set \<Rightarrow> conn_choice \<Rightarrow> bool" where
  "choice_ok U c \<longleftrightarrow> set (cc_required c) \<subseteq> U \<and> (\<forall>lv. \<forall>(n, s)\<in>set (cc_cands c lv). n \<in> U \<and> 0 \<le> s)"

lemma set_mput: "set (mput k v m) \<subseteq> insert (k, v) (set m)"
  by (induction m) auto

lemma set_mdel: "set (mdel k m) \<subseteq> set m"
  by (auto simp: AList.delete_eq)

lemma fill_level_ok:
  assumes "choice_ok U c"
  shows "\<exists>c'. fill_level lv i c = Inr c' \<and> choice_ok U c' \<and> cc_keep c' = cc_keep c \<and> set (cc_required c) \<subseteq> set (cc_required c')"
  using assms
proof (induction i arbitrary: c)
  case (Suc i)
  show ?case
  proof (cases "cc_cands c lv = []")
    case False
    have sc: "\<forall>(n, s)\<in>set (cc_cands c lv). 0 \<le> s" using Suc.prems by (auto simp: choice_ok_def)
    obtain n s where n: "max_score (cc_cands c lv) = Some n" "(n, s) \<in> set (cc_cands c lv)"
      using max_score_some [OF sc False] by blast
    define c1 where "c1 = (require n c)\<lparr>cc_cands := (cc_cands c)(lv := mdel n (cc_cands c lv))\<rparr>"
    have "choice_ok U c1"
      using Suc.prems n(2) set_mdel [of n "cc_cands c lv"] by (fastforce simp: choice_ok_def c1_def require_def)
    from Suc.IH [OF this] n(1) False show ?thesis by (auto simp: c1_def require_def)
  qed (use Suc.prems in auto)
qed simp

lemma choose_neighbor_ok:
  assumes "choice_ok U c" "n \<in> U" "0 \<le> scoreByRecv i"
  shows "choice_ok U (choose_neighbor now r (n, i) c)"
    "set (cc_required c) \<subseteq> set (cc_required (choose_neighbor now r (n, i) c))"
    "set (cc_keep (choose_neighbor now r (n, i) c)) = set (cc_keep c) \<union> (if ni_level i = -1 then {n} else {})"
proof -
  have "set (mput n (scoreByRecv i) (cc_cands c lv)) \<subseteq> insert (n, scoreByRecv i) (set (cc_cands c lv))" for lv
    by (rule set_mput)
  then show "choice_ok U (choose_neighbor now r (n, i) c)"
    using assms by (fastforce simp: choice_ok_def choose_neighbor_def Let_def require_def)
  show "set (cc_required c) \<subseteq> set (cc_required (choose_neighbor now r (n, i) c))"
    "set (cc_keep (choose_neighbor now r (n, i) c)) = set (cc_keep c) \<union> (if ni_level i = -1 then {n} else {})"
    by (auto simp: choose_neighbor_def Let_def require_def)
qed

lemma choose_neighbors_ok:
  assumes "choice_ok U c" "\<forall>(n, i)\<in>set infos. n \<in> U \<and> 0 \<le> scoreByRecv i"
  shows "choice_ok U (fold (choose_neighbor now r) infos c) \<and>
    set (cc_required c) \<subseteq> set (cc_required (fold (choose_neighbor now r) infos c)) \<and>
    set (cc_keep (fold (choose_neighbor now r) infos c)) = set (cc_keep c) \<union> {n. \<exists>i. (n, i) \<in> set infos \<and> ni_level i = -1}"
  using assms
proof (induction infos arbitrary: c)
  case (Cons p infos)
  obtain n i where p: "p = (n, i)" by fastforce
  with Cons.prems have pr: "n \<in> U" "0 \<le> scoreByRecv i" "\<forall>(n, i)\<in>set infos. n \<in> U \<and> 0 \<le> scoreByRecv i" by auto
  note st = choose_neighbor_ok [OF Cons.prems(1) pr(1,2), of now r]
  from Cons.IH [OF st(1) pr(3)] st(2,3) show ?case by (auto simp: p split: if_splits)
qed simp

lemma choose_routes_ok:
  assumes "choice_ok U c" "\<forall>ri\<in>set ris. ri_nodeID ri \<in> U \<and> 0 \<le> scoreBySend ri"
  shows "choice_ok U (fold (choose_route r) ris c) \<and> cc_required (fold (choose_route r) ris c) = cc_required c \<and>
    cc_keep (fold (choose_route r) ris c) = cc_keep c"
  using assms
proof (induction ris arbitrary: c)
  case (Cons ri ris)
  have "set (mput (ri_nodeID ri) (scoreBySend ri) (cc_cands c lv)) \<subseteq> insert (ri_nodeID ri, scoreBySend ri) (set (cc_cands c lv))" for lv
    by (rule set_mput)
  then have "choice_ok U (choose_route r ri c)"
    using Cons.prems by (fastforce simp: choice_ok_def choose_route_def Let_def)
  moreover have "cc_required (choose_route r ri c) = cc_required c" "cc_keep (choose_route r ri c) = cc_keep c"
    by (simp_all add: choose_route_def Let_def)
  ultimately show ?case using Cons.IH [of "choose_route r ri c"] Cons.prems by simp
qed simp

lemma fill_levels_ok:
  assumes "choice_ok U c"
  shows "\<exists>c'. ofold (\<lambda>level c. if cc_count c level \<ge> 2 then Inr c else fill_level level (2 - cc_count c level) c) lvs c = Inr c' \<and>
    choice_ok U c' \<and> cc_keep c' = cc_keep c \<and> set (cc_required c) \<subseteq> set (cc_required c')"
  using assms
proof (induction lvs arbitrary: c)
  case (Cons lv lvs)
  obtain c1 where c1: "(if cc_count c lv \<ge> 2 then Inr c else fill_level lv (2 - cc_count c lv) c) = Inr c1"
    "choice_ok U c1" "cc_keep c1 = cc_keep c" "set (cc_required c) \<subseteq> set (cc_required c1)"
    using fill_level_ok [OF Cons.prems, of lv "2 - cc_count c lv"] Cons.prems
    by (cases "cc_count c lv \<ge> 2") auto
  from Cons.IH [OF c1(2)] c1 show ?case by auto
qed simp

lemma fold_require:
  "cc_required (fold require ns c) = fold List.insert ns (cc_required c)"
  "cc_keep (fold require ns c) = cc_keep c" "cc_cands (fold require ns c) = cc_cands c"
  by (induction ns arbitrary: c) (simp_all add: require_def)

theorem r1_getConnections_ok:
  assumes inv: "r1_inv r"
  shows "\<exists>req keep r'. r1_getConnections now r = Inr ((req, keep), r') \<and> r1_inv r' \<and>
     set (frontwardNextNodeIDs r) \<union> set (backwardNextNodeIDs r) \<subseteq> set req \<and>
     set req \<subseteq> set (frontwardNextNodeIDs r) \<union> set (backwardNextNodeIDs r) \<union> ri_nodeID ` set (routeInfos r) \<and>
     set keep = {n \<in> firsts (neighborhoodInfos r). level_of (r1_localNodeID r) n = -1}"
proof -
  define r' where "r' = normalizeScore r"
  have inv': "r1_inv r'" using r1_inv_normalizeScore [OF inv] by (simp add: r'_def)
  then have pre: "r1_pre r'" and us: "r1_usable r'" by (auto simp: r1_inv_def)
  define U where "U = set (frontwardNextNodeIDs r) \<union> set (backwardNextNodeIDs r) \<union> ri_nodeID ` set (routeInfos r)"
  have ids: "ri_nodeID ` set (routeInfos r') = ri_nodeID ` set (routeInfos r)"
    using arg_cong [OF normalizeScore_same(3) [of r], of set] by (simp add: r'_def)
  have fU: "firsts (neighborhoodInfos r') \<subseteq> U" using us ids by (fastforce simp: r1_usable_def U_def)
  have wf: "gomap_wf (neighborhoodInfos r')" using pre by (simp add: r1_pre_def infos_ok_def)
  define c0 where "c0 = \<lparr>cc_required = [], cc_keep = [], cc_count = (\<lambda>_. 0), cc_cands = (\<lambda>_. [])\<rparr>"
  define c1 where "c1 = fold require (backwardNextNodeIDs r') (fold require (frontwardNextNodeIDs r') c0)"
  define c2 where "c2 = fold (choose_neighbor now r') (neighborhoodInfos r') c1"
  define c3 where "c3 = fold (choose_route r') (routeInfos r') c2"
  have same: "frontwardNextNodeIDs r' = frontwardNextNodeIDs r" "backwardNextNodeIDs r' = backwardNextNodeIDs r"
    "r1_localNodeID r' = r1_localNodeID r" "firsts (neighborhoodInfos r') = firsts (neighborhoodInfos r)"
    using same_shape(1) [OF normalizeScore_same(2) [of r]] by (simp_all add: r'_def normalizeScore_same)
  have req1: "set (cc_required c1) = set (frontwardNextNodeIDs r) \<union> set (backwardNextNodeIDs r)" "cc_keep c1 = []"
    "cc_cands c1 = (\<lambda>_. [])"
    using known_fold [of "[]" "frontwardNextNodeIDs r"]
      known_fold [of "fold List.insert (frontwardNextNodeIDs r) []" "backwardNextNodeIDs r"]
    by (simp_all add: c1_def c0_def fold_require same)
  have ok1: "choice_ok U c1" by (auto simp: choice_ok_def req1 U_def)
  have "\<forall>(n, i)\<in>set (neighborhoodInfos r'). n \<in> U \<and> 0 \<le> scoreByRecv i"
    using fU pre by (force simp: r1_pre_def info_ok_def firsts_def mkeys_def)
  from choose_neighbors_ok [OF ok1 this, of now r'] have ok2: "choice_ok U c2"
    "set (cc_required c1) \<subseteq> set (cc_required c2)"
    "set (cc_keep c2) = {n. \<exists>i. (n, i) \<in> set (neighborhoodInfos r') \<and> ni_level i = -1}"
    unfolding c2_def [symmetric] req1(2) by auto
  have lev: "{n. \<exists>i. (n, i) \<in> set (neighborhoodInfos r') \<and> ni_level i = -1} =
      {n \<in> firsts (neighborhoodInfos r'). level_of (r1_localNodeID r') n = -1}"
    using pre by (force simp: r1_pre_def info_ok_def firsts_def mkeys_def)
  have "\<forall>ri\<in>set (routeInfos r'). ri_nodeID ri \<in> U \<and> 0 \<le> scoreBySend ri"
    using ids pre by (auto simp: U_def r1_pre_def route_ok_def)
  from choose_routes_ok [OF ok2(1) this, of r'] have ok3: "choice_ok U c3" "cc_required c3 = cc_required c2" "cc_keep c3 = cc_keep c2"
    unfolding c3_def [symmetric] by auto
  obtain c' where c': "ofold (\<lambda>level c. if cc_count c level \<ge> 2 then Inr c else fill_level level (2 - cc_count c level) c) [0..<levelRangesCount] c3 = Inr c'"
    "choice_ok U c'" "cc_keep c' = cc_keep c3" "set (cc_required c3) \<subseteq> set (cc_required c')"
    using fill_levels_ok [OF ok3(1)] by blast
  have "r1_getConnections now r = Inr ((cc_required c', cc_keep c'), r')"
    unfolding r1_getConnections_def Let_def r'_def [symmetric] c0_def [symmetric] c1_def [symmetric] c2_def [symmetric] c3_def [symmetric]
    using c'(1) by simp
  moreover have "set (frontwardNextNodeIDs r) \<union> set (backwardNextNodeIDs r) \<subseteq> set (cc_required c')"
    using req1(1) ok2(2) ok3(2) c'(4) by auto
  moreover have "set (cc_required c') \<subseteq> U" using c'(2) by (simp add: choice_ok_def)
  moreover have "set (cc_keep c') = {n \<in> firsts (neighborhoodInfos r). level_of (r1_localNodeID r) n = -1}"
    using c'(3) ok3(3) ok2(3) lev same by simp
  ultimately show ?thesis using inv' unfolding U_def by blast
qed

subsection \<open>Sending and receiving reports\<close>

lemma setupRoutingPacket_fold:
  assumes "\<forall>n\<in>set (mkeys infos). nid_IsNormal n"
  shows "\<exists>content'. ofold (\<lambda>(nodeID, info) content.
            obind (nid_String nodeID) (\<lambda>s.
              Inr (content\<lparr>NodeRecords := (case mget (NodeRecords content) s of
                     None \<Rightarrow> mput s \<lparr>R1DScore = scoreByRecv info, rn_R2DPosition = None\<rparr> (NodeRecords content)
                   | Some rec \<Rightarrow> mput s (rec\<lparr>R1DScore := scoreByRecv info\<rparr>) (NodeRecords content))\<rparr>)))
          infos content = Inr content' \<and> reported_ids (NodeRecords content') = reported_ids (NodeRecords content) \<union> set (mkeys infos) \<and>
          R2DPosition content' = R2DPosition content"
  using assms
proof (induction infos arbitrary: content)
  case (Cons p infos)
  obtain n i where p: "p = (n, i)" by fastforce
  have n: "nid_IsNormal n" using Cons.prems p by simp
  obtain s where s: "nid_String n = Inr s" using n by (simp add: nid_String_normal)
  have parse: "NewNodeIDFromString s = Inr n" using FromString_String [OF n s] .
  have ids: "reported_ids (mput s rec m) = insert n (reported_ids m)" for rec m
    using parse by (auto simp: reported_ids_def)
  define c1 where "c1 = content\<lparr>NodeRecords := (case mget (NodeRecords content) s of
                     None \<Rightarrow> mput s \<lparr>R1DScore = scoreByRecv i, rn_R2DPosition = None\<rparr> (NodeRecords content)
                   | Some rec \<Rightarrow> mput s (rec\<lparr>R1DScore := scoreByRecv i\<rparr>) (NodeRecords content))\<rparr>"
  have "reported_ids (NodeRecords c1) = insert n (reported_ids (NodeRecords content))" "R2DPosition c1 = R2DPosition content"
    by (simp_all add: c1_def ids split: option.splits)
  with Cons.IH [of c1] Cons.prems s show ?case by (auto simp: p c1_def)
qed simp

lemma setupRoutingPacket_reports:
  assumes "r1_inv r"
  shows "\<exists>content' r'. r1_setupRoutingPacket content r = Inr (content', r') \<and> r1_inv r' \<and>
     reported_ids (NodeRecords content') = reported_ids (NodeRecords content) \<union> firsts (neighborhoodInfos r)"
proof -
  have inv: "r1_inv (normalizeScore r)" using r1_inv_normalizeScore [OF assms] .
  have fr: "set (mkeys (neighborhoodInfos (normalizeScore r))) = firsts (neighborhoodInfos r)"
    using same_shape(1) [OF normalizeScore_same(2) [of r]] by (simp add: firsts_def)
  have "\<forall>n\<in>set (mkeys (neighborhoodInfos (normalizeScore r))). nid_IsNormal n"
    using assms unfolding fr r1_inv_def r1_pre_def infos_ok_def by blast
  from setupRoutingPacket_fold [OF this, of content] inv fr show ?thesis
    by (auto simp: r1_setupRoutingPacket_def Let_def)
qed

end
