(* ===== verification/Routing1D_Props.thy ===== *)
theory Routing1D_Props
  imports Routing1D_Next
begin

text \<open>
  The properties of the ring routing: safety in every reachable state, progress, delivery
  across a network, the exchange of reports, and the choice of next nodes and connections.
\<close>

subsection \<open>Reachable states\<close>

text \<open>
  The operations in any order, with any answers of the seed to a reconciliation. The caller
  connects only to other nodes, and hands over routing packets of other nodes.
\<close>

inductive r1_step :: "routing1D \<Rightarrow> routing1D \<Rightarrow> bool" where
  sub: "r1_step r (r1_subRoutine f r)"
| connections: "\<forall>n\<in>set conns. nid_IsNormal n \<and> n \<noteq> r1_localNodeID r \<Longrightarrow>
    r1_updateNodeConnections f now conns r = Inr (req, r') \<Longrightarrow> r1_step r r'"
| next_step: "r1_getNextStep p r = Inr (n, r') \<Longrightarrow> r1_step r r'"
| count_recv: "r1_step r (r1_countRecvPacket n r)"
| recv_routing: "src \<noteq> r1_localNodeID r \<Longrightarrow> r1_recvRoutingPacket f src content r = Inr (res, r') \<Longrightarrow> r1_step r r'"
| setup_packet: "r1_setupRoutingPacket content r = Inr (content', r') \<Longrightarrow> r1_step r r'"
| get_connections: "r1_getConnections now r = Inr (cs, r') \<Longrightarrow> r1_step r r'"

inductive_cases r1_stepE: "r1_step r r'"

inductive r1_reachable :: "NodeID \<Rightarrow> routing1D \<Rightarrow> bool" for l where
  new: "r1_reachable l (newRouting1D l)"
| step: "r1_reachable l r \<Longrightarrow> r1_step r r' \<Longrightarrow> r1_reachable l r'"

lemma r1_step_inv:
  assumes "r1_step r r'" "r1_inv r"
  shows "r1_inv r'"
  using assms
proof cases
  case (sub f)
  with assms(2) show ?thesis using r1_inv_subRoutine(1) by simp
next
  case (connections conns f now req)
  with r1_inv_updateNodeConnections [OF assms(2), of conns f now] show ?thesis by auto
next
  case (next_step p n)
  with r1_getNextStep_ok [OF assms(2), of p] show ?thesis by auto
next
  case (count_recv n)
  with r1_inv_countRecvPacket(1) [OF assms(2)] show ?thesis by simp
next
  case (recv_routing src f content res)
  with r1_inv_recvRoutingPacket [OF assms(2), of src f content] show ?thesis by auto
next
  case (setup_packet content content')
  with setupRoutingPacket_reports [OF assms(2), of content] show ?thesis by auto
next
  case (get_connections now cs)
  with r1_getConnections_ok [OF assms(2), of now] show ?thesis by auto
qed

lemma r1_reachable_inv: "r1_reachable l r \<Longrightarrow> nid_IsNormal l \<Longrightarrow> r1_inv r"
  by (induction rule: r1_reachable.induct) (auto simp: r1_inv_new intro: r1_step_inv)

subsection \<open>Forwarding across the network\<close>

text \<open>The nodes a packet visits until one of them keeps it.\<close>

inductive delivers :: "(NodeID \<Rightarrow> routing1D) \<Rightarrow> Packet \<Rightarrow> NodeID \<Rightarrow> NodeID \<Rightarrow> bool" for net p where
  here: "r1_getNextStep p (net n) = Inr (Some NodeLocal, r') \<Longrightarrow> delivers net p n n"
| forward: "r1_getNextStep p (net n) = Inr (Some k, r') \<Longrightarrow> k \<noteq> NodeLocal \<Longrightarrow> delivers net p k m \<Longrightarrow> delivers net p n m"

text \<open>A network in which every node's tables are in step and say what its peers are connected to.\<close>

definition net_ok :: "NodeID set \<Rightarrow> (NodeID \<Rightarrow> routing1D) \<Rightarrow> bool" where
  "net_ok N net \<longleftrightarrow> (\<forall>n\<in>N. nid_IsNormal n \<and> r1_inv (net n) \<and> r1_synced (net n) \<and> r1_localNodeID (net n) = n \<and>
     firsts (neighborhoodInfos (net n)) \<subseteq> N \<and>
     (\<forall>(k, t)\<in>reports (neighborhoodInfos (net n)). t = n \<or> t \<in> firsts (neighborhoodInfos (net k))))"

definition keeps :: "(NodeID \<Rightarrow> routing1D) \<Rightarrow> NodeID \<Rightarrow> NodeID \<Rightarrow> bool" where
  "keeps net d n \<longleftrightarrow> ring_pred d (insert n (known (net n))) n"

text \<open>One hop: keep the packet, or hand it to a node that knows the target.\<close>

lemma one_hop:
  assumes ok: "net_ok N net" and n: "n \<in> N" and dst: "nid_IsNormal (DstNodeID p)"
    and mode: "\<not> has_mode (Mode p) PacketModeExplicit"
  shows "(\<exists>r'. r1_getNextStep p (net n) = Inr (Some NodeLocal, r')) \<and> keeps net (DstNodeID p) n \<or>
     (\<exists>k t r'. r1_getNextStep p (net n) = Inr (Some k, r') \<and> k \<in> N \<and> k \<noteq> NodeLocal \<and>
        ring_pred (DstNodeID p) (insert n (known (net n))) t \<and> t \<noteq> n \<and> leads_to (net n) k t \<and>
        (t = k \<or> t \<in> firsts (neighborhoodInfos (net k))))"
proof (cases "DstNodeID p = n")
  case True
  have "r1_localNodeID (net n) = n" using ok n by (simp add: net_ok_def)
  with True have "r1_getNextStep p (net n) = Inr (Some NodeLocal, net n)" by (simp add: r1_getNextStep_def Let_def)
  moreover have "keeps net (DstNodeID p) n" using True by (simp add: keeps_def ring_pred_def)
  ultimately show ?thesis by blast
next
  case False
  have nn: "r1_inv (net n)" "r1_synced (net n)" "r1_localNodeID (net n) = n" "firsts (neighborhoodInfos (net n)) \<subseteq> N"
    using ok n by (auto simp: net_ok_def)
  have rep: "\<And>k t. (k, t) \<in> reports (neighborhoodInfos (net n)) \<Longrightarrow> t = n \<or> t \<in> firsts (neighborhoodInfos (net k))"
    using ok n unfolding net_ok_def by blast
  obtain a r' where a: "r1_getNextStep p (net n) = Inr (a, r')"
    "case a of None \<Rightarrow> has_mode (Mode p) PacketModeExplicit \<and> DstNodeID p \<notin> known (net n)
      | Some k \<Rightarrow> k = NodeLocal \<and> \<not> has_mode (Mode p) PacketModeExplicit \<and>
            ring_pred (DstNodeID p) (insert n (known (net n))) n \<or>
          (\<exists>t. ring_pred (DstNodeID p) (insert n (known (net n))) t \<and> t \<noteq> n \<and> leads_to (net n) k t)"
    using getNextStep_synced [OF nn(1,2) dst] False unfolding nn(3) by blast
  with mode obtain k where k: "a = Some k" by (cases a) auto
  with a(2) consider "k = NodeLocal" "ring_pred (DstNodeID p) (insert n (known (net n))) n"
    | t where "ring_pred (DstNodeID p) (insert n (known (net n))) t" "t \<noteq> n" "leads_to (net n) k t" by auto
  then show ?thesis
  proof cases
    case 1
    with a(1) k show ?thesis by (auto simp: keeps_def)
  next
    case 2
    have kN: "k \<in> N" using 2(3) nn(4) by (auto simp: leads_to_def)
    then have "k \<noteq> NodeLocal" using ok by (auto simp: net_ok_def)
    moreover have "t = k \<or> t \<in> firsts (neighborhoodInfos (net k))"
      using 2(2,3) rep [of k t] by (auto simp: leads_to_def split: if_splits)
    ultimately show ?thesis using 2 a(1) k kN by blast
  qed
qed

lemma ring_pred_le: "ring_pred d S t \<Longrightarrow> m \<in> S \<Longrightarrow> fwd (nid_val t) (nid_val d) \<le> fwd (nid_val m) (nid_val d)"
  by (simp add: ring_pred_def)

lemma fwd_inject_from:
  assumes "nid_IsNormal a" "nid_IsNormal b" "fwd (nid_val a) (nid_val d) = fwd (nid_val b) (nid_val d)"
  shows "a = b"
proof -
  have "nid_val a = nid_val b"
    using assms(3) nid_val_lt [of a] nid_val_lt [of b] nid_val_lt [of d] unfolding fwd_nid
    by (cases "nid_val a \<le> nid_val d"; cases "nid_val b \<le> nid_val d") simp_all
  with assms(1,2) show ?thesis using nid_val_inject by blast
qed

lemma net_known_normal:
  "net_ok N net \<Longrightarrow> n \<in> N \<Longrightarrow> t \<in> insert n (known (net n)) \<Longrightarrow> nid_IsNormal t"
  using known_normal [of "net n" t] by (auto simp: net_ok_def r1_inv_def)

lemma one_hop_cases:
  assumes "net_ok N net" "n \<in> N" "nid_IsNormal (DstNodeID p)" "\<not> has_mode (Mode p) PacketModeExplicit"
  obtains (kept) r' where "r1_getNextStep p (net n) = Inr (Some NodeLocal, r')" "keeps net (DstNodeID p) n"
  | (forwarded) k t' r' where "r1_getNextStep p (net n) = Inr (Some k, r')" "k \<in> N" "k \<noteq> NodeLocal"
      "ring_pred (DstNodeID p) (insert n (known (net n))) t'" "t' \<noteq> n" "leads_to (net n) k t'"
      "t' = k \<or> t' \<in> firsts (neighborhoodInfos (net k))"
  using one_hop [OF assms] by blast

text \<open>
  At a node that is itself the target, the next target is strictly nearer; at a node that is
  connected to the target, either the next target is nearer or the next node is the target.
\<close>

lemma delivered_within:
  assumes ok: "net_ok N net" and dst: "nid_IsNormal (DstNodeID p)" and mode: "\<not> has_mode (Mode p) PacketModeExplicit"
  shows "n \<in> N \<Longrightarrow> t \<in> insert n (firsts (neighborhoodInfos (net n))) \<Longrightarrow>
    \<exists>m\<in>N. delivers net p n m \<and> keeps net (DstNodeID p) m"
proof (induction "fwd (nid_val t) (nid_val (DstNodeID p))" arbitrary: n t rule: less_induct)
  case less
  let ?d = "DstNodeID p" and ?D = "\<lambda>x. fwd (nid_val x) (nid_val (DstNodeID p))"
  have from_target: "\<exists>m\<in>N. delivers net p t m \<and> keeps net ?d m" if tN: "t \<in> N"
    using ok tN dst mode
  proof (cases rule: one_hop_cases)
    case (kept r')
    with tN show ?thesis by (blast intro: delivers.here)
  next
    case (forwarded k t' r')
    have "?D t' \<noteq> ?D t"
      using fwd_inject_from [of t' t ?d] forwarded(4,5) net_known_normal [OF ok tN] by (auto simp: ring_pred_def)
    then have "?D t' < ?D t" using ring_pred_le [OF forwarded(4)] by (simp add: le_neq_implies_less)
    from less.hyps [OF this forwarded(2)] forwarded(7) obtain m where "m \<in> N" "delivers net p k m" "keeps net ?d m" by auto
    with forwarded(1,3) show ?thesis by (blast intro: delivers.forward)
  qed
  show ?case
  proof (cases "t = n")
    case True
    with from_target less.prems(1) show ?thesis by simp
  next
    case False
    then have tf: "t \<in> firsts (neighborhoodInfos (net n))" using less.prems(2) by simp
    then have tN: "t \<in> N" and tk: "t \<in> insert n (known (net n))" using ok less.prems(1) by (auto simp: net_ok_def known_def)
    from ok less.prems(1) dst mode show ?thesis
    proof (cases rule: one_hop_cases)
      case (kept r')
      with less.prems(1) show ?thesis by (blast intro: delivers.here)
    next
      case (forwarded k t' r')
      have "\<exists>m\<in>N. delivers net p k m \<and> keeps net ?d m"
      proof (cases "?D t' = ?D t")
        case True
        have "t' \<in> insert n (known (net n))" using forwarded(4) by (simp add: ring_pred_def)
        with True have "t' = t" using fwd_inject_from [of t' t ?d] net_known_normal [OF ok less.prems(1)] tk by blast
        with forwarded(6) tf have "k = t" by (simp add: leads_to_def)
        with from_target [OF tN] show ?thesis by simp
      next
        case False
        then have "?D t' < ?D t" using ring_pred_le [OF forwarded(4) tk] by simp
        from less.hyps [OF this forwarded(2)] forwarded(7) show ?thesis by auto
      qed
      with forwarded(1,3) show ?thesis by (blast intro: delivers.forward)
    qed
  qed
qed

subsection \<open>Reports parse\<close>

lemma setupRoutingPacket_keys:
  assumes "r1_inv a" "\<forall>s\<in>set (mkeys (NodeRecords c)). \<exists>n. NewNodeIDFromString s = Inr n"
    "r1_setupRoutingPacket c a = Inr (c', a')"
  shows "\<forall>s\<in>set (mkeys (NodeRecords c')). \<exists>n. NewNodeIDFromString s = Inr n"
proof -
  have fr: "set (mkeys (neighborhoodInfos (normalizeScore a))) = firsts (neighborhoodInfos a)"
    using same_shape(1) [OF normalizeScore_same(2) [of a]] by (simp add: firsts_def)
  have normal: "\<forall>n\<in>firsts (neighborhoodInfos a). nid_IsNormal n"
    using assms(1) unfolding r1_inv_def r1_pre_def infos_ok_def by blast
  have n: "nid_IsNormal k" if "(k, i) \<in> set (neighborhoodInfos (normalizeScore a))" for k i
    using normal that unfolding fr [symmetric] by (force simp: mkeys_def)
  show ?thesis
    using assms(3) unfolding r1_setupRoutingPacket_def Let_def obind_eq_Inr
  proof (elim exE conjE)
    fix x
    assume x: "ofold (\<lambda>(nodeID, info) content.
            obind (nid_String nodeID) (\<lambda>s.
              Inr (content\<lparr>NodeRecords := (case mget (NodeRecords content) s of
                     None \<Rightarrow> mput s \<lparr>R1DScore = scoreByRecv info, rn_R2DPosition = None\<rparr> (NodeRecords content)
                   | Some rec \<Rightarrow> mput s (rec\<lparr>R1DScore := scoreByRecv info\<rparr>) (NodeRecords content))\<rparr>)))
          (neighborhoodInfos (normalizeScore a)) c = Inr x" "Inr (x, normalizeScore a) = Inr (c', a')"
    have "\<forall>s\<in>set (mkeys (NodeRecords x)). \<exists>n. NewNodeIDFromString s = Inr n"
      using assms(2) _ x(1)
      by (rule ofold_invariant [where P = "\<lambda>c. \<forall>s\<in>set (mkeys (NodeRecords c)). \<exists>n. NewNodeIDFromString s = Inr n"])
         (auto simp: obind_eq_Inr split: option.splits dest!: FromString_String [OF n]; blast)
    with x(2) show ?thesis by simp
  qed
qed

lemma read_records_parses:
  "\<forall>s\<in>set (mkeys recs). \<exists>n. NewNodeIDFromString s = Inr n \<Longrightarrow> fst (read_records l recs st) = Inr ()"
  by (induction l recs st rule: read_records.induct) auto

lemma recvRoutingPacket_parses:
  assumes "r1_recvRoutingPacket f src content r = Inr (res, r')"
    "\<forall>s\<in>set (mkeys (NodeRecords content)). \<exists>n. NewNodeIDFromString s = Inr n"
  shows "\<exists>req. res = Inr req"
proof (rule ccontr)
  assume no: "\<nexists>req. res = Inr req"
  from assms(1) have "src \<noteq> r1_localNodeID r" by (auto simp: r1_recvRoutingPacket_def)
  with assms(1) no obtain i kept where i: "mget (neighborhoodInfos r) src = Some i"
    "keep_reported (NodeRecords content) (secondNeighborhoods i) = Inr kept"
    by (auto simp: r1_recvRoutingPacket_def obind_eq_Inr split: option.splits)
  define u where "u = (length kept \<noteq> length (secondNeighborhoods i))"
  obtain second u' od' where rd: "read_records (r1_localNodeID r) (NodeRecords content) (kept, u, 0) = (Inr (), (second, u', od'))"
    using read_records_parses [OF assms(2), of "r1_localNodeID r" "(kept, u, 0)"] by (metis prod.collapse)
  show False
    using assms(1) no i rd \<open>src \<noteq> r1_localNodeID r\<close>
    by (auto simp: r1_recvRoutingPacket_def u_def [symmetric] Let_def obind_eq_Inr split: if_splits)
qed

subsection \<open>Two nodes\<close>

text \<open>A concrete network: two nodes, each connected to the other.\<close>

definition id_a :: NodeID where "id_a = NodeID typeNormal 0 1"
definition id_b :: NodeID where "id_b = NodeID typeNormal 0 9"

definition one_peer :: "NodeID \<Rightarrow> NodeID \<Rightarrow> routing1D" where
  "one_peer l n = \<lparr>r1_localNodeID = l, nextNodeMatched = True, frontwardNextNodeIDs = [n], backwardNextNodeIDs = [n],
    neighborhoodInfos = [(n, \<lparr>ni_timestamp = 0, ni_level = level_of l n, secondNeighborhoods = [], oddScore = 0, scoreByRecv = 0\<rparr>)],
    routeInfos = [\<lparr>ri_nodeID = n, ri_firstNeighborhood = n, ri_level = level_of l n, scoreBySend = 0\<rparr>]\<rparr>"

definition pair_net :: "NodeID \<Rightarrow> routing1D" where
  "pair_net n = (if n = id_a then one_peer id_a id_b else one_peer id_b id_a)"

lemma id_ab: "nid_IsNormal id_a" "nid_IsNormal id_b" "id_a \<noteq> id_b"
  by (simp_all add: id_a_def id_b_def)

lemma one_peer_reached:
  assumes "nid_IsNormal l" "nid_IsNormal n" "l \<noteq> n"
  shows "r1_updateNodeConnections (\<lambda>_ _. Inr True) 0 [n] (newRouting1D l) = Inr (requireExchangeRouting, one_peer l n)"
proof -
  define r1 where "r1 = (newRouting1D l)\<lparr>neighborhoodInfos :=
    [(n, \<lparr>ni_timestamp = 0, ni_level = level_of l n, secondNeighborhoods = [], oddScore = 0, scoreByRecv = 0\<rparr>)]\<rparr>"
  have "add_neighborhood 0 n (newRouting1D l, False) = Inr (r1, True)"
    using assms calcLevel_eq [of "newRouting1D l" n] by (simp add: add_neighborhood_def r1_def newRouting1D_def)
  moreover have "updateRouteInfos r1 = Inr (r1\<lparr>routeInfos :=
      [\<lparr>ri_nodeID = n, ri_firstNeighborhood = n, ri_level = level_of l n, scoreBySend = 0\<rparr>]\<rparr>)"
    using assms calcLevel_eq [of r1 n]
    by (simp add: updateRouteInfos_def r1_def newRouting1D_def route_first_def append_routes_def sort_by_def)
  ultimately show ?thesis
    by (simp add: r1_updateNodeConnections_def r1_def newRouting1D_def updateNextNodeIDs_def updateNextNodeMatched_def
        knownNodeIDs_def next_nodes_def connectedToNextNodes_def one_peer_def)
qed

lemma one_peer_ok:
  assumes "nid_IsNormal l" "nid_IsNormal n" "l \<noteq> n"
  shows "r1_reachable l (one_peer l n)" "r1_inv (one_peer l n)" "r1_synced (one_peer l n)"
proof -
  have c: "\<forall>m\<in>set [n]. nid_IsNormal m \<and> m \<noteq> r1_localNodeID (newRouting1D l)"
    using assms by (simp add: newRouting1D_def)
  show "r1_reachable l (one_peer l n)"
    by (rule r1_reachable.step [OF r1_reachable.new r1_step.connections [OF c one_peer_reached [OF assms]]])
  show "r1_inv (one_peer l n)" "r1_synced (one_peer l n)"
    using r1_inv_updateNodeConnections [OF _ c, of "\<lambda>_ _. Inr True" 0] r1_inv_new [OF assms(1)]
    by (auto simp: one_peer_reached [OF assms])
qed

lemmas peer_ab = one_peer_ok [OF id_ab(1,2,3)] and peer_ba = one_peer_ok [OF id_ab(2,1) id_ab(3) [symmetric]]

lemma pair_net_ok: "net_ok {id_a, id_b} pair_net"
  using peer_ab peer_ba id_ab
  by (simp add: net_ok_def pair_net_def) (simp add: one_peer_def firsts_def reports_def)

definition packet_to :: "NodeID \<Rightarrow> Packet" where
  "packet_to d = \<lparr>DstNodeID = d, SrcNodeID = id_a, pk_ID = 0, HopCount = 0, Mode = PacketModeNone, Content = Content_unset\<rparr>"

text \<open>
  C1. Routing is safe in every reachable state, whatever the other nodes reported and
  whatever the seed answered: for every packet the next step is computed without a panic,
  and it is nil, the local node, all neighbours (only if the packet asks for that), or a
  connected node.
\<close>

theorem getNextStep_safe:
  assumes "r1_reachable l r" "nid_IsNormal l"
  shows "\<exists>n r'. r1_getNextStep p r = Inr (n, r') \<and>
     (n = None \<or> n = Some NodeLocal \<or> n = Some NodeNeighborhoods \<and> DstNodeID p = NodeNeighborhoods \<or>
      (\<exists>k. n = Some k \<and> mhas (neighborhoodInfos r) k))"
  using r1_getNextStep_ok [OF r1_reachable_inv [OF assms], of p] by (auto simp: firsts_def mhas_iff)

theorem getNextStep_safe_witness:
  "\<exists>n r'. r1_getNextStep (packet_to id_b) (one_peer id_a id_b) = Inr (n, r') \<and>
     (n = None \<or> n = Some NodeLocal \<or> n = Some NodeNeighborhoods \<and> DstNodeID (packet_to id_b) = NodeNeighborhoods \<or>
      (\<exists>k. n = Some k \<and> mhas (neighborhoodInfos (one_peer id_a id_b)) k))"
  by (rule getNextStep_safe [OF peer_ab(1) id_ab(1)])

text \<open>
  C2. Forwarding ends: in a network whose tables are in step, a packet that does not insist
  on its destination is handed on from any node until a node keeps it, and that node is, as
  far as it knows, the last one before the destination on the ring (the destination itself
  if it keeps a packet addressed to it). No loop is possible.
\<close>

theorem forwarding_delivers:
  assumes "net_ok N net" "n \<in> N" "nid_IsNormal (DstNodeID p)" "\<not> has_mode (Mode p) PacketModeExplicit"
  shows "\<exists>m\<in>N. delivers net p n m \<and> keeps net (DstNodeID p) m"
  using delivered_within [OF assms(1,3,4,2), of n] by simp

theorem forwarding_delivers_witness:
  "\<exists>m\<in>{id_a, id_b}. delivers pair_net (packet_to id_b) id_a m \<and> keeps pair_net (DstNodeID (packet_to id_b)) m"
  by (rule forwarding_delivers [OF pair_net_ok]) (simp_all add: packet_to_def id_ab)

text \<open>
  With tables in step, the next step makes progress. For a destination other than the
  local node: nil only for an explicit packet whose destination is unknown; the local node
  only when no known identifier lies nearer before the destination; otherwise a connected
  node that leads to the last known identifier before the destination, which is nearer to it
  than the local node: that identifier itself if it is connected, else the connected node
  nearest to it among those that report it.
\<close>

theorem getNextStep_progress:
  assumes "r1_inv r" "r1_synced r" "nid_IsNormal (DstNodeID p)" "DstNodeID p \<noteq> r1_localNodeID r"
  shows "\<exists>n r'. r1_getNextStep p r = Inr (n, r') \<and>
     (case n of
        None \<Rightarrow> has_mode (Mode p) PacketModeExplicit \<and> DstNodeID p \<notin> known r
      | Some k \<Rightarrow>
          k = NodeLocal \<and> \<not> has_mode (Mode p) PacketModeExplicit \<and>
            ring_pred (DstNodeID p) (insert (r1_localNodeID r) (known r)) (r1_localNodeID r) \<or>
          (\<exists>t. ring_pred (DstNodeID p) (insert (r1_localNodeID r) (known r)) t \<and> t \<noteq> r1_localNodeID r \<and> leads_to r k t))"
  by (rule getNextStep_synced [OF assms])

theorem getNextStep_progress_witness:
  "\<exists>n r'. r1_getNextStep (packet_to id_b) (one_peer id_a id_b) = Inr (n, r') \<and>
     (case n of
        None \<Rightarrow> has_mode (Mode (packet_to id_b)) PacketModeExplicit \<and> DstNodeID (packet_to id_b) \<notin> known (one_peer id_a id_b)
      | Some k \<Rightarrow>
          k = NodeLocal \<and> \<not> has_mode (Mode (packet_to id_b)) PacketModeExplicit \<and>
            ring_pred (DstNodeID (packet_to id_b)) (insert (r1_localNodeID (one_peer id_a id_b)) (known (one_peer id_a id_b)))
              (r1_localNodeID (one_peer id_a id_b)) \<or>
          (\<exists>t. ring_pred (DstNodeID (packet_to id_b)) (insert (r1_localNodeID (one_peer id_a id_b)) (known (one_peer id_a id_b))) t \<and>
             t \<noteq> r1_localNodeID (one_peer id_a id_b) \<and> leads_to (one_peer id_a id_b) k t))"
  using peer_ab id_ab by (intro getNextStep_progress) (simp_all add: packet_to_def one_peer_def)

lemma getNextStep_to_connected:
  assumes "r1_inv r" "r1_synced r" "mhas (neighborhoodInfos r) (DstNodeID p)"
  shows "\<exists>r'. r1_getNextStep p r = Inr (Some (DstNodeID p), r')"
proof -
  let ?d = "DstNodeID p"
  have pre: "r1_pre r" using assms(1) by (simp add: r1_inv_def)
  have df: "?d \<in> firsts (neighborhoodInfos r)" using assms(3) by (simp add: firsts_def mhas_iff)
  then have dk: "?d \<in> known r" by (simp add: known_def)
  note dn = known_normal [OF pre dk]
  have only: "t = ?d" if "ring_pred ?d (insert (r1_localNodeID r) (known r)) t" for t
  proof (rule fwd_inject_from [of t ?d ?d])
    show "fwd (nid_val t) (nid_val ?d) = fwd (nid_val ?d) (nid_val ?d)"
      using ring_pred_le [OF that, of ?d] dk by simp
    show "nid_IsNormal t" using that known_normal [OF pre, of t] pre by (auto simp: ring_pred_def r1_pre_def)
  qed (use dn in simp)
  from getNextStep_synced [OF assms(1,2), of p] dn obtain n r' where n: "r1_getNextStep p r = Inr (n, r')"
    "case n of None \<Rightarrow> has_mode (Mode p) PacketModeExplicit \<and> ?d \<notin> known r
      | Some k \<Rightarrow> k = NodeLocal \<and> \<not> has_mode (Mode p) PacketModeExplicit \<and>
            ring_pred ?d (insert (r1_localNodeID r) (known r)) (r1_localNodeID r) \<or>
          (\<exists>t. ring_pred ?d (insert (r1_localNodeID r) (known r)) t \<and> t \<noteq> r1_localNodeID r \<and> leads_to r k t)" by blast
  with dk obtain k where k: "n = Some k" by (cases n) auto
  with n(2) only dn df have "k = ?d" by (fastforce simp: leads_to_def)
  with n(1) k show ?thesis by simp
qed

text \<open>
  A packet for a connected node goes straight to it, explicit or not.
\<close>

theorem getNextStep_connected:
  assumes "r1_inv r" "r1_synced r" "mhas (neighborhoodInfos r) (DstNodeID p)"
  shows "\<exists>r'. r1_getNextStep p r = Inr (Some (DstNodeID p), r')"
  by (rule getNextStep_to_connected [OF assms])

theorem getNextStep_connected_witness:
  "\<exists>r'. r1_getNextStep (packet_to id_b) (one_peer id_a id_b) = Inr (Some (DstNodeID (packet_to id_b)), r')"
  using peer_ab by (intro getNextStep_connected) (simp_all add: packet_to_def one_peer_def)

text \<open>
  C23. Reports round trip: a node that receives the routing packet another connected node
  has set up records exactly that node's connections, itself excepted, as reached through it.
\<close>

theorem reports_exchanged:
  assumes "r1_inv a" "r1_inv b" "mhas (neighborhoodInfos b) (r1_localNodeID a)"
    "r1_setupRoutingPacket \<lparr>R2DPosition = pos, NodeRecords = []\<rparr> a = Inr (content, a')"
  shows "\<exists>req b' i. r1_recvRoutingPacket f (r1_localNodeID a) content b = Inr (Inr req, b') \<and>
     mget (neighborhoodInfos b') (r1_localNodeID a) = Some i \<and>
     set (secondNeighborhoods i) = set (mkeys (neighborhoodInfos a)) - {r1_localNodeID b}"
proof -
  have ids: "reported_ids (NodeRecords content) = firsts (neighborhoodInfos a)"
    using setupRoutingPacket_reports [OF assms(1), of "\<lparr>R2DPosition = pos, NodeRecords = []\<rparr>"] assms(4)
    by (auto simp: reported_ids_simps)
  have recs: "\<forall>s\<in>set (mkeys (NodeRecords content)). \<exists>n. NewNodeIDFromString s = Inr n"
    using setupRoutingPacket_keys [OF assms(1) _ assms(4)] by simp
  have src: "r1_localNodeID a \<noteq> r1_localNodeID b"
    using assms(2,3) known_normal [of b "r1_localNodeID a"] by (auto simp: r1_inv_def known_def firsts_def mhas_iff)
  obtain res b' where rb: "r1_recvRoutingPacket f (r1_localNodeID a) content b = Inr (res, b')" "r1_inv b'"
    "firsts (neighborhoodInfos b') = firsts (neighborhoodInfos b)"
    "\<forall>req. res = Inr req \<longrightarrow> (\<forall>i'. mget (neighborhoodInfos b') (r1_localNodeID a) = Some i' \<longrightarrow>
          set (secondNeighborhoods i') = reported_ids (NodeRecords content) - {r1_localNodeID b})"
    using r1_inv_recvRoutingPacket [OF assms(2) src, of f content] by blast
  obtain req where res: "res = Inr req" using recvRoutingPacket_parses [OF rb(1) recs] by blast
  obtain i where i: "mget (neighborhoodInfos b') (r1_localNodeID a) = Some i"
    using rb(3) assms(3) by (auto simp: firsts_def mhas_iff set_mkeys)
  from rb(4) res i ids have "set (secondNeighborhoods i) = set (mkeys (neighborhoodInfos a)) - {r1_localNodeID b}"
    by (simp add: firsts_def)
  with rb(1) res i show ?thesis by blast
qed

theorem reports_exchanged_witness:
  "\<exists>content a'. r1_setupRoutingPacket \<lparr>R2DPosition = None, NodeRecords = []\<rparr> (one_peer id_a id_b) = Inr (content, a') \<and>
    (\<exists>req b' i. r1_recvRoutingPacket (\<lambda>_ _. Inr True) (r1_localNodeID (one_peer id_a id_b)) content (one_peer id_b id_a) = Inr (Inr req, b') \<and>
     mget (neighborhoodInfos b') (r1_localNodeID (one_peer id_a id_b)) = Some i \<and>
     set (secondNeighborhoods i) = set (mkeys (neighborhoodInfos (one_peer id_a id_b))) - {r1_localNodeID (one_peer id_b id_a)})"
proof -
  obtain content a' where c: "r1_setupRoutingPacket \<lparr>R2DPosition = None, NodeRecords = []\<rparr> (one_peer id_a id_b) = Inr (content, a')"
    using setupRoutingPacket_reports [OF peer_ab(2)] by blast
  have "mhas (neighborhoodInfos (one_peer id_b id_a)) (r1_localNodeID (one_peer id_a id_b))"
    by (simp add: one_peer_def)
  from reports_exchanged [OF peer_ab(2) peer_ba(2) this c] c show ?thesis by blast
qed

lemma next_nodes_are_nearest:
  assumes "r1_inv r" "r1_synced r" "neighborhoodInfos r \<noteq> []"
  shows "\<exists>ns. sorted_wrt (\<lambda>a b. fwd (nid_val (r1_localNodeID r)) (nid_val a) < fwd (nid_val (r1_localNodeID r)) (nid_val b)) ns \<and>
     set ns = known r \<and>
     frontwardNextNodeIDs r = take (front_count (card (known r))) ns \<and>
     backwardNextNodeIDs r = take (back_count (card (known r))) (rev ns) \<and>
     0 < front_count (card (known r)) \<and> 0 < back_count (card (known r)) \<and>
     (4 \<le> card (known r) \<longrightarrow> front_count (card (known r)) = 2 \<and> back_count (card (known r)) = 2)"
proof -
  let ?l = "r1_localNodeID r" and ?ks = "knownNodeIDs (neighborhoodInfos r)"
  have pre: "r1_pre r" using assms(1) by (simp add: r1_inv_def)
  have l: "nid_IsNormal ?l" using pre by (simp add: r1_pre_def)
  note k = known_list [OF pre] and rl = ring_list_sorted [OF l known_list(1,2) [OF pre]]
  have card: "card (known r) = length ?ks" using k(2,3) distinct_card by force
  have "?ks \<noteq> []" using assms(3) k(3) by (force simp: known_def)
  note ne = next_nodes_nonempty [OF this]
  have "(frontwardNextNodeIDs r, backwardNextNodeIDs r) = next_nodes ?l ?ks" using assms(2,3) by (simp add: r1_synced_def)
  then have "frontwardNextNodeIDs r = take (front_count (card (known r))) (ring_list ?l ?ks)"
    "backwardNextNodeIDs r = take (back_count (card (known r))) (rev (ring_list ?l ?ks))"
    by (simp_all add: next_nodes_ring_list [OF l k(1,2)] card)
  with rl k(3) ne card show ?thesis
    by (intro exI [of _ "ring_list ?l ?ks"]) (auto simp: front_count_def back_count_def ONE_SIDE_NEXT_COUNT_def)
qed

text \<open>
  C18. The next nodes are the nearest on the ring: with tables in step and somebody
  connected, there is an enumeration of the known identifiers in the order in which walking
  forward from the local one meets them, and the frontward next nodes are its first ones,
  the backward next nodes its last ones in reverse; two on either side if at least four
  nodes are known, and at least one whenever one is known.
\<close>

theorem next_nodes_nearest:
  assumes "r1_inv r" "r1_synced r" "neighborhoodInfos r \<noteq> []"
  shows "\<exists>ns. sorted_wrt (\<lambda>a b. fwd (nid_val (r1_localNodeID r)) (nid_val a) < fwd (nid_val (r1_localNodeID r)) (nid_val b)) ns \<and>
     set ns = known r \<and>
     frontwardNextNodeIDs r = take (front_count (card (known r))) ns \<and>
     backwardNextNodeIDs r = take (back_count (card (known r))) (rev ns) \<and>
     0 < front_count (card (known r)) \<and> 0 < back_count (card (known r)) \<and>
     (4 \<le> card (known r) \<longrightarrow> front_count (card (known r)) = 2 \<and> back_count (card (known r)) = 2)"
  by (rule next_nodes_are_nearest [OF assms])

theorem next_nodes_nearest_witness:
  "\<exists>ns. sorted_wrt (\<lambda>a b. fwd (nid_val (r1_localNodeID (one_peer id_a id_b))) (nid_val a) < fwd (nid_val (r1_localNodeID (one_peer id_a id_b))) (nid_val b)) ns \<and>
     set ns = known (one_peer id_a id_b) \<and>
     frontwardNextNodeIDs (one_peer id_a id_b) = take (front_count (card (known (one_peer id_a id_b)))) ns \<and>
     backwardNextNodeIDs (one_peer id_a id_b) = take (back_count (card (known (one_peer id_a id_b)))) (rev ns) \<and>
     0 < front_count (card (known (one_peer id_a id_b))) \<and> 0 < back_count (card (known (one_peer id_a id_b))) \<and>
     (4 \<le> card (known (one_peer id_a id_b)) \<longrightarrow> front_count (card (known (one_peer id_a id_b))) = 2 \<and> back_count (card (known (one_peer id_a id_b))) = 2)"
  by (rule next_nodes_nearest [OF peer_ab(2,3)]) (simp add: one_peer_def)

text \<open>
  C19. The connections a node wants, in every reachable state: the choice ends without a
  panic, asks for all next nodes, asks only for identifiers it has a route to or next nodes,
  and keeps exactly the connected nodes that are farther than the last level.
\<close>

theorem getConnections_sound:
  assumes "r1_reachable l r" "nid_IsNormal l"
  shows "\<exists>req keep r'. r1_getConnections now r = Inr ((req, keep), r') \<and>
     set (frontwardNextNodeIDs r) \<union> set (backwardNextNodeIDs r) \<subseteq> set req \<and>
     set req \<subseteq> set (frontwardNextNodeIDs r) \<union> set (backwardNextNodeIDs r) \<union> ri_nodeID ` set (routeInfos r) \<and>
     set keep = {n \<in> set (mkeys (neighborhoodInfos r)). level_of (r1_localNodeID r) n = -1}"
  using r1_getConnections_ok [OF r1_reachable_inv [OF assms], of now] unfolding firsts_def by blast

theorem getConnections_sound_witness:
  "\<exists>req keep r'. r1_getConnections 0 (one_peer id_a id_b) = Inr ((req, keep), r') \<and>
     set (frontwardNextNodeIDs (one_peer id_a id_b)) \<union> set (backwardNextNodeIDs (one_peer id_a id_b)) \<subseteq> set req \<and>
     set req \<subseteq> set (frontwardNextNodeIDs (one_peer id_a id_b)) \<union> set (backwardNextNodeIDs (one_peer id_a id_b)) \<union> ri_nodeID ` set (routeInfos (one_peer id_a id_b)) \<and>
     set keep = {n \<in> set (mkeys (neighborhoodInfos (one_peer id_a id_b))). level_of (r1_localNodeID (one_peer id_a id_b)) n = -1}"
  by (rule getConnections_sound [OF peer_ab(1) id_ab(1)])

end
