(* ===== verification/Routing2D.thy ===== *)
theory Routing2D
  imports Routing1D
begin

text \<open>
  Routing by position (\<open>src/node/internal/network/routing/routing_2d.go\<close>): the positions of the
  known nodes with the connected nodes they are reached through, greedy forwarding towards
  a position, and the neighbours of the local node in a triangulation.

  The coordinate system is used through its interface, here its distance and precision. The
  triangulation is a third-party package: \<open>triangulate\<close>, an argument, returns the
  \<open>Triangles\<close> and \<open>Halfedges\<close> of its result. A position pointer is never nil, since
  \<open>NewCoordinateFromProto\<close> returns a new object or panics.
\<close>

record CoordinateOps =
  co_GetDistance :: "Coordinate \<Rightarrow> Coordinate \<Rightarrow> real"
  co_GetPrecision :: real

record routeInfo2D =
  r2_position :: Coordinate
  rootNodeIDs :: "NodeID list"

record routing2D =
  r2_localNodeID :: NodeID
  r2_localPosition :: Coordinate
  neighborNodeIDs :: "NodeID list"
  r2_routeInfos :: "(NodeID, routeInfo2D) gomap"

type_synonym point = "real \<times> real"
type_synonym triangulate_fn = "point list \<Rightarrow> (nat list \<times> int list) result"

definition newRouting2D :: "NodeID \<Rightarrow> routing2D" where
  "newRouting2D localNodeID = \<lparr>r2_localNodeID = localNodeID, r2_localPosition = \<lparr>X = 0, Y = 0\<rparr>,
     neighborNodeIDs = [], r2_routeInfos = []\<rparr>"

subsection \<open>Neighbours in the triangulation\<close>

definition p2n :: "(point, NodeID list) gomap \<Rightarrow> point \<Rightarrow> NodeID option" where
  "p2n points p = (case mget points p of Some (n # _) \<Rightarrow> Some n | _ \<Rightarrow> None)"

definition gather_points :: "routing2D \<Rightarrow> (point, NodeID list) gomap" where
  "gather_points r =
     fold (\<lambda>(nodeID, info) points.
        let point = (X (r2_position info), Y (r2_position info))
        in mput point ((case mget points point of Some ns \<Rightarrow> ns | None \<Rightarrow> []) @ [nodeID]) points)
      (r2_routeInfos r) [((X (r2_localPosition r), Y (r2_localPosition r)), [r2_localNodeID r])]"

text \<open>
  Positions shared by several nodes are moved apart. The loop deletes and adds entries while
  it ranges over the map; an entry it adds has one node and is left alone if visited.
\<close>

definition spread_point :: "real \<Rightarrow> point \<Rightarrow> NodeID \<Rightarrow> (point, NodeID list) gomap \<Rightarrow> (point, NodeID list) gomap outcome" where
  "spread_point precision p nodeID points =
     obind (nid_Raw nodeID) (\<lambda>(w0, w1).
       Inr (mput (fst p + precision * real (unat w0) / (2 ^ 64 - 1),
                  snd p + precision * real (unat w1) / (2 ^ 64 - 1)) [nodeID] points))"

definition shift_points :: "real \<Rightarrow> (point, NodeID list) gomap \<Rightarrow> (point, NodeID list) gomap outcome" where
  "shift_points precision points =
     ofold (\<lambda>p points. case mget points p of
          None \<Rightarrow> Inr points
        | Some nodeIDs \<Rightarrow>
            if length nodeIDs = 1 then Inr points
            else ofold (spread_point precision p) nodeIDs (mdel p points))
       (mkeys points) points"

definition slice_at :: "'a list \<Rightarrow> nat \<Rightarrow> 'a outcome" where
  "slice_at xs i = (if i < length xs then Inr (xs ! i) else Inl (Panic ''index out of range''))"

definition edge_neighbor ::
  "NodeID \<Rightarrow> (point, NodeID list) gomap \<Rightarrow> point list \<Rightarrow> nat list \<Rightarrow> int list \<Rightarrow> nat \<Rightarrow> NodeID list \<Rightarrow> NodeID list outcome" where
  "edge_neighbor localNodeID points pointSlice triangles halfedges i neighbors =
     (let h = halfedges ! i
      in if h \<noteq> -1 \<and> h \<le> int i then Inr neighbors
         else
           obind (slice_at triangles i) (\<lambda>t1. obind (slice_at pointSlice t1) (\<lambda>p1.
             let j = (if i mod 3 = 2 then i - 2 else i + 1)
             in obind (slice_at triangles j) (\<lambda>t2. obind (slice_at pointSlice t2) (\<lambda>p2.
                  case (p2n points p1, p2n points p2) of
                    (Some n1, Some n2) \<Rightarrow>
                      let neighbors = (if n1 = localNodeID then List.insert n2 neighbors else neighbors);
                          neighbors = (if n2 = localNodeID then List.insert n1 neighbors else neighbors)
                      in Inr neighbors
                  | _ \<Rightarrow> Inr neighbors)))))"

definition neighborNodeIDChanged :: "CoordinateOps \<Rightarrow> triangulate_fn \<Rightarrow> routing2D \<Rightarrow> (bool \<times> routing2D) outcome" where
  "neighborNodeIDChanged co triangulate r =
     (let finish = (\<lambda>ns. if set ns \<noteq> set (neighborNodeIDs r) then Inr (True, r\<lparr>neighborNodeIDs := ns\<rparr>)
                         else Inr (False, r))
      in if length (r2_routeInfos r) < 3 then finish (mkeys (r2_routeInfos r))
         else
           obind (shift_points (co_GetPrecision co) (gather_points r)) (\<lambda>points.
             let pointSlice = mkeys points
             in case triangulate pointSlice of
                  Inl err \<Rightarrow> Inr (False, r)
                | Inr (triangles, halfedges) \<Rightarrow>
                    obind (ofold (edge_neighbor (r2_localNodeID r) points pointSlice triangles halfedges)
                             [0..<length halfedges] []) finish))"

definition changed_action :: "bool \<Rightarrow> CoordinateOps \<Rightarrow> triangulate_fn \<Rightarrow> routing2D \<Rightarrow> (int \<times> routing2D) outcome" where
  "changed_action updated co triangulate r =
     (if updated
      then obind (neighborNodeIDChanged co triangulate r) (\<lambda>(changed, r).
             Inr (if changed then requireExchangeRouting OR requireUpdateConnections else 0, r))
      else Inr (0, r))"

subsection \<open>Operations\<close>

definition drop_roots :: "NodeID list \<Rightarrow> (NodeID, routeInfo2D) gomap \<Rightarrow> (NodeID, routeInfo2D) gomap" where
  "drop_roots connections infos =
     filter (\<lambda>(n, info). rootNodeIDs info \<noteq> [])
       (map (\<lambda>(n, info). (n, info\<lparr>rootNodeIDs := filter (\<lambda>x. x \<in> set connections) (rootNodeIDs info)\<rparr>)) infos)"

text \<open>An entry goes when its last root goes; an entry without roots is never visited inside.\<close>

definition r2_updateNodeConnections :: "CoordinateOps \<Rightarrow> triangulate_fn \<Rightarrow> NodeID list \<Rightarrow> routing2D \<Rightarrow> (int \<times> routing2D) outcome" where
  "r2_updateNodeConnections co triangulate connections r =
     (let rootless = filter (\<lambda>(n, info). rootNodeIDs info = []) (r2_routeInfos r);
          rooted = filter (\<lambda>(n, info). rootNodeIDs info \<noteq> []) (r2_routeInfos r);
          left = drop_roots connections rooted;
          updated = (length left \<noteq> length rooted)
      in changed_action updated co triangulate (r\<lparr>r2_routeInfos := rootless @ left\<rparr>))"

definition nearer :: "CoordinateOps \<Rightarrow> Coordinate \<Rightarrow> NodeID \<times> routeInfo2D \<Rightarrow> real \<times> (NodeID \<times> routeInfo2D) option \<Rightarrow>
    real \<times> (NodeID \<times> routeInfo2D) option" where
  "nearer co dst = (\<lambda>(nodeID, info) (best, cand).
     let distance = co_GetDistance co (r2_position info) dst
     in if distance < best then (distance, Some (nodeID, info)) else (best, cand))"

definition maxFloat64 :: real where "maxFloat64 = (2 - 1 / 2 ^ 52) * 2 ^ 1023"

fun nearest_root :: "CoordinateOps \<Rightarrow> Coordinate \<Rightarrow> (NodeID, routeInfo2D) gomap \<Rightarrow> NodeID list \<Rightarrow> real \<Rightarrow> NodeID \<Rightarrow> NodeID outcome" where
  "nearest_root co dst infos [] best cand = Inr cand"
| "nearest_root co dst infos (n # ns) best cand =
     (case mget infos n of
        None \<Rightarrow> Inl (Panic ''nil pointer dereference'')
      | Some info \<Rightarrow>
          let distance = co_GetDistance co (r2_position info) dst
          in if distance < best then nearest_root co dst infos ns distance n
             else nearest_root co dst infos ns best cand)"

definition r2_getNextStep :: "CoordinateOps \<Rightarrow> Coordinate \<Rightarrow> routing2D \<Rightarrow> NodeID outcome" where
  "r2_getNextStep co dst r =
     (case snd (fold (nearer co dst) (r2_routeInfos r) (co_GetDistance co (r2_localPosition r) dst, None)) of
        None \<Rightarrow> Inr NodeLocal
      | Some (candidateNodeID, candidateInfo) \<Rightarrow>
          if candidateNodeID \<in> set (rootNodeIDs candidateInfo) then Inr candidateNodeID
          else nearest_root co dst (r2_routeInfos r) (rootNodeIDs candidateInfo) maxFloat64 candidateNodeID)"

definition r2_getNextNodePositions :: "routing2D \<Rightarrow> (NodeID, Coordinate) gomap" where
  "r2_getNextNodePositions r =
     map (\<lambda>(nodeID, info). (nodeID, r2_position info))
       (filter (\<lambda>(nodeID, info). nodeID \<in> set (rootNodeIDs info)) (r2_routeInfos r))"

definition r2_updateLocalPosition :: "CoordinateOps \<Rightarrow> triangulate_fn \<Rightarrow> Coordinate \<Rightarrow> routing2D \<Rightarrow> (int \<times> routing2D) outcome" where
  "r2_updateLocalPosition co triangulate pos r =
     (if r2_localPosition r = pos then Inr (0, r)
      else obind (neighborNodeIDChanged co triangulate (r\<lparr>r2_localPosition := pos\<rparr>)) (\<lambda>(_, r).
             Inr (requireExchangeRouting, r)))"

definition recv_source :: "NodeID \<Rightarrow> Coordinate \<Rightarrow> (NodeID, routeInfo2D) gomap \<Rightarrow> bool \<times> (NodeID, routeInfo2D) gomap" where
  "recv_source src contentPosition infos =
     (case mget infos src of
        None \<Rightarrow> (True, mput src \<lparr>r2_position = contentPosition, rootNodeIDs = [src]\<rparr> infos)
      | Some info \<Rightarrow>
          if src \<notin> set (rootNodeIDs info) \<or> \<not> coord_Equal (r2_position info) contentPosition
          then (True, mput src (info\<lparr>r2_position := contentPosition,
                  rootNodeIDs := List.insert src (rootNodeIDs info)\<rparr>) infos)
          else (False, infos))"

definition recv_record :: "NodeID \<Rightarrow> NodeID \<Rightarrow> RoutingNodeRecord \<Rightarrow> bool \<times> (NodeID, routeInfo2D) gomap \<Rightarrow>
    (bool \<times> (NodeID, routeInfo2D) gomap) outcome" where
  "recv_record src nodeID rec = (\<lambda>(updated, infos).
     case mget infos nodeID of
       None \<Rightarrow>
         (case rn_R2DPosition rec of
            None \<Rightarrow> Inr (updated, infos)
          | Some _ \<Rightarrow> obind (NewCoordinateFromProto (rn_R2DPosition rec)) (\<lambda>nodePosition.
              Inr (True, mput nodeID \<lparr>r2_position = nodePosition, rootNodeIDs = [src]\<rparr> infos)))
     | Some info \<Rightarrow>
         let updated = (updated \<or> src \<notin> set (rootNodeIDs info));
             info = info\<lparr>rootNodeIDs := List.insert src (rootNodeIDs info)\<rparr>
         in case rn_R2DPosition rec of
              None \<Rightarrow> Inr (updated, mput nodeID info infos)
            | Some _ \<Rightarrow> obind (NewCoordinateFromProto (rn_R2DPosition rec)) (\<lambda>nodePosition.
                if nodeID \<notin> set (rootNodeIDs info) \<and> \<not> coord_Equal (r2_position info) nodePosition
                then Inr (True, mput nodeID (info\<lparr>r2_position := nodePosition\<rparr>) infos)
                else Inr (updated, mput nodeID info infos)))"

fun recv_records :: "NodeID \<Rightarrow> NodeID \<Rightarrow> (string, RoutingNodeRecord) gomap \<Rightarrow> bool \<times> (NodeID, routeInfo2D) gomap \<Rightarrow>
    (unit result \<times> bool \<times> (NodeID, routeInfo2D) gomap) outcome" where
  "recv_records localNodeID src [] s = Inr (Inr (), s)"
| "recv_records localNodeID src ((nodeIDStr, rec) # recs) s =
     (case NewNodeIDFromString nodeIDStr of
        Inl err \<Rightarrow> Inr (Inl (''failed to parse node id '' @ err), s)
      | Inr nodeID \<Rightarrow>
          if nid_Equal (Some nodeID) (Some localNodeID) then recv_records localNodeID src recs s
          else obind (recv_record src nodeID rec s) (recv_records localNodeID src recs))"

text \<open>Entries reached through the source that its report no longer names.\<close>

fun recv_drop :: "NodeID \<Rightarrow> (string, RoutingNodeRecord) gomap \<Rightarrow> (NodeID, routeInfo2D) gomap \<Rightarrow>
    (bool \<times> (NodeID, routeInfo2D) gomap) outcome" where
  "recv_drop src recs [] = Inr (False, [])"
| "recv_drop src recs ((nodeID, info) # infos) =
     obind (recv_drop src recs infos) (\<lambda>(updated, rest).
       if nid_Equal (Some nodeID) (Some src) \<or> src \<notin> set (rootNodeIDs info)
       then Inr (updated, (nodeID, info) # rest)
       else obind (nid_String nodeID) (\<lambda>s.
         if mhas recs s then Inr (updated, (nodeID, info) # rest)
         else
           let roots = removeAll src (rootNodeIDs info)
           in Inr (True, if roots = [] then rest else (nodeID, info\<lparr>rootNodeIDs := roots\<rparr>) # rest)))"

definition r2_recvRoutingPacket ::
  "CoordinateOps \<Rightarrow> triangulate_fn \<Rightarrow> NodeID \<Rightarrow> RoutingMsg \<Rightarrow> routing2D \<Rightarrow> (int result \<times> routing2D) outcome" where
  "r2_recvRoutingPacket co triangulate src content r =
     obind (NewCoordinateFromProto (R2DPosition content)) (\<lambda>contentPosition.
     obind (recv_records (r2_localNodeID r) src (NodeRecords content)
              (recv_source src contentPosition (r2_routeInfos r))) (\<lambda>(res, updated, infos).
       case res of
         Inl err \<Rightarrow> Inr (Inl err, r\<lparr>r2_routeInfos := infos\<rparr>)
       | Inr _ \<Rightarrow>
           obind (recv_drop src (NodeRecords content) infos) (\<lambda>(dropped, infos).
           obind (changed_action (updated \<or> dropped) co triangulate (r\<lparr>r2_routeInfos := infos\<rparr>)) (\<lambda>(action, r).
             Inr (Inr action, r)))))"

definition r2_setupRoutingPacket :: "RoutingMsg \<Rightarrow> routing2D \<Rightarrow> RoutingMsg outcome" where
  "r2_setupRoutingPacket content r =
     ofold (\<lambda>(nodeID, info) content.
        if nodeID \<notin> set (rootNodeIDs info) then Inr content
        else obind (nid_String nodeID) (\<lambda>s.
          Inr (content\<lparr>NodeRecords := (case mget (NodeRecords content) s of
                 None \<Rightarrow> mput s \<lparr>R1DScore = 0, rn_R2DPosition = Some (coord_Proto (r2_position info))\<rparr> (NodeRecords content)
               | Some rec \<Rightarrow> mput s (rec\<lparr>rn_R2DPosition := Some (coord_Proto (r2_position info))\<rparr>) (NodeRecords content))\<rparr>)))
       (r2_routeInfos r) (content\<lparr>R2DPosition := Some (coord_Proto (r2_localPosition r))\<rparr>)"

definition r2_getConnections :: "routing2D \<Rightarrow> NodeID list" where
  "r2_getConnections r = neighborNodeIDs r"

subsection \<open>Roots\<close>

text \<open>
  The connected nodes an entry is reached through. Every entry has one, and a root is
  itself an entry with itself among its roots: it is connected.
\<close>

definition roots_of :: "(NodeID, routeInfo2D) gomap \<Rightarrow> NodeID \<Rightarrow> NodeID set" where
  "roots_of infos n = (case mget infos n of Some i \<Rightarrow> set (rootNodeIDs i) | None \<Rightarrow> {})"

definition root_inv :: "(NodeID, routeInfo2D) gomap \<Rightarrow> bool" where
  "root_inv infos \<longleftrightarrow> gomap_wf infos \<and> (\<forall>n. mhas infos n \<longrightarrow> nid_IsNormal n \<and> roots_of infos n \<noteq> {}) \<and>
     (\<forall>n x. x \<in> roots_of infos n \<longrightarrow> x \<in> roots_of infos x)"

lemma roots_of_simps [simp]:
  "roots_of [] n = {}"
  "roots_of ((k, i) # m) n = (if n = k then set (rootNodeIDs i) else roots_of m n)"
  "roots_of (mput k i m) n = (if n = k then set (rootNodeIDs i) else roots_of m n)"
  by (simp_all add: roots_of_def)

lemma roots_of_mhas: "x \<in> roots_of infos n \<Longrightarrow> mhas infos n"
  by (auto simp: roots_of_def mhas_def split: option.splits)

lemma root_inv_put:
  assumes "root_inv infos" "nid_IsNormal n" "roots_of infos n \<subseteq> set (rootNodeIDs i)"
    "set (rootNodeIDs i) \<subseteq> insert src (roots_of infos n)" "src \<in> set (rootNodeIDs i)"
    "src \<in> roots_of infos src \<or> n = src"
  shows "root_inv (mput n i infos)"
proof -
  have "x \<in> roots_of (mput n i infos) x" if "x \<in> roots_of (mput n i infos) m" for m x
  proof -
    have "x \<in> roots_of infos m \<or> x = src" using that assms(4) by (auto split: if_splits)
    then have "x \<in> roots_of infos x \<or> x = src" using assms(1) by (auto simp: root_inv_def)
    then show ?thesis using assms(3,5,6) by auto
  qed
  moreover have "roots_of (mput n i infos) m \<noteq> {}" if "mhas (mput n i infos) m" for m
    using that assms(1,5) by (auto simp: root_inv_def)
  ultimately show ?thesis using assms(1,2) by (auto simp: root_inv_def)
qed

lemma recv_source_inv:
  assumes "root_inv infos" "nid_IsNormal src"
  shows "root_inv (snd (recv_source src pos infos))" "src \<in> roots_of (snd (recv_source src pos infos)) src"
proof -
  have *: "root_inv (mput src i infos)" if "set (rootNodeIDs i) = insert src (roots_of infos src)" for i
    using that assms by (intro root_inv_put [where src = src]) auto
  show "root_inv (snd (recv_source src pos infos))"
    using assms * by (auto simp: recv_source_def roots_of_def split: option.splits)
  show "src \<in> roots_of (snd (recv_source src pos infos)) src"
    by (auto simp: recv_source_def roots_of_def split: option.splits)
qed

lemma recv_record_inv:
  assumes "root_inv infos" "nid_IsNormal nodeID" "src \<in> roots_of infos src"
  shows "\<exists>u' infos'. recv_record src nodeID rec (u, infos) = Inr (u', infos') \<and> root_inv infos' \<and> src \<in> roots_of infos' src"
proof -
  have put: "root_inv (mput nodeID i infos) \<and> src \<in> roots_of (mput nodeID i infos) src"
    if "set (rootNodeIDs i) = insert src (roots_of infos nodeID)" for i
    using that assms by (auto intro!: root_inv_put [where src = src])
  show ?thesis
    using assms put by (auto simp: recv_record_def roots_of_def NewCoordinateFromProto_def Let_def split: option.splits)
qed

lemma recv_records_inv:
  assumes "root_inv infos" "src \<in> roots_of infos src"
  shows "\<exists>res u' infos'. recv_records l src recs (u, infos) = Inr (res, u', infos') \<and> root_inv infos' \<and> src \<in> roots_of infos' src"
  using assms
proof (induction recs arbitrary: u infos)
  case (Cons p recs)
  obtain s rec where p: "p = (s, rec)" by fastforce
  show ?case
  proof (cases "NewNodeIDFromString s")
    case (Inr n)
    obtain u1 infos1 where one: "recv_record src n rec (u, infos) = Inr (u1, infos1)" "root_inv infos1" "src \<in> roots_of infos1 src"
      using recv_record_inv [OF Cons.prems(1) FromString_normal [OF Inr] Cons.prems(2)] by blast
    then show ?thesis using Cons Inr by (cases "n = l") (simp_all add: p)
  qed (simp add: p Cons.prems)
qed simp

definition drop_rel :: "NodeID \<Rightarrow> (NodeID, routeInfo2D) gomap \<Rightarrow> (NodeID, routeInfo2D) gomap \<Rightarrow> bool" where
  "drop_rel src infos infos' \<longleftrightarrow> gomap_wf infos' \<and> set (mkeys infos') \<subseteq> set (mkeys infos) \<and>
     (\<forall>n. roots_of infos' n \<subseteq> roots_of infos n) \<and> (\<forall>n. roots_of infos n - {src} \<subseteq> roots_of infos' n) \<and>
     roots_of infos' src = roots_of infos src \<and> (\<forall>n\<in>set (mkeys infos'). roots_of infos' n \<noteq> {})"

lemma drop_rel_keep:
  assumes "drop_rel src infos infos'" "n \<notin> set (mkeys infos)" "set (rootNodeIDs i') \<subseteq> set (rootNodeIDs i)"
    "set (rootNodeIDs i) - {src} \<subseteq> set (rootNodeIDs i')" "n = src \<Longrightarrow> set (rootNodeIDs i') = set (rootNodeIDs i)"
    "set (rootNodeIDs i') \<noteq> {}"
  shows "drop_rel src ((n, i) # infos) ((n, i') # infos')"
proof -
  have "n \<notin> set (mkeys infos')" using assms(1,2) by (auto simp: drop_rel_def)
  moreover have "roots_of ((n, i') # infos') m \<noteq> {}" if "m \<in> set (mkeys ((n, i') # infos'))" for m
    using that assms(1,6) unfolding drop_rel_def by (cases "m = n") simp_all
  ultimately show ?thesis using assms unfolding drop_rel_def by simp blast
qed

lemma drop_rel_drop:
  assumes "drop_rel src infos infos'" "n \<notin> set (mkeys infos)" "set (rootNodeIDs i) \<subseteq> {src}" "n \<noteq> src"
  shows "drop_rel src ((n, i) # infos) infos'"
proof -
  have "\<not> mhas infos' n" using assms(1,2) by (auto simp: drop_rel_def mhas_iff)
  then have "roots_of infos' n = {}" by (simp add: roots_of_def mhas_def)
  then have "roots_of infos' m \<subseteq> roots_of ((n, i) # infos) m \<and> roots_of ((n, i) # infos) m - {src} \<subseteq> roots_of infos' m" for m
    using assms(1,3) unfolding drop_rel_def by (cases "m = n") auto
  then show ?thesis using assms(1,4) unfolding drop_rel_def by auto
qed

lemma recv_drop_roots:
  assumes "\<forall>n\<in>set (mkeys infos). nid_IsNormal n" "gomap_wf infos" "\<forall>(n, i)\<in>set infos. rootNodeIDs i \<noteq> []"
  shows "\<exists>u infos'. recv_drop src recs infos = Inr (u, infos') \<and> drop_rel src infos infos'"
  using assms
proof (induction infos)
  case Nil
  then show ?case by (intro exI [of _ False] exI [of _ "[]"]) (simp add: drop_rel_def)
next
  case (Cons p infos)
  obtain n i where p: "p = (n, i)" by fastforce
  have n: "nid_IsNormal n" "n \<notin> set (mkeys infos)" "rootNodeIDs i \<noteq> []" using Cons.prems p by auto
  obtain s where s: "nid_String n = Inr s" using n by (simp add: nid_String_normal)
  obtain u infos' where ih: "recv_drop src recs infos = Inr (u, infos')" "drop_rel src infos infos'"
    using Cons p by auto
  consider "n = src \<or> src \<notin> set (rootNodeIDs i) \<or> mhas recs s"
    | "n \<noteq> src" "src \<in> set (rootNodeIDs i)" "\<not> mhas recs s" by blast
  then show ?case
  proof cases
    case 1
    then have "recv_drop src recs (p # infos) = Inr (u, p # infos')" using ih(1) s by (auto simp: p)
    with drop_rel_keep [OF ih(2) n(2), of i i] n(3) show ?thesis by (auto simp: p)
  next
    case 2
    let ?i = "i\<lparr>rootNodeIDs := removeAll src (rootNodeIDs i)\<rparr>"
    have code: "recv_drop src recs (p # infos) = Inr (True, if removeAll src (rootNodeIDs i) = [] then infos' else (n, ?i) # infos')"
      using ih(1) s 2 by (simp add: p Let_def)
    show ?thesis
    proof (cases "removeAll src (rootNodeIDs i) = []")
      case True
      then have "set (rootNodeIDs i) \<subseteq> {src}" by (metis Diff_eq_empty_iff list.set(1) set_removeAll)
      with drop_rel_drop [OF ih(2) n(2)] code True 2(1) show ?thesis
        by (intro exI [of _ True] exI [of _ infos']) (simp only: p if_True simp_thms)
    next
      case False
      then have "set (rootNodeIDs i) - {src} \<noteq> {}" by (metis set_empty set_removeAll)
      with drop_rel_keep [OF ih(2) n(2), of ?i i] code False 2(1) show ?thesis by (auto simp: p)
    qed
  qed
qed

lemma recv_drop_inv:
  assumes inv: "root_inv infos"
  shows "\<exists>u infos'. recv_drop src recs infos = Inr (u, infos') \<and> root_inv infos'"
proof -
  have wf: "gomap_wf infos" and n: "\<forall>n\<in>set (mkeys infos). nid_IsNormal n" "\<forall>n\<in>set (mkeys infos). roots_of infos n \<noteq> {}"
    using inv by (auto simp: root_inv_def mhas_iff)
  have ne: "\<forall>(n, i)\<in>set infos. rootNodeIDs i \<noteq> []"
  proof clarify
    fix n i assume "(n, i) \<in> set infos" "rootNodeIDs i = []"
    then have g: "mget infos n = Some i" using wf by (simp add: gomap_wf_mget_iff)
    then have "n \<in> set (mkeys infos)" by (force simp: set_mkeys)
    with g n(2) \<open>rootNodeIDs i = []\<close> show False by (auto simp: roots_of_def)
  qed
  obtain u infos' where d: "recv_drop src recs infos = Inr (u, infos')" "drop_rel src infos infos'"
    using recv_drop_roots [OF n(1) wf ne] by blast
  have "x \<in> roots_of infos' x" if "x \<in> roots_of infos' m" for m x
  proof -
    have "x \<in> roots_of infos x" using that d(2) inv unfolding root_inv_def drop_rel_def by blast
    then show ?thesis using d(2) unfolding drop_rel_def by (cases "x = src") auto
  qed
  with d n show ?thesis by (auto simp: root_inv_def mhas_iff drop_rel_def)
qed

lemma neighborNodeIDChanged_infos:
  assumes "neighborNodeIDChanged co tr r = Inr (b, r')"
  shows "r2_routeInfos r' = r2_routeInfos r \<and> r2_localNodeID r' = r2_localNodeID r \<and> r2_localPosition r' = r2_localPosition r"
proof -
  have fin: "?thesis" if "(if set ns \<noteq> set (neighborNodeIDs r) then Inr (True, r\<lparr>neighborNodeIDs := ns\<rparr>)
                         else Inr (False, r)) = (Inr (b, r') :: (bool \<times> routing2D) outcome)" for ns
    using that by (auto split: if_splits)
  show ?thesis
  proof (cases "length (r2_routeInfos r) < 3")
    case True
    with assms fin [of "mkeys (r2_routeInfos r)"] show ?thesis by (simp add: neighborNodeIDChanged_def Let_def)
  next
    case False
    with assms obtain points where pts: "shift_points (co_GetPrecision co) (gather_points r) = Inr points"
      by (auto simp: neighborNodeIDChanged_def Let_def obind_eq_Inr)
    show ?thesis
    proof (cases "tr (mkeys points)")
      case (Inl e)
      with assms False pts show ?thesis by (auto simp: neighborNodeIDChanged_def Let_def)
    next
      case (Inr th)
      obtain tri half where th: "th = (tri, half)" by fastforce
      from assms False pts Inr th obtain ns where
        "(if set ns \<noteq> set (neighborNodeIDs r) then Inr (True, r\<lparr>neighborNodeIDs := ns\<rparr>)
                         else Inr (False, r)) = (Inr (b, r') :: (bool \<times> routing2D) outcome)"
        by (fastforce simp: neighborNodeIDChanged_def Let_def obind_eq_Inr)
      then show ?thesis by (rule fin)
    qed
  qed
qed

lemma changed_action_infos:
  "changed_action u co tr r = Inr (a, r') \<Longrightarrow>
     r2_routeInfos r' = r2_routeInfos r \<and> r2_localNodeID r' = r2_localNodeID r \<and> r2_localPosition r' = r2_localPosition r"
  by (auto simp: changed_action_def obind_eq_Inr split: if_splits dest!: neighborNodeIDChanged_infos)

lemma drop_roots_mget:
  assumes "gomap_wf infos"
  shows "gomap_wf (drop_roots conns infos)" "roots_of (drop_roots conns infos) n = roots_of infos n \<inter> set conns"
    "mhas (drop_roots conns infos) n \<longleftrightarrow> roots_of infos n \<inter> set conns \<noteq> {}"
proof -
  let ?f = "\<lambda>(n, info). (n, info\<lparr>rootNodeIDs := filter (\<lambda>x. x \<in> set conns) (rootNodeIDs info)\<rparr>)"
  have wf: "gomap_wf (map ?f infos)" using assms by simp
  then show w: "gomap_wf (drop_roots conns infos)" by (simp add: drop_roots_def)
  have g: "mget (drop_roots conns infos) n = (case mget infos n of None \<Rightarrow> None
      | Some i \<Rightarrow> if set (rootNodeIDs i) \<inter> set conns = {} then None
                  else Some (i\<lparr>rootNodeIDs := filter (\<lambda>x. x \<in> set conns) (rootNodeIDs i)\<rparr>))" for n
    unfolding drop_roots_def mget_filter [OF wf] mget_map_val
    by (cases "mget infos n") (auto simp: filter_empty_conv)
  show "roots_of (drop_roots conns infos) n = roots_of infos n \<inter> set conns"
    "mhas (drop_roots conns infos) n \<longleftrightarrow> roots_of infos n \<inter> set conns \<noteq> {}"
    by (auto simp: roots_of_def mhas_def g split: option.splits)
qed

lemma r2_inv_updateNodeConnections:
  assumes inv: "root_inv (r2_routeInfos r)"
    and run: "r2_updateNodeConnections co tr conns r = Inr (a, r')"
  shows "root_inv (r2_routeInfos r')" "roots_of (r2_routeInfos r') n \<subseteq> set conns"
proof -
  have wf: "gomap_wf (r2_routeInfos r)" using inv by (simp add: root_inv_def)
  have ne: "\<forall>(n, i)\<in>set (r2_routeInfos r). rootNodeIDs i \<noteq> []"
  proof clarify
    fix n i assume *: "(n, i) \<in> set (r2_routeInfos r)" "rootNodeIDs i = []"
    then have "mget (r2_routeInfos r) n = Some i" using wf by (simp add: gomap_wf_mget_iff)
    with inv * show False by (auto simp: root_inv_def roots_of_def mhas_def)
  qed
  then have "filter (\<lambda>(n, info). rootNodeIDs info = []) (r2_routeInfos r) = []"
    "filter (\<lambda>(n, info). rootNodeIDs info \<noteq> []) (r2_routeInfos r) = r2_routeInfos r"
    by (auto simp: filter_empty_conv filter_id_conv)
  with run have infos: "r2_routeInfos r' = drop_roots conns (r2_routeInfos r)"
    using changed_action_infos by (fastforce simp: r2_updateNodeConnections_def Let_def)
  note dr = drop_roots_mget [OF wf, of conns]
  have "nid_IsNormal n" if "mhas (r2_routeInfos r') n" for n
    using that dr(3) [of n] inv roots_of_mhas [of _ "r2_routeInfos r" n] unfolding infos root_inv_def by blast
  moreover have "x \<in> roots_of (r2_routeInfos r') x" if "x \<in> roots_of (r2_routeInfos r') n" for x n
    using that inv unfolding infos dr(2) root_inv_def by blast
  ultimately show "root_inv (r2_routeInfos r')" using dr unfolding infos root_inv_def by auto
  show "roots_of (r2_routeInfos r') n \<subseteq> set conns" unfolding infos dr(2) by simp
qed

lemma r2_inv_recvRoutingPacket:
  assumes "root_inv (r2_routeInfos r)" "nid_IsNormal src"
    "r2_recvRoutingPacket co tr src content r = Inr (res, r')"
  shows "root_inv (r2_routeInfos r')"
proof -
  obtain pos where pos: "NewCoordinateFromProto (R2DPosition content) = Inr pos"
    using assms(3) by (auto simp: r2_recvRoutingPacket_def obind_eq_Inr)
  obtain u0 i0 where s0: "recv_source src pos (r2_routeInfos r) = (u0, i0)" by fastforce
  note src = recv_source_inv [OF assms(1,2), of pos, unfolded s0 snd_conv]
  obtain res1 u1 i1 where s1: "recv_records (r2_localNodeID r) src (NodeRecords content) (u0, i0) = Inr (res1, u1, i1)" "root_inv i1"
    using recv_records_inv [OF src] by blast
  obtain u2 i2 where s2: "recv_drop src (NodeRecords content) i1 = Inr (u2, i2)" "root_inv i2"
    using recv_drop_inv [OF s1(2)] by blast
  show ?thesis
    using assms(3) pos s0 s1 s2
    by (cases res1) (auto simp: r2_recvRoutingPacket_def obind_eq_Inr dest!: changed_action_infos)
qed

subsection \<open>The next step\<close>

lemma nearer_fold:
  assumes "fold (nearer co dst) infos (b, c) = (b', c')"
  shows "(b' = b \<and> c' = c \<and> (\<forall>(n, i)\<in>set infos. b \<le> co_GetDistance co (r2_position i) dst)) \<or>
    (\<exists>n i. c' = Some (n, i) \<and> (n, i) \<in> set infos \<and> b' = co_GetDistance co (r2_position i) dst \<and> b' < b \<and>
       (\<forall>(n, i)\<in>set infos. b' \<le> co_GetDistance co (r2_position i) dst))"
  using assms
proof (induction infos arbitrary: b c)
  case (Cons p infos)
  obtain n i where p: "p = (n, i)" by fastforce
  let ?d = "co_GetDistance co (r2_position i) dst"
  show ?case
  proof (cases "?d < b")
    case True
    with Cons.prems p have "fold (nearer co dst) infos (?d, Some (n, i)) = (b', c')" by (simp add: nearer_def)
    from Cons.IH [OF this] True show ?thesis unfolding p by (elim disjE exE) auto
  next
    case False
    with Cons.prems p have "fold (nearer co dst) infos (b, c) = (b', c')" by (simp add: nearer_def)
    from Cons.IH [OF this] False show ?thesis unfolding p by (elim disjE exE) auto
  qed
qed simp

lemma nearest_root_ok:
  assumes "\<forall>n\<in>set ns. mhas infos n"
  shows "\<exists>k. nearest_root co dst infos ns b cand = Inr k \<and>
    (k \<in> set ns \<or> k = cand \<and> (\<forall>n\<in>set ns. \<forall>i. mget infos n = Some i \<longrightarrow> b \<le> co_GetDistance co (r2_position i) dst))"
  using assms
proof (induction ns arbitrary: b cand)
  case (Cons n ns)
  then obtain i where i: "mget infos n = Some i" by (auto simp: mhas_def)
  let ?d = "co_GetDistance co (r2_position i) dst"
  show ?case
  proof (cases "?d < b")
    case True
    with Cons.IH [of ?d n] Cons.prems i show ?thesis by auto
  next
    case False
    with Cons.IH [of b cand] Cons.prems i show ?thesis by auto
  qed
qed simp

lemma r2_getNextStep_ok:
  assumes inv: "root_inv (r2_routeInfos r)"
    and bounded: "\<forall>(n, i)\<in>set (r2_routeInfos r). co_GetDistance co (r2_position i) dst < maxFloat64"
  shows "\<exists>k. r2_getNextStep co dst r = Inr k \<and>
     (k = NodeLocal \<and> (\<forall>(n, i)\<in>set (r2_routeInfos r). co_GetDistance co (r2_localPosition r) dst \<le> co_GetDistance co (r2_position i) dst) \<or>
      k \<in> roots_of (r2_routeInfos r) k \<and>
      (\<exists>c i. (c, i) \<in> set (r2_routeInfos r) \<and> k \<in> set (rootNodeIDs i) \<and> (c \<in> set (rootNodeIDs i) \<longrightarrow> k = c) \<and>
         co_GetDistance co (r2_position i) dst < co_GetDistance co (r2_localPosition r) dst \<and>
         (\<forall>(n, i')\<in>set (r2_routeInfos r). co_GetDistance co (r2_position i) dst \<le> co_GetDistance co (r2_position i') dst)))"
proof -
  let ?m = "r2_routeInfos r" and ?D = "\<lambda>p. co_GetDistance co p dst"
  have wf: "gomap_wf ?m" using inv by (simp add: root_inv_def)
  obtain b' c' where f: "fold (nearer co dst) ?m (?D (r2_localPosition r), None) = (b', c')" by fastforce
  show ?thesis
  proof (cases c')
    case None
    with nearer_fold [OF f] f show ?thesis by (simp add: r2_getNextStep_def)
  next
    case (Some ci)
    obtain c i where ci: "ci = (c, i)" by fastforce
    have c: "(c, i) \<in> set ?m" "?D (r2_position i) < ?D (r2_localPosition r)" "\<forall>(n, i')\<in>set ?m. ?D (r2_position i) \<le> ?D (r2_position i')"
      using nearer_fold [OF f] Some ci by auto
    have g: "mget ?m c = Some i" using c(1) wf by (simp add: gomap_wf_mget_iff)
    have roots: "x \<in> roots_of ?m x" if "x \<in> set (rootNodeIDs i)" for x
    proof -
      have "x \<in> roots_of ?m c" using that g by (simp add: roots_of_def)
      then show ?thesis using inv unfolding root_inv_def by blast
    qed
    have ne: "rootNodeIDs i \<noteq> []" using inv g by (auto simp: root_inv_def roots_of_def mhas_def)
    show ?thesis
    proof (cases "c \<in> set (rootNodeIDs i)")
      case True
      with f Some ci have "r2_getNextStep co dst r = Inr c" by (simp add: r2_getNextStep_def)
      with True roots c show ?thesis by blast
    next
      case False
      have "\<forall>n\<in>set (rootNodeIDs i). mhas ?m n" using roots roots_of_mhas by blast
      from nearest_root_ok [OF this] obtain k where k: "nearest_root co dst ?m (rootNodeIDs i) maxFloat64 c = Inr k"
        "k \<in> set (rootNodeIDs i) \<or> k = c \<and> (\<forall>n\<in>set (rootNodeIDs i). \<forall>i. mget ?m n = Some i \<longrightarrow> maxFloat64 \<le> ?D (r2_position i))"
        by blast
      have "k \<in> set (rootNodeIDs i)"
      proof (rule ccontr)
        assume no: "k \<notin> set (rootNodeIDs i)"
        obtain x where x: "x \<in> set (rootNodeIDs i)" using ne by (cases "rootNodeIDs i") auto
        then obtain j where "mget ?m x = Some j" using roots roots_of_mhas by (fastforce simp: mhas_def)
        with k(2) no x bounded wf show False by (fastforce simp: gomap_wf_mget_iff)
      qed
      moreover have "r2_getNextStep co dst r = Inr k" using f Some ci False k(1) by (simp add: r2_getNextStep_def)
      ultimately show ?thesis using roots c False by blast
    qed
  qed
qed

subsection \<open>Reachable states\<close>

inductive r2_reachable :: "NodeID \<Rightarrow> routing2D \<Rightarrow> bool" for l where
  new: "r2_reachable l (newRouting2D l)"
| connections: "r2_reachable l r \<Longrightarrow> r2_updateNodeConnections co tr conns r = Inr (a, r') \<Longrightarrow> r2_reachable l r'"
| position: "r2_reachable l r \<Longrightarrow> r2_updateLocalPosition co tr pos r = Inr (a, r') \<Longrightarrow> r2_reachable l r'"
| recv_routing: "r2_reachable l r \<Longrightarrow> nid_IsNormal src \<Longrightarrow>
    r2_recvRoutingPacket co tr src content r = Inr (res, r') \<Longrightarrow> r2_reachable l r'"

lemma r2_reachable_inv: "r2_reachable l r \<Longrightarrow> root_inv (r2_routeInfos r)"
proof (induction rule: r2_reachable.induct)
  case new
  then show ?case by (simp add: newRouting2D_def root_inv_def)
next
  case (connections r co tr conns a r')
  then show ?case using r2_inv_updateNodeConnections(1) by blast
next
  case (position r co tr pos a r')
  then show ?case
    by (auto simp: r2_updateLocalPosition_def obind_eq_Inr split: if_splits dest!: neighborNodeIDChanged_infos)
next
  case (recv_routing r src co tr content res r')
  then show ?case using r2_inv_recvRoutingPacket by blast
qed

definition peer_2d :: routing2D where
  "peer_2d = (newRouting2D (NodeID typeNormal 0 1))\<lparr>
     r2_routeInfos := [(NodeID typeNormal 0 2, \<lparr>r2_position = \<lparr>X = 1, Y = 0\<rparr>, rootNodeIDs = [NodeID typeNormal 0 2]\<rparr>)],
     neighborNodeIDs := [NodeID typeNormal 0 2]\<rparr>"

definition line_co :: CoordinateOps where
  "line_co = \<lparr>co_GetDistance = (\<lambda>a b. \<bar>X a - X b\<bar>), co_GetPrecision = 0\<rparr>"

lemma peer_2d_reachable: "r2_reachable (NodeID typeNormal 0 1) peer_2d"
proof -
  have "r2_recvRoutingPacket line_co (\<lambda>_. Inl []) (NodeID typeNormal 0 2)
      \<lparr>R2DPosition = Some \<lparr>p_X = 1, p_Y = 0\<rparr>, NodeRecords = []\<rparr> (newRouting2D (NodeID typeNormal 0 1))
     = Inr (Inr (requireExchangeRouting OR requireUpdateConnections), peer_2d)"
    by (simp add: r2_recvRoutingPacket_def newRouting2D_def NewCoordinateFromProto_def recv_source_def
        changed_action_def neighborNodeIDChanged_def peer_2d_def NewCoordinate_def Let_def)
  from r2_reachable.recv_routing [OF r2_reachable.new _ this] show ?thesis by simp
qed

text \<open>
  C20. Greedy forwarding by position, in every reachable state, with finite distances: the
  next step is computed without a panic. It is the local node exactly when no known node is
  nearer to the destination; otherwise it is a connected node through which the known node
  nearest to the destination, nearer than the local one, is reached, and that node itself
  if it is connected.
\<close>

theorem getNextStep2D_greedy:
  assumes "r2_reachable l r"
    and "\<forall>(n, i)\<in>set (r2_routeInfos r). co_GetDistance co (r2_position i) dst < maxFloat64"
  shows "\<exists>k. r2_getNextStep co dst r = Inr k \<and>
     (k = NodeLocal \<and> (\<forall>(n, i)\<in>set (r2_routeInfos r). co_GetDistance co (r2_localPosition r) dst \<le> co_GetDistance co (r2_position i) dst) \<or>
      k \<in> roots_of (r2_routeInfos r) k \<and>
      (\<exists>c i. (c, i) \<in> set (r2_routeInfos r) \<and> k \<in> set (rootNodeIDs i) \<and> (c \<in> set (rootNodeIDs i) \<longrightarrow> k = c) \<and>
         co_GetDistance co (r2_position i) dst < co_GetDistance co (r2_localPosition r) dst \<and>
         (\<forall>(n, i')\<in>set (r2_routeInfos r). co_GetDistance co (r2_position i) dst \<le> co_GetDistance co (r2_position i') dst)))"
  by (rule r2_getNextStep_ok [OF r2_reachable_inv [OF assms(1)] assms(2)])

lemma maxFloat64_gt_one: "1 < maxFloat64"
proof -
  have "(1::real) * 2 ^ 1023 \<le> maxFloat64"
    unfolding maxFloat64_def by (intro mult_right_mono) (simp_all add: field_simps)
  moreover have "(1::real) < 2 ^ 1023" by (intro one_less_power) simp_all
  ultimately show ?thesis by simp
qed

theorem getNextStep2D_greedy_witness:
  "\<exists>k. r2_getNextStep line_co \<lparr>X = 1, Y = 0\<rparr> peer_2d = Inr k \<and>
     (k = NodeLocal \<and> (\<forall>(n, i)\<in>set (r2_routeInfos peer_2d). co_GetDistance line_co (r2_localPosition peer_2d) \<lparr>X = 1, Y = 0\<rparr> \<le> co_GetDistance line_co (r2_position i) \<lparr>X = 1, Y = 0\<rparr>) \<or>
      k \<in> roots_of (r2_routeInfos peer_2d) k \<and>
      (\<exists>c i. (c, i) \<in> set (r2_routeInfos peer_2d) \<and> k \<in> set (rootNodeIDs i) \<and> (c \<in> set (rootNodeIDs i) \<longrightarrow> k = c) \<and>
         co_GetDistance line_co (r2_position i) \<lparr>X = 1, Y = 0\<rparr> < co_GetDistance line_co (r2_localPosition peer_2d) \<lparr>X = 1, Y = 0\<rparr> \<and>
         (\<forall>(n, i')\<in>set (r2_routeInfos peer_2d). co_GetDistance line_co (r2_position i) \<lparr>X = 1, Y = 0\<rparr> \<le> co_GetDistance line_co (r2_position i') \<lparr>X = 1, Y = 0\<rparr>)))"
  using maxFloat64_gt_one
  by (intro getNextStep2D_greedy [OF peer_2d_reachable]) (simp add: peer_2d_def line_co_def)

end
