(* ===== verification/Routing.thy ===== *)
theory Routing
  imports Routing1D_Props Routing2D
begin

text \<open>
  The routing of a node (\<open>src/node/internal/network/routing/routing.go\<close>): the ring routing,
  the position routing if a coordinate system is given, and the flags that tell the routine
  of the next second what to do.

  The coordinate system is \<open>Some\<close> of its interface exactly when it is configured; it decides
  whether \<open>r2d\<close> is there. What the routine asks of the network and of the observer is a list
  of effects in the order of the code.
\<close>

definition connectionUpdateInterval :: duration where "connectionUpdateInterval = 10000000000"

record Routing =
  rt_localNodeID :: NodeID
  rt_r1d :: routing1D
  rt_r2d :: "routing2D option"
  triggeredAction :: int
  lastRouteUpdate :: time
  lastConnectionUpdate :: time

datatype rt_effect =
    UpdateNextNodePositions "(NodeID, Coordinate) gomap"
  | UpdateRequired1D "string list"
  | UpdateRequired2D "string list"
  | UpdateConnection "NodeID list" "NodeID list"
  | SendRouting RoutingMsg

text \<open>\<open>NewRouting\<close> and \<open>Start\<close> together: nothing is routed before \<open>Start\<close>.\<close>

definition rt_Start :: "time \<Rightarrow> bool \<Rightarrow> NodeID \<Rightarrow> Routing" where
  "rt_Start now hasCoordinateSystem localNodeID =
     \<lparr>rt_localNodeID = localNodeID, rt_r1d = newRouting1D localNodeID,
      rt_r2d = (if hasCoordinateSystem then Some (newRouting2D localNodeID) else None),
      triggeredAction = 0, lastRouteUpdate = now, lastConnectionUpdate = now\<rparr>"

definition rt_GetStability :: "Routing \<Rightarrow> bool \<times> NodeID list" where
  "rt_GetStability r = r1_getStability (rt_r1d r)"

definition rt_GetNextStep1D :: "Packet \<Rightarrow> Routing \<Rightarrow> (NodeID option \<times> Routing) outcome" where
  "rt_GetNextStep1D packet r =
     obind (r1_getNextStep packet (rt_r1d r)) (\<lambda>(n, r1). Inr (n, r\<lparr>rt_r1d := r1\<rparr>))"

definition rt_GetNextStep2D :: "CoordinateOps \<Rightarrow> Coordinate \<Rightarrow> Routing \<Rightarrow> NodeID outcome" where
  "rt_GetNextStep2D co dst r =
     (case rt_r2d r of
        None \<Rightarrow> Inl (Panic ''routing 2D is not enabled'')
      | Some r2 \<Rightarrow> r2_getNextStep co dst r2)"

definition rt_UpdateLocalPosition :: "CoordinateOps \<Rightarrow> triangulate_fn \<Rightarrow> Coordinate \<Rightarrow> Routing \<Rightarrow> (unit result \<times> Routing) outcome" where
  "rt_UpdateLocalPosition co triangulate pos r =
     (case rt_r2d r of
        None \<Rightarrow> Inr (Inl ''position based network is not enabled'', r)
      | Some r2 \<Rightarrow> obind (r2_updateLocalPosition co triangulate pos r2) (\<lambda>(action, r2).
          Inr (Inr (), r\<lparr>triggeredAction := triggeredAction r OR action, rt_r2d := Some r2\<rparr>)))"

definition rt_UpdateNodeConnections ::
  "CoordinateOps \<Rightarrow> triangulate_fn \<Rightarrow> reconcile_fn \<Rightarrow> time \<Rightarrow> NodeID list \<Rightarrow> Routing \<Rightarrow> Routing outcome" where
  "rt_UpdateNodeConnections co triangulate reconcile now connections r =
     obind (r1_updateNodeConnections reconcile now connections (rt_r1d r)) (\<lambda>(action, r1).
       let r = r\<lparr>triggeredAction := triggeredAction r OR action, rt_r1d := r1\<rparr>
       in case rt_r2d r of
            None \<Rightarrow> Inr r
          | Some r2 \<Rightarrow> obind (r2_updateNodeConnections co triangulate connections r2) (\<lambda>(action, r2).
              Inr (r\<lparr>triggeredAction := triggeredAction r OR action, rt_r2d := Some r2\<rparr>)))"

definition rt_CountRecvPacket :: "NodeID \<Rightarrow> Routing \<Rightarrow> Routing" where
  "rt_CountRecvPacket from' r = r\<lparr>rt_r1d := r1_countRecvPacket from' (rt_r1d r)\<rparr>"

definition rt_sendRouting :: "Routing \<Rightarrow> (rt_effect list \<times> Routing) outcome" where
  "rt_sendRouting r =
     obind (r1_setupRoutingPacket \<lparr>R2DPosition = None, NodeRecords = []\<rparr> (rt_r1d r)) (\<lambda>(content, r1).
       let r = r\<lparr>rt_r1d := r1\<rparr>
       in obind (case rt_r2d r of None \<Rightarrow> Inr content | Some r2 \<Rightarrow> r2_setupRoutingPacket content r2) (\<lambda>content.
            Inr ([SendRouting content], r)))"

text \<open>The two parts of the routine: choosing the connections and exchanging the tables.\<close>

definition observe :: "bool \<Rightarrow> (string list \<Rightarrow> rt_effect) \<Rightarrow> NodeID list \<Rightarrow> rt_effect list outcome" where
  "observe observed call nodeIDs =
     (if observed then obind (ConvertNodeIDSetToStringMap nodeIDs) (\<lambda>s. Inr [call s]) else Inr [])"

definition add_required2d :: "bool \<Rightarrow> NodeID list \<Rightarrow> Routing \<Rightarrow> (NodeID list \<times> rt_effect list) outcome" where
  "add_required2d observed required r =
     (case rt_r2d r of
        None \<Rightarrow> Inr (required, [])
      | Some r2 \<Rightarrow>
          let required2d = r2_getConnections r2
          in obind (observe observed UpdateRequired2D required2d) (\<lambda>obs.
               Inr (fold List.insert required2d required, obs)))"

definition rt_updateConnections :: "time \<Rightarrow> bool \<Rightarrow> Routing \<Rightarrow> (rt_effect list \<times> Routing) outcome" where
  "rt_updateConnections now observed r =
     obind (r1_getConnections now (rt_r1d r)) (\<lambda>((required, keep), r1).
       let r = r\<lparr>rt_r1d := r1\<rparr>
       in obind (observe observed UpdateRequired1D required) (\<lambda>obs1.
          obind (add_required2d observed required r) (\<lambda>(required, obs2).
            Inr (obs1 @ obs2 @ [UpdateConnection required keep],
                 r\<lparr>triggeredAction := triggeredAction r AND NOT requireUpdateConnections, lastConnectionUpdate := now\<rparr>))))"

definition rt_subRoutine :: "time \<Rightarrow> bool \<Rightarrow> reconcile_fn \<Rightarrow> Routing \<Rightarrow> (rt_effect list \<times> Routing) outcome" where
  "rt_subRoutine now observed reconcile r =
     (let r = r\<lparr>rt_r1d := r1_subRoutine reconcile (rt_r1d r)\<rparr>;
          positions = (case rt_r2d r of None \<Rightarrow> [] | Some r2 \<Rightarrow> [UpdateNextNodePositions (r2_getNextNodePositions r2)])
      in obind (if triggeredAction r AND requireUpdateConnections \<noteq> 0 \<or>
                   now > lastConnectionUpdate r + connectionUpdateInterval
                then rt_updateConnections now observed r else Inr ([], r)) (\<lambda>(es1, r).
         obind (if triggeredAction r AND requireExchangeRouting \<noteq> 0
                then obind (rt_sendRouting r) (\<lambda>(es, r).
                       Inr (es, r\<lparr>triggeredAction := triggeredAction r AND NOT requireExchangeRouting, lastRouteUpdate := now\<rparr>))
                else Inr ([], r)) (\<lambda>(es2, r).
           Inr (positions @ es1 @ es2, r))))"

text \<open>A report that cannot be parsed by the one routing is not shown to the other.\<close>

definition rt_recvRouting ::
  "CoordinateOps \<Rightarrow> triangulate_fn \<Rightarrow> reconcile_fn \<Rightarrow> NodeID \<Rightarrow> RoutingMsg \<Rightarrow> Routing \<Rightarrow> Routing outcome" where
  "rt_recvRouting co triangulate reconcile src content r =
     obind (r1_recvRoutingPacket reconcile src content (rt_r1d r)) (\<lambda>(res, r1).
       let r = r\<lparr>rt_r1d := r1\<rparr>
       in case res of
            Inl err \<Rightarrow> Inr r
          | Inr action \<Rightarrow>
              let r = r\<lparr>triggeredAction := triggeredAction r OR action\<rparr>
              in case rt_r2d r of
                   None \<Rightarrow> Inr r
                 | Some r2 \<Rightarrow> obind (r2_recvRoutingPacket co triangulate src content r2) (\<lambda>(res, r2).
                     let r = r\<lparr>rt_r2d := Some r2\<rparr>
                     in case res of
                          Inl err \<Rightarrow> Inr r
                        | Inr action \<Rightarrow> Inr (r\<lparr>triggeredAction := triggeredAction r OR action\<rparr>)))"

end
