(* ===== verification/Routing_Props.thy ===== *)
theory Routing_Props
  imports Routing
begin

text \<open>
  The invariant of the routing, kept by every operation, and its routine: it ends, leaves
  nothing pending, and announces every change of the connected nodes.
\<close>

subsection \<open>Neighbours in the triangulation are ordinary identifiers\<close>

definition points_ok :: "('p, NodeID list) gomap \<Rightarrow> bool" where
  "points_ok m \<longleftrightarrow> (\<forall>p ns. mget m p = Some ns \<longrightarrow> (\<forall>n\<in>set ns. nid_IsNormal n))"

lemma points_ok_simps:
  "points_ok m \<Longrightarrow> \<forall>n\<in>set ns. nid_IsNormal n \<Longrightarrow> points_ok (mput p ns m)"
  "points_ok m \<Longrightarrow> points_ok (mdel p m)"
  "points_ok [(p, ns)] \<longleftrightarrow> (\<forall>n\<in>set ns. nid_IsNormal n)"
  by (auto simp: points_ok_def)

lemma points_okD: "points_ok m \<Longrightarrow> mget m p = Some ns \<Longrightarrow> n \<in> set ns \<Longrightarrow> nid_IsNormal n"
  by (auto simp: points_ok_def)

lemma gather_points_ok:
  assumes "nid_IsNormal (r2_localNodeID r)" "\<forall>n\<in>set (mkeys (r2_routeInfos r)). nid_IsNormal n"
  shows "points_ok (gather_points r)"
  unfolding gather_points_def
proof (rule fold_invariant_in [of points_ok])
  show "points_ok [((X (r2_localPosition r), Y (r2_localPosition r)), [r2_localNodeID r])]"
    using assms(1) by (simp add: points_ok_simps)
next
  fix x and m :: "(point, NodeID list) gomap" assume x: "x \<in> set (r2_routeInfos r)" and m: "points_ok m"
  have "nid_IsNormal (fst x)" using assms(2) x by (simp add: mkeys_def)
  with m show "points_ok ((\<lambda>(nodeID, info) points.
        let point = (X (r2_position info), Y (r2_position info))
        in mput point ((case mget points point of Some ns \<Rightarrow> ns | None \<Rightarrow> []) @ [nodeID]) points) x m)"
    by (auto simp: Let_def intro!: points_ok_simps(1) dest: points_okD split: prod.splits option.splits)
qed

lemma shift_points_ok:
  assumes "points_ok m" "shift_points precision m = Inr m'"
  shows "points_ok m'"
proof -
  have spread: "points_ok c'" if "points_ok c" "\<forall>n\<in>set ns. nid_IsNormal n" "ofold (spread_point precision p) ns c = Inr c'" for p ns c c'
    using that(1) _ that(3)
    by (rule ofold_invariant [of points_ok]) (use that(2) in \<open>auto simp: spread_point_def obind_eq_Inr intro!: points_ok_simps(1)\<close>)
  have one: "points_ok b" if "points_ok a" "(case mget a p of None \<Rightarrow> Inr a | Some ns \<Rightarrow>
       if length ns = 1 then Inr a else ofold (spread_point precision p) ns (mdel p a)) = Inr b" for p a b
  proof (cases "mget a p")
    case (Some ns)
    then have "\<forall>n\<in>set ns. nid_IsNormal n" using points_okD [OF that(1)] by blast
    with that Some show ?thesis
      using spread [OF points_ok_simps(2) [OF that(1)]] by (auto split: if_splits)
  qed (use that in simp)
  show ?thesis
    using assms(1) _ assms(2) [unfolded shift_points_def] by (rule ofold_invariant [of points_ok]) (rule one)
qed

lemma p2n_normal: "points_ok m \<Longrightarrow> p2n m p = Some n \<Longrightarrow> nid_IsNormal n"
  by (auto simp: p2n_def split: option.splits list.splits intro: points_okD)

lemma edge_neighbor_normal:
  assumes "points_ok points" "edge_neighbor l points ps tri half i ns = Inr ns'" "\<forall>n\<in>set ns. nid_IsNormal n"
  shows "\<forall>n\<in>set ns'. nid_IsNormal n"
proof -
  have "(case (p2n points p1, p2n points p2) of
          (Some n1, Some n2) \<Rightarrow>
            let neighbors = (if n1 = l then List.insert n2 ns else ns);
                neighbors = (if n2 = l then List.insert n1 neighbors else neighbors)
            in Inr neighbors
        | _ \<Rightarrow> Inr ns) = (Inr ns' :: NodeID list outcome) \<Longrightarrow> ?thesis" for p1 p2
    using p2n_normal [OF assms(1), of p1] p2n_normal [OF assms(1), of p2] assms(3)
    by (auto simp: Let_def split: option.splits if_splits)
  with assms(2,3) show ?thesis unfolding edge_neighbor_def Let_def obind_eq_Inr
    by (auto simp: obind_eq_Inr split: if_splits simp del: split_paired_Ex)
qed

definition r2_normal :: "routing2D \<Rightarrow> bool" where
  "r2_normal r \<longleftrightarrow> nid_IsNormal (r2_localNodeID r) \<and> root_inv (r2_routeInfos r) \<and> (\<forall>n\<in>set (neighborNodeIDs r). nid_IsNormal n)"

lemma root_inv_keys: "root_inv infos \<Longrightarrow> \<forall>n\<in>set (mkeys infos). nid_IsNormal n"
  by (simp add: root_inv_def mhas_iff)

lemma neighborNodeIDChanged_normal:
  assumes "r2_normal r" "neighborNodeIDChanged co tr r = Inr (b, r')"
  shows "r2_normal r'"
proof -
  have keys: "\<forall>n\<in>set (mkeys (r2_routeInfos r)). nid_IsNormal n" and l: "nid_IsNormal (r2_localNodeID r)"
    using assms(1) root_inv_keys by (auto simp: r2_normal_def)
  have fin: ?thesis if "(if set ns \<noteq> set (neighborNodeIDs r) then Inr (True, r\<lparr>neighborNodeIDs := ns\<rparr>)
                         else Inr (False, r)) = (Inr (b, r') :: (bool \<times> routing2D) outcome)" "\<forall>n\<in>set ns. nid_IsNormal n" for ns
    using that assms(1) by (auto simp: r2_normal_def split: if_splits)
  show ?thesis
  proof (cases "length (r2_routeInfos r) < 3")
    case True
    with assms(2) fin [OF _ keys] show ?thesis by (simp add: neighborNodeIDChanged_def Let_def)
  next
    case False
    with assms obtain points where pts: "shift_points (co_GetPrecision co) (gather_points r) = Inr points"
      by (auto simp: neighborNodeIDChanged_def Let_def obind_eq_Inr)
    then have ok: "points_ok points" using shift_points_ok gather_points_ok [OF l keys] by blast
    show ?thesis
    proof (cases "tr (mkeys points)")
      case (Inl e)
      with assms False pts show ?thesis by (auto simp: neighborNodeIDChanged_def Let_def)
    next
      case (Inr th)
      obtain tri half where th: "th = (tri, half)" by fastforce
      with assms(2) False pts Inr obtain ns where ns:
        "ofold (edge_neighbor (r2_localNodeID r) points (mkeys points) tri half) [0..<length half] [] = Inr ns"
        "(if set ns \<noteq> set (neighborNodeIDs r) then Inr (True, r\<lparr>neighborNodeIDs := ns\<rparr>)
                         else Inr (False, r)) = (Inr (b, r') :: (bool \<times> routing2D) outcome)"
        by (fastforce simp: neighborNodeIDChanged_def Let_def obind_eq_Inr)
      have "\<forall>n\<in>set ns. nid_IsNormal n"
        by (rule ofold_invariant [of "\<lambda>ns. \<forall>n\<in>set ns. nid_IsNormal n", OF _ _ ns(1)])
          (use edge_neighbor_normal [OF ok] in auto)
      with ns(2) fin show ?thesis by blast
    qed
  qed
qed

lemma changed_action_normal:
  assumes "r2_normal r" "changed_action u co tr r = Inr (a, r')"
  shows "r2_normal r' \<and> (a = 0 \<or> a = 3)"
  using assms neighborNodeIDChanged_normal [OF assms(1)]
  by (auto simp: changed_action_def obind_eq_Inr requireExchangeRouting_def requireUpdateConnections_def split: if_splits)

lemma r2_normal_infos:
  "r2_normal r \<Longrightarrow> root_inv infos \<Longrightarrow> r2_normal (r\<lparr>r2_routeInfos := infos\<rparr>)"
  by (simp add: r2_normal_def)

lemma r2_normal_new: "nid_IsNormal l \<Longrightarrow> r2_normal (newRouting2D l)"
  by (simp add: r2_normal_def newRouting2D_def root_inv_def)

lemma r2_normal_connections:
  assumes "r2_normal r" "r2_updateNodeConnections co tr conns r = Inr (a, r')"
  shows "r2_normal r' \<and> (a = 0 \<or> a = 3)"
proof -
  let ?infos = "r2_routeInfos r"
  define rooted where "rooted = filter (\<lambda>(n, info). rootNodeIDs info \<noteq> []) ?infos"
  define all where "all = filter (\<lambda>(n, info). rootNodeIDs info = []) ?infos @ drop_roots conns rooted"
  have ca: "changed_action (length (drop_roots conns rooted) \<noteq> length rooted) co tr (r\<lparr>r2_routeInfos := all\<rparr>) = Inr (a, r')"
    using assms(2) by (simp add: r2_updateNodeConnections_def Let_def rooted_def all_def)
  have "root_inv (r2_routeInfos r')"
    using r2_inv_updateNodeConnections(1) [OF _ assms(2)] assms(1) by (simp add: r2_normal_def)
  moreover have "r2_routeInfos r' = all" using changed_action_infos [OF ca] by simp
  ultimately have "r2_normal (r\<lparr>r2_routeInfos := all\<rparr>)" using assms(1) by (simp add: r2_normal_infos)
  from changed_action_normal [OF this ca] show ?thesis .
qed

lemma r2_normal_position:
  assumes "r2_normal r" "r2_updateLocalPosition co tr pos r = Inr (a, r')"
  shows "r2_normal r' \<and> (a = 0 \<or> a = 2)"
proof (cases "r2_localPosition r = pos")
  case False
  have "r2_normal (r\<lparr>r2_localPosition := pos\<rparr>)" using assms(1) by (simp add: r2_normal_def)
  with False assms(2) neighborNodeIDChanged_normal show ?thesis
    by (auto simp: r2_updateLocalPosition_def obind_eq_Inr requireExchangeRouting_def)
qed (use assms in \<open>simp add: r2_updateLocalPosition_def\<close>)

lemma r2_normal_recv:
  assumes "r2_normal r" "nid_IsNormal src" "r2_recvRoutingPacket co tr src content r = Inr (res, r')"
  shows "r2_normal r' \<and> (\<forall>a. res = Inr a \<longrightarrow> a = 0 \<or> a = 3)"
proof -
  have inv: "root_inv (r2_routeInfos r')"
    using r2_inv_recvRoutingPacket [OF _ assms(2,3)] assms(1) by (simp add: r2_normal_def)
  from assms(3) obtain pos res1 u infos where
    1: "recv_records (r2_localNodeID r) src (NodeRecords content) (recv_source src pos (r2_routeInfos r)) = Inr (res1, u, infos)"
    and 2: "(case res1 of Inl err \<Rightarrow> Inr (Inl err, r\<lparr>r2_routeInfos := infos\<rparr>)
       | Inr _ \<Rightarrow>
           obind (recv_drop src (NodeRecords content) infos) (\<lambda>(dropped, infos).
           obind (changed_action (u \<or> dropped) co tr (r\<lparr>r2_routeInfos := infos\<rparr>)) (\<lambda>(action, r).
             Inr (Inr action, r)))) = Inr (res, r')"
    unfolding r2_recvRoutingPacket_def obind_eq_Inr by (metis (no_types, lifting) case_prod_conv surj_pair)
  from 2 consider e infos where "res = Inl e" "r' = r\<lparr>r2_routeInfos := infos\<rparr>"
    | a u infos where "res = Inr a" "changed_action u co tr (r\<lparr>r2_routeInfos := infos\<rparr>) = Inr (a, r')"
    by (cases res1) (auto simp: obind_eq_Inr)
  then show ?thesis
  proof cases
    case 1
    with inv assms(1) show ?thesis by (simp add: r2_normal_def)
  next
    case 2
    have "r2_routeInfos r' = infos" using changed_action_infos [OF 2(2)] by simp
    with inv assms(1) have "r2_normal (r\<lparr>r2_routeInfos := infos\<rparr>)" by (simp add: r2_normal_infos)
    from changed_action_normal [OF this 2(2)] 2(1) show ?thesis by simp
  qed
qed

subsection \<open>The invariant of the routing\<close>

definition rt_inv :: "Routing \<Rightarrow> bool" where
  "rt_inv r \<longleftrightarrow> r1_inv (rt_r1d r) \<and> (\<forall>r2. rt_r2d r = Some r2 \<longrightarrow> r2_normal r2) \<and> 0 \<le> triggeredAction r \<and> triggeredAction r < 4"

lemma flags_OR: "0 \<le> a \<Longrightarrow> a < 4 \<Longrightarrow> b \<in> {0, 1, 2, 3} \<Longrightarrow> 0 \<le> a OR b \<and> a OR b < (4 :: int)"
  using OR_upper [of a 2 b] by auto

lemma exchange_flag:
  assumes "bit (t :: int) 1"
  shows "t AND requireExchangeRouting \<noteq> 0"
proof -
  have "bit (t AND requireExchangeRouting) 1" unfolding bit_and_iff requireExchangeRouting_def using assms by simp
  then show ?thesis by auto
qed

lemma rt_inv_Start: "nid_IsNormal l \<Longrightarrow> rt_inv (rt_Start now b l)"
  by (simp add: rt_inv_def rt_Start_def r1_inv_new r2_normal_new)

lemma rt_inv_connections:
  assumes inv: "rt_inv r" and c: "\<forall>n\<in>set conns. nid_IsNormal n \<and> n \<noteq> r1_localNodeID (rt_r1d r)"
    and run: "rt_UpdateNodeConnections co tr rec now conns r = Inr r'"
  shows "rt_inv r' \<and> firsts (neighborhoodInfos (rt_r1d r')) = set conns \<and>
     (\<forall>r2 n. rt_r2d r' = Some r2 \<longrightarrow> roots_of (r2_routeInfos r2) n \<subseteq> set conns) \<and>
     (firsts (neighborhoodInfos (rt_r1d r)) \<noteq> set conns \<longrightarrow> triggeredAction r' AND requireExchangeRouting \<noteq> 0)"
proof -
  have r1: "r1_inv (rt_r1d r)" and ta: "0 \<le> triggeredAction r" "triggeredAction r < 4"
    and r2n: "\<And>r2. rt_r2d r = Some r2 \<Longrightarrow> r2_normal r2" using inv by (auto simp: rt_inv_def)
  obtain req r1' where 1: "r1_updateNodeConnections rec now conns (rt_r1d r) = Inr (req, r1')" "r1_inv r1'"
    "firsts (neighborhoodInfos r1') = set conns"
    "req = 0 \<and> firsts (neighborhoodInfos (rt_r1d r)) = set conns \<or> req = 2 \<or> req = 3"
    using r1_inv_updateNodeConnections [OF r1 c, of rec now]
    by (auto simp: requireExchangeRouting_def requireUpdateConnections_def)
  define t1 where "t1 = triggeredAction r OR req"
  have t1: "0 \<le> t1" "t1 < 4" using flags_OR [OF ta, of req] 1(4) by (auto simp: t1_def)
  have ex: "firsts (neighborhoodInfos (rt_r1d r)) \<noteq> set conns \<Longrightarrow> bit t1 1"
    using 1(4) by (auto simp: t1_def bit_simps)
  show ?thesis
  proof (cases "rt_r2d r")
    case None
    with run 1(1) have "r' = r\<lparr>triggeredAction := t1, rt_r1d := r1'\<rparr>"
      by (simp add: rt_UpdateNodeConnections_def Let_def t1_def)
    with None 1(2,3) t1 exchange_flag [OF ex] show ?thesis by (simp add: rt_inv_def)
  next
    case (Some r2)
    with run 1(1) obtain a r2' where 2: "r2_updateNodeConnections co tr conns r2 = Inr (a, r2')"
      "r' = r\<lparr>rt_r1d := r1', triggeredAction := t1 OR a, rt_r2d := Some r2'\<rparr>"
      by (auto simp: rt_UpdateNodeConnections_def Let_def obind_eq_Inr t1_def)
    have n: "r2_normal r2' \<and> (a = 0 \<or> a = 3)" using r2_normal_connections [OF r2n [OF Some] 2(1)] .
    have roots: "roots_of (r2_routeInfos r2') n \<subseteq> set conns" for n
      using r2_inv_updateNodeConnections(2) [OF _ 2(1)] r2n [OF Some] by (simp add: r2_normal_def)
    have "0 \<le> t1 OR a \<and> t1 OR a < 4" using flags_OR [OF t1, of a] n by auto
    moreover have "bit (t1 OR a) 1" if "firsts (neighborhoodInfos (rt_r1d r)) \<noteq> set conns"
      using ex [OF that] by (simp add: bit_or_iff)
    ultimately show ?thesis using 1(2,3) 2(2) n roots exchange_flag [of "t1 OR a"] by (simp add: rt_inv_def)
  qed
qed

subsection \<open>The routine\<close>

lemma ConvertNodeIDSet_ok:
  assumes "\<forall>n\<in>set ns. nid_IsNormal n"
  shows "\<exists>ss. ConvertNodeIDSetToStringMap ns = Inr ss"
proof -
  have "\<exists>r'. ofold (\<lambda>k r. obind (nid_String k) (\<lambda>s. Inr (List.insert s r))) ns r = Inr r'" for r
    using assms by (induction ns arbitrary: r) (auto simp: nid_String_normal)
  then show ?thesis by (simp add: ConvertNodeIDSetToStringMap_def)
qed

text \<open>The nodes connected as far as the position routing knows.\<close>

definition direct_2d :: "Routing \<Rightarrow> NodeID set" where
  "direct_2d r = (case rt_r2d r of None \<Rightarrow> {} | Some r2 \<Rightarrow> {n. n \<in> roots_of (r2_routeInfos r2) n})"

definition neighbors_2d :: "Routing \<Rightarrow> NodeID set" where
  "neighbors_2d r = (case rt_r2d r of None \<Rightarrow> {} | Some r2 \<Rightarrow> set (neighborNodeIDs r2))"

lemma setup_2d:
  assumes "gomap_wf infos" "\<forall>n\<in>set (mkeys infos). nid_IsNormal n"
  shows "\<exists>content'. ofold (\<lambda>(nodeID, info) content.
        if nodeID \<notin> set (rootNodeIDs info) then Inr content
        else obind (nid_String nodeID) (\<lambda>s.
          Inr (content\<lparr>NodeRecords := (case mget (NodeRecords content) s of
                 None \<Rightarrow> mput s \<lparr>R1DScore = 0, rn_R2DPosition = Some (coord_Proto (r2_position info))\<rparr> (NodeRecords content)
               | Some rec \<Rightarrow> mput s (rec\<lparr>rn_R2DPosition := Some (coord_Proto (r2_position info))\<rparr>) (NodeRecords content))\<rparr>)))
       infos content = Inr content' \<and>
     reported_ids (NodeRecords content') = reported_ids (NodeRecords content) \<union> {n. n \<in> roots_of infos n}"
  using assms
proof (induction infos arbitrary: content)
  case (Cons p infos)
  obtain n i where p: "p = (n, i)" by fastforce
  have n: "nid_IsNormal n" "n \<notin> set (mkeys infos)" using Cons.prems p by auto
  have roots: "{m. m \<in> roots_of (p # infos) m} = (if n \<in> set (rootNodeIDs i) then {n} else {}) \<union> {m. m \<in> roots_of infos m}"
    using n(2) roots_of_mhas [of _ infos n] by (auto simp: p mhas_iff)
  show ?case
  proof (cases "n \<in> set (rootNodeIDs i)")
    case False
    with Cons.IH [of content] Cons.prems roots show ?thesis by (auto simp: p)
  next
    case True
    obtain s where s: "nid_String n = Inr s" using n(1) by (simp add: nid_String_normal)
    have ids: "reported_ids (mput s rec m) = insert n (reported_ids m)" for rec m
      using FromString_String [OF n(1) s] by (auto simp: reported_ids_def)
    define c1 where "c1 = content\<lparr>NodeRecords := (case mget (NodeRecords content) s of
                 None \<Rightarrow> mput s \<lparr>R1DScore = 0, rn_R2DPosition = Some (coord_Proto (r2_position i))\<rparr> (NodeRecords content)
               | Some rec \<Rightarrow> mput s (rec\<lparr>rn_R2DPosition := Some (coord_Proto (r2_position i))\<rparr>) (NodeRecords content))\<rparr>"
    have "reported_ids (NodeRecords c1) = insert n (reported_ids (NodeRecords content))"
      by (simp add: c1_def ids split: option.splits)
    with Cons.IH [of c1] Cons.prems s True roots show ?thesis by (auto simp: p c1_def)
  qed
qed simp

lemma rt_sendRouting_ok:
  assumes "rt_inv r"
  shows "\<exists>content r'. rt_sendRouting r = Inr ([SendRouting content], r') \<and> rt_inv r' \<and> triggeredAction r' = triggeredAction r \<and>
     reported_ids (NodeRecords content) = firsts (neighborhoodInfos (rt_r1d r)) \<union> direct_2d r"
proof -
  obtain c1 r1 where 1: "r1_setupRoutingPacket \<lparr>R2DPosition = None, NodeRecords = []\<rparr> (rt_r1d r) = Inr (c1, r1)" "r1_inv r1"
    "reported_ids (NodeRecords c1) = firsts (neighborhoodInfos (rt_r1d r))"
    using setupRoutingPacket_reports [of "rt_r1d r" "\<lparr>R2DPosition = None, NodeRecords = []\<rparr>"] assms
    by (auto simp: rt_inv_def reported_ids_simps)
  have "\<exists>c2. (case rt_r2d r of None \<Rightarrow> Inr c1 | Some r2 \<Rightarrow> r2_setupRoutingPacket c1 r2) = Inr c2 \<and>
     reported_ids (NodeRecords c2) = reported_ids (NodeRecords c1) \<union> direct_2d r"
  proof (cases "rt_r2d r")
    case (Some r2)
    then have "root_inv (r2_routeInfos r2)" using assms by (simp add: rt_inv_def r2_normal_def)
    then have "gomap_wf (r2_routeInfos r2)" "\<forall>n\<in>set (mkeys (r2_routeInfos r2)). nid_IsNormal n"
      using root_inv_keys by (auto simp: root_inv_def)
    from setup_2d [OF this, of "c1\<lparr>R2DPosition := Some (coord_Proto (r2_localPosition r2))\<rparr>"] Some show ?thesis
      by (simp add: r2_setupRoutingPacket_def direct_2d_def)
  qed (simp add: direct_2d_def)
  then obtain c2 where "(case rt_r2d r of None \<Rightarrow> Inr c1 | Some r2 \<Rightarrow> r2_setupRoutingPacket c1 r2) = Inr c2"
    "reported_ids (NodeRecords c2) = reported_ids (NodeRecords c1) \<union> direct_2d r" by blast
  with 1 assms show ?thesis by (simp add: rt_sendRouting_def rt_inv_def)
qed

definition observation :: "rt_effect \<Rightarrow> bool" where
  "observation e \<longleftrightarrow> (case e of UpdateConnection _ _ \<Rightarrow> False | SendRouting _ \<Rightarrow> False | _ \<Rightarrow> True)"

lemma observation_simps [simp]:
  "observation (UpdateRequired1D s)" "observation (UpdateRequired2D s)" "observation (UpdateNextNodePositions p)"
  "\<not> observation (UpdateConnection q k)" "\<not> observation (SendRouting c)"
  by (simp_all add: observation_def)

lemma set_fold_insert: "set (fold List.insert xs ys) = set xs \<union> set ys"
  by (induction xs arbitrary: ys) auto

lemma observe_ok:
  assumes "\<forall>n\<in>set ns. nid_IsNormal n" "\<And>ss. observation (call ss)"
  shows "\<exists>obs. observe observed call ns = Inr obs \<and> (\<forall>e\<in>set obs. observation e)"
  using ConvertNodeIDSet_ok [OF assms(1)] assms(2) by (auto simp: observe_def)

lemma add_required2d_ok:
  assumes "\<forall>r2. rt_r2d r = Some r2 \<longrightarrow> r2_normal r2"
  shows "\<exists>req' obs. add_required2d observed req r = Inr (req', obs) \<and> (\<forall>e\<in>set obs. observation e) \<and>
     set req' = set req \<union> neighbors_2d r"
proof (cases "rt_r2d r")
  case (Some r2)
  then have "\<forall>n\<in>set (neighborNodeIDs r2). nid_IsNormal n" using assms by (simp add: r2_normal_def)
  from observe_ok [OF this, of UpdateRequired2D observed] Some show ?thesis
    by (auto simp: add_required2d_def Let_def r2_getConnections_def neighbors_2d_def set_fold_insert)
qed (simp add: add_required2d_def neighbors_2d_def)

definition wants :: "Routing \<Rightarrow> NodeID list \<Rightarrow> NodeID list \<Rightarrow> bool" where
  "wants r req keep \<longleftrightarrow>
     set (frontwardNextNodeIDs (rt_r1d r)) \<union> set (backwardNextNodeIDs (rt_r1d r)) \<union> neighbors_2d r \<subseteq> set req \<and>
     set keep = {n \<in> firsts (neighborhoodInfos (rt_r1d r)). level_of (r1_localNodeID (rt_r1d r)) n = -1}"

lemma flags_AND: "0 \<le> a \<Longrightarrow> a < 4 \<Longrightarrow> 0 \<le> a AND b \<and> a AND b < (4 :: int)"
  using AND_upper1 [of a b] AND_lower [of a b] by auto

lemma rt_updateConnections_ok:
  assumes inv: "rt_inv r"
  shows "\<exists>obs req keep r'. rt_updateConnections now observed r = Inr (obs @ [UpdateConnection req keep], r') \<and> rt_inv r' \<and>
     triggeredAction r' = triggeredAction r AND NOT requireUpdateConnections \<and> (\<forall>e\<in>set obs. observation e) \<and>
     rt_r2d r' = rt_r2d r \<and> firsts (neighborhoodInfos (rt_r1d r')) = firsts (neighborhoodInfos (rt_r1d r)) \<and> wants r req keep"
proof -
  have r1: "r1_inv (rt_r1d r)" using inv by (simp add: rt_inv_def)
  obtain req keep r1' where 1: "r1_getConnections now (rt_r1d r) = Inr ((req, keep), r1')" "r1_inv r1'"
    "set (frontwardNextNodeIDs (rt_r1d r)) \<union> set (backwardNextNodeIDs (rt_r1d r)) \<subseteq> set req"
    "set req \<subseteq> set (frontwardNextNodeIDs (rt_r1d r)) \<union> set (backwardNextNodeIDs (rt_r1d r)) \<union> ri_nodeID ` set (routeInfos (rt_r1d r))"
    "set keep = {n \<in> firsts (neighborhoodInfos (rt_r1d r)). level_of (r1_localNodeID (rt_r1d r)) n = -1}"
    using r1_getConnections_ok [OF r1, of now] by blast
  let ?r = "r\<lparr>rt_r1d := r1'\<rparr>"
  have "\<forall>n\<in>set req. nid_IsNormal n" using 1(4) r1 by (fastforce simp: r1_inv_def r1_usable_def)
  from observe_ok [OF this, of UpdateRequired1D observed] obtain obs1 where
    o1: "observe observed UpdateRequired1D req = Inr obs1" "\<forall>e\<in>set obs1. observation e" by auto
  from add_required2d_ok [of ?r observed req] inv obtain req' obs2 where
    o2: "add_required2d observed req ?r = Inr (req', obs2)" "\<forall>e\<in>set obs2. observation e" "set req' = set req \<union> neighbors_2d r"
    by (auto simp: rt_inv_def neighbors_2d_def)
  have "r1' = normalizeScore (rt_r1d r)" using 1(1) by (auto simp: r1_getConnections_def Let_def obind_eq_Inr)
  then have fr: "firsts (neighborhoodInfos r1') = firsts (neighborhoodInfos (rt_r1d r))"
    using same_shape(1) [OF normalizeScore_same(2)] by simp
  let ?r' = "?r\<lparr>triggeredAction := triggeredAction r AND NOT requireUpdateConnections, lastConnectionUpdate := now\<rparr>"
  have "rt_updateConnections now observed r = Inr ((obs1 @ obs2) @ [UpdateConnection req' keep], ?r')"
    using 1(1) o1(1) o2(1) by (simp add: rt_updateConnections_def Let_def)
  moreover have "rt_inv ?r'"
    using inv 1(2) flags_AND [of "triggeredAction r"] by (simp add: rt_inv_def)
  moreover have "\<forall>e\<in>set (obs1 @ obs2). observation e" using o1(2) o2(2) by auto
  moreover have "wants r req' keep" using o2(3) 1(3,5) by (auto simp: wants_def)
  ultimately show ?thesis using fr by fastforce
qed

lemma flags_cleared:
  assumes "0 \<le> (a :: int)" "a < 4" "a AND requireUpdateConnections = 0 \<or> b" "c = (if b then a AND NOT requireUpdateConnections else a)"
    and "d = (if c AND requireExchangeRouting \<noteq> 0 then c AND NOT requireExchangeRouting else c)"
  shows "d = 0 \<and> (c AND requireExchangeRouting \<noteq> 0 \<longleftrightarrow> a AND requireExchangeRouting \<noteq> 0)"
proof -
  consider "a = 0" | "a = 1" | "a = 2" | "a = 3" using assms(1,2) by linarith
  then show ?thesis
    by cases (use assms(3-5) in \<open>cases b; simp add: requireUpdateConnections_def requireExchangeRouting_def\<close>)+
qed

lemma rt_inv_r1d: "rt_inv r \<Longrightarrow> r1_inv r1 \<Longrightarrow> rt_inv (r\<lparr>rt_r1d := r1\<rparr>)"
  by (simp add: rt_inv_def)

definition due :: "time \<Rightarrow> Routing \<Rightarrow> bool" where
  "due now r \<longleftrightarrow> triggeredAction r AND requireUpdateConnections \<noteq> 0 \<or> now > lastConnectionUpdate r + connectionUpdateInterval"

text \<open>What a list of effects asks of the network, besides telling the observer.\<close>

definition asks :: "rt_effect list \<Rightarrow> rt_effect list" where
  "asks es = filter (\<lambda>e. \<not> observation e) es"

lemma asks_observations: "\<forall>e\<in>set es. observation e \<Longrightarrow> asks es = []"
  by (simp add: asks_def)

lemma asks_append [simp]: "asks (es @ es') = asks es @ asks es'"
  by (simp add: asks_def)

lemma rt_subRoutine_ok:
  assumes inv: "rt_inv r"
  shows "\<exists>es r' req keep content. rt_subRoutine now observed rec r = Inr (es, r') \<and> rt_inv r' \<and> triggeredAction r' = 0 \<and>
     asks es = (if due now r then [UpdateConnection req keep] else []) @
       (if triggeredAction r AND requireExchangeRouting \<noteq> 0 then [SendRouting content] else []) \<and>
     wants r req keep \<and>
     reported_ids (NodeRecords content) = firsts (neighborhoodInfos (rt_r1d r)) \<union> direct_2d r"
proof -
  define r0 where "r0 = r\<lparr>rt_r1d := r1_subRoutine rec (rt_r1d r)\<rparr>"
  have inv0: "rt_inv r0" using inv r1_inv_subRoutine(1) by (simp add: r0_def rt_inv_def)
  define pos where "pos = (case rt_r2d r0 of None \<Rightarrow> [] | Some r2 \<Rightarrow> [UpdateNextNodePositions (r2_getNextNodePositions r2)])"
  have pos: "asks pos = []" by (simp add: pos_def asks_def split: option.splits)
  have same: "triggeredAction r0 = triggeredAction r" "rt_r2d r0 = rt_r2d r" "due now r0 = due now r"
    "neighborhoodInfos (rt_r1d r0) = neighborhoodInfos (rt_r1d r)" "wants r0 q k = wants r q k" for q k
    by (simp_all add: r0_def due_def wants_def r1_subRoutine_def neighbors_2d_def)
  obtain req keep es1 r1 where 1: "(if due now r0 then rt_updateConnections now observed r0 else Inr ([], r0)) = Inr (es1, r1)"
    "rt_inv r1" "asks es1 = (if due now r then [UpdateConnection req keep] else [])" "wants r req keep"
    "triggeredAction r1 = (if due now r0 then triggeredAction r AND NOT requireUpdateConnections else triggeredAction r)"
    "rt_r2d r1 = rt_r2d r" "firsts (neighborhoodInfos (rt_r1d r1)) = firsts (neighborhoodInfos (rt_r1d r))"
  proof (cases "due now r0")
    case True
    with rt_updateConnections_ok [OF inv0, of now observed] same that show thesis by (auto simp: asks_def)
  next
    case False
    obtain q k where "wants r0 q k" using rt_updateConnections_ok [OF inv0, of now observed] by blast
    with False inv0 same that [of "[]" r0 q k] show thesis by (simp add: asks_def)
  qed
  obtain content r2 where 2: "rt_sendRouting r1 = Inr ([SendRouting content], r2)" "rt_inv r2" "triggeredAction r2 = triggeredAction r1"
    "reported_ids (NodeRecords content) = firsts (neighborhoodInfos (rt_r1d r)) \<union> direct_2d r"
    using rt_sendRouting_ok [OF 1(2)] 1(6,7) by (auto simp: direct_2d_def)
  define ex where "ex = (triggeredAction r1 AND requireExchangeRouting \<noteq> 0)"
  define r3 where "r3 = (if ex then r2\<lparr>triggeredAction := triggeredAction r2 AND NOT requireExchangeRouting, lastRouteUpdate := now\<rparr> else r1)"
  have run: "rt_subRoutine now observed rec r = Inr (pos @ es1 @ (if ex then [SendRouting content] else []), r3)"
    using 1(1) 2(1) unfolding rt_subRoutine_def Let_def r0_def [symmetric] pos_def [symmetric] due_def [symmetric]
    by (simp add: ex_def r3_def)
  have a: "0 \<le> triggeredAction r" "triggeredAction r < 4" using inv by (simp_all add: rt_inv_def)
  have b: "triggeredAction r AND requireUpdateConnections = 0 \<or> due now r" by (auto simp: due_def)
  have d: "triggeredAction r3 = (if triggeredAction r1 AND requireExchangeRouting \<noteq> 0
      then triggeredAction r1 AND NOT requireExchangeRouting else triggeredAction r1)"
    by (simp add: r3_def ex_def 2(3))
  have "triggeredAction r3 = 0 \<and> (ex \<longleftrightarrow> triggeredAction r AND requireExchangeRouting \<noteq> 0)"
    using flags_cleared [OF a b 1(5) [unfolded same(3)] d] unfolding ex_def .
  moreover have "rt_inv r3" using 1(2) 2(2) flags_AND [of "triggeredAction r2"] by (simp add: r3_def rt_inv_def)
  moreover have "asks (pos @ es1 @ (if ex then [SendRouting content] else [])) =
     (if due now r then [UpdateConnection req keep] else []) @ (if ex then [SendRouting content] else [])"
    using pos 1(3) by (simp add: asks_def)
  ultimately show ?thesis using run 1(4) 2(4) by auto
qed

lemma recv_action:
  assumes "r1_recvRoutingPacket rec src content r = Inr (Inr a, r')"
  shows "a = 0 \<or> a = 1"
proof (cases "mget (neighborhoodInfos r) src")
  case None
  with assms show ?thesis by (simp add: r1_recvRoutingPacket_def split: if_splits)
next
  case (Some i)
  with assms obtain kept where kept: "keep_reported (NodeRecords content) (secondNeighborhoods i) = Inr kept"
    by (auto simp: r1_recvRoutingPacket_def obind_eq_Inr split: if_splits)
  obtain res second u sc where read: "read_records (r1_localNodeID r) (NodeRecords content)
      (kept, length kept \<noteq> length (secondNeighborhoods i), 0) = (res, second, u, sc)"
    by (metis prod_cases3 surj_pair)
  show ?thesis
    using assms Some kept read
    by (cases res; cases u) (auto simp: r1_recvRoutingPacket_def Let_def obind_eq_Inr requireUpdateConnections_def split: if_splits)
qed

lemma rt_inv_recv:
  assumes inv: "rt_inv r" and src: "nid_IsNormal src" "src \<noteq> r1_localNodeID (rt_r1d r)"
    and run: "rt_recvRouting co tr rec src content r = Inr r'"
  shows "rt_inv r'"
proof -
  have i: "r1_inv (rt_r1d r)" "0 \<le> triggeredAction r" "triggeredAction r < 4" using inv by (simp_all add: rt_inv_def)
  obtain res r1 where 1: "r1_recvRoutingPacket rec src content (rt_r1d r) = Inr (res, r1)" "r1_inv r1"
    using r1_inv_recvRoutingPacket [OF i(1) src(2), of rec content] by blast
  show ?thesis
  proof (cases res)
    case (Inl e)
    with run 1 inv show ?thesis by (auto simp: rt_recvRouting_def Let_def intro!: rt_inv_r1d)
  next
    case (Inr a)
    have "a = 0 \<or> a = 1" using 1(1) Inr recv_action by blast
    then have t: "0 \<le> triggeredAction r OR a" "triggeredAction r OR a < 4" using flags_OR [OF i(2,3), of a] by auto
    show ?thesis
    proof (cases "rt_r2d r")
      case None
      with run 1 Inr t inv show ?thesis by (auto simp: rt_recvRouting_def Let_def rt_inv_def)
    next
      case (Some r2)
      then have n: "r2_normal r2" using inv by (simp add: rt_inv_def)
      from run 1(1) Inr Some obtain res2 r2' where 2: "r2_recvRoutingPacket co tr src content r2 = Inr (res2, r2')"
        by (cases "r2_recvRoutingPacket co tr src content r2") (auto simp: rt_recvRouting_def Let_def)
      note n' = r2_normal_recv [OF n src(1) 2]
      show ?thesis
      proof (cases res2)
        case (Inl e)
        with run 1 Inr Some 2 n' t show ?thesis by (auto simp: rt_recvRouting_def Let_def rt_inv_def)
      next
        case (Inr b)
        with run 1 \<open>res = Inr a\<close> Some 2 n' flags_OR [OF t, of b] show ?thesis
          by (auto simp: rt_recvRouting_def Let_def rt_inv_def)
      qed
    qed
  qed
qed

subsection \<open>Reachable states\<close>

inductive rt_reachable :: "Routing \<Rightarrow> bool" where
  start: "nid_IsNormal l \<Longrightarrow> rt_reachable (rt_Start now b l)"
| tick: "rt_reachable r \<Longrightarrow> rt_subRoutine now observed rec r = Inr (es, r') \<Longrightarrow> rt_reachable r'"
| connections: "rt_reachable r \<Longrightarrow> \<forall>n\<in>set conns. nid_IsNormal n \<and> n \<noteq> r1_localNodeID (rt_r1d r) \<Longrightarrow>
    rt_UpdateNodeConnections co tr rec now conns r = Inr r' \<Longrightarrow> rt_reachable r'"
| next_step: "rt_reachable r \<Longrightarrow> rt_GetNextStep1D p r = Inr (n, r') \<Longrightarrow> rt_reachable r'"
| count: "rt_reachable r \<Longrightarrow> rt_reachable (rt_CountRecvPacket n r)"
| position: "rt_reachable r \<Longrightarrow> rt_UpdateLocalPosition co tr pos r = Inr (u, r') \<Longrightarrow> rt_reachable r'"
| recv: "rt_reachable r \<Longrightarrow> nid_IsNormal src \<Longrightarrow> src \<noteq> r1_localNodeID (rt_r1d r) \<Longrightarrow>
    rt_recvRouting co tr rec src content r = Inr r' \<Longrightarrow> rt_reachable r'"

lemma rt_reachable_inv: "rt_reachable r \<Longrightarrow> rt_inv r"
proof (induction rule: rt_reachable.induct)
  case (start l now b)
  then show ?case by (rule rt_inv_Start)
next
  case (tick r now observed rec es r')
  with rt_subRoutine_ok [OF tick.IH, of now observed rec] show ?case by auto
next
  case (connections r conns co tr rec now r')
  with rt_inv_connections show ?case by blast
next
  case (next_step r p n r')
  then have "r1_inv (rt_r1d r)" by (simp add: rt_inv_def)
  with r1_getNextStep_ok [of "rt_r1d r" p] next_step show ?case
    by (auto simp: rt_GetNextStep1D_def intro!: rt_inv_r1d)
next
  case (count r n)
  then show ?case using r1_inv_countRecvPacket(1) by (simp add: rt_CountRecvPacket_def rt_inv_def)
next
  case (position r co tr pos u r')
  show ?case
  proof (cases "rt_r2d r")
    case None
    with position show ?thesis by (simp add: rt_UpdateLocalPosition_def)
  next
    case (Some r2)
    then have "r2_normal r2" using position.IH by (simp add: rt_inv_def)
    with Some position r2_normal_position flags_OR show ?thesis
      by (fastforce simp: rt_UpdateLocalPosition_def obind_eq_Inr rt_inv_def)
  qed
next
  case (recv r src co tr rec content r')
  then show ?case using rt_inv_recv by blast
qed


text \<open>
  Changes are announced: whenever the set of connected nodes changes, the next run of
  the routine sends the routing table to the neighbours, and it names exactly the nodes now
  connected.
\<close>

theorem connection_change_announced:
  assumes "rt_reachable r" "\<forall>n\<in>set conns. nid_IsNormal n \<and> n \<noteq> r1_localNodeID (rt_r1d r)"
    and "firsts (neighborhoodInfos (rt_r1d r)) \<noteq> set conns"
    and "rt_UpdateNodeConnections co tr rec now conns r = Inr r'"
  shows "\<exists>es r'' content. rt_subRoutine t observed rec' r' = Inr (es, r'') \<and> SendRouting content \<in> set es \<and>
     reported_ids (NodeRecords content) = set conns"
proof -
  have c: "rt_inv r'" "firsts (neighborhoodInfos (rt_r1d r')) = set conns" "triggeredAction r' AND requireExchangeRouting \<noteq> 0"
    "\<And>r2 n. rt_r2d r' = Some r2 \<Longrightarrow> roots_of (r2_routeInfos r2) n \<subseteq> set conns"
    using rt_inv_connections [OF rt_reachable_inv [OF assms(1)] assms(2,4)] assms(3) by auto
  from rt_subRoutine_ok [OF c(1), of t observed rec'] obtain es r'' req keep content where
    "rt_subRoutine t observed rec' r' = Inr (es, r'')"
    "asks es = (if due t r' then [UpdateConnection req keep] else []) @
       (if triggeredAction r' AND requireExchangeRouting \<noteq> 0 then [SendRouting content] else [])"
    "reported_ids (NodeRecords content) = firsts (neighborhoodInfos (rt_r1d r')) \<union> direct_2d r'" by blast
  moreover from this(2) c(3) have "SendRouting content \<in> set (asks es)" by simp
  then have "SendRouting content \<in> set es" by (simp add: asks_def)
  moreover have "direct_2d r' \<subseteq> set conns" using c(4) by (auto simp: direct_2d_def split: option.splits)
  ultimately show ?thesis using c(2) by blast
qed

subsection \<open>A node that gets its first connection\<close>

definition alone_routing :: Routing where "alone_routing = rt_Start 0 False id_a"

lemma alone_routing_reachable: "rt_reachable alone_routing"
  unfolding alone_routing_def by (rule rt_reachable.start) (simp add: id_a_def nid_IsNormal_def)

lemma alone_routing_simps:
  "firsts (neighborhoodInfos (rt_r1d alone_routing)) = {}" "r1_localNodeID (rt_r1d alone_routing) = id_a"
  "rt_r2d alone_routing = None"
  by (simp_all add: alone_routing_def rt_Start_def newRouting1D_def)

lemma id_b_other: "\<forall>n\<in>set [id_b]. nid_IsNormal n \<and> n \<noteq> r1_localNodeID (rt_r1d alone_routing)"
  by (simp add: alone_routing_simps id_a_def id_b_def nid_IsNormal_def)


theorem connection_change_announced_witness:
  "\<exists>r' es r'' content. rt_UpdateNodeConnections line_co (\<lambda>_. Inl []) (\<lambda>_ _. Inr True) 5 [id_b] alone_routing = Inr r' \<and>
     rt_subRoutine 6 False (\<lambda>_ _. Inr True) r' = Inr (es, r'') \<and> SendRouting content \<in> set es \<and>
     reported_ids (NodeRecords content) = {id_b}"
proof -
  have "r1_inv (rt_r1d alone_routing)" using rt_reachable_inv [OF alone_routing_reachable] by (simp add: rt_inv_def)
  from r1_inv_updateNodeConnections [OF this id_b_other, of "\<lambda>_ _. Inr True" 5] obtain r' where
    r': "rt_UpdateNodeConnections line_co (\<lambda>_. Inl []) (\<lambda>_ _. Inr True) 5 [id_b] alone_routing = Inr r'"
    by (auto simp: rt_UpdateNodeConnections_def Let_def alone_routing_simps)
  from connection_change_announced [OF alone_routing_reachable id_b_other _ r', of 6 False "\<lambda>_ _. Inr True"] r' show ?thesis
    by (auto simp: alone_routing_simps)
qed

end
