(* ===== verification/Transferer.thy ===== *)
theory Transferer
  imports Packets
begin

text \<open>
  Requests and responses on top of routed packets
  (\<open>src/node/internal/network/transferer/transferer.go\<close>): request records with retries and a
  timeout, matching of responses, dispatch of requests to their handlers.

  What an operation asks of others is a list of effects in the order of the code: a packet
  handed to the network (with a flag telling whether the transferer's mutex is held
  meanwhile), or a callback started in a goroutine of its own. \<open>held\<close>, an argument of the
  operations that take the mutex, says that the caller holds it already: locking it again
  waits forever. A response handler is a value of type \<open>'h\<close>. A loop that draws random
  numbers reads them from a list, and has no result when the list is too short.
\<close>

definition defaultRetryCountMax :: nat where "defaultRetryCountMax = 5"
definition defaultRetryInterval :: duration where "defaultRetryInterval = 10000000000"

text \<open>The dynamic type of the oneof inside a packet's content; nil if it is unset.\<close>

datatype content_kind = K_Error | K_Routing | K_Messaging | K_MessagingResponse | K_Spread
  | K_SpreadKnock | K_SpreadKnockResponse | K_SpreadRelay | K_SpreadRelayResponse

fun kind_of :: "PacketContent \<Rightarrow> content_kind option" where
  "kind_of Content_unset = None"
| "kind_of (Content_Error _ _) = Some K_Error"
| "kind_of (Content_Routing _) = Some K_Routing"
| "kind_of (Content_Messaging _ _) = Some K_Messaging"
| "kind_of (Content_MessagingResponse _) = Some K_MessagingResponse"
| "kind_of (Content_Spread _) = Some K_Spread"
| "kind_of (Content_SpreadKnock _) = Some K_SpreadKnock"
| "kind_of (Content_SpreadKnockResponse _) = Some K_SpreadKnockResponse"
| "kind_of (Content_SpreadRelay _) = Some K_SpreadRelay"
| "kind_of (Content_SpreadRelayResponse _) = Some K_SpreadRelayResponse"

record 'h requestRecord =
  rr_dstNodeID :: NodeID
  rr_id :: "32 word"
  rr_mode :: PacketMode
  rr_content :: PacketContent
  rr_handler :: 'h
  tryCount :: nat
  lastSend :: time

record 'h Transferer =
  retryCountMax :: nat
  retryInterval :: duration
  tr_localNodeID :: NodeID
  requestHandlers :: "content_kind list"
  requestRecords :: "(32 word, 'h requestRecord) gomap"

datatype 'h tr_effect =
    SendPacket bool Packet
  | RelayPacketTo NodeID Packet
  | OnError 'h "32 word" string
  | OnResponse 'h Packet
  | OnRequest content_kind Packet

definition NewTransferer :: "nat \<Rightarrow> duration \<Rightarrow> 'h Transferer" where
  "NewTransferer cfgRetryCountMax cfgRetryInterval =
     (if cfgRetryCountMax \<noteq> 0
      then \<lparr>retryCountMax = cfgRetryCountMax, retryInterval = cfgRetryInterval, tr_localNodeID = NodeLocal,
            requestHandlers = [], requestRecords = []\<rparr>
      else \<lparr>retryCountMax = defaultRetryCountMax, retryInterval = defaultRetryInterval, tr_localNodeID = NodeLocal,
            requestHandlers = [], requestRecords = []\<rparr>)"

definition SetRequestHandler :: "content_kind \<Rightarrow> 'h Transferer \<Rightarrow> 'h Transferer outcome" where
  "SetRequestHandler contentType t =
     (if contentType \<in> set (requestHandlers t) then Inl (Panic ''the handler already exists'')
      else Inr (t\<lparr>requestHandlers := contentType # requestHandlers t\<rparr>))"

text \<open>Starting; the goroutine calls \<open>tr_subRoutine\<close> every second.\<close>

definition tr_Start :: "NodeID \<Rightarrow> 'h Transferer \<Rightarrow> 'h Transferer" where
  "tr_Start localNodeID t = t\<lparr>tr_localNodeID := localNodeID\<rparr>"

subsection \<open>Retries\<close>

definition retry_packet :: "'h Transferer \<Rightarrow> 32 word \<Rightarrow> 'h requestRecord \<Rightarrow> Packet" where
  "retry_packet t id' record' =
     \<lparr>DstNodeID = rr_dstNodeID record', SrcNodeID = tr_localNodeID t, pk_ID = id', HopCount = 0,
      Mode = rr_mode record', Content = rr_content record'\<rparr>"

definition sub_record :: "time \<Rightarrow> 'h Transferer \<Rightarrow> 32 word \<times> 'h requestRecord \<Rightarrow>
    'h tr_effect list \<times> (32 word \<times> 'h requestRecord) list" where
  "sub_record now t = (\<lambda>(id', record').
     if now < lastSend record' + retryInterval t then ([], [(id', record')])
     else if tryCount record' > retryCountMax t
     then ([OnError (rr_handler record') PacketErrorCodeNetworkTimeout ''request timeout''], [])
     else (if \<not> has_mode (rr_mode record') PacketModeNoRetry then [SendPacket True (retry_packet t id' record')] else [],
           [(id', record'\<lparr>tryCount := tryCount record' + 1, lastSend := now\<rparr>)]))"

definition tr_subRoutine :: "time \<Rightarrow> 'h Transferer \<Rightarrow> 'h tr_effect list \<times> 'h Transferer" where
  "tr_subRoutine now t =
     (let rs = map (sub_record now t) (requestRecords t)
      in (concat (map fst rs), t\<lparr>requestRecords := concat (map snd rs)\<rparr>))"

subsection \<open>Sending\<close>

definition tr_Relay :: "NodeID \<Rightarrow> Packet \<Rightarrow> 'h tr_effect list" where
  "tr_Relay dstNodeID packet = [RelayPacketTo dstNodeID packet]"

fun draw_id :: "32 word list \<Rightarrow> (32 word, 'h requestRecord) gomap \<Rightarrow> 32 word option" where
  "draw_id [] recs = None"
| "draw_id (id' # draws) recs = (if id' = 0 \<or> mhas recs id' then draw_id draws recs else Some id')"

definition tr_Request :: "32 word list \<Rightarrow> time \<Rightarrow> bool \<Rightarrow> NodeID \<Rightarrow> PacketMode \<Rightarrow> PacketContent \<Rightarrow> 'h \<Rightarrow> 'h Transferer \<Rightarrow>
    ('h tr_effect list \<times> 'h Transferer) outcome" where
  "tr_Request draws now held dstNodeID mode content handler t =
     (if nid_Equal (Some dstNodeID) (Some NodeNeighborhoods) \<and> \<not> has_mode mode PacketModeOneWay
      then Inl (Panic ''packet mode should be one way if destination is for next nodes'')
      else if held then Inl Blocked
      else case draw_id draws (requestRecords t) of
             None \<Rightarrow> Inl Blocked
           | Some id' \<Rightarrow>
               let t = t\<lparr>requestRecords := mput id'
                     \<lparr>rr_dstNodeID = dstNodeID, rr_id = id', rr_mode = mode, rr_content = content,
                      rr_handler = handler, tryCount = 1, lastSend = now\<rparr> (requestRecords t)\<rparr>;
                   packet = \<lparr>DstNodeID = dstNodeID, SrcNodeID = tr_localNodeID t, pk_ID = id', HopCount = 0,
                             Mode = mode, Content = content\<rparr>
               in Inr ([SendPacket False packet], t))"

definition tr_RequestOneWay :: "NodeID \<Rightarrow> PacketMode \<Rightarrow> PacketContent \<Rightarrow> 'h Transferer \<Rightarrow> 'h tr_effect list" where
  "tr_RequestOneWay dstNodeID mode content t =
     [SendPacket False \<lparr>DstNodeID = dstNodeID, SrcNodeID = tr_localNodeID t, pk_ID = 0, HopCount = 0,
                  Mode = mode OR PacketModeOneWay, Content = content\<rparr>]"

text \<open>A response is sent with the mutex held if its caller holds it.\<close>

definition response_packet :: "NodeID \<Rightarrow> Packet \<Rightarrow> PacketContent \<Rightarrow> Packet" where
  "response_packet localNodeID packetFor content =
     \<lparr>DstNodeID = SrcNodeID packetFor, SrcNodeID = localNodeID, pk_ID = pk_ID packetFor, HopCount = 0,
      Mode = PacketModeResponse OR PacketModeExplicit OR PacketModeOneWay, Content = content\<rparr>"

definition tr_Response :: "bool \<Rightarrow> Packet \<Rightarrow> PacketContent \<Rightarrow> 'h Transferer \<Rightarrow> 'h tr_effect list outcome" where
  "tr_Response held packetFor content t =
     (if has_mode (Mode packetFor) PacketModeOneWay then Inl (Panic ''one way packet should not be responded'')
      else Inr [SendPacket held (response_packet (tr_localNodeID t) packetFor content)])"

definition tr_Error :: "bool \<Rightarrow> Packet \<Rightarrow> PacketErrorCode \<Rightarrow> string \<Rightarrow> 'h Transferer \<Rightarrow> 'h tr_effect list outcome" where
  "tr_Error held packetFor code message t = tr_Response held packetFor (Content_Error code message) t"

definition tr_Cancel :: "Packet \<Rightarrow> 'h Transferer \<Rightarrow> 'h Transferer" where
  "tr_Cancel packet t = t\<lparr>requestRecords := mdel (pk_ID packet) (requestRecords t)\<rparr>"

subsection \<open>Receiving\<close>

definition tr_Receive :: "bool \<Rightarrow> Packet \<Rightarrow> 'h Transferer \<Rightarrow> ('h tr_effect list \<times> 'h Transferer) outcome" where
  "tr_Receive held packet t =
     (if held then Inl Blocked
      else if pk_ID packet \<noteq> 0 \<and> has_mode (Mode packet) PacketModeResponse then
        (case mget (requestRecords t) (pk_ID packet) of
           None \<Rightarrow> Inr ([], t)
         | Some record' \<Rightarrow>
             Inr ([case Content packet of
                     Content_Error code message \<Rightarrow> OnError (rr_handler record') code message
                   | _ \<Rightarrow> OnResponse (rr_handler record') packet],
                  t\<lparr>requestRecords := mdel (pk_ID packet) (requestRecords t)\<rparr>))
      else
        (case kind_of (Content packet) of
           None \<Rightarrow> Inl (Panic ''invalid memory address or nil pointer dereference'')
         | Some contentType \<Rightarrow>
             if contentType \<notin> set (requestHandlers t) then Inl (Panic ''the handler not found'')
             else Inr ([OnRequest contentType packet], t)))"

subsection \<open>Requests are accounted for\<close>

definition tr_inv :: "'h Transferer \<Rightarrow> bool" where
  "tr_inv t \<longleftrightarrow> gomap_wf (requestRecords t) \<and>
     (\<forall>(i, r)\<in>set (requestRecords t). i \<noteq> 0 \<and> rr_id r = i \<and> 1 \<le> tryCount r \<and> tryCount r \<le> retryCountMax t + 1)"

text \<open>The handlers waiting for an answer, and those an effect calls.\<close>

definition pending :: "'h Transferer \<Rightarrow> 'h multiset" where
  "pending t = image_mset (\<lambda>(_, r). rr_handler r) (mset (requestRecords t))"

fun called :: "'h tr_effect \<Rightarrow> 'h multiset" where
  "called (OnError h _ _) = {#h#}"
| "called (OnResponse h _) = {#h#}"
| "called _ = {#}"

definition called_in :: "'h tr_effect list \<Rightarrow> 'h multiset" where
  "called_in es = sum_list (map called es)"

lemma called_in_simps [simp]:
  "called_in [] = {#}" "called_in (e # es) = called e + called_in es" "called_in (xs @ ys) = called_in xs + called_in ys"
  by (simp_all add: called_in_def)

lemma draw_id_fresh: "draw_id draws recs = Some i \<Longrightarrow> i \<noteq> 0 \<and> \<not> mhas recs i"
  by (induction draws) (auto split: if_splits)

lemma draw_id_new: "draw_id draws recs = Some i \<Longrightarrow> i \<noteq> 0 \<and> mget recs i = None"
  by (induction draws) (auto simp: mhas_def split: if_splits)

lemma mput_fresh: "\<not> mhas m k \<Longrightarrow> mput k v m = m @ [(k, v)]"
  by (induction m) auto

lemma mset_mdel:
  "gomap_wf m \<Longrightarrow> mget m k = Some v \<Longrightarrow> mset m = add_mset (k, v) (mset (mdel k m))"
proof (induction m)
  case (Cons p m)
  obtain a b where p: "p = (a, b)" by fastforce
  show ?case
  proof (cases "a = k")
    case True
    with Cons.prems p have "k \<notin> set (mkeys m)" by simp
    then have "mdel k m = m" by (force simp: AList.delete_eq filter_id_conv mkeys_def)
    with True Cons.prems p show ?thesis by (simp add: AList.delete_eq)
  next
    case False
    with Cons p show ?thesis by (simp add: AList.delete_eq)
  qed
qed simp

lemma sub_record_account:
  "called_in (fst (sub_record now t (i, r))) + image_mset (\<lambda>(_, r). rr_handler r) (mset (snd (sub_record now t (i, r))))
     = {#rr_handler r#}"
  by (simp add: sub_record_def)

lemma subRoutine_account: "called_in (fst (tr_subRoutine now t)) + pending (snd (tr_subRoutine now t)) = pending t"
proof -
  have "called_in (concat (map fst (map (sub_record now t) rs))) +
      image_mset (\<lambda>(_, r). rr_handler r) (mset (concat (map snd (map (sub_record now t) rs))))
      = image_mset (\<lambda>(_, r). rr_handler r) (mset rs)" for rs
  proof (induction rs)
    case (Cons p rs)
    obtain i r where p: "p = (i, r)" by fastforce
    let ?h = "image_mset (\<lambda>(_, r). rr_handler r)" and ?s = "sub_record now t (i, r)"
    let ?c = "called_in (concat (map fst (map (sub_record now t) rs)))"
      and ?p = "?h (mset (concat (map snd (map (sub_record now t) rs))))"
    have "called_in (concat (map fst (map (sub_record now t) (p # rs)))) + ?h (mset (concat (map snd (map (sub_record now t) (p # rs)))))
      = (called_in (fst ?s) + ?c) + (?h (mset (snd ?s)) + ?p)" by (simp add: p)
    also have "\<dots> = (called_in (fst ?s) + ?h (mset (snd ?s))) + (?c + ?p)" by (simp only: ac_simps)
    also have "\<dots> = ?h (mset (p # rs))" unfolding sub_record_account Cons.IH by (simp add: p)
    finally show ?case .
  qed simp
  then show ?thesis by (simp add: tr_subRoutine_def pending_def Let_def)
qed

lemma Request_account:
  assumes "tr_Request draws now held d m c h t = Inr (es, t')"
  shows "called_in es = {#} \<and> pending t' = add_mset h (pending t)"
  using assms
  by (auto simp: tr_Request_def Let_def pending_def mput_fresh split: if_splits option.splits dest!: draw_id_fresh)

lemma Receive_account:
  assumes "tr_inv t" "tr_Receive held p t = Inr (es, t')"
  shows "called_in es + pending t' = pending t"
proof (cases "pk_ID p \<noteq> 0 \<and> has_mode (Mode p) PacketModeResponse")
  case False
  with assms(2) show ?thesis by (auto simp: tr_Receive_def split: if_splits option.splits)
next
  case True
  show ?thesis
  proof (cases "mget (requestRecords t) (pk_ID p)")
    case None
    with True assms(2) show ?thesis by (auto simp: tr_Receive_def split: if_splits)
  next
    case (Some r)
    have "pending t = add_mset (rr_handler r) (pending (t\<lparr>requestRecords := mdel (pk_ID p) (requestRecords t)\<rparr>))"
      using mset_mdel [OF _ Some] assms(1) by (simp add: pending_def tr_inv_def)
    with True Some assms(2) show ?thesis
      by (auto simp: tr_Receive_def split: if_splits PacketContent.splits)
  qed
qed

lemma tr_inv_new: "tr_inv (NewTransferer m d)"
  by (simp add: tr_inv_def NewTransferer_def)

lemma tr_inv_Start: "tr_inv (tr_Start l t) = tr_inv t" "pending (tr_Start l t) = pending t"
  by (simp_all add: tr_inv_def tr_Start_def pending_def)

lemma tr_inv_SetRequestHandler:
  "SetRequestHandler k t = Inr t' \<Longrightarrow> tr_inv t' = tr_inv t \<and> pending t' = pending t"
  by (auto simp: SetRequestHandler_def tr_inv_def pending_def split: if_splits)

lemma sub_record_keys:
  "map fst (snd (sub_record now t (i, r))) = [] \<or> map fst (snd (sub_record now t (i, r))) = [i]"
  by (simp add: sub_record_def)

lemma tr_inv_subRoutine:
  assumes "tr_inv t"
  shows "tr_inv (snd (tr_subRoutine now t))"
proof -
  have keys: "distinct (mkeys (concat (map snd (map (sub_record now t) rs)))) \<and>
      set (mkeys (concat (map snd (map (sub_record now t) rs)))) \<subseteq> set (mkeys rs)" if "gomap_wf rs" for rs
    using that
  proof (induction rs)
    case (Cons p rs)
    obtain i r where p: "p = (i, r)" by fastforce
    with Cons have ih: "distinct (mkeys (concat (map snd (map (sub_record now t) rs))))"
      "set (mkeys (concat (map snd (map (sub_record now t) rs)))) \<subseteq> set (mkeys rs)" "i \<notin> set (mkeys rs)" by auto
    have "mkeys (concat (map snd (map (sub_record now t) (p # rs)))) =
        map fst (snd (sub_record now t (i, r))) @ mkeys (concat (map snd (map (sub_record now t) rs)))"
      by (simp add: p mkeys_def)
    with ih sub_record_keys [of now t i r] show ?case by (auto simp: p)
  qed simp
  have "i \<noteq> 0 \<and> rr_id r' = i \<and> 1 \<le> tryCount r' \<and> tryCount r' \<le> retryCountMax t + 1"
    if "(i, r') \<in> set (snd (sub_record now t (j, r)))" "(j, r) \<in> set (requestRecords t)" for i r' j r
    using that assms by (auto simp: sub_record_def tr_inv_def split: if_splits)
  then show ?thesis
    using keys [of "requestRecords t"] assms
    by (auto simp: tr_inv_def tr_subRoutine_def Let_def gomap_wf_def mkeys_def)
qed

lemma tr_inv_Request:
  assumes "tr_inv t" "tr_Request draws now held d m c h t = Inr (es, t')"
  shows "tr_inv t'"
proof -
  obtain i where i: "draw_id draws (requestRecords t) = Some i" and t': "requestRecords t' = mput i
       \<lparr>rr_dstNodeID = d, rr_id = i, rr_mode = m, rr_content = c, rr_handler = h, tryCount = 1, lastSend = now\<rparr> (requestRecords t)"
    "retryCountMax t' = retryCountMax t"
    using assms(2) by (auto simp: tr_Request_def Let_def split: if_splits option.splits)
  from draw_id_fresh [OF i] assms(1) show ?thesis
    unfolding tr_inv_def t' by (auto simp: mput_fresh gomap_wf_def mkeys_def mhas_iff)
qed

lemma tr_inv_mdel: "tr_inv t \<Longrightarrow> tr_inv (t\<lparr>requestRecords := mdel i (requestRecords t)\<rparr>)"
  by (auto simp: tr_inv_def AList.delete_eq)

lemma tr_inv_Receive: "tr_inv t \<Longrightarrow> tr_Receive held p t = Inr (es, t') \<Longrightarrow> tr_inv t'"
  by (auto simp: tr_Receive_def tr_inv_mdel split: if_splits option.splits)

text \<open>
  Any run of the transferer, with the handlers requested, called and cancelled so far.
\<close>

inductive tr_run :: "'h Transferer \<Rightarrow> 'h multiset \<Rightarrow> 'h multiset \<Rightarrow> 'h multiset \<Rightarrow> bool" where
  start: "tr_run (tr_Start l (NewTransferer m d)) {#} {#} {#}"
| set_handler: "tr_run t R A C \<Longrightarrow> SetRequestHandler k t = Inr t' \<Longrightarrow> tr_run t' R A C"
| tick: "tr_run t R A C \<Longrightarrow> tr_subRoutine now t = (es, t') \<Longrightarrow> tr_run t' R (A + called_in es) C"
| request: "tr_run t R A C \<Longrightarrow> tr_Request draws now False d m c h t = Inr (es, t') \<Longrightarrow> tr_run t' (add_mset h R) (A + called_in es) C"
| receive: "tr_run t R A C \<Longrightarrow> tr_Receive False p t = Inr (es, t') \<Longrightarrow> tr_run t' R (A + called_in es) C"
| cancel: "tr_run t R A C \<Longrightarrow>
    tr_run (tr_Cancel p t) R A (C + (case mget (requestRecords t) (pk_ID p) of None \<Rightarrow> {#} | Some r \<Rightarrow> {#rr_handler r#}))"

inductive_cases tr_runE: "tr_run t R A C"

lemma tr_run_account: "tr_run t R A C \<Longrightarrow> tr_inv t \<and> A + C + pending t = R"
proof (induction rule: tr_run.induct)
  case (start l m d)
  then show ?case by (simp add: tr_inv_Start tr_inv_new) (simp add: pending_def NewTransferer_def)
next
  case (set_handler t R A C k t')
  then show ?case using tr_inv_SetRequestHandler by metis
next
  case (tick t R A C now es t')
  have "tr_inv t'" using tr_inv_subRoutine [of t now] tick by simp
  moreover have "called_in es + pending t' = pending t" using subRoutine_account [of now t] tick.hyps(2) by simp
  ultimately show ?case using tick.IH by (auto simp: ac_simps)
next
  case (request t R A C draws now d m c h es t')
  then show ?case using Request_account [OF request.hyps(2)] tr_inv_Request [OF _ request.hyps(2)] by (auto simp: ac_simps)
next
  case (receive t R A C p es t')
  have "tr_inv t'" "called_in es + pending t' = pending t"
    using receive tr_inv_Receive Receive_account by blast+
  then show ?case using receive.IH by (auto simp: ac_simps)
next
  case (cancel t R A C p)
  have inv: "tr_inv t" using cancel.IH by simp
  then have "tr_inv (tr_Cancel p t)" by (simp add: tr_Cancel_def tr_inv_mdel)
  moreover have "pending t = (case mget (requestRecords t) (pk_ID p) of None \<Rightarrow> {#} | Some r \<Rightarrow> {#rr_handler r#}) + pending (tr_Cancel p t)"
  proof (cases "mget (requestRecords t) (pk_ID p)")
    case None
    then have "pk_ID p \<notin> set (mkeys (requestRecords t))" by (simp add: set_mkeys domIff)
    then have "mdel (pk_ID p) (requestRecords t) = requestRecords t" by (force simp: AList.delete_eq filter_id_conv mkeys_def)
    with None show ?thesis by (simp add: tr_Cancel_def)
  next
    case (Some r)
    with mset_mdel [OF _ Some] inv show ?thesis by (simp add: tr_Cancel_def pending_def tr_inv_def)
  qed
  ultimately show ?case using cancel.IH by (simp add: ac_simps)
qed

subsection \<open>Timeouts\<close>




subsection \<open>Properties\<close>

text \<open>
  C7. Every request is accounted for in every run: the handlers called, those cancelled and
  those still waiting make up exactly the handlers requested; in particular no handler is
  called more often than it was handed to a request. A waiting request has a nonzero
  identifier of its own and has been sent at most one time more than the retry limit.
\<close>

theorem requests_accounted:
  assumes "tr_run t R A C"
  shows "A + C + pending t = R \<and> count A h \<le> count R h \<and>
    (\<forall>i r. (i, r) \<in> set (requestRecords t) \<longrightarrow> i \<noteq> 0 \<and> tryCount r \<le> retryCountMax t + 1)"
proof -
  from tr_run_account [OF assms] have inv: "tr_inv t" and R: "A + C + pending t = R" by auto
  have "count A h \<le> count R h" using R by auto
  with inv R show ?thesis by (auto simp: tr_inv_def)
qed


text \<open>
  C22. Request and response: what the peer answers to a request, by \<open>Response\<close> or \<open>Error\<close>,
  reaches the handler of that request, once, and ends it; any further answer is ignored.
\<close>

theorem request_response:
  assumes "tr_Request draws now False dst mode content h t = Inr ([SendPacket False p], t')"
    and "tr_Response False p answer peer = Inr [SendPacket False q]"
  shows "\<exists>t''. tr_Receive False q t' =
       Inr ([case answer of Content_Error code message \<Rightarrow> OnError h code message | _ \<Rightarrow> OnResponse h q], t'') \<and>
     \<not> mhas (requestRecords t'') (pk_ID p) \<and> tr_Receive False q t'' = Inr ([], t'')"
proof -
  obtain i where i: "draw_id draws (requestRecords t) = Some i"
    using assms(1) by (auto simp: tr_Request_def split: if_splits option.splits)
  have p: "pk_ID p = i" "mget (requestRecords t') i = Some \<lparr>rr_dstNodeID = dst, rr_id = i, rr_mode = mode,
      rr_content = content, rr_handler = h, tryCount = 1, lastSend = now\<rparr>"
    using assms(1) i by (auto simp: tr_Request_def Let_def split: if_splits)
  have q: "pk_ID q = i" "has_mode (Mode q) PacketModeResponse" "Content q = answer"
    using assms(2) p(1) by (auto simp: tr_Response_def response_packet_def split: if_splits)
  show ?thesis
    using draw_id_fresh [OF i] p q by (auto simp: tr_Receive_def split: PacketContent.splits)
qed

subsection \<open>A concrete request\<close>

definition tr_example :: "nat Transferer" where
  "tr_example = tr_Start (NodeID typeNormal 0 1) (NewTransferer 2 10)"

definition tr_example_request :: "nat tr_effect list \<times> nat Transferer" where
  "tr_example_request = (
     let i = 7; d = NodeID typeNormal 0 2;
         p = \<lparr>DstNodeID = d, SrcNodeID = NodeID typeNormal 0 1, pk_ID = i, HopCount = 0, Mode = PacketModeNone,
              Content = Content_Messaging ''x'' []\<rparr>
     in ([SendPacket False p], tr_example\<lparr>requestRecords := [(i,
          \<lparr>rr_dstNodeID = d, rr_id = i, rr_mode = PacketModeNone, rr_content = Content_Messaging ''x'' [],
           rr_handler = 5, tryCount = 1, lastSend = 100\<rparr>)]\<rparr>))"

lemma tr_example_runs:
  "tr_Request [0, 7] 100 False (NodeID typeNormal 0 2) PacketModeNone (Content_Messaging ''x'' []) 5 tr_example
     = Inr tr_example_request"
  by (simp add: tr_Request_def tr_example_def tr_example_request_def tr_Start_def NewTransferer_def Let_def
      NodeNeighborhoods_def typeNormal_def typeNeighborhoods_def)

lemma tr_example_pair:
  "tr_example_request = ([SendPacket False (case hd (fst tr_example_request) of SendPacket _ p \<Rightarrow> p)], snd tr_example_request)"
  by (simp add: tr_example_request_def Let_def)

theorem requests_accounted_witness:
  "{#} + {#} + pending (snd tr_example_request) = {#5::nat#} \<and> count {#} (5::nat) \<le> count {#5::nat#} 5 \<and>
   list_all (\<lambda>(i, r). i \<noteq> 0 \<and> tryCount r \<le> retryCountMax (snd tr_example_request) + 1)
     (requestRecords (snd tr_example_request))"
proof -
  have st: "tr_run tr_example {#} {#} {#}" unfolding tr_example_def by (rule tr_run.start)
  have "tr_Request [0, 7] 100 False (NodeID typeNormal 0 2) PacketModeNone (Content_Messaging ''x'' []) 5 tr_example
     = Inr (fst tr_example_request, snd tr_example_request)" using tr_example_runs by simp
  from tr_run.request [OF st this] have "tr_run (snd tr_example_request) {#5#} {#} {#}"
    by (simp add: tr_example_request_def Let_def)
  from requests_accounted [OF this, of 5] show ?thesis unfolding list_all_iff by blast
qed


definition tr_example_packet :: Packet where
  "tr_example_packet = (case hd (fst tr_example_request) of SendPacket _ p \<Rightarrow> p)"

theorem request_response_witness:
  "\<exists>t''. tr_Receive False (response_packet (NodeID typeNormal 0 2) tr_example_packet (Content_MessagingResponse [1])) (snd tr_example_request) =
       Inr ([case Content_MessagingResponse [1] of Content_Error code message \<Rightarrow> OnError 5 code message
             | _ \<Rightarrow> OnResponse 5 (response_packet (NodeID typeNormal 0 2) tr_example_packet (Content_MessagingResponse [1]))], t'') \<and>
     \<not> mhas (requestRecords t'') (pk_ID tr_example_packet) \<and>
     tr_Receive False (response_packet (NodeID typeNormal 0 2) tr_example_packet (Content_MessagingResponse [1])) t'' = Inr ([], t'')"
proof (rule request_response)
  show "tr_Request [0, 7] 100 False (NodeID typeNormal 0 2) PacketModeNone (Content_Messaging ''x'' []) 5 tr_example
     = Inr ([SendPacket False tr_example_packet], snd tr_example_request)"
    using tr_example_runs tr_example_pair by (simp add: tr_example_packet_def)
  show "tr_Response False tr_example_packet (Content_MessagingResponse [1]) (tr_Start (NodeID typeNormal 0 2) tr_example)
     = Inr [SendPacket False (response_packet (NodeID typeNormal 0 2) tr_example_packet (Content_MessagingResponse [1]))]"
    by (simp add: tr_Response_def tr_example_packet_def tr_example_request_def tr_Start_def Let_def)
qed

end
