(* ===== verification/Node_Link.thy ===== *)
theory Node_Link
  imports Packets
begin

text \<open>
  A link to one node (\<open>src/node/internal/network/node_accessor/node_link.go\<close>): the queue of
  packets, their fragmentation into frames of bounded size, the reassembly of received
  frames, and the states of the link.

  The marshalling library is the record \<open>Codec\<close>, an argument; so is \<open>wsend\<close>, which tells
  whether the WebRTC channel takes a frame (given the frames it took in the same call).
  Effects are listed in the order of the code: frames handed to the channel, calls of the
  handler, the disconnection of the channel. A ticker is its period; \<open>None\<close> is a stopped
  one.
\<close>

datatype nodeLinkState = nodeLinkStateConnecting | nodeLinkStateOnline | nodeLinkStateDisabled

record Codec =
  enc_content :: "PacketContent \<Rightarrow> bytes result"
  dec_content :: "bytes \<Rightarrow> PacketContent result"
  enc_packets :: "NodePackets \<Rightarrow> bytes result"
  dec_packets :: "bytes \<Rightarrow> NodePackets result"

text \<open>What the documentation of the library promises: unmarshalling gives back what was marshalled.\<close>

definition codec_ok :: "Codec \<Rightarrow> bool" where
  "codec_ok cd \<longleftrightarrow> (\<forall>c d. enc_content cd c = Inr d \<longrightarrow> dec_content cd d = Inr c) \<and>
     (\<forall>ps d. enc_packets cd ps = Inr d \<longrightarrow> dec_packets cd d = Inr ps)"

record NodeLinkConfig =
  SessionTimeout :: duration
  KeepaliveInterval :: duration
  BufferInterval :: duration
  PacketBaseBytes :: nat

record waiting =
  wt_packet :: Packet
  wt_content :: bytes

record nodeLink =
  nl_config :: NodeLinkConfig
  nl_state :: nodeLinkState
  nl_cancelled :: bool
  keepaliveTimestamp :: time
  nl_queue :: "waiting list"
  nl_keepaliveTicker :: "duration option"
  nl_bufferTicker :: "duration option"
  stackID :: "32 word"
  nl_stack :: "NodePacket list option"

datatype nl_effect =
    Wire NodePackets bytes
  | ChangeState nodeLinkState
  | UpdateICE string
  | RecvPacket Packet
  | WebrtcDisconnect

definition newNodeLink :: "NodeLinkConfig \<Rightarrow> time \<Rightarrow> nodeLink" where
  "newNodeLink config now =
     \<lparr>nl_config = config, nl_state = nodeLinkStateConnecting, nl_cancelled = False, keepaliveTimestamp = now,
      nl_queue = [],
      nl_keepaliveTicker = (if KeepaliveInterval config > 0 then Some (KeepaliveInterval config) else None),
      nl_bufferTicker = (if BufferInterval config = 0 then None else Some 1000000000),
      stackID = 0, nl_stack = None\<rparr>"

subsection \<open>Disconnecting, sending a frame\<close>

definition nl_disconnect :: "nodeLink \<Rightarrow> nl_effect list \<times> nodeLink" where
  "nl_disconnect n =
     (let changed = (nl_state n \<noteq> nodeLinkStateDisabled)
      in (WebrtcDisconnect # (if changed then [ChangeState nodeLinkStateDisabled] else []),
          n\<lparr>nl_state := nodeLinkStateDisabled, nl_bufferTicker := None, nl_keepaliveTicker := None,
            nl_cancelled := True\<rparr>))"

definition nl_send :: "Codec \<Rightarrow> bool \<Rightarrow> NodePackets \<Rightarrow> nodeLink \<Rightarrow> (bool \<times> nl_effect list \<times> nodeLink) outcome" where
  "nl_send cd ok packet n =
     (case enc_packets cd packet of
        Inl err \<Rightarrow> Inl (Panic err)
      | Inr data \<Rightarrow>
          if ok then Inr (True, [Wire packet data], n)
          else (case nl_disconnect n of (es, n) \<Rightarrow> Inr (False, es, n)))"

text \<open>
  The session description calls, given what the WebRTC library answers: on an error the
  channel is disconnected, the state of the link is left to the event that follows.
\<close>

definition nl_getLocalSDP :: "string result \<Rightarrow> string result \<times> nl_effect list" where
  "nl_getLocalSDP answer =
     (case answer of
        Inl err \<Rightarrow> (Inl (''failed to get local SDP '' @ err), [WebrtcDisconnect])
      | Inr sdp \<Rightarrow> (Inr sdp, []))"

definition nl_setRemoteSDP :: "unit result \<Rightarrow> unit result \<times> nl_effect list" where
  "nl_setRemoteSDP answer =
     (case answer of
        Inl err \<Rightarrow> (Inl (''failed to set remote SDP '' @ err), [WebrtcDisconnect])
      | Inr _ \<Rightarrow> (Inr (), []))"

definition nl_updateICE :: "unit result \<Rightarrow> unit result \<times> nl_effect list" where
  "nl_updateICE answer =
     (case answer of
        Inl err \<Rightarrow> (Inl (''failed to update ICE '' @ err), [WebrtcDisconnect])
      | Inr _ \<Rightarrow> (Inr (), []))"

subsection \<open>Fragmentation\<close>

text \<open>The frames the channel has taken.\<close>

definition wires :: "nl_effect list \<Rightarrow> NodePackets list" where
  "wires es = [q. Wire q _ \<leftarrow> es]"

record flush_state =
  fs_p :: NodePackets
  fs_contentSize :: nat
  fs_effects :: "nl_effect list"
  fs_link :: nodeLink
  fs_failed :: bool

definition packet_head :: "Packet \<Rightarrow> NodePacketHead outcome" where
  "packet_head packet =
     obind (nid_Proto (DstNodeID packet)) (\<lambda>dst.
     obind (nid_Proto (SrcNodeID packet)) (\<lambda>src.
       Inr \<lparr>hd_DstNodeId = Some dst, hd_SrcNodeId = Some src, hd_HopCount = HopCount packet,
            hd_Mode = ucast (Mode packet)\<rparr>))"

definition slice :: "nat \<Rightarrow> nat \<Rightarrow> 'a list \<Rightarrow> 'a list" where
  "slice from len xs = take len (drop from xs)"

text \<open>The body of the loop over the fragments; \<open>send\<close> is what has been cut off so far.\<close>

definition flush_fragment :: "Codec \<Rightarrow> (NodePackets list \<Rightarrow> bool) \<Rightarrow> nat \<Rightarrow> waiting \<Rightarrow> nat \<Rightarrow> nat \<Rightarrow> flush_state \<Rightarrow>
    (nat \<times> flush_state) outcome" where
  "flush_fragment cd wsend base w i send s =
     (let size0 = length (wt_content w) - send;
          sz = (if size0 + fs_contentSize s > base then base - fs_contentSize s else size0)
      in if i = 0 then
           obind (packet_head (wt_packet w)) (\<lambda>h.
             Inr (send, s\<lparr>fs_p := fs_p s @ [\<lparr>np_Head = Some h, np_Id = pk_ID (wt_packet w), np_Index = of_nat i,
                                              np_Content = slice send sz (wt_content w)\<rparr>],
                          fs_contentSize := fs_contentSize s + sz\<rparr>))
         else
           let p = fs_p s @ [\<lparr>np_Head = None, np_Id = pk_ID (wt_packet w), np_Index = of_nat i,
                              np_Content = slice send sz (wt_content w)\<rparr>];
               sent = wires (fs_effects s)
           in obind (nl_send cd (wsend (sent @ [p])) p (fs_link s)) (\<lambda>(ok, es, n).
                if \<not> ok then Inr (send + sz, s\<lparr>fs_p := p, fs_effects := fs_effects s @ es, fs_link := n, fs_failed := True\<rparr>)
                else Inr (send + sz, s\<lparr>fs_p := [], fs_contentSize := 0, fs_effects := fs_effects s @ es, fs_link := n\<rparr>)))"

fun flush_fragments :: "Codec \<Rightarrow> (NodePackets list \<Rightarrow> bool) \<Rightarrow> nat \<Rightarrow> waiting \<Rightarrow> nat \<Rightarrow> nat \<Rightarrow> flush_state \<Rightarrow> flush_state outcome" where
  "flush_fragments cd wsend base w 0 send s = Inr s"
| "flush_fragments cd wsend base w (Suc i) send s =
     obind (flush_fragment cd wsend base w i send s) (\<lambda>(send, s).
       if fs_failed s then Inr s else flush_fragments cd wsend base w i send s)"

definition flush_waiting :: "Codec \<Rightarrow> (NodePackets list \<Rightarrow> bool) \<Rightarrow> nat \<Rightarrow> waiting \<Rightarrow> flush_state \<Rightarrow> flush_state outcome" where
  "flush_waiting cd wsend base w s =
     (if fs_failed s then Inr s
      else if fs_contentSize s + length (wt_content w) > base then
        (if base = 0 then Inl (Panic ''integer divide by zero'')
         else let total = length (wt_content w) + fs_contentSize s;
                  count = total div base + (if total mod base \<noteq> 0 then 1 else 0)
              in flush_fragments cd wsend base w count 0 s)
      else
        obind (packet_head (wt_packet w)) (\<lambda>h.
          Inr (s\<lparr>fs_p := fs_p s @ [\<lparr>np_Head = Some h, np_Id = pk_ID (wt_packet w), np_Index = 0,
                                     np_Content = wt_content w\<rparr>],
                 fs_contentSize := fs_contentSize s + length (wt_content w)\<rparr>)))"

definition nl_flush :: "Codec \<Rightarrow> (NodePackets list \<Rightarrow> bool) \<Rightarrow> nodeLink \<Rightarrow> (nl_effect list \<times> nodeLink) outcome" where
  "nl_flush cd wsend n =
     (case nl_state n of
        nodeLinkStateConnecting \<Rightarrow> Inr ([], n)
      | nodeLinkStateDisabled \<Rightarrow> Inr ([], n\<lparr>nl_queue := []\<rparr>)
      | nodeLinkStateOnline \<Rightarrow>
          let q = nl_queue n;
              s = \<lparr>fs_p = [], fs_contentSize = 0, fs_effects = [], fs_link = n\<lparr>nl_queue := []\<rparr>, fs_failed = False\<rparr>
          in obind (ofold (flush_waiting cd wsend (PacketBaseBytes (nl_config n))) q s) (\<lambda>s.
               let reset = (\<lambda>n. let n = (if KeepaliveInterval (nl_config n) \<noteq> 0
                                         then n\<lparr>nl_keepaliveTicker := Some (KeepaliveInterval (nl_config n))\<rparr> else n)
                                in if BufferInterval (nl_config n) > 0 then n\<lparr>nl_bufferTicker := Some 1000000000\<rparr> else n)
               in if fs_failed s then Inr (fs_effects s, fs_link s)
                  else if length (fs_p s) \<noteq> 0 then
                    obind (nl_send cd (wsend (wires (fs_effects s) @ [fs_p s])) (fs_p s) (fs_link s)) (\<lambda>(ok, es, n).
                      Inr (fs_effects s @ es, if ok then reset n else n))
                  else Inr (fs_effects s, reset (fs_link s))))"

subsection \<open>Queueing\<close>

definition nl_sendPacket :: "Codec \<Rightarrow> (NodePackets list \<Rightarrow> bool) \<Rightarrow> Packet \<Rightarrow> nodeLink \<Rightarrow>
    (unit result \<times> nl_effect list \<times> nodeLink) outcome" where
  "nl_sendPacket cd wsend packet n =
     (case enc_content cd (Content packet) of
        Inl err \<Rightarrow> Inr (Inl (''failed to marshal packet content '' @ err), [], n)
      | Inr content \<Rightarrow>
          let n = n\<lparr>nl_queue := nl_queue n @ [\<lparr>wt_packet = packet, wt_content = content\<rparr>]\<rparr>;
              done' = (\<lambda>(es, n). Inr (Inr (), es, n))
          in if BufferInterval (nl_config n) = 0 then obind (nl_flush cd wsend n) done'
             else if sum_list (map (\<lambda>w. length (wt_content w)) (nl_queue n)) > PacketBaseBytes (nl_config n)
             then obind (nl_flush cd wsend n) done'
             else if length (nl_queue n) = 1
             then Inr (Inr (), [], n\<lparr>nl_bufferTicker := Some (BufferInterval (nl_config n))\<rparr>)
             else Inr (Inr (), [], n))"

subsection \<open>The routine of the link\<close>

datatype nl_event = CtxDoneEvent | KeepaliveTick | BufferTick | CheckTick

definition nl_sendKeepalive :: "Codec \<Rightarrow> bool \<Rightarrow> nodeLink \<Rightarrow> (nl_effect list \<times> nodeLink) outcome" where
  "nl_sendKeepalive cd ok n =
     (if nl_state n \<noteq> nodeLinkStateOnline then Inr ([], n)
      else obind (nl_send cd ok [] n) (\<lambda>(ok, es, n).
        Inr (es, if ok then n\<lparr>nl_keepaliveTicker := Some (KeepaliveInterval (nl_config n))\<rparr> else n)))"

text \<open>
  Entering the routine: a ticker with a period that is not positive panics. One turn of its
  loop: the event, then the check of the session timeout; the flag says whether it goes on.
\<close>

definition nl_routine_start :: "nodeLink \<Rightarrow> duration outcome" where
  "nl_routine_start n =
     (let half = KeepaliveInterval (nl_config n) div 2;
          interval = (if half > 1000000000 then 1000000000 else half)
      in if interval \<le> 0 then Inl (Panic ''non-positive interval for NewTicker'') else Inr interval)"

definition nl_routine_turn :: "Codec \<Rightarrow> (NodePackets list \<Rightarrow> bool) \<Rightarrow> time \<Rightarrow> nl_event \<Rightarrow> nodeLink \<Rightarrow>
    (bool \<times> nl_effect list \<times> nodeLink) outcome" where
  "nl_routine_turn cd wsend now ev n =
     (case ev of
        CtxDoneEvent \<Rightarrow> (case nl_disconnect n of (es, n) \<Rightarrow> Inr (False, es, n))
      | _ \<Rightarrow>
          obind (case ev of
                   KeepaliveTick \<Rightarrow> if length (nl_queue n) \<noteq> 0 then nl_flush cd wsend n
                                    else nl_sendKeepalive cd (wsend [[]]) n
                 | BufferTick \<Rightarrow> nl_flush cd wsend n
                 | _ \<Rightarrow> Inr ([], n)) (\<lambda>(es, n).
            if now > keepaliveTimestamp n + SessionTimeout (nl_config n)
            then (case nl_disconnect n of (es', n) \<Rightarrow> Inr (True, es @ es', n))
            else Inr (True, es, n)))"

subsection \<open>Events of the channel\<close>

definition nl_webrtcRaiseError :: "nodeLink \<Rightarrow> nl_effect list \<times> nodeLink" where
  "nl_webrtcRaiseError n = nl_disconnect n"

definition nl_webrtcChangeLinkState :: "Codec \<Rightarrow> (NodePackets list \<Rightarrow> bool) \<Rightarrow> bool \<Rightarrow> bool \<Rightarrow> nodeLink \<Rightarrow>
    (nl_effect list \<times> nodeLink) outcome" where
  "nl_webrtcChangeLinkState cd wsend active online n =
     (let prevState = nl_state n;
          st = (if active then if online then nodeLinkStateOnline else nodeLinkStateConnecting
                else nodeLinkStateDisabled);
          n = n\<lparr>nl_state := st\<rparr>
      in if prevState \<noteq> st then
           (case st of
              nodeLinkStateOnline \<Rightarrow> obind (nl_flush cd wsend n) (\<lambda>(es, n). Inr (ChangeState st # es, n))
            | nodeLinkStateDisabled \<Rightarrow> (case nl_disconnect n of (es, n) \<Rightarrow> Inr (ChangeState st # es, n))
            | nodeLinkStateConnecting \<Rightarrow> Inr ([ChangeState st], n))
         else Inr ([], n))"

definition nl_webrtcUpdateICE :: "string \<Rightarrow> nl_effect list" where
  "nl_webrtcUpdateICE ice = [UpdateICE ice]"

subsection \<open>Reassembly\<close>

fun check_fragments :: "NodePacket list \<Rightarrow> bool" where
  "check_fragments [] \<longleftrightarrow> True"
| "check_fragments (p # ps) \<longleftrightarrow>
     np_Index p = of_nat (length ps) \<and>
     \<not> (np_Index p = 0 \<and> np_Head p = None \<or> np_Index p \<noteq> 0 \<and> np_Head p \<noteq> None) \<and> check_fragments ps"

text \<open>The packet made of complete fragments, or nothing if a check fails.\<close>

definition assemble :: "Codec \<Rightarrow> NodePacket list \<Rightarrow> NodePacket \<Rightarrow> Packet option" where
  "assemble cd packets packet =
     (if \<not> check_fragments packets then None
      else case dec_content cd (concat (map np_Content packets)) of
        Inl _ \<Rightarrow> None
      | Inr content \<Rightarrow>
          (case np_Head (last packets) of
             None \<Rightarrow> None
           | Some h \<Rightarrow>
               (case (NewNodeIDFromProto (hd_DstNodeId h), NewNodeIDFromProto (hd_SrcNodeId h)) of
                  (Inr dst, Inr src) \<Rightarrow>
                    Some \<lparr>DstNodeID = dst, SrcNodeID = src, pk_ID = np_Id packet, HopCount = hd_HopCount h,
                          Mode = ucast (hd_Mode h), Content = content\<rparr>
                | _ \<Rightarrow> None)))"

fun recv_loop :: "Codec \<Rightarrow> NodePackets \<Rightarrow> nodeLink \<Rightarrow> bool \<times> nl_effect list \<times> nodeLink" where
  "recv_loop cd [] n = (True, [], n)"
| "recv_loop cd (packet # rest) n =
     (if nl_stack n \<noteq> None \<and> stackID n \<noteq> np_Id packet then (False, nl_disconnect n)
      else if np_Index packet \<noteq> 0 then
        recv_loop cd rest (case nl_stack n of
            None \<Rightarrow> n\<lparr>nl_stack := Some [packet], stackID := np_Id packet\<rparr>
          | Some st \<Rightarrow> n\<lparr>nl_stack := Some (st @ [packet])\<rparr>)
      else
        let packets = (case nl_stack n of None \<Rightarrow> [packet] | Some st \<Rightarrow> st @ [packet]);
            n = n\<lparr>nl_stack := None\<rparr>
        in case assemble cd packets packet of
             None \<Rightarrow> (False, nl_disconnect n)
           | Some q \<Rightarrow> (case recv_loop cd rest n of (ok, es, n) \<Rightarrow> (ok, RecvPacket q # es, n)))"

definition nl_webrtcRecvData :: "Codec \<Rightarrow> time \<Rightarrow> bytes \<Rightarrow> nodeLink \<Rightarrow> nl_effect list \<times> nodeLink" where
  "nl_webrtcRecvData cd now data n =
     (case dec_packets cd data of
        Inl _ \<Rightarrow> nl_disconnect n
      | Inr packets \<Rightarrow>
          (case recv_loop cd packets n of
             (ok, es, n) \<Rightarrow> (es, if ok then n\<lparr>keepaliveTimestamp := now\<rparr> else n)))"

subsection \<open>What a flush puts on the wire\<close>

lemma wires_simps [simp]:
  "wires [] = []" "wires (xs @ ys) = wires xs @ wires ys" "wires (Wire q d # es) = q # wires es"
  by (simp_all add: wires_def)

definition frame_size :: "NodePackets \<Rightarrow> nat" where
  "frame_size p = sum_list (map (\<lambda>np. length (np_Content np)) p)"

lemma frame_size_simps [simp]:
  "frame_size [] = 0" "frame_size (xs @ ys) = frame_size xs + frame_size ys" "frame_size (x # xs) = length (np_Content x) + frame_size xs"
  by (simp_all add: frame_size_def)

definition flush_inv :: "Codec \<Rightarrow> nat \<Rightarrow> flush_state \<Rightarrow> bool" where
  "flush_inv cd base s \<longleftrightarrow> \<not> fs_failed s \<and> fs_contentSize s = frame_size (fs_p s) \<and> fs_contentSize s \<le> base \<and>
     (\<forall>e\<in>set (fs_effects s). \<exists>q d. e = Wire q d \<and> enc_packets cd q = Inr d \<and> frame_size q \<le> base)"

definition packets_of :: "flush_state \<Rightarrow> NodePackets" where
  "packets_of s = concat (wires (fs_effects s)) @ fs_p s"

text \<open>The fragments of one packet: counted down to zero, the head with the last one.\<close>

fun frag_ok :: "NodePacketHead \<Rightarrow> 32 word \<Rightarrow> NodePacket list \<Rightarrow> bool" where
  "frag_ok h i [] \<longleftrightarrow> False"
| "frag_ok h i [p] \<longleftrightarrow> np_Id p = i \<and> np_Index p = 0 \<and> np_Head p = Some h"
| "frag_ok h i (p # ps) \<longleftrightarrow> np_Id p = i \<and> np_Index p = of_nat (length ps) \<and> np_Head p = None \<and> frag_ok h i ps"

lemma frag_ok_Cons: "ps \<noteq> [] \<Longrightarrow>
  frag_ok h i (p # ps) \<longleftrightarrow> np_Id p = i \<and> np_Index p = of_nat (length ps) \<and> np_Head p = None \<and> frag_ok h i ps"
  by (cases ps) simp_all

text \<open>A fragment that fills the frame: the frame is sent and a new one is begun.\<close>

lemma flush_fragment_full:
  assumes inv: "flush_inv cd base s" and sends: "\<forall>x. wsend x" and big: "length (wt_content w) - send + fs_contentSize s > base"
    and ok: "flush_fragment cd wsend base w (Suc j) send s = Inr x"
    and sz: "sz = base - fs_contentSize s"
    and np: "np = \<lparr>np_Head = None, np_Id = pk_ID (wt_packet w), np_Index = of_nat (Suc j), np_Content = take sz (drop send (wt_content w))\<rparr>"
  shows "\<exists>s1. x = (send + sz, s1) \<and> flush_inv cd base s1 \<and> fs_contentSize s1 = 0 \<and> fs_link s1 = fs_link s \<and>
    packets_of s1 = packets_of s @ [np]"
proof -
  define p where "p = fs_p s @ [np]"
  have cs: "fs_contentSize s \<le> base" using inv by (simp add: flush_inv_def)
  have le: "sz \<le> length (wt_content w) - send" using big cs by (simp add: sz)
  have code: "flush_fragment cd wsend base w (Suc j) send s =
      obind (nl_send cd (wsend (wires (fs_effects s) @ [p])) p (fs_link s)) (\<lambda>(ok, es, n).
        if \<not> ok then Inr (send + sz, s\<lparr>fs_p := p, fs_effects := fs_effects s @ es, fs_link := n, fs_failed := True\<rparr>)
        else Inr (send + sz, s\<lparr>fs_p := [], fs_contentSize := 0, fs_effects := fs_effects s @ es, fs_link := n\<rparr>))"
    unfolding flush_fragment_def Let_def slice_def p_def np sz using big by simp
  obtain d where d: "enc_packets cd p = Inr d"
  proof (cases "enc_packets cd p")
    case (Inl e)
    then have "flush_fragment cd wsend base w (Suc j) send s = Inl (Panic e)" by (simp add: code nl_send_def)
    with ok show ?thesis by simp
  qed
  define s1 where "s1 = s\<lparr>fs_p := [], fs_contentSize := 0, fs_effects := fs_effects s @ [Wire p d]\<rparr>"
  have step: "x = (send + sz, s1)" using d sends ok by (simp add: code nl_send_def s1_def)
  have "frame_size p = base" using inv le cs by (simp add: p_def np flush_inv_def sz)
  then have "flush_inv cd base s1" using inv d by (auto simp: flush_inv_def s1_def)
  with step show ?thesis by (simp add: packets_of_def s1_def p_def)
qed

lemma flush_fragments_ok:
  assumes "flush_inv cd base s" "\<forall>x. wsend x" "packet_head (wt_packet w) = Inr h" "send \<le> length (wt_content w)"
    "flush_fragments cd wsend base w (Suc j) send s = Inr s'"
    "j * base < length (wt_content w) - send + fs_contentSize s" "length (wt_content w) - send + fs_contentSize s \<le> Suc j * base"
  shows "\<exists>parts. length parts = Suc j \<and> packets_of s' = packets_of s @ parts \<and>
     concat (map np_Content parts) = drop send (wt_content w) \<and> frag_ok h (pk_ID (wt_packet w)) parts \<and>
     flush_inv cd base s' \<and> fs_link s' = fs_link s"
  using assms
proof (induction j arbitrary: send s)
  case 0
  let ?R = "length (wt_content w) - send"
  have fits: "\<not> ?R + fs_contentSize s > base" using "0.prems" by simp
  define np where "np = \<lparr>np_Head = Some h, np_Id = pk_ID (wt_packet w), np_Index = 0, np_Content = drop send (wt_content w)\<rparr>"
  have "s' = s\<lparr>fs_p := fs_p s @ [np], fs_contentSize := fs_contentSize s + ?R\<rparr>"
    using "0.prems" fits by (auto simp: flush_fragment_def Let_def slice_def np_def flush_inv_def split: if_splits)
  with fits "0.prems"(1) show ?case
    by (intro exI [of _ "[np]"]) (simp add: packets_of_def flush_inv_def np_def)
next
  case (Suc j)
  let ?R = "length (wt_content w) - send" and ?cs = "fs_contentSize s"
  have cs: "?cs \<le> base" using Suc.prems(1) by (simp add: flush_inv_def)
  have big: "?R + ?cs > base" using Suc.prems(6) by (cases j) auto
  define sz where "sz = base - ?cs"
  have sz: "sz \<le> ?R" using big cs by (simp add: sz_def)
  define np where "np = \<lparr>np_Head = None, np_Id = pk_ID (wt_packet w), np_Index = of_nat (Suc j), np_Content = take sz (drop send (wt_content w))\<rparr>"
  obtain x where x: "flush_fragment cd wsend base w (Suc j) send s = Inr x"
    using Suc.prems(5) by (cases "flush_fragment cd wsend base w (Suc j) send s") auto
  from flush_fragment_full [OF Suc.prems(1,2) big x sz_def np_def] obtain s1 where s1: "x = (send + sz, s1)"
    "flush_inv cd base s1" "fs_contentSize s1 = 0" "fs_link s1 = fs_link s" "packets_of s1 = packets_of s @ [np]" by blast
  have rest: "flush_fragments cd wsend base w (Suc j) (send + sz) s1 = Inr s'"
    using Suc.prems(5) x s1(1,2) by (simp add: flush_inv_def)
  have "length (wt_content w) - (send + sz) + fs_contentSize s1 = ?R + ?cs - base"
    using sz cs s1(3) by (simp add: sz_def)
  then have "j * base < length (wt_content w) - (send + sz) + fs_contentSize s1"
    "length (wt_content w) - (send + sz) + fs_contentSize s1 \<le> Suc j * base"
    using Suc.prems(6,7) big by simp_all
  have "send + sz \<le> length (wt_content w)" using sz Suc.prems(4) by simp
  from Suc.IH [OF s1(2) Suc.prems(2,3) this rest \<open>j * base < _\<close> \<open>_ \<le> Suc j * base\<close>] obtain parts where parts:
    "length parts = Suc j" "packets_of s' = packets_of s1 @ parts"
    "concat (map np_Content parts) = drop (send + sz) (wt_content w)" "frag_ok h (pk_ID (wt_packet w)) parts"
    "flush_inv cd base s'" "fs_link s' = fs_link s1" by auto
  have "take sz (drop send (wt_content w)) @ drop (send + sz) (wt_content w) = drop send (wt_content w)"
    by (metis add.commute append_take_drop_id drop_drop)
  moreover have "frag_ok h (pk_ID (wt_packet w)) (np # parts)"
    using parts(1,4) by (subst frag_ok_Cons) (auto simp: np_def)
  ultimately show ?case
    using parts s1(4,5) by (intro exI [of _ "np # parts"]) (simp add: np_def)
qed

lemma ceil_div:
  fixes t b :: nat
  assumes "0 < b" "0 < t"
  shows "\<exists>j. t div b + (if t mod b \<noteq> 0 then 1 else 0) = Suc j \<and> j * b < t \<and> t \<le> Suc j * b"
proof (cases "t mod b = 0")
  case True
  then obtain k where k: "t = k * b" by (metis dvd_def mod_0_imp_dvd mult.commute)
  with assms obtain j where "k = Suc j" by (cases k) auto
  with k assms show ?thesis by (intro exI [of _ j]) simp
next
  case False
  have "t = t div b * b + t mod b" "t mod b < b" using assms by simp_all
  then have "t div b * b < t" "t \<le> b + t div b * b" using False by linarith+
  with False show ?thesis by (intro exI [of _ "t div b"]) simp
qed

lemma flush_waiting_ok:
  assumes "flush_inv cd base s" "\<forall>x. wsend x" "packet_head (wt_packet w) = Inr h" "0 < base"
    "flush_waiting cd wsend base w s = Inr s'"
  shows "\<exists>parts. packets_of s' = packets_of s @ parts \<and> length parts \<le> length (wt_content w) + 2 \<and>
     concat (map np_Content parts) = wt_content w \<and> frag_ok h (pk_ID (wt_packet w)) parts \<and>
     flush_inv cd base s' \<and> fs_link s' = fs_link s"
proof (cases "fs_contentSize s + length (wt_content w) > base")
  case False
  with assms show ?thesis
    by (intro exI [of _ "[\<lparr>np_Head = Some h, np_Id = pk_ID (wt_packet w), np_Index = 0, np_Content = wt_content w\<rparr>]"])
       (auto simp: flush_waiting_def flush_inv_def packets_of_def)
next
  case True
  define t where "t = length (wt_content w) + fs_contentSize s"
  have nf: "\<not> fs_failed s" and cs: "fs_contentSize s \<le> base" using assms(1) by (auto simp: flush_inv_def)
  obtain j where j: "t div base + (if t mod base \<noteq> 0 then 1 else 0) = Suc j" "j * base < t" "t \<le> Suc j * base"
  proof -
    have "0 < t" using True unfolding t_def by linarith
    from ceil_div [OF assms(4) this] show ?thesis using that by blast
  qed
  have "flush_waiting cd wsend base w s =
      flush_fragments cd wsend base w (t div base + (if t mod base \<noteq> 0 then 1 else 0)) 0 s"
    using True nf assms(4) unfolding flush_waiting_def Let_def t_def by (simp del: flush_fragments.simps)
  then have run: "flush_fragments cd wsend base w (Suc j) 0 s = Inr s'" using assms(5) unfolding j(1) by simp
  from flush_fragments_ok [OF assms(1-3) _ run] j obtain parts where parts: "length parts = Suc j" "packets_of s' = packets_of s @ parts"
    "concat (map np_Content parts) = wt_content w" "frag_ok h (pk_ID (wt_packet w)) parts" "flush_inv cd base s'" "fs_link s' = fs_link s"
    by (auto simp: t_def)
  have "j \<le> length (wt_content w) + 1"
  proof (cases j)
    case (Suc k)
    have "k * base + base < length (wt_content w) + base" using j(2) cs by (simp add: Suc t_def)
    then have "k * base < length (wt_content w)" by simp
    moreover have "k \<le> k * base" using assms(4) by simp
    ultimately show ?thesis using Suc by linarith
  qed simp
  with parts show ?thesis by (intro exI [of _ parts]) simp
qed

subsection \<open>What the receiver makes of it\<close>

lemma recv_loop_append:
  "recv_loop cd (xs @ ys) n = (case recv_loop cd xs n of (ok, es, n1) \<Rightarrow>
     if ok then (case recv_loop cd ys n1 of (ok', es', n2) \<Rightarrow> (ok', es @ es', n2)) else (False, es, n1))"
  by (induction cd xs n rule: recv_loop.induct) (auto simp: Let_def split: prod.splits option.splits)

lemma link_update_comm:
  fixes n :: nodeLink
  shows "n\<lparr>keepaliveTimestamp := t, nl_stack := st\<rparr> = n\<lparr>nl_stack := st, keepaliveTimestamp := t\<rparr>"
    "n\<lparr>keepaliveTimestamp := t, stackID := i\<rparr> = n\<lparr>stackID := i, keepaliveTimestamp := t\<rparr>"
    "n\<lparr>keepaliveTimestamp := t, nl_stack := st, stackID := i\<rparr> = n\<lparr>nl_stack := st, stackID := i, keepaliveTimestamp := t\<rparr>"
  by simp_all

lemma recv_loop_timestamp:
  "recv_loop cd xs (n\<lparr>keepaliveTimestamp := t\<rparr>) =
     (case recv_loop cd xs n of (ok, es, n1) \<Rightarrow> (ok, es, n1\<lparr>keepaliveTimestamp := t\<rparr>))"
proof (induction cd xs n rule: recv_loop.induct)
  case (2 cd packet rest n)
  consider "nl_stack n \<noteq> None \<and> stackID n \<noteq> np_Id packet"
    | "\<not> (nl_stack n \<noteq> None \<and> stackID n \<noteq> np_Id packet)" "np_Index packet \<noteq> 0"
    | "\<not> (nl_stack n \<noteq> None \<and> stackID n \<noteq> np_Id packet)" "np_Index packet = 0" by blast
  then show ?case
  proof cases
    case 1
    then show ?thesis by (simp add: nl_disconnect_def Let_def)
  next
    case 2
    with "2.IH"(1) show ?thesis by (cases "nl_stack n") (simp_all add: link_update_comm)
  next
    case 3
    define packets where "packets = (case nl_stack n of None \<Rightarrow> [packet] | Some st \<Rightarrow> st @ [packet])"
    show ?thesis
    proof (cases "assemble cd packets packet")
      case None
      with 3 show ?thesis by (auto simp: packets_def [symmetric] nl_disconnect_def Let_def)
    next
      case (Some q)
      from "2.IH"(2) [OF 3(1) _ packets_def refl Some] 3(2)
      have ih: "recv_loop cd rest (n\<lparr>nl_stack := None, keepaliveTimestamp := t\<rparr>) =
        (case recv_loop cd rest (n\<lparr>nl_stack := None\<rparr>) of (ok, es, n1) \<Rightarrow> (ok, es, n1\<lparr>keepaliveTimestamp := t\<rparr>))" by simp
      obtain ok es n1 where r: "recv_loop cd rest (n\<lparr>nl_stack := None\<rparr>) = (ok, es, n1)" by (metis surj_pair)
      with ih have r': "recv_loop cd rest (n\<lparr>keepaliveTimestamp := t, nl_stack := None\<rparr>) = (ok, es, n1\<lparr>keepaliveTimestamp := t\<rparr>)"
        by (simp add: link_update_comm)
      from 3 Some r r' show ?thesis by (auto simp: packets_def [symmetric] Let_def)
    qed
  qed
qed simp

lemma index_nonzero: "0 < k \<Longrightarrow> k < 2 ^ 32 \<Longrightarrow> (of_nat k :: 32 word) \<noteq> 0"
  using nat_dvd_not_less [of k "2 ^ 32"] by (simp add: word_of_nat_eq_0_iff)

lemma frag_ok_check:
  "frag_ok h i parts \<Longrightarrow> length parts < 2 ^ 32 \<Longrightarrow> check_fragments parts \<and> np_Head (last parts) = Some h \<and> np_Id (last parts) = i"
proof (induction h i parts rule: frag_ok.induct)
  case (3 h i p q ps)
  have "(of_nat (length (q # ps)) :: 32 word) \<noteq> 0" using "3.prems"(2) by (intro index_nonzero) simp_all
  with 3 show ?case by (auto simp del: of_nat_Suc)
qed simp_all

text \<open>Fragments arriving while a stack is open, then fragments from the start.\<close>

lemma recv_suffix:
  assumes "frag_ok h i parts" "length parts < 2 ^ 32" "nl_stack n = Some st" "stackID n = i"
    "assemble cd (st @ parts) (last parts) = Some q"
  shows "recv_loop cd (parts @ rest) n =
    (case recv_loop cd rest (n\<lparr>nl_stack := None\<rparr>) of (ok, es, n1) \<Rightarrow> (ok, RecvPacket q # es, n1))"
  using assms
proof (induction h i parts arbitrary: n st rule: frag_ok.induct)
  case (3 h i p p2 ps)
  have idx: "np_Index p \<noteq> 0" using "3.prems"(1,2) index_nonzero [of "length (p2 # ps)"] by (simp del: of_nat_Suc)
  have "recv_loop cd ((p # p2 # ps) @ rest) n = recv_loop cd ((p2 # ps) @ rest) (n\<lparr>nl_stack := Some (st @ [p])\<rparr>)"
    using "3.prems" idx by simp
  also have "\<dots> = (case recv_loop cd rest (n\<lparr>nl_stack := None\<rparr>) of (ok, es, n1) \<Rightarrow> (ok, RecvPacket q # es, n1))"
    using "3.IH" [of "n\<lparr>nl_stack := Some (st @ [p])\<rparr>" "st @ [p]"] "3.prems" by simp
  finally show ?case .
qed (auto simp: Let_def split: prod.splits)

lemma recv_fragments:
  assumes "frag_ok h i parts" "length parts < 2 ^ 32" "nl_stack n = None" "assemble cd parts (last parts) = Some q"
  shows "\<exists>n'. nl_stack n' = None \<and> nl_state n' = nl_state n \<and> recv_loop cd (parts @ rest) n =
    (case recv_loop cd rest n' of (ok, es, n1) \<Rightarrow> (ok, RecvPacket q # es, n1))"
  using assms
proof (cases parts)
  case (Cons p ps)
  show ?thesis
  proof (cases "ps = []")
    case True
    with Cons assms show ?thesis by (intro exI [of _ "n\<lparr>nl_stack := None\<rparr>"]) (auto simp: Let_def split: prod.splits)
  next
    case False
    have fr: "np_Id p = i" "np_Index p = of_nat (length ps)" "frag_ok h i ps"
      using assms(1) Cons False by (simp_all add: frag_ok_Cons)
    have idx: "np_Index p \<noteq> 0" using fr(2) index_nonzero [of "length ps"] assms(2) False by (simp add: Cons)
    let ?n = "n\<lparr>nl_stack := Some [p], stackID := i\<rparr>"
    have "recv_loop cd (parts @ rest) n = recv_loop cd (ps @ rest) ?n"
      using assms(3) idx fr(1) by (simp add: Cons)
    also have "\<dots> = (case recv_loop cd rest (?n\<lparr>nl_stack := None\<rparr>) of (ok, es, n1) \<Rightarrow> (ok, RecvPacket q # es, n1))"
      using assms False by (intro recv_suffix [OF fr(3), where st = "[p]"]) (simp_all add: Cons)
    finally show ?thesis by (intro exI [of _ "?n\<lparr>nl_stack := None\<rparr>"]) simp
  qed
qed simp

lemma packet_head_back:
  assumes "packet_head p = Inr h"
  shows "NewNodeIDFromProto (hd_DstNodeId h) = Inr (DstNodeID p)" "NewNodeIDFromProto (hd_SrcNodeId h) = Inr (SrcNodeID p)"
    "hd_HopCount h = HopCount p" "ucast (hd_Mode h) = Mode p"
proof -
  have "ucast (ucast (m :: 16 word) :: 32 word) = m" for m
    by (rule bit_word_eqI) (simp add: bit_simps)
  with assms show "NewNodeIDFromProto (hd_DstNodeId h) = Inr (DstNodeID p)" "NewNodeIDFromProto (hd_SrcNodeId h) = Inr (SrcNodeID p)"
    "hd_HopCount h = HopCount p" "ucast (hd_Mode h) = Mode p"
    by (auto simp: packet_head_def obind_eq_Inr FromProto_Proto)
qed

lemma assemble_fragments:
  assumes "frag_ok h (pk_ID p) parts" "length parts < 2 ^ 32" "packet_head p = Inr h"
    "dec_content cd (concat (map np_Content parts)) = Inr (Content p)"
  shows "assemble cd parts (last parts) = Some p"
  using frag_ok_check [OF assms(1,2)] packet_head_back [OF assms(3)] assms(4) by (simp add: assemble_def)

text \<open>A sound queue: marshalled contents, identifiers that can be put into a head.\<close>

definition queue_ok :: "Codec \<Rightarrow> waiting list \<Rightarrow> bool" where
  "queue_ok cd ws \<longleftrightarrow> (\<forall>w\<in>set ws. enc_content cd (Content (wt_packet w)) = Inr (wt_content w) \<and>
     nid_IsNormal (DstNodeID (wt_packet w)) \<and> nid_IsNormal (SrcNodeID (wt_packet w)) \<and> length (wt_content w) < 2 ^ 31)"

lemma queue_head: "queue_ok cd ws \<Longrightarrow> w \<in> set ws \<Longrightarrow> \<exists>h. packet_head (wt_packet w) = Inr h"
  by (auto simp: queue_ok_def packet_head_def nid_Proto_normal)

lemma flush_then_recv:
  assumes "queue_ok cd ws" "codec_ok cd" "\<forall>x. wsend x" "0 < base" "flush_inv cd base s" "nl_stack n = None"
    "ofold (flush_waiting cd wsend base) ws s = Inr s'"
    "recv_loop cd (packets_of s) n = (True, es, n1)" "nl_stack n1 = None" "nl_state n1 = nl_state n"
  shows "\<exists>n2. flush_inv cd base s' \<and> fs_link s' = fs_link s \<and> nl_stack n2 = None \<and> nl_state n2 = nl_state n \<and>
    recv_loop cd (packets_of s') n = (True, es @ map (\<lambda>w. RecvPacket (wt_packet w)) ws, n2)"
  using assms
proof (induction ws arbitrary: s es n1)
  case (Cons w ws)
  obtain h where h: "packet_head (wt_packet w) = Inr h" using queue_head [OF Cons.prems(1)] by auto
  obtain s1 where s1: "flush_waiting cd wsend base w s = Inr s1" "ofold (flush_waiting cd wsend base) ws s1 = Inr s'"
    using Cons.prems(7) by (auto simp: obind_eq_Inr)
  obtain parts where parts: "packets_of s1 = packets_of s @ parts" "length parts \<le> length (wt_content w) + 2"
    "concat (map np_Content parts) = wt_content w" "frag_ok h (pk_ID (wt_packet w)) parts" "flush_inv cd base s1" "fs_link s1 = fs_link s"
    using flush_waiting_ok [OF Cons.prems(5,3) h Cons.prems(4) s1(1)] by blast
  have len: "length parts < 2 ^ 32" using parts(2) Cons.prems(1) by (auto simp: queue_ok_def)
  have "dec_content cd (wt_content w) = Inr (Content (wt_packet w))"
    using Cons.prems(1,2) by (auto simp: queue_ok_def codec_ok_def)
  then have as: "assemble cd parts (last parts) = Some (wt_packet w)"
    using assemble_fragments [OF parts(4) len h] parts(3) by simp
  obtain n2 where n2: "nl_stack n2 = None" "nl_state n2 = nl_state n1"
    "recv_loop cd (parts @ []) n1 = (case recv_loop cd [] n2 of (ok, es, n1) \<Rightarrow> (ok, RecvPacket (wt_packet w) # es, n1))"
    using recv_fragments [OF parts(4) len Cons.prems(9) as] by blast
  then have "recv_loop cd (packets_of s1) n = (True, es @ [RecvPacket (wt_packet w)], n2)"
    using Cons.prems(8) by (simp add: parts(1) recv_loop_append)
  from Cons.IH [OF _ Cons.prems(2-4) parts(5) Cons.prems(6) s1(2) this n2(1)] n2(2) Cons.prems(1,10) parts(6)
  show ?case by (auto simp: queue_ok_def)
qed auto

subsection \<open>Properties\<close>

text \<open>All frames of a link, received one after the other.\<close>

fun recv_all :: "Codec \<Rightarrow> time \<Rightarrow> bytes list \<Rightarrow> nodeLink \<Rightarrow> nl_effect list \<times> nodeLink" where
  "recv_all cd now [] n = ([], n)"
| "recv_all cd now (d # ds) n =
     (case nl_webrtcRecvData cd now d n of (es, n1) \<Rightarrow> case recv_all cd now ds n1 of (es', n2) \<Rightarrow> (es @ es', n2))"

definition frames :: "nl_effect list \<Rightarrow> bytes list" where
  "frames es = [d. Wire _ d \<leftarrow> es]"

lemma frames_simps [simp]:
  "frames [] = []" "frames (xs @ ys) = frames xs @ frames ys" "frames (Wire q d # es) = d # frames es"
  by (simp_all add: frames_def)

lemma recv_all_loop:
  assumes "codec_ok cd" "\<forall>e\<in>set es. \<exists>q d. e = Wire q d \<and> enc_packets cd q = Inr d"
    "recv_loop cd (concat (wires es)) n = (True, out, n1)"
  shows "\<exists>n2. recv_all cd now (frames es) n = (out, n2) \<and> nl_stack n2 = nl_stack n1 \<and> nl_state n2 = nl_state n1"
  using assms(2,3)
proof (induction es arbitrary: n out n1)
  case (Cons e es)
  obtain q d where e: "e = Wire q d" "enc_packets cd q = Inr d" using Cons.prems(1) by auto
  have dec: "dec_packets cd d = Inr q" using assms(1) e(2) by (auto simp: codec_ok_def)
  obtain ok o1 m1 where r1: "recv_loop cd q n = (ok, o1, m1)" by (metis surj_pair)
  obtain ok2 o2 m2 where r2: "recv_loop cd (concat (wires es)) m1 = (ok2, o2, m2)" by (metis surj_pair)
  have parts: "ok" "ok2" "out = o1 @ o2" "n1 = m2" using Cons.prems(2) r1 r2 by (auto simp: e recv_loop_append split: if_splits)
  have "recv_loop cd (concat (wires es)) (m1\<lparr>keepaliveTimestamp := now\<rparr>) = (True, o2, m2\<lparr>keepaliveTimestamp := now\<rparr>)"
    using r2 parts(2) by (simp add: recv_loop_timestamp)
  from Cons.IH [OF _ this] Cons.prems(1) obtain n2 where n2:
    "recv_all cd now (frames es) (m1\<lparr>keepaliveTimestamp := now\<rparr>) = (o2, n2)" "nl_stack n2 = nl_stack m2" "nl_state n2 = nl_state m2"
    by auto
  have "nl_webrtcRecvData cd now d n = (o1, m1\<lparr>keepaliveTimestamp := now\<rparr>)"
    using r1 parts(1) by (simp add: nl_webrtcRecvData_def dec)
  with n2 parts show ?case by (auto simp: e)
qed auto

lemma flush_online:
  assumes "nl_state n = nodeLinkStateOnline" "queue_ok cd (nl_queue n)" "\<forall>x. wsend x" "0 < PacketBaseBytes (nl_config n)"
    "nl_flush cd wsend n = Inr (es, n')"
  shows "\<exists>s'. ofold (flush_waiting cd wsend (PacketBaseBytes (nl_config n))) (nl_queue n)
      \<lparr>fs_p = [], fs_contentSize = 0, fs_effects = [], fs_link = n\<lparr>nl_queue := []\<rparr>, fs_failed = False\<rparr> = Inr s' \<and>
     flush_inv cd (PacketBaseBytes (nl_config n)) s' \<and> nl_queue n' = [] \<and> nl_state n' = nodeLinkStateOnline \<and>
     (\<exists>tail. es = fs_effects s' @ tail \<and> concat (wires tail) = fs_p s' \<and>
        (\<forall>e\<in>set tail. \<exists>q d. e = Wire q d \<and> enc_packets cd q = Inr d \<and> frame_size q \<le> PacketBaseBytes (nl_config n)))"
proof -
  let ?base = "PacketBaseBytes (nl_config n)"
  define s where "s = \<lparr>fs_p = [], fs_contentSize = 0, fs_effects = [], fs_link = n\<lparr>nl_queue := []\<rparr>, fs_failed = False\<rparr>"
  obtain s' where s': "ofold (flush_waiting cd wsend ?base) (nl_queue n) s = Inr s'"
    using assms(1,5) by (auto simp: nl_flush_def s_def [symmetric] Let_def obind_eq_Inr)
  have inv0: "flush_inv cd ?base s" by (simp add: flush_inv_def s_def)
  have "flush_inv cd ?base s' \<and> fs_link s' = n\<lparr>nl_queue := []\<rparr>"
    using _ _ s'
  proof (rule ofold_invariant [where P = "\<lambda>s. flush_inv cd ?base s \<and> fs_link s = n\<lparr>nl_queue := []\<rparr>"])
    show "flush_inv cd ?base s \<and> fs_link s = n\<lparr>nl_queue := []\<rparr>" using inv0 by (simp add: s_def)
  next
    fix w t t'
    assume w: "w \<in> set (nl_queue n)" and t: "flush_inv cd ?base t \<and> fs_link t = n\<lparr>nl_queue := []\<rparr>"
      and run: "flush_waiting cd wsend ?base w t = Inr t'"
    obtain h where "packet_head (wt_packet w) = Inr h" using queue_head [OF assms(2) w] by blast
    from flush_waiting_ok [OF conjunct1 [OF t] assms(3) this assms(4) run] t
    show "flush_inv cd ?base t' \<and> fs_link t' = n\<lparr>nl_queue := []\<rparr>" by auto
  qed
  then have inv: "flush_inv cd ?base s'" and link: "fs_link s' = n\<lparr>nl_queue := []\<rparr>" by auto
  have nf: "\<not> fs_failed s'" and sz: "frame_size (fs_p s') \<le> ?base" using inv by (auto simp: flush_inv_def)
  show ?thesis
  proof (cases "fs_p s' = []")
    case True
    then have "es = fs_effects s'" "nl_queue n' = []" "nl_state n' = nodeLinkStateOnline"
      using assms(1,5) s' nf link by (auto simp: nl_flush_def s_def [symmetric] Let_def)
    with True s' inv show ?thesis unfolding s_def by (intro exI [of _ s']) auto
  next
    case False
    then obtain d where d: "enc_packets cd (fs_p s') = Inr d" "es = fs_effects s' @ [Wire (fs_p s') d]"
      "nl_queue n' = []" "nl_state n' = nodeLinkStateOnline"
      using assms(1,3,5) s' nf link
      by (auto simp: nl_flush_def s_def [symmetric] Let_def nl_send_def split: sum.splits)
    with s' inv sz show ?thesis unfolding s_def by (intro exI [of _ s']) auto
  qed
qed

lemma flush_delivers:
  assumes "codec_ok cd" "queue_ok cd (nl_queue n)" "0 < PacketBaseBytes (nl_config n)" "nl_state n = nodeLinkStateOnline"
    and "nl_flush cd (\<lambda>_. True) n = Inr (es, n')" "nl_stack m = None"
  shows "\<exists>m'. recv_all cd now (frames es) m = (map (\<lambda>w. RecvPacket (wt_packet w)) (nl_queue n), m') \<and>
     nl_state m' = nl_state m \<and> nl_stack m' = None \<and> nl_queue n' = [] \<and>
     (\<forall>q\<in>set (wires es). frame_size q \<le> PacketBaseBytes (nl_config n))"
proof -
  let ?base = "PacketBaseBytes (nl_config n)"
  define s where "s = \<lparr>fs_p = [], fs_contentSize = 0, fs_effects = [], fs_link = n\<lparr>nl_queue := []\<rparr>, fs_failed = False\<rparr>"
  obtain s' tail where s': "ofold (flush_waiting cd (\<lambda>_. True) ?base) (nl_queue n) s = Inr s'" "flush_inv cd ?base s'"
    "nl_queue n' = []" "es = fs_effects s' @ tail" "concat (wires tail) = fs_p s'"
    "\<forall>e\<in>set tail. \<exists>q d. e = Wire q d \<and> enc_packets cd q = Inr d \<and> frame_size q \<le> ?base"
    using flush_online [OF assms(4,2) _ assms(3,5)] unfolding s_def by blast
  have "flush_inv cd ?base s" "recv_loop cd (packets_of s) m = (True, [], m)"
    by (simp_all add: flush_inv_def s_def packets_of_def)
  from flush_then_recv [OF assms(2,1) _ assms(3) this(1) assms(6) s'(1) this(2) assms(6)] obtain m1 where m1:
    "nl_stack m1 = None" "nl_state m1 = nl_state m"
    "recv_loop cd (packets_of s') m = (True, map (\<lambda>w. RecvPacket (wt_packet w)) (nl_queue n), m1)" by auto
  have all: "\<forall>e\<in>set es. \<exists>q d. e = Wire q d \<and> enc_packets cd q = Inr d \<and> frame_size q \<le> ?base"
    using s'(2,4,6) by (auto simp: flush_inv_def)
  have "recv_loop cd (concat (wires es)) m = (True, map (\<lambda>w. RecvPacket (wt_packet w)) (nl_queue n), m1)"
    using m1(3) s'(4,5) by (simp add: packets_of_def)
  from recv_all_loop [OF assms(1) _ this] all m1 obtain m' where
    "recv_all cd now (frames es) m = (map (\<lambda>w. RecvPacket (wt_packet w)) (nl_queue n), m')" "nl_stack m' = None" "nl_state m' = nl_state m"
    by (metis (no_types, lifting))
  moreover have "\<forall>q\<in>set (wires es). frame_size q \<le> ?base"
    using all by (force simp: wires_def)
  ultimately show ?thesis using s'(3) by blast
qed

text \<open>
  C4. What is sent is what arrives: when an online link flushes its queue and the channel
  takes every frame, then a receiver with no unfinished packet, given those frames in order,
  delivers exactly the queued packets, in order, with all their fields, and stays connected
  with no unfinished packet; however the packets were cut. No frame carries more than
  \<open>PacketBaseBytes\<close> bytes of content.
\<close>

theorem flush_roundtrip:
  assumes "codec_ok cd" "queue_ok cd (nl_queue n)" "0 < PacketBaseBytes (nl_config n)" "nl_state n = nodeLinkStateOnline"
    and "nl_flush cd (\<lambda>_. True) n = Inr (es, n')" "nl_stack m = None"
  shows "\<exists>m'. recv_all cd now (frames es) m = (map (\<lambda>w. RecvPacket (wt_packet w)) (nl_queue n), m') \<and>
     nl_state m' = nl_state m \<and> nl_stack m' = None \<and> nl_queue n' = [] \<and>
     (\<forall>q\<in>set (wires es). frame_size q \<le> PacketBaseBytes (nl_config n))"
  by (rule flush_delivers [OF assms])



text \<open>
  The configuration without keepalive does not work: \<open>newNodeLink\<close> and \<open>flush\<close> provide for
  a keepalive interval of zero, but the routine of the link then panics at once, on the
  ticker it creates with half of that interval.
\<close>

theorem no_keepalive_panics:
  assumes "KeepaliveInterval config = 0"
  shows "nl_keepaliveTicker (newNodeLink config now) = None \<and>
    nl_routine_start (newNodeLink config now) = Inl (Panic ''non-positive interval for NewTicker'')"
  using assms by (simp add: newNodeLink_def nl_routine_start_def Let_def)

subsection \<open>A packet in three frames\<close>

definition ex_packet :: Packet where
  "ex_packet = \<lparr>DstNodeID = NodeID typeNormal 0 2, SrcNodeID = NodeID typeNormal 0 1, pk_ID = 7, HopCount = 0,
     Mode = PacketModeNone, Content = Content_MessagingResponse []\<rparr>"

definition ex_head :: NodePacketHead where
  "ex_head = \<lparr>hd_DstNodeId = Some \<lparr>p_Id0 = 0, p_Id1 = 2\<rparr>, hd_SrcNodeId = Some \<lparr>p_Id0 = 0, p_Id1 = 1\<rparr>, hd_HopCount = 0, hd_Mode = 0\<rparr>"

definition ex_frame :: "nat \<Rightarrow> NodePackets" where
  "ex_frame k = (if k = 2 then [\<lparr>np_Head = None, np_Id = 7, np_Index = 2, np_Content = [1, 2]\<rparr>]
     else if k = 1 then [\<lparr>np_Head = None, np_Id = 7, np_Index = 1, np_Content = [3, 4]\<rparr>]
     else [\<lparr>np_Head = Some ex_head, np_Id = 7, np_Index = 0, np_Content = [5]\<rparr>])"

definition ex_codec :: Codec where
  "ex_codec = \<lparr>
     enc_content = (\<lambda>c. if c = Content_MessagingResponse [] then Inr [1, 2, 3, 4, 5] else Inl []),
     dec_content = (\<lambda>d. if d = [1, 2, 3, 4, 5] then Inr (Content_MessagingResponse []) else Inl []),
     enc_packets = (\<lambda>ps. if ps = ex_frame 2 then Inr [2] else if ps = ex_frame 1 then Inr [1]
                         else if ps = ex_frame 0 then Inr [0] else Inl []),
     dec_packets = (\<lambda>d. if d = [2] then Inr (ex_frame 2) else if d = [1] then Inr (ex_frame 1)
                        else if d = [0] then Inr (ex_frame 0) else Inl [])\<rparr>"

definition ex_config :: NodeLinkConfig where
  "ex_config = \<lparr>SessionTimeout = 10, KeepaliveInterval = 4, BufferInterval = 0, PacketBaseBytes = 2\<rparr>"

definition ex_link :: nodeLink where
  "ex_link = (newNodeLink ex_config 0)\<lparr>nl_state := nodeLinkStateOnline,
     nl_queue := [\<lparr>wt_packet = ex_packet, wt_content = [1, 2, 3, 4, 5]\<rparr>]\<rparr>"

lemma ex_codec_ok: "codec_ok ex_codec"
  by (simp add: codec_ok_def ex_codec_def)

lemma ex_queue_ok: "queue_ok ex_codec (nl_queue ex_link)"
  by (simp add: queue_ok_def ex_codec_def ex_link_def newNodeLink_def ex_packet_def)

lemma ex_head_ok: "packet_head ex_packet = Inr ex_head"
  by (simp add: packet_head_def ex_packet_def ex_head_def nid_Proto_def PacketModeNone_def)

lemma ex_frames: "ex_frame 2 \<noteq> ex_frame 1" "ex_frame 2 \<noteq> ex_frame 0" "ex_frame 1 \<noteq> ex_frame 0"
  by (simp_all add: ex_frame_def)

lemma ex_flush:
  "nl_flush ex_codec (\<lambda>_. True) ex_link = Inr ([Wire (ex_frame 2) [2], Wire (ex_frame 1) [1], Wire (ex_frame 0) [0]],
     ex_link\<lparr>nl_queue := []\<rparr>)"
proof -
  have enc: "enc_packets ex_codec (ex_frame 2) = Inr [2]" "enc_packets ex_codec (ex_frame 1) = Inr [1]"
    "enc_packets ex_codec (ex_frame 0) = Inr [0]" using ex_frames by (auto simp: ex_codec_def)
  have count: "(5::nat) div 2 + (if (5::nat) mod 2 \<noteq> 0 then 1 else 0) = Suc (Suc (Suc 0))" by simp
  define s0 where "s0 = \<lparr>fs_p = [], fs_contentSize = 0, fs_effects = [], fs_link = ex_link\<lparr>nl_queue := []\<rparr>, fs_failed = False\<rparr>"
  define w where "w = \<lparr>wt_packet = ex_packet, wt_content = [1, 2, 3, 4, 5]\<rparr>"
  have id7: "pk_ID ex_packet = 7" by (simp add: ex_packet_def)
  have f2: "flush_fragment ex_codec (\<lambda>_. True) 2 w (Suc (Suc 0)) 0 s0 = Inr (2, s0\<lparr>fs_effects := [Wire (ex_frame 2) [2]]\<rparr>)"
    using enc(1) by (simp add: flush_fragment_def s0_def w_def slice_def nl_send_def id7 ex_frame_def Let_def)
  have f1: "flush_fragment ex_codec (\<lambda>_. True) 2 w (Suc 0) 2 (s0\<lparr>fs_effects := [Wire (ex_frame 2) [2]]\<rparr>)
      = Inr (4, s0\<lparr>fs_effects := [Wire (ex_frame 2) [2], Wire (ex_frame 1) [1]]\<rparr>)"
    using enc(2) by (simp add: flush_fragment_def s0_def w_def slice_def nl_send_def id7 ex_frame_def Let_def)
  have f0: "flush_fragment ex_codec (\<lambda>_. True) 2 w 0 4 (s0\<lparr>fs_effects := [Wire (ex_frame 2) [2], Wire (ex_frame 1) [1]]\<rparr>)
      = Inr (4, s0\<lparr>fs_effects := [Wire (ex_frame 2) [2], Wire (ex_frame 1) [1]], fs_p := ex_frame 0, fs_contentSize := 1\<rparr>)"
    by (simp add: flush_fragment_def s0_def w_def slice_def ex_head_ok id7 ex_frame_def Let_def)
  have "flush_waiting ex_codec (\<lambda>_. True) 2 w s0
      = Inr (s0\<lparr>fs_effects := [Wire (ex_frame 2) [2], Wire (ex_frame 1) [1]], fs_p := ex_frame 0, fs_contentSize := 1\<rparr>)"
    unfolding flush_waiting_def using count f2 f1 f0 by (simp add: s0_def w_def)
  moreover have "nl_queue ex_link = [w]" "nl_state ex_link = nodeLinkStateOnline" "PacketBaseBytes (nl_config ex_link) = 2"
    "nl_config ex_link = ex_config" "nl_keepaliveTicker ex_link = Some 4"
    by (simp_all add: ex_link_def w_def newNodeLink_def ex_config_def)
  moreover have "ex_frame 0 \<noteq> []" by (simp add: ex_frame_def)
  ultimately show ?thesis
    by (simp add: nl_flush_def s0_def [symmetric] Let_def nl_send_def enc)
       (simp add: s0_def ex_link_def newNodeLink_def ex_config_def)
qed

theorem flush_roundtrip_witness:
  "\<exists>m'. recv_all ex_codec 5 (frames [Wire (ex_frame 2) [2], Wire (ex_frame 1) [1], Wire (ex_frame 0) [0]]) (newNodeLink ex_config 1) =
       (map (\<lambda>w. RecvPacket (wt_packet w)) (nl_queue ex_link), m') \<and>
     nl_state m' = nl_state (newNodeLink ex_config 1) \<and> nl_stack m' = None \<and> nl_queue (ex_link\<lparr>nl_queue := []\<rparr>) = [] \<and>
     (\<forall>q\<in>set (wires [Wire (ex_frame 2) [2], Wire (ex_frame 1) [1], Wire (ex_frame 0) [0]]). frame_size q \<le> PacketBaseBytes (nl_config ex_link))"
  by (rule flush_roundtrip [OF ex_codec_ok ex_queue_ok _ _ ex_flush])
     (simp_all add: ex_link_def newNodeLink_def ex_config_def)


theorem no_keepalive_panics_witness:
  "nl_keepaliveTicker (newNodeLink (ex_config\<lparr>KeepaliveInterval := 0\<rparr>) 0) = None \<and>
    nl_routine_start (newNodeLink (ex_config\<lparr>KeepaliveInterval := 0\<rparr>) 0) = Inl (Panic ''non-positive interval for NewTicker'')"
  by (rule no_keepalive_panics) simp

end
