(* ===== verification/Node_Accessor.thy ===== *)
theory Node_Accessor
  imports Node_Link
begin

text \<open>
  The links of a node to others and the signalling that makes them
  (\<open>src/node/internal/network/node_accessor/node_accessor.go\<close>).

  A link is an object: \<open>na_links\<close> is the store of the objects created so far, \<open>na_next\<close> the
  reference of the next one. So is a connecting state, which goroutines keep after the maps
  have dropped it: \<open>na_states\<close> is their store, and the reference of a state is that of the
  link created with it. What an operation asks of others is a list of effects in the
  order of the code; a goroutine it starts is an effect that names its body, one of the
  definitions \<open>na_run_\<dots>\<close> below. What the libraries answer (the label of a new data channel,
  whether WebRTC can make a link, the drawn offer identifier) is the record \<open>conn_env\<close>.
  The zero \<open>time.Time\<close> is 0.
\<close>

definition defaultConnectionTimeout :: duration where "defaultConnectionTimeout = 30000000000"
definition nextConnectionInterval :: duration where "nextConnectionInterval = 180000000000"

type_synonym linkref = nat
type_synonym stateref = linkref

record connectingState =
  cs_isPrime :: bool
  cs_ices :: "string list option"
  cs_link :: linkref
  cs_nodeID :: "NodeID option"
  cs_creationTimestamp :: time

record NodeAccessor =
  na_localNodeID :: NodeID
  na_linkConfig :: NodeLinkConfig
  na_connectionTimeout :: duration
  nextConnectionTimestamp :: time
  na_isAlone :: bool
  nodeID2link :: "(NodeID, linkref) gomap"
  link2nodeID :: "(linkref, NodeID) gomap"
  offerID2state :: "(32 word, stateref) gomap"
  link2offerID :: "(linkref, 32 word) gomap"
  na_links :: "(linkref, nodeLink) gomap"
  na_states :: "(stateref, connectingState) gomap"
  na_next :: linkref

record conn_env =
  ce_uuid :: "string result"
  ce_link :: "unit result"
  ce_draw :: "32 word"

datatype na_effect =
    OfLink linkref nl_effect
  | ChangeConnections "NodeID list"
  | SendSignalOffer NodeID Offer
  | SendSignalAnswer NodeID Answer
  | SendSignalICE "NodeID option" ICE
  | PassPacket "NodeID option" Packet
  | GoOffer linkref "32 word" OfferType NodeID
  | GoAnswer linkref "32 word" NodeID string
  | GoRemote linkref "32 word" NodeID string
  | GoICE linkref "32 word" NodeID "string list"

definition NewNodeAccessor :: "duration \<Rightarrow> NodeLinkConfig \<Rightarrow> NodeAccessor" where
  "NewNodeAccessor timeout nlc =
     \<lparr>na_localNodeID = NodeLocal, na_linkConfig = nlc,
      na_connectionTimeout = (if timeout \<noteq> 0 then timeout else defaultConnectionTimeout),
      nextConnectionTimestamp = 0, na_isAlone = True, nodeID2link = [], link2nodeID = [],
      offerID2state = [], link2offerID = [], na_links = [], na_states = [], na_next = 0\<rparr>"

definition na_SetBeAlone :: "bool \<Rightarrow> NodeAccessor \<Rightarrow> NodeAccessor" where
  "na_SetBeAlone isAlone na = na\<lparr>na_isAlone := isAlone\<rparr>"

definition link_state :: "NodeAccessor \<Rightarrow> linkref \<Rightarrow> nodeLinkState" where
  "link_state na l = (case mget (na_links na) l of Some n \<Rightarrow> nl_state n | None \<Rightarrow> nodeLinkStateDisabled)"

text \<open>The entry of an offer identifier, followed to the state it points at.\<close>

definition offer_state :: "NodeAccessor \<Rightarrow> 32 word \<Rightarrow> connectingState option" where
  "offer_state na offerID = Option.bind (mget (offerID2state na) offerID) (mget (na_states na))"

definition connecting_to :: "NodeID \<Rightarrow> NodeAccessor \<Rightarrow> bool" where
  "connecting_to nodeID na \<longleftrightarrow>
     list_ex (\<lambda>offerID. case offer_state na offerID of
                Some state \<Rightarrow> nid_Equal (cs_nodeID state) (Some nodeID) | None \<Rightarrow> False) (mkeys (offerID2state na))"

subsection \<open>Disconnecting\<close>

definition callChangeConnections :: "NodeAccessor \<Rightarrow> na_effect list" where
  "callChangeConnections na = [ChangeConnections (mkeys (nodeID2link na))]"

definition link_disconnect :: "linkref \<Rightarrow> NodeAccessor \<Rightarrow> na_effect list \<times> NodeAccessor" where
  "link_disconnect l na =
     (case mget (na_links na) l of
        None \<Rightarrow> ([], na)
      | Some n \<Rightarrow> (case nl_disconnect n of
          (es, n) \<Rightarrow> (map (OfLink l) es, na\<lparr>na_links := mput l n (na_links na)\<rparr>)))"

definition disconnectLink :: "linkref \<Rightarrow> NodeAccessor \<Rightarrow> na_effect list \<times> NodeAccessor" where
  "disconnectLink l na =
     (case link_disconnect l na of (es, na) \<Rightarrow>
        let (es', na) = (case mget (link2nodeID na) l of
                           None \<Rightarrow> ([], na)
                         | Some nodeID \<Rightarrow>
                             let na = na\<lparr>nodeID2link := mdel nodeID (nodeID2link na), link2nodeID := mdel l (link2nodeID na)\<rparr>
                             in (callChangeConnections na, na));
            na = (case mget (link2offerID na) l of
                    None \<Rightarrow> na
                  | Some offerID \<Rightarrow> na\<lparr>offerID2state := mdel offerID (offerID2state na), link2offerID := mdel l (link2offerID na)\<rparr>)
        in (es @ es', na))"

text \<open>A loop that disconnects some of the links it visits; an entry deleted before its turn is not visited.\<close>

fun disconnect_if :: "(NodeAccessor \<Rightarrow> 'k \<Rightarrow> linkref option) \<Rightarrow> 'k list \<Rightarrow> NodeAccessor \<Rightarrow> na_effect list \<times> NodeAccessor" where
  "disconnect_if sel [] na = ([], na)"
| "disconnect_if sel (k # ks) na =
     (case sel na k of
        None \<Rightarrow> disconnect_if sel ks na
      | Some l \<Rightarrow> (case disconnectLink l na of (es, na) \<Rightarrow>
          case disconnect_if sel ks na of (es', na) \<Rightarrow> (es @ es', na)))"

text \<open>The end of the context: all links are disconnected.\<close>

definition na_Stop :: "NodeAccessor \<Rightarrow> na_effect list \<times> NodeAccessor" where
  "na_Stop na = disconnect_if (\<lambda>na l. if mhas (link2nodeID na) l then Some l else None) (mkeys (link2nodeID na)) na"

definition na_Start :: "NodeID \<Rightarrow> NodeAccessor \<Rightarrow> NodeAccessor" where
  "na_Start localNodeID na = na\<lparr>na_localNodeID := localNodeID\<rparr>"

definition houseKeeping :: "time \<Rightarrow> NodeAccessor \<Rightarrow> na_effect list \<times> NodeAccessor" where
  "houseKeeping now na =
     (case disconnect_if (\<lambda>na l. if mhas (link2nodeID na) l \<and> link_state na l = nodeLinkStateDisabled then Some l else None)
             (mkeys (link2nodeID na)) na of (es, na) \<Rightarrow>
      case disconnect_if (\<lambda>na offerID. case offer_state na offerID of
               None \<Rightarrow> None
             | Some state \<Rightarrow> if now > cs_creationTimestamp state + na_connectionTimeout na then Some (cs_link state) else None)
             (mkeys (offerID2state na)) na of (es', na) \<Rightarrow> (es @ es', na))"

subsection \<open>Connecting\<close>

definition assignedNodeID :: "NodeID \<Rightarrow> NodeAccessor \<Rightarrow> bool" where
  "assignedNodeID nodeID na \<longleftrightarrow>
     mhas (nodeID2link na) nodeID \<or> connecting_to nodeID na"

definition new_link :: "time \<Rightarrow> NodeAccessor \<Rightarrow> linkref \<times> NodeAccessor" where
  "new_link now na =
     (na_next na, na\<lparr>na_links := mput (na_next na) (newNodeLink (na_linkConfig na) now) (na_links na), na_next := na_next na + 1\<rparr>)"

text \<open>A new connecting state goes into both maps.\<close>

definition put_state :: "32 word \<Rightarrow> connectingState \<Rightarrow> NodeAccessor \<Rightarrow> NodeAccessor" where
  "put_state offerID state na =
     na\<lparr>na_states := mput (cs_link state) state (na_states na),
        offerID2state := mput offerID (cs_link state) (offerID2state na),
        link2offerID := mput (cs_link state) offerID (link2offerID na)\<rparr>"

text \<open>The loop that draws another offer identifier never looks at it: a collision is not left again.\<close>

definition na_connect ::
  "time \<Rightarrow> conn_env \<Rightarrow> OfferType \<Rightarrow> NodeID \<Rightarrow> NodeAccessor \<Rightarrow> (unit result \<times> na_effect list \<times> NodeAccessor) outcome" where
  "na_connect now env ot nodeID na =
     (if ot = OfferTypeExplicit \<and> assignedNodeID nodeID na then Inr (Inl ''node ID is already connected'', [], na)
      else case ce_uuid env of
        Inl err \<Rightarrow> Inr (Inl (''failed to create uuid: '' @ err), [], na)
      | Inr _ \<Rightarrow>
          (case ce_link env of
             Inl err \<Rightarrow> Inr (Inl (''failed to create link: '' @ err), [], na)
           | Inr _ \<Rightarrow>
               let (link, na) = new_link now na;
                   state = \<lparr>cs_isPrime = True, cs_ices = Some [], cs_link = link,
                            cs_nodeID = (if ot = OfferTypeExplicit then Some nodeID else None), cs_creationTimestamp = now\<rparr>;
                   offerID = ce_draw env
               in if mhas (offerID2state na) offerID then Inl Blocked
                  else Inr (Inr (), [GoOffer link offerID ot nodeID],
                         put_state offerID state na)))"

definition na_run_offer ::
  "string result \<Rightarrow> unit result \<Rightarrow> linkref \<Rightarrow> 32 word \<Rightarrow> OfferType \<Rightarrow> NodeID \<Rightarrow> NodeAccessor \<Rightarrow> na_effect list \<times> NodeAccessor" where
  "na_run_offer sdp sent link offerID ot nodeID na =
     (case nl_getLocalSDP sdp of
        (Inl err, les) \<Rightarrow> (case disconnectLink link na of (es, na) \<Rightarrow> (map (OfLink link) les @ es, na))
      | (Inr sdp, _) \<Rightarrow>
          let offer = SendSignalOffer nodeID \<lparr>of_OfferID = offerID, of_OfferType = ot, of_Sdp = sdp\<rparr>
          in case sent of
               Inl err \<Rightarrow> (case disconnectLink link na of (es, na) \<Rightarrow> (offer # es, na))
             | Inr _ \<Rightarrow> ([offer], na))"

definition na_subRoutine :: "time \<Rightarrow> conn_env \<Rightarrow> NodeAccessor \<Rightarrow> (na_effect list \<times> NodeAccessor) outcome" where
  "na_subRoutine now env na =
     (case houseKeeping now na of (es, na) \<Rightarrow>
        if na_isAlone na then Inr (es, na)
        else
          obind (if length (link2nodeID na) = 0 \<and> length (offerID2state na) = 0
                 then obind (na_connect now env OfferTypeNext (na_localNodeID na) na) (\<lambda>(_, es', na). Inr (es', na))
                 else Inr ([], na)) (\<lambda>(es', na).
            if length (link2nodeID na) \<noteq> 0 \<and> now > nextConnectionTimestamp na + nextConnectionInterval then
              if nextConnectionTimestamp na = 0
              then Inr (es @ es', na\<lparr>nextConnectionTimestamp := nextConnectionTimestamp na - 10000000000 - nextConnectionInterval\<rparr>)
              else obind (na_connect now env OfferTypeNext (na_localNodeID na) na) (\<lambda>(_, es'', na). Inr (es @ es' @ es'', na))
            else Inr (es @ es', na)))"

fun connect_required ::
  "time \<Rightarrow> (NodeID \<Rightarrow> conn_env) \<Rightarrow> NodeID list \<Rightarrow> NodeAccessor \<Rightarrow> (unit result \<times> na_effect list \<times> NodeAccessor) outcome" where
  "connect_required now env [] na = Inr (Inr (), [], na)"
| "connect_required now env (nodeID # rest) na =
     (let (skip, es, na) = (case mget (nodeID2link na) nodeID of
             None \<Rightarrow> (False, [], na)
           | Some link \<Rightarrow> if link_state na link = nodeLinkStateDisabled
                          then (case disconnectLink link na of (es, na) \<Rightarrow> (False, es, na))
                          else (True, [], na));
          skip = (skip \<or> connecting_to nodeID na)
      in obind (if skip then Inr (Inr (), [], na) else na_connect now (env nodeID) OfferTypeExplicit nodeID na) (\<lambda>(r, es', na).
           case r of
             Inl err \<Rightarrow> Inr (Inl err, es @ es', na)
           | Inr _ \<Rightarrow> obind (connect_required now env rest na) (\<lambda>(r, es'', na). Inr (r, es @ es' @ es'', na))))"

definition ConnectLinks ::
  "time \<Rightarrow> (NodeID \<Rightarrow> conn_env) \<Rightarrow> NodeID list \<Rightarrow> NodeID list \<Rightarrow> NodeAccessor \<Rightarrow> (unit result \<times> na_effect list \<times> NodeAccessor) outcome" where
  "ConnectLinks now env requiredNodeIDs keepNodeIDs na =
     obind (connect_required now env requiredNodeIDs na) (\<lambda>(r, es, na).
       case r of
         Inl err \<Rightarrow> Inr (Inl err, es, na)
       | Inr _ \<Rightarrow>
           (case disconnect_if (\<lambda>na nodeID. if nodeID \<in> set requiredNodeIDs \<or> nodeID \<in> set keepNodeIDs then None
                                            else mget (nodeID2link na) nodeID)
                   (mkeys (nodeID2link na)) na of (es', na) \<Rightarrow> Inr (Inr (), es @ es', na)))"

subsection \<open>Signalling\<close>

definition na_sendAnswer :: "NodeID \<Rightarrow> 32 word \<Rightarrow> AnswerStatus \<Rightarrow> string \<Rightarrow> na_effect" where
  "na_sendAnswer dstNodeID offerID status sdp =
     SendSignalAnswer dstNodeID \<lparr>an_OfferID = offerID, an_Status = status, an_Sdp = sdp\<rparr>"

definition na_sendICE :: "NodeID option \<Rightarrow> 32 word \<Rightarrow> string list \<Rightarrow> na_effect" where
  "na_sendICE dstNodeID offerID ices = SendSignalICE dstNodeID \<lparr>ic_OfferID = offerID, ic_Ices = ices\<rparr>"

text \<open>The rest of \<open>SignalingOffer\<close> when the offer is not refused; \<open>made\<close> is what \<open>newNodeLink\<close> answers.\<close>

definition accept_offer :: "time \<Rightarrow> unit result \<Rightarrow> NodeID \<Rightarrow> Offer \<Rightarrow> NodeAccessor \<Rightarrow> na_effect list \<times> NodeAccessor" where
  "accept_offer now made srcNodeID offer na =
     (case made of
        Inl err \<Rightarrow> ([], na)
      | Inr _ \<Rightarrow>
          let (link, na) = new_link now na;
              state = \<lparr>cs_isPrime = False, cs_ices = Some [], cs_link = link, cs_nodeID = Some srcNodeID,
                       cs_creationTimestamp = now\<rparr>
          in ([GoAnswer link (of_OfferID offer) srcNodeID (of_Sdp offer)], put_state (of_OfferID offer) state na))"

definition SignalingOffer :: "time \<Rightarrow> unit result \<Rightarrow> NodeID \<Rightarrow> Offer \<Rightarrow> NodeAccessor \<Rightarrow> na_effect list \<times> NodeAccessor" where
  "SignalingOffer now made srcNodeID offer na =
     (let offerID = of_OfferID offer
      in case offer_state na offerID of
           Some state \<Rightarrow>
             if \<not> nid_Equal (cs_nodeID state) (Some srcNodeID)
             then ([na_sendAnswer srcNodeID offerID AnswerStatusReject []], na)
             else accept_offer now made srcNodeID offer na
         | None \<Rightarrow> accept_offer now made srcNodeID offer na)"

definition na_run_answer ::
  "unit result \<Rightarrow> string result \<Rightarrow> unit result \<Rightarrow> linkref \<Rightarrow> 32 word \<Rightarrow> NodeID \<Rightarrow> NodeAccessor \<Rightarrow> na_effect list \<times> NodeAccessor" where
  "na_run_answer remote sdp sent link offerID srcNodeID na =
     (case nl_setRemoteSDP remote of
        (Inl err, les) \<Rightarrow> (case disconnectLink link na of (es, na) \<Rightarrow> (map (OfLink link) les @ es, na))
      | (Inr _, _) \<Rightarrow>
          (case nl_getLocalSDP sdp of
             (Inl err, les) \<Rightarrow> (case disconnectLink link na of (es, na) \<Rightarrow> (map (OfLink link) les @ es, na))
           | (Inr sdp, _) \<Rightarrow>
               let answer = na_sendAnswer srcNodeID offerID AnswerStatusAccept sdp
               in case sent of
                    Inl err \<Rightarrow> (case disconnectLink link na of (es, na) \<Rightarrow> (answer # es, na))
                  | Inr _ \<Rightarrow> ([answer], na)))"

definition SignalingAnswer :: "NodeID \<Rightarrow> Answer \<Rightarrow> NodeAccessor \<Rightarrow> na_effect list \<times> NodeAccessor" where
  "SignalingAnswer srcNodeID answer na =
     (let offerID = an_OfferID answer
      in case mget (offerID2state na) offerID of
           None \<Rightarrow> ([], na)
         | Some ref \<Rightarrow>
             (case mget (na_states na) ref of
                None \<Rightarrow> ([], na)
              | Some state \<Rightarrow>
                  let proceed = (\<lambda>na. if an_Status answer = AnswerStatusReject then disconnectLink (cs_link state) na
                                      else ([GoRemote ref offerID srcNodeID (an_Sdp answer)], na))
                  in if cs_nodeID state = None
                     then proceed (na\<lparr>na_states := mput ref (state\<lparr>cs_nodeID := Some srcNodeID\<rparr>) (na_states na)\<rparr>)
                     else if \<not> nid_Equal (cs_nodeID state) (Some srcNodeID) then ([], na)
                     else proceed na))"

text \<open>What both goroutines below end with: the stored candidates go out, later ones go out at once.\<close>

definition flush_ices :: "NodeID \<Rightarrow> 32 word \<Rightarrow> stateref \<Rightarrow> NodeAccessor \<Rightarrow> na_effect list \<times> NodeAccessor" where
  "flush_ices srcNodeID offerID ref na =
     (case mget (na_states na) ref of
        None \<Rightarrow> ([], na)
      | Some state \<Rightarrow>
          (case cs_ices state of
             Some (i # is) \<Rightarrow> [na_sendICE (Some srcNodeID) offerID (i # is)]
           | _ \<Rightarrow> [],
           na\<lparr>na_states := mput ref (state\<lparr>cs_ices := None\<rparr>) (na_states na)\<rparr>))"

definition na_run_remote :: "unit result \<Rightarrow> stateref \<Rightarrow> 32 word \<Rightarrow> NodeID \<Rightarrow> NodeAccessor \<Rightarrow> na_effect list \<times> NodeAccessor" where
  "na_run_remote remote ref offerID srcNodeID na =
     (case nl_setRemoteSDP remote of
        (Inl err, les) \<Rightarrow> (map (OfLink ref) les, na)
      | (Inr _, _) \<Rightarrow> flush_ices srcNodeID offerID ref na)"

definition SignalingICE :: "NodeID \<Rightarrow> ICE \<Rightarrow> NodeAccessor \<Rightarrow> na_effect list \<times> NodeAccessor" where
  "SignalingICE srcNodeID ice na =
     (let offerID = ic_OfferID ice
      in case mget (offerID2state na) offerID of
           None \<Rightarrow> ([], na)
         | Some ref \<Rightarrow> ([GoICE ref offerID srcNodeID (ic_Ices ice)], na))"

fun update_ices :: "(string \<Rightarrow> unit result) \<Rightarrow> string list \<Rightarrow> nl_effect list" where
  "update_ices upd [] = []"
| "update_ices upd (i # is) = (case nl_updateICE (upd i) of (Inl err, les) \<Rightarrow> les | (Inr _, les) \<Rightarrow> les @ update_ices upd is)"

definition na_run_ice ::
  "(string \<Rightarrow> unit result) \<Rightarrow> stateref \<Rightarrow> 32 word \<Rightarrow> NodeID \<Rightarrow> string list \<Rightarrow> NodeAccessor \<Rightarrow> na_effect list \<times> NodeAccessor" where
  "na_run_ice upd ref offerID srcNodeID ices na =
     (case flush_ices srcNodeID offerID ref na of (es, na) \<Rightarrow> (map (OfLink ref) (update_ices upd ices) @ es, na))"

subsection \<open>Relaying packets\<close>

definition na_IsOnline :: "NodeAccessor \<Rightarrow> bool" where
  "na_IsOnline na \<longleftrightarrow> list_ex (\<lambda>(_, link). link_state na link = nodeLinkStateOnline) (nodeID2link na)"

definition link_sendPacket ::
  "Codec \<Rightarrow> (linkref \<Rightarrow> NodePackets list \<Rightarrow> bool) \<Rightarrow> Packet \<Rightarrow> linkref \<Rightarrow> NodeAccessor \<Rightarrow>
    (unit result \<times> na_effect list \<times> NodeAccessor) outcome" where
  "link_sendPacket cd wsend packet l na =
     (case mget (na_links na) l of
        None \<Rightarrow> Inl (Panic ''nil pointer dereference'')
      | Some n \<Rightarrow> obind (nl_sendPacket cd (wsend l) packet n) (\<lambda>(r, es, n).
          Inr (r, map (OfLink l) es, na\<lparr>na_links := mput l n (na_links na)\<rparr>)))"

fun multicast ::
  "Codec \<Rightarrow> (linkref \<Rightarrow> NodePackets list \<Rightarrow> bool) \<Rightarrow> Packet \<Rightarrow> (NodeID \<times> linkref) list \<Rightarrow> NodeAccessor \<Rightarrow>
    (unit result \<times> na_effect list \<times> NodeAccessor) outcome" where
  "multicast cd wsend packet [] na = Inr (Inr (), [], na)"
| "multicast cd wsend packet ((nodeID, link) # rest) na =
     (if link_state na link = nodeLinkStateOnline then
        obind (link_sendPacket cd wsend (packet\<lparr>DstNodeID := nodeID\<rparr>) link na) (\<lambda>(r, es, na).
          case r of
            Inl err \<Rightarrow> Inr (Inl ''failed to send packet'', es, na)
          | Inr _ \<Rightarrow> obind (multicast cd wsend packet rest na) (\<lambda>(r, es', na). Inr (r, es @ es', na)))
      else multicast cd wsend packet rest na)"

definition na_RelayPacket ::
  "Codec \<Rightarrow> (linkref \<Rightarrow> NodePackets list \<Rightarrow> bool) \<Rightarrow> NodeID \<Rightarrow> Packet \<Rightarrow> NodeAccessor \<Rightarrow>
    (unit result \<times> na_effect list \<times> NodeAccessor) outcome" where
  "na_RelayPacket cd wsend dstNodeID packet na =
     (if \<not> na_IsOnline na then Inr (Inl ''node accessor should be online before relaying packet'', [], na)
      else if nid_Equal (Some dstNodeID) (Some NodeNeighborhoods) then
        if Mode packet AND PacketModeOneWay = PacketModeNone
        then Inr (Inl ''packet mode should be one way when multicast'', [], na)
        else multicast cd wsend packet (nodeID2link na) na
      else case mget (nodeID2link na) dstNodeID of
        None \<Rightarrow> Inr (Inl ''link is not online'', [], na)
      | Some link \<Rightarrow>
          if link_state na link \<noteq> nodeLinkStateOnline then Inr (Inl ''link is not online'', [], na)
          else obind (link_sendPacket cd wsend packet link na) (\<lambda>(r, es, na).
            case r of
              Inl err \<Rightarrow> Inr (Inl ''failed to send packet'', es, na)
            | Inr _ \<Rightarrow> Inr (Inr (), es, na)))"

subsection \<open>Events of the links\<close>

definition connect_link :: "NodeID \<Rightarrow> linkref \<Rightarrow> NodeAccessor \<Rightarrow> NodeAccessor" where
  "connect_link nodeID link na =
     na\<lparr>nodeID2link := mput nodeID link (nodeID2link na), link2nodeID := mput link nodeID (link2nodeID na)\<rparr>"

text \<open>The data channel labels are an argument: the connected peer may have chosen them.\<close>

definition link_online :: "(linkref \<Rightarrow> string) \<Rightarrow> linkref \<Rightarrow> NodeAccessor \<Rightarrow> (na_effect list \<times> NodeAccessor) outcome" where
  "link_online label link na =
     (case mget (link2offerID na) link of
        None \<Rightarrow> Inr ([], na)
      | Some offerID \<Rightarrow>
          let state = offer_state na offerID;
              na = na\<lparr>offerID2state := mdel offerID (offerID2state na), link2offerID := mdel link (link2offerID na)\<rparr>
          in case Option.bind state cs_nodeID of
               None \<Rightarrow> Inl (Panic ''nil pointer dereference'')
             | Some nodeID \<Rightarrow>
                 obind (case mget (nodeID2link na) nodeID of
                          Some existingLink \<Rightarrow>
                            if link_state na existingLink \<noteq> nodeLinkStateOnline \<or>
                               compare_strings (label existingLink) (label link) > 0
                            then (case disconnectLink existingLink na of (es, na) \<Rightarrow> Inr (es, connect_link nodeID link na))
                            else if compare_strings (label existingLink) (label link) = 0
                            then Inl (Panic ''data channel label should be unique'')
                            else Inr (disconnectLink link na)
                        | None \<Rightarrow> Inr ([], connect_link nodeID link na)) (\<lambda>(es, na).
                   Inr (es @ callChangeConnections na, na)))"

definition nodeLinkChangeState ::
  "(linkref \<Rightarrow> string) \<Rightarrow> linkref \<Rightarrow> nodeLinkState \<Rightarrow> NodeAccessor \<Rightarrow> (na_effect list \<times> NodeAccessor) outcome" where
  "nodeLinkChangeState label link linkState na =
     obind (if linkState = nodeLinkStateOnline then link_online label link na else Inr ([], na)) (\<lambda>(es, na).
       if linkState = nodeLinkStateDisabled then (case disconnectLink link na of (es', na) \<Rightarrow> Inr (es @ es', na))
       else Inr (es, na))"

definition nodeLinkUpdateICE :: "linkref \<Rightarrow> string \<Rightarrow> NodeAccessor \<Rightarrow> (na_effect list \<times> NodeAccessor) outcome" where
  "nodeLinkUpdateICE link ice na =
     (case mget (link2offerID na) link of
        None \<Rightarrow> Inr ([], na)
      | Some offerID \<Rightarrow>
          (case mget (offerID2state na) offerID of
             None \<Rightarrow> Inl (Panic ''nil pointer dereference'')
           | Some ref \<Rightarrow>
               (case mget (na_states na) ref of
                  None \<Rightarrow> Inl (Panic ''nil pointer dereference'')
                | Some state \<Rightarrow>
                    (case cs_ices state of
                       None \<Rightarrow> Inr ([na_sendICE (cs_nodeID state) offerID [ice]], na)
                     | Some ices \<Rightarrow> Inr ([], na\<lparr>na_states := mput ref (state\<lparr>cs_ices := Some (ices @ [ice])\<rparr>) (na_states na)\<rparr>)))))"

definition nodeLinkRecvPacket :: "linkref \<Rightarrow> Packet \<Rightarrow> NodeAccessor \<Rightarrow> na_effect list" where
  "nodeLinkRecvPacket link packet na = [PassPacket (mget (link2nodeID na) link) packet]"

end
