(* ===== verification/Seed_Accessor.thy ===== *)
theory Seed_Accessor
  imports Packets
begin

text \<open>
  A node's client of the seed (\<open>src/node/internal/network/seed_accessor/seed_accessor.go\<close>).

  The generated RPC client is an argument: every operation is given the answer of its call,
  an error or the response. The code only asks an error whether it comes from a
  cancelled or expired context, so an error is \<open>Cancelled\<close> or \<open>Failed\<close>. What an operation sends
  and the handler calls it starts are returned in the order of the code.
\<close>

datatype call_error = Cancelled | Failed string

type_synonym 'a call = "call_error + 'a"

record SeedAccessor =
  sa_localNodeID :: "NodeID option"
  sa_isAlone :: bool

datatype sa_effect =
    SeedRecvSignalOffer NodeID Offer
  | SeedRecvSignalAnswer NodeID Answer
  | SeedRecvSignalICE NodeID ICE

definition NewSeedAccessor :: "string \<Rightarrow> SeedAccessor outcome" where
  "NewSeedAccessor url =
     (if length url = 0 then Inl (Panic ''URL should not be empty'')
      else Inr \<lparr>sa_localNodeID = None, sa_isAlone = False\<rparr>)"

definition sa_Start :: "(proto_NodeID option \<times> bool) call \<Rightarrow> SeedAccessor \<Rightarrow> NodeID result \<times> SeedAccessor" where
  "sa_Start answer sa =
     (case answer of
        Inl Cancelled \<Rightarrow> (Inl ''context is canceled before starting'', sa)
      | Inl (Failed err) \<Rightarrow> (Inl (''failed to assign node ID: '' @ err), sa)
      | Inr (nodeID, isAlone) \<Rightarrow>
          (case NewNodeIDFromProto nodeID of
             Inl err \<Rightarrow> (Inl (''failed to parse node id: '' @ err), sa\<lparr>sa_localNodeID := None\<rparr>)
           | Inr n \<Rightarrow> (Inr n, sa\<lparr>sa_localNodeID := Some n, sa_isAlone := isAlone\<rparr>)))"

text \<open>What the node says when it leaves: the warning logged, if any.\<close>

definition sa_unassign :: "unit call \<Rightarrow> string option" where
  "sa_unassign answer =
     (case answer of Inl Cancelled \<Rightarrow> None | Inl (Failed err) \<Rightarrow> Some (''failed to unassign node: '' @ err) | Inr _ \<Rightarrow> None)"

text \<open>
  A turn of each of the two loops \<open>Start\<close> leaves running, given what the call returned: the
  loop ends, goes on at once, or goes on after ten seconds. The poll loop unassigns the node when it
  ends.
\<close>

datatype sa_turn = LoopEnds | LoopAgain | LoopSleeps

definition poll_turn :: "bool \<Rightarrow> unit call \<Rightarrow> sa_turn" where
  "poll_turn ctxDone err =
     (if ctxDone then LoopEnds
      else case err of Inl Cancelled \<Rightarrow> LoopEnds | Inl (Failed _) \<Rightarrow> LoopSleeps | Inr _ \<Rightarrow> LoopAgain)"

definition keepalive_turn :: "bool \<Rightarrow> unit call \<Rightarrow> sa_turn" where
  "keepalive_turn ctxDone err =
     (if ctxDone then LoopEnds
      else case err of Inl Cancelled \<Rightarrow> LoopEnds | Inl (Failed _) \<Rightarrow> LoopSleeps | Inr _ \<Rightarrow> LoopSleeps)"

definition sa_IsAlone :: "SeedAccessor \<Rightarrow> bool" where
  "sa_IsAlone sa = sa_isAlone sa"

subsection \<open>Sending signals\<close>

text \<open>A nil receiver of \<open>Proto\<close> is a nil pointer dereference.\<close>

definition proto_of :: "NodeID option \<Rightarrow> proto_NodeID outcome" where
  "proto_of n = (case n of None \<Rightarrow> Inl (Panic ''nil pointer dereference'') | Some n \<Rightarrow> nid_Proto n)"

text \<open>What the three kinds of signal share: the addresses, the call, the reading of its answer.\<close>

definition send_signal ::
  "string \<Rightarrow> unit call \<Rightarrow> NodeID option \<Rightarrow> SignalContent \<Rightarrow> SeedAccessor \<Rightarrow> (unit result \<times> Signal list) outcome" where
  "send_signal what answer dstNodeID content sa =
     obind (proto_of dstNodeID) (\<lambda>dst. obind (proto_of (sa_localNodeID sa)) (\<lambda>src.
       Inr (case answer of
              Inl Cancelled \<Rightarrow> Inr ()
            | Inl (Failed err) \<Rightarrow> Inl (''failed to send signal '' @ what @ '': '' @ err)
            | Inr _ \<Rightarrow> Inr (),
            [\<lparr>sg_DstNodeId = Some dst, sg_SrcNodeId = Some src, sg_Content = content\<rparr>])))"

text \<open>The enumeration of the protocol has the values of the two offer types.\<close>

definition sa_SendSignalOffer :: "unit call \<Rightarrow> NodeID option \<Rightarrow> Offer \<Rightarrow> SeedAccessor \<Rightarrow> (unit result \<times> Signal list) outcome" where
  "sa_SendSignalOffer answer dstNodeID offer sa =
     (if of_OfferType offer = OfferTypeExplicit \<or> of_OfferType offer = OfferTypeNext
      then send_signal ''offer'' answer dstNodeID (Signal_Offer (of_OfferID offer) (of_OfferType offer) (of_Sdp offer)) sa
      else Inr (Inl ''unknown offer type'', []))"

definition sa_SendSignalAnswer :: "unit call \<Rightarrow> NodeID option \<Rightarrow> Answer \<Rightarrow> SeedAccessor \<Rightarrow> (unit result \<times> Signal list) outcome" where
  "sa_SendSignalAnswer answer dstNodeID ans sa =
     send_signal ''answer'' answer dstNodeID (Signal_Answer (an_OfferID ans) (word_of_int (an_Status ans)) (an_Sdp ans)) sa"

definition sa_SendSignalICE :: "unit call \<Rightarrow> NodeID option \<Rightarrow> ICE \<Rightarrow> SeedAccessor \<Rightarrow> (unit result \<times> Signal list) outcome" where
  "sa_SendSignalICE answer dstNodeID ices sa =
     send_signal ''ICE'' answer dstNodeID (Signal_Ice (ic_OfferID ices) (ic_Ices ices)) sa"

text \<open>The request is the two converted lists.\<close>

definition sa_ReconcileNextNodes ::
  "bool call \<Rightarrow> NodeID list \<Rightarrow> NodeID list \<Rightarrow>
    ((bool \<times> unit result) \<times> (proto_NodeID option list \<times> proto_NodeID option list)) outcome" where
  "sa_ReconcileNextNodes answer nextNodeIDs disconnectedNodeIDs =
     obind (ConvertNodeIDsToProto (map Some nextNodeIDs)) (\<lambda>nxt.
     obind (ConvertNodeIDsToProto (map Some disconnectedNodeIDs)) (\<lambda>disc.
       Inr (case answer of
              Inl Cancelled \<Rightarrow> (False, Inr ())
            | Inl (Failed err) \<Rightarrow> (False, Inl (''failed to reconcile next nodes: '' @ err))
            | Inr matched \<Rightarrow> (matched, Inr ()),
            (nxt, disc))))"

subsection \<open>Calls of the loops\<close>

definition sa_keepalive :: "bool call \<Rightarrow> SeedAccessor \<Rightarrow> unit call \<times> SeedAccessor" where
  "sa_keepalive answer sa =
     (case answer of
        Inl Cancelled \<Rightarrow> (Inr (), sa)
      | Inl (Failed err) \<Rightarrow> (Inl (Failed err), sa)
      | Inr isAlone \<Rightarrow> (Inr (), sa\<lparr>sa_isAlone := isAlone\<rparr>))"

text \<open>One received signal: an error ends the poll, an unknown kind is skipped.\<close>

definition recv_signal :: "Signal \<Rightarrow> sa_effect list result" where
  "recv_signal s =
     (case NewNodeIDFromProto (sg_SrcNodeId s) of
        Inl err \<Rightarrow> Inl (''failed to parse node id: '' @ err)
      | Inr from' \<Rightarrow> Inr
          (case sg_Content s of
             Signal_Offer i t sdp \<Rightarrow>
               if t = OfferTypeExplicit \<or> t = OfferTypeNext
               then [SeedRecvSignalOffer from' \<lparr>of_OfferID = i, of_OfferType = t, of_Sdp = sdp\<rparr>]
               else []
           | Signal_Answer i st sdp \<Rightarrow> [SeedRecvSignalAnswer from' \<lparr>an_OfferID = i, an_Status = uint st, an_Sdp = sdp\<rparr>]
           | Signal_Ice i ices \<Rightarrow> [SeedRecvSignalICE from' \<lparr>ic_OfferID = i, ic_Ices = ices\<rparr>]
           | Signal_unset \<Rightarrow> []))"

fun recv_signals :: "Signal list \<Rightarrow> unit call \<times> sa_effect list" where
  "recv_signals [] = (Inr (), [])"
| "recv_signals (s # ss) =
     (case recv_signal s of
        Inl err \<Rightarrow> (Inl (Failed err), [])
      | Inr es \<Rightarrow> (case recv_signals ss of (r, es') \<Rightarrow> (r, es @ es')))"

text \<open>The stream is the messages received until it ends, and the error it ended with.\<close>

definition sa_poll :: "(Signal list list \<times> unit call) call \<Rightarrow> unit call \<times> sa_effect list" where
  "sa_poll answer =
     (case answer of
        Inl Cancelled \<Rightarrow> (Inr (), [])
      | Inl (Failed err) \<Rightarrow> (Inl (Failed (''failed to poll signal: '' @ err)), [])
      | Inr (msgs, err) \<Rightarrow>
          (case recv_signals (concat msgs) of
             (Inl e, es) \<Rightarrow> (Inl e, es)
           | (Inr _, es) \<Rightarrow> (err, es)))"

subsection \<open>Signals survive the seed\<close>

text \<open>What a handler call carries, as the sender's request.\<close>

fun sends :: "unit call \<Rightarrow> NodeID \<Rightarrow> sa_effect \<Rightarrow> SeedAccessor \<Rightarrow> (unit result \<times> Signal list) outcome" where
  "sends answer dst (SeedRecvSignalOffer src offer) sa = sa_SendSignalOffer answer (Some dst) offer sa"
| "sends answer dst (SeedRecvSignalAnswer src ans) sa = sa_SendSignalAnswer answer (Some dst) ans sa"
| "sends answer dst (SeedRecvSignalICE src ice) sa = sa_SendSignalICE answer (Some dst) ice sa"

fun event_from :: "sa_effect \<Rightarrow> NodeID" where
  "event_from (SeedRecvSignalOffer src _) = src"
| "event_from (SeedRecvSignalAnswer src _) = src"
| "event_from (SeedRecvSignalICE src _) = src"

fun event_ok :: "sa_effect \<Rightarrow> bool" where
  "event_ok (SeedRecvSignalOffer _ offer) \<longleftrightarrow> of_OfferType offer = OfferTypeExplicit \<or> of_OfferType offer = OfferTypeNext"
| "event_ok (SeedRecvSignalAnswer _ ans) \<longleftrightarrow> an_Status ans = AnswerStatusReject \<or> an_Status ans = AnswerStatusAccept"
| "event_ok (SeedRecvSignalICE _ _) \<longleftrightarrow> True"

lemma proto_of_normal: "nid_IsNormal n \<Longrightarrow> \<exists>p. proto_of (Some n) = Inr p \<and> NewNodeIDFromProto (Some p) = Inr n"
  using FromProto_Proto [of n] by (simp add: proto_of_def nid_Proto_normal)

lemma sends_received:
  assumes "nid_IsNormal dst" "nid_IsNormal (event_from e)" "sa_localNodeID sa = Some (event_from e)" "event_ok e"
  shows "\<exists>s. sends (Inr ()) dst e sa = Inr (Inr (), [s]) \<and> NewNodeIDFromProto (sg_DstNodeId s) = Inr dst \<and>
    NewNodeIDFromProto (sg_SrcNodeId s) = Inr (event_from e) \<and> sg_Content s \<noteq> Signal_unset \<and> recv_signal s = Inr [e]"
proof -
  obtain p q where p: "proto_of (Some dst) = Inr p" "NewNodeIDFromProto (Some p) = Inr dst"
    and q: "proto_of (Some (event_from e)) = Inr q" "NewNodeIDFromProto (Some q) = Inr (event_from e)"
    using proto_of_normal assms(1,2) by blast
  show ?thesis
  proof (cases e)
    case (SeedRecvSignalOffer src offer)
    then show ?thesis using p q assms(3,4) by (simp add: sa_SendSignalOffer_def send_signal_def recv_signal_def)
  next
    case (SeedRecvSignalAnswer src ans)
    then show ?thesis
      using p q assms(3,4)
      by (auto simp: sa_SendSignalAnswer_def send_signal_def recv_signal_def AnswerStatusReject_def AnswerStatusAccept_def)
  next
    case (SeedRecvSignalICE src ice)
    then show ?thesis using p q assms(3,4) by (simp add: sa_SendSignalICE_def send_signal_def recv_signal_def)
  qed
qed

lemma recv_signals_all:
  "list_all2 (\<lambda>s e. recv_signal s = Inr [e]) ss es \<Longrightarrow> recv_signals ss = (Inr (), es)"
  by (induction rule: list_all2_induct) simp_all

text \<open>
  Signals survive the trip: what a node sends, an offer, an answer or candidates, is a
  signal with its addresses, and a peer that polls signals made this way, in whatever messages
  the stream cuts them into, calls its handler with the same values from the same nodes in the
  same order.
\<close>

theorem signals_roundtrip:
  assumes "list_all2 (\<lambda>s (e, sa). sends (Inr ()) dst e sa = Inr (Inr (), [s]) \<and> sa_localNodeID sa = Some (event_from e) \<and>
      nid_IsNormal (event_from e) \<and> event_ok e) ss sent" and "nid_IsNormal dst" and "concat msgs = ss"
  shows "sa_poll (Inr (msgs, r)) = (r, map fst sent)"
proof -
  have "list_all2 (\<lambda>s e. recv_signal s = Inr [e]) ss (map fst sent)"
    unfolding list_all2_conv_all_nth
  proof (intro conjI allI impI)
    show len: "length ss = length (map fst sent)" using list_all2_lengthD [OF assms(1)] by simp
    fix i assume i: "i < length ss"
    obtain e sa where e: "sent ! i = (e, sa)" by fastforce
    have "sends (Inr ()) dst e sa = Inr (Inr (), [ss ! i])" "sa_localNodeID sa = Some (event_from e)"
      "nid_IsNormal (event_from e)" "event_ok e"
      using list_all2_nthD [OF assms(1) i] e by auto
    with sends_received [OF assms(2)] show "recv_signal (ss ! i) = Inr [map fst sent ! i]" using i len e by fastforce
  qed
  from recv_signals_all [OF this] show ?thesis using assms(3) by (simp add: sa_poll_def)
qed

theorem signals_roundtrip_witness:
  "\<exists>s. sa_SendSignalAnswer (Inr ()) (Some (NodeID typeNormal 0 2)) \<lparr>an_OfferID = 3, an_Status = AnswerStatusAccept, an_Sdp = ''x''\<rparr>
         \<lparr>sa_localNodeID = Some (NodeID typeNormal 0 1), sa_isAlone = False\<rparr> = Inr (Inr (), [s]) \<and>
     sa_poll (Inr ([[], [s]], Inr ())) =
       (Inr (), [SeedRecvSignalAnswer (NodeID typeNormal 0 1) \<lparr>an_OfferID = 3, an_Status = AnswerStatusAccept, an_Sdp = ''x''\<rparr>])"
proof -
  let ?sa = "\<lparr>sa_localNodeID = Some (NodeID typeNormal 0 1), sa_isAlone = False\<rparr>"
  let ?e = "SeedRecvSignalAnswer (NodeID typeNormal 0 1) \<lparr>an_OfferID = 3, an_Status = AnswerStatusAccept, an_Sdp = ''x''\<rparr>"
  have n: "nid_IsNormal (NodeID typeNormal 0 2)" "nid_IsNormal (NodeID typeNormal 0 1)" by (simp_all add: nid_IsNormal_def)
  from sends_received [of "NodeID typeNormal 0 2" ?e ?sa] n obtain s where
    s: "sends (Inr ()) (NodeID typeNormal 0 2) ?e ?sa = Inr (Inr (), [s])" by auto
  from signals_roundtrip [of "NodeID typeNormal 0 2" "[s]" "[(?e, ?sa)]" "[[], [s]]" "Inr ()"] s n show ?thesis
    by auto
qed

end
