(* ===== verification/Network.thy ===== *)
theory Network
  imports Routing_Props Transferer Node_Accessor Seed_Accessor
begin

text \<open>
  The network of a node (\<open>src/node/internal/network/network.go\<close>): it owns the accessors of the
  seed and of the links, the transferer and the routing, and is the handler of all four, so
  it is where their effects are carried out.

  \<open>held\<close> tells whether the transferer's mutex is held by the caller, as in the theory of the
  transferer. The marshalling library and the channels of the links are the arguments \<open>cd\<close>
  and \<open>wsend\<close>. A call of a component started in a goroutine of its own is an effect again.
\<close>

record 'h Network =
  nw_localNodeID :: NodeID
  nw_seedAccessor :: SeedAccessor
  nw_nodeAccessor :: NodeAccessor
  nw_transferer :: "'h Transferer"
  nw_routing :: Routing
  packetHopLimit :: "64 word"

datatype 'h nw_effect =
    NaEffect na_effect
  | TrEffect "'h tr_effect"
  | RtEffect rt_effect
  | GoUpdateNodeConnections "NodeID list"
  | ChangeConnectedNodes "string list"

text \<open>The routing registers its request handler when it is made; \<open>routing\<close> is what it is before \<open>Start\<close>.\<close>

definition NewNetwork :: "string \<Rightarrow> NodeLinkConfig \<Rightarrow> 64 word \<Rightarrow> Routing \<Rightarrow> 'h Network outcome" where
  "NewNetwork url nlc hopLimit routing =
     obind (NewSeedAccessor url) (\<lambda>sa.
     obind (SetRequestHandler K_Routing (NewTransferer 0 0)) (\<lambda>t.
       Inr \<lparr>nw_localNodeID = NodeLocal, nw_seedAccessor = sa, nw_nodeAccessor = NewNodeAccessor 0 nlc,
            nw_transferer = t, nw_routing = routing, packetHopLimit = hopLimit\<rparr>))"

definition nw_Start ::
  "(proto_NodeID option \<times> bool) call \<Rightarrow> time \<Rightarrow> bool \<Rightarrow> 'h Network \<Rightarrow> NodeID result \<times> 'h Network" where
  "nw_Start answer now hasCoordinateSystem n =
     (case sa_Start answer (nw_seedAccessor n) of
        (Inl err, sa) \<Rightarrow> (Inl err, n\<lparr>nw_seedAccessor := sa\<rparr>)
      | (Inr localNodeID, sa) \<Rightarrow>
          (Inr localNodeID,
           n\<lparr>nw_seedAccessor := sa, nw_localNodeID := localNodeID,
             nw_nodeAccessor := na_Start localNodeID (nw_nodeAccessor n),
             nw_transferer := tr_Start localNodeID (nw_transferer n),
             nw_routing := rt_Start now hasCoordinateSystem localNodeID\<rparr>))"

text \<open>The turn of the ticker that \<open>Start\<close> leaves running.\<close>

definition nw_tick :: "'h Network \<Rightarrow> 'h Network" where
  "nw_tick n = n\<lparr>nw_nodeAccessor := na_SetBeAlone (sa_IsAlone (nw_seedAccessor n)) (nw_nodeAccessor n)\<rparr>"

definition nw_IsOnline :: "'h Network \<Rightarrow> bool" where
  "nw_IsOnline n \<longleftrightarrow> sa_IsAlone (nw_seedAccessor n) \<or> na_IsOnline (nw_nodeAccessor n)"

definition nw_GetStability :: "'h Network \<Rightarrow> bool \<times> NodeID list" where
  "nw_GetStability n = rt_GetStability (nw_routing n)"

definition nw_UpdateLocalPosition ::
  "CoordinateOps \<Rightarrow> triangulate_fn \<Rightarrow> Coordinate \<Rightarrow> 'h Network \<Rightarrow> (unit result \<times> 'h Network) outcome" where
  "nw_UpdateLocalPosition co triangulate pos n =
     obind (rt_UpdateLocalPosition co triangulate pos (nw_routing n)) (\<lambda>(r, rt). Inr (r, n\<lparr>nw_routing := rt\<rparr>))"

definition nw_GetNextStep2D :: "CoordinateOps \<Rightarrow> Coordinate \<Rightarrow> 'h Network \<Rightarrow> NodeID outcome" where
  "nw_GetNextStep2D co dst n = rt_GetNextStep2D co dst (nw_routing n)"

subsection \<open>Packets\<close>

definition checkHopCount :: "'h Network \<Rightarrow> Packet \<Rightarrow> Packet option" where
  "checkHopCount n packet =
     (if HopCount packet > ucast (packetHopLimit n) then None
      else Some (packet\<lparr>HopCount := HopCount packet + 1\<rparr>))"

text \<open>An error of \<open>RelayPacket\<close> is only logged.\<close>

definition nw_relay ::
  "Codec \<Rightarrow> (linkref \<Rightarrow> NodePackets list \<Rightarrow> bool) \<Rightarrow> NodeID \<Rightarrow> Packet \<Rightarrow> 'h Network \<Rightarrow>
    ('h nw_effect list \<times> 'h Network) outcome" where
  "nw_relay cd wsend dstNodeID packet n =
     obind (na_RelayPacket cd wsend dstNodeID packet (nw_nodeAccessor n)) (\<lambda>(_, es, na).
       Inr (map NaEffect es, n\<lparr>nw_nodeAccessor := na\<rparr>))"

lemma obind_cong [fundef_cong]: "r = r' \<Longrightarrow> (\<And>x. r' = Inr x \<Longrightarrow> f x = f' x) \<Longrightarrow> obind r f = obind r' f'"
  by (cases r') auto

text \<open>
  \<open>transferer.Error\<close> hands a response back to \<open>TransfererSendPacket\<close>, which classifies it. The
  response is a one way packet, so this happens at most once.
\<close>

function classifyPacket ::
  "Codec \<Rightarrow> (linkref \<Rightarrow> NodePackets list \<Rightarrow> bool) \<Rightarrow> bool \<Rightarrow> Packet \<Rightarrow> 'h Network \<Rightarrow>
    ('h nw_effect list \<times> 'h Network) outcome" where
  "classifyPacket cd wsend held packet n =
     obind (rt_GetNextStep1D packet (nw_routing n)) (\<lambda>(nextNodeID, rt).
       let n = n\<lparr>nw_routing := rt\<rparr>
       in case nextNodeID of
            None \<Rightarrow>
              if \<not> has_mode (Mode packet) PacketModeOneWay then
                obind (tr_Error held packet PacketErrorCodeNoOneReceive ''no one receive the packet'' (nw_transferer n)) (\<lambda>es.
                  case es of
                    [SendPacket held' packet'] \<Rightarrow> classifyPacket cd wsend held' packet' n
                  | _ \<Rightarrow> Inr ([], n))
              else Inr ([], n)
          | Some k \<Rightarrow>
              if nid_Equal (Some k) (Some NodeLocal) \<or> nid_Equal (Some k) (Some (nw_localNodeID n)) then
                obind (tr_Receive held packet (nw_transferer n)) (\<lambda>(es, t).
                  Inr (map TrEffect es, n\<lparr>nw_transferer := t\<rparr>))
              else if nid_IsNormal k \<or> nid_Equal (Some k) (Some NodeNeighborhoods) then nw_relay cd wsend k packet n
              else Inr ([], n))"
  by pat_completeness auto

lemma tr_Error_one_way:
  "tr_Error held packet code message t = Inr es \<Longrightarrow>
     es = [SendPacket held (response_packet (tr_localNodeID t) packet (Content_Error code message))]"
  by (auto simp: tr_Error_def tr_Response_def split: if_splits)

lemma response_one_way [simp]: "has_mode (Mode (response_packet l p c)) PacketModeOneWay"
  by (simp add: response_packet_def)

termination classifyPacket
  by (relation "measure (\<lambda>(_, _, _, packet, _). if has_mode (Mode packet) PacketModeOneWay then 0 else 1)")
     (auto dest: tr_Error_one_way)

declare classifyPacket.simps [simp del]

definition TransfererSendPacket ::
  "Codec \<Rightarrow> (linkref \<Rightarrow> NodePackets list \<Rightarrow> bool) \<Rightarrow> bool \<Rightarrow> Packet \<Rightarrow> 'h Network \<Rightarrow>
    ('h nw_effect list \<times> 'h Network) outcome" where
  "TransfererSendPacket cd wsend held packet n = classifyPacket cd wsend held packet n"

definition TransfererRelayPacket ::
  "Codec \<Rightarrow> (linkref \<Rightarrow> NodePackets list \<Rightarrow> bool) \<Rightarrow> NodeID \<Rightarrow> Packet \<Rightarrow> 'h Network \<Rightarrow>
    ('h nw_effect list \<times> 'h Network) outcome" where
  "TransfererRelayPacket cd wsend dstNodeID packet n =
     (case checkHopCount n packet of
        None \<Rightarrow> Inr ([], n)
      | Some packet \<Rightarrow> nw_relay cd wsend dstNodeID packet n)"

definition NodeAccessorRecvPacket ::
  "Codec \<Rightarrow> (linkref \<Rightarrow> NodePackets list \<Rightarrow> bool) \<Rightarrow> NodeID option \<Rightarrow> Packet \<Rightarrow> 'h Network \<Rightarrow>
    ('h nw_effect list \<times> 'h Network) outcome" where
  "NodeAccessorRecvPacket cd wsend from' packet n =
     (case checkHopCount n packet of
        None \<Rightarrow> Inr ([], n)
      | Some packet \<Rightarrow>
          let n = (case from' of None \<Rightarrow> n | Some k \<Rightarrow> n\<lparr>nw_routing := rt_CountRecvPacket k (nw_routing n)\<rparr>)
          in classifyPacket cd wsend False packet n)"

subsection \<open>Carrying out the effects of the components\<close>

fun run_transferer ::
  "Codec \<Rightarrow> (linkref \<Rightarrow> NodePackets list \<Rightarrow> bool) \<Rightarrow> 'h tr_effect list \<Rightarrow> 'h Network \<Rightarrow>
    ('h nw_effect list \<times> 'h Network) outcome" where
  "run_transferer cd wsend [] n = Inr ([], n)"
| "run_transferer cd wsend (e # es) n =
     obind (case e of
              SendPacket held packet \<Rightarrow> TransfererSendPacket cd wsend held packet n
            | RelayPacketTo dst packet \<Rightarrow> TransfererRelayPacket cd wsend dst packet n
            | _ \<Rightarrow> Inr ([TrEffect e], n)) (\<lambda>(out, n).
     obind (run_transferer cd wsend es n) (\<lambda>(out', n). Inr (out @ out', n)))"

text \<open>The ticker of the transferer.\<close>

definition nw_transferer_tick ::
  "Codec \<Rightarrow> (linkref \<Rightarrow> NodePackets list \<Rightarrow> bool) \<Rightarrow> time \<Rightarrow> 'h Network \<Rightarrow> ('h nw_effect list \<times> 'h Network) outcome" where
  "nw_transferer_tick cd wsend now n =
     (case tr_subRoutine now (nw_transferer n) of (es, t) \<Rightarrow>
        run_transferer cd wsend es (n\<lparr>nw_transferer := t\<rparr>))"

definition nw_Request ::
  "Codec \<Rightarrow> (linkref \<Rightarrow> NodePackets list \<Rightarrow> bool) \<Rightarrow> 32 word list \<Rightarrow> time \<Rightarrow> NodeID \<Rightarrow> PacketMode \<Rightarrow> PacketContent \<Rightarrow> 'h \<Rightarrow>
    'h Network \<Rightarrow> ('h nw_effect list \<times> 'h Network) outcome" where
  "nw_Request cd wsend draws now dst mode content handler n =
     obind (tr_Request draws now False dst mode content handler (nw_transferer n)) (\<lambda>(es, t).
       run_transferer cd wsend es (n\<lparr>nw_transferer := t\<rparr>))"

definition RoutingUpdateConnection ::
  "time \<Rightarrow> (NodeID \<Rightarrow> conn_env) \<Rightarrow> NodeID list \<Rightarrow> NodeID list \<Rightarrow> 'h Network \<Rightarrow> ('h nw_effect list \<times> 'h Network) outcome" where
  "RoutingUpdateConnection now env required keep n =
     obind (ConnectLinks now env required keep (nw_nodeAccessor n)) (\<lambda>(_, es, na).
       Inr (map NaEffect es, n\<lparr>nw_nodeAccessor := na\<rparr>))"

fun run_routing ::
  "Codec \<Rightarrow> (linkref \<Rightarrow> NodePackets list \<Rightarrow> bool) \<Rightarrow> time \<Rightarrow> (NodeID \<Rightarrow> conn_env) \<Rightarrow> rt_effect list \<Rightarrow> 'h Network \<Rightarrow>
    ('h nw_effect list \<times> 'h Network) outcome" where
  "run_routing cd wsend now env [] n = Inr ([], n)"
| "run_routing cd wsend now env (e # es) n =
     obind (case e of
              UpdateConnection required keep \<Rightarrow> RoutingUpdateConnection now env required keep n
            | SendRouting content \<Rightarrow>
                run_transferer cd wsend (tr_RequestOneWay NodeNeighborhoods PacketModeNoRetry (Content_Routing content) (nw_transferer n)) n
            | _ \<Rightarrow> Inr ([RtEffect e], n)) (\<lambda>(out, n).
     obind (run_routing cd wsend now env es n) (\<lambda>(out', n). Inr (out @ out', n)))"

text \<open>The ticker of the routing.\<close>

definition nw_routing_tick ::
  "Codec \<Rightarrow> (linkref \<Rightarrow> NodePackets list \<Rightarrow> bool) \<Rightarrow> time \<Rightarrow> (NodeID \<Rightarrow> conn_env) \<Rightarrow> bool \<Rightarrow> reconcile_fn \<Rightarrow> 'h Network \<Rightarrow>
    ('h nw_effect list \<times> 'h Network) outcome" where
  "nw_routing_tick cd wsend now env observed reconcile n =
     obind (rt_subRoutine now observed reconcile (nw_routing n)) (\<lambda>(es, rt).
       run_routing cd wsend now env es (n\<lparr>nw_routing := rt\<rparr>))"

definition NodeAccessorChangeConnections :: "bool \<Rightarrow> NodeID list \<Rightarrow> 'h nw_effect list outcome" where
  "NodeAccessorChangeConnections observed connections =
     (if observed then obind (ConvertNodeIDSetToStringMap connections) (\<lambda>strs.
        Inr [GoUpdateNodeConnections connections, ChangeConnectedNodes strs])
      else Inr [GoUpdateNodeConnections connections])"

text \<open>The handler of the seed accessor passes the signals to the node accessor.\<close>

fun nw_seed_event :: "time \<Rightarrow> unit result \<Rightarrow> sa_effect \<Rightarrow> 'h Network \<Rightarrow> 'h nw_effect list \<times> 'h Network" where
  "nw_seed_event now made (SeedRecvSignalOffer src offer) n =
     (case SignalingOffer now made src offer (nw_nodeAccessor n) of (es, na) \<Rightarrow> (map NaEffect es, n\<lparr>nw_nodeAccessor := na\<rparr>))"
| "nw_seed_event now made (SeedRecvSignalAnswer src answer) n =
     (case SignalingAnswer src answer (nw_nodeAccessor n) of (es, na) \<Rightarrow> (map NaEffect es, n\<lparr>nw_nodeAccessor := na\<rparr>))"
| "nw_seed_event now made (SeedRecvSignalICE src ice) n =
     (case SignalingICE src ice (nw_nodeAccessor n) of (es, na) \<Rightarrow> (map NaEffect es, n\<lparr>nw_nodeAccessor := na\<rparr>))"

text \<open>The signals of the node accessor go to the seed accessor.\<close>

fun nw_send_signal :: "unit call \<Rightarrow> na_effect \<Rightarrow> 'h Network \<Rightarrow> (unit result \<times> Signal list) outcome" where
  "nw_send_signal answer (SendSignalOffer dst offer) n = sa_SendSignalOffer answer (Some dst) offer (nw_seedAccessor n)"
| "nw_send_signal answer (SendSignalAnswer dst ans) n = sa_SendSignalAnswer answer (Some dst) ans (nw_seedAccessor n)"
| "nw_send_signal answer (SendSignalICE dst ice) n = sa_SendSignalICE answer dst ice (nw_seedAccessor n)"
| "nw_send_signal answer _ n = Inr (Inr (), [])"

end
