(* ===== verification/Node_Accessor_Props.thy ===== *)
theory Node_Accessor_Props
  imports Node_Accessor
begin

text \<open>
  What the node accessor guarantees: the four maps agree in every state it can reach and the
  handler has been told of the present connections; the house keeping removes exactly what
  is dead or too old; \<open>ConnectLinks\<close> makes the connections asked for; of two links to a node
  the one with the smaller label stays, whichever comes first.
\<close>

subsection \<open>The invariant\<close>

definition na_inv :: "NodeAccessor \<Rightarrow> bool" where
  "na_inv na \<longleftrightarrow>
     gomap_wf (nodeID2link na) \<and> gomap_wf (link2nodeID na) \<and> gomap_wf (offerID2state na) \<and> gomap_wf (link2offerID na) \<and>
     (\<forall>n l. mget (nodeID2link na) n = Some l \<longleftrightarrow> mget (link2nodeID na) l = Some n) \<and>
     (\<forall>i r. mget (offerID2state na) i = Some r \<longrightarrow> mget (link2offerID na) r = Some i \<and> mget (na_states na) r \<noteq> None) \<and>
     (\<forall>r s. mget (na_states na) r = Some s \<longrightarrow> cs_link s = r) \<and>
     (\<forall>l n. mget (link2nodeID na) l = Some n \<longrightarrow> mget (link2offerID na) l = None \<and> mget (na_links na) l \<noteq> None) \<and>
     (\<forall>l i. mget (link2offerID na) l = Some i \<longrightarrow> mget (na_links na) l \<noteq> None) \<and>
     (\<forall>l. mget (na_links na) l \<noteq> None \<longrightarrow> l < na_next na)"

lemma na_invD:
  assumes "na_inv na"
  shows "mget (nodeID2link na) n = Some l \<longleftrightarrow> mget (link2nodeID na) l = Some n"
    and "mget (offerID2state na) i = Some r \<Longrightarrow> mget (link2offerID na) r = Some i"
    and "mget (offerID2state na) i = Some r \<Longrightarrow> \<exists>s. mget (na_states na) r = Some s \<and> cs_link s = r"
    and "mget (link2nodeID na) l = Some n \<Longrightarrow> mget (link2offerID na) l = None"
    and "mget (link2nodeID na) l = Some n \<Longrightarrow> \<exists>x. mget (na_links na) l = Some x"
    and "mget (na_links na) l \<noteq> None \<Longrightarrow> l < na_next na"
    and "mget (link2offerID na) l = Some i \<Longrightarrow> mget (na_links na) l \<noteq> None"
  using assms unfolding na_inv_def by blast+

lemma na_inv_fresh:
  assumes "na_inv na"
  shows "mget (na_links na) (na_next na) = None" "mget (link2nodeID na) (na_next na) = None"
    "mget (link2offerID na) (na_next na) = None" "mget (nodeID2link na) n \<noteq> Some (na_next na)"
    "mget (offerID2state na) i \<noteq> Some (na_next na)"
  using assms unfolding na_inv_def by (metis less_irrefl not_None_eq)+

subsection \<open>Announcements\<close>

fun announcements :: "na_effect list \<Rightarrow> NodeID list list" where
  "announcements [] = []"
| "announcements (ChangeConnections ks # es) = ks # announcements es"
| "announcements (_ # es) = announcements es"

lemma announcements_append [simp]: "announcements (es @ es') = announcements es @ announcements es'"
  by (induction es rule: announcements.induct) simp_all

lemma announcements_OfLink [simp]: "announcements (map (OfLink l) es) = []"
  by (induction es) simp_all

text \<open>The set of nodes the handler knows after the effects, when it knew \<open>known\<close> before.\<close>

definition known_after :: "NodeID set \<Rightarrow> na_effect list \<Rightarrow> NodeID set" where
  "known_after known es = (if announcements es = [] then known else set (last (announcements es)))"

lemma known_after_Nil [simp]: "known_after known [] = known"
  by (simp add: known_after_def)

lemma known_after_append [simp]: "known_after known (es @ es') = known_after (known_after known es) es'"
  by (simp add: known_after_def)

lemma known_after_OfLink [simp]: "known_after known (map (OfLink l) es) = known"
  by (simp add: known_after_def)

lemma known_after_callChangeConnections [simp]:
  "known_after known (callChangeConnections na) = set (mkeys (nodeID2link na))"
  by (simp add: known_after_def callChangeConnections_def)

text \<open>An operation that keeps the invariant and tells the handler of every change.\<close>

definition keeps :: "NodeAccessor \<Rightarrow> na_effect list \<Rightarrow> NodeAccessor \<Rightarrow> bool" where
  "keeps na es na' \<longleftrightarrow>
     na_inv na' \<and> known_after (set (mkeys (nodeID2link na))) es = set (mkeys (nodeID2link na'))"

lemma keeps_refl: "na_inv na \<Longrightarrow> keeps na [] na"
  by (simp add: keeps_def)

lemma keeps_trans: "keeps na es na' \<Longrightarrow> keeps na' es' na'' \<Longrightarrow> keeps na (es @ es') na''"
  by (simp add: keeps_def)

lemma keeps_silent: "na_inv na' \<Longrightarrow> nodeID2link na' = nodeID2link na \<Longrightarrow> announcements es = [] \<Longrightarrow> keeps na es na'"
  by (simp add: keeps_def known_after_def)

lemma keeps_before: "keeps na es na' \<Longrightarrow> announcements es0 = [] \<Longrightarrow> keeps na (es0 @ es) na'"
  by (cases "announcements es") (simp_all add: keeps_def known_after_def)

subsection \<open>Disconnecting\<close>

lemma link_disconnect_maps:
  assumes "link_disconnect l na = (es, na')"
  shows "nodeID2link na' = nodeID2link na" "link2nodeID na' = link2nodeID na" "offerID2state na' = offerID2state na"
    "link2offerID na' = link2offerID na" "na_states na' = na_states na" "na_next na' = na_next na"
    "na_connectionTimeout na' = na_connectionTimeout na" "announcements es = []"
    "mget (na_links na') k = None \<longleftrightarrow> mget (na_links na) k = None"
    "link_state na' k = (if k = l then nodeLinkStateDisabled else link_state na k)"
  using assms
  by (cases "mget (na_links na) l"; clarsimp simp: link_disconnect_def link_state_def nl_disconnect_def Let_def)+

lemma disconnectLink_maps:
  assumes inv: "na_inv na" and d: "disconnectLink l na = (es, na')"
  shows "mget (nodeID2link na') n = (if mget (nodeID2link na) n = Some l then None else mget (nodeID2link na) n)"
    and "mget (link2nodeID na') k = (if k = l then None else mget (link2nodeID na) k)"
    and "mget (offerID2state na') i = (if mget (link2offerID na) l = Some i then None else mget (offerID2state na) i)"
    and "mget (link2offerID na') k = (if k = l then None else mget (link2offerID na) k)"
    and "na_states na' = na_states na" and "na_next na' = na_next na"
    and "na_connectionTimeout na' = na_connectionTimeout na"
    and "mget (na_links na') k = None \<longleftrightarrow> mget (na_links na) k = None"
    and "link_state na' k = (if k = l then nodeLinkStateDisabled else link_state na k)"
    and "gomap_wf (nodeID2link na')" and "gomap_wf (link2nodeID na')" and "gomap_wf (offerID2state na')"
    and "gomap_wf (link2offerID na')"
    and "known_after (set (mkeys (nodeID2link na))) es = set (mkeys (nodeID2link na'))"
proof -
  obtain es1 na1 where l: "link_disconnect l na = (es1, na1)" by fastforce
  note m = link_disconnect_maps [OF l]
  have ls: "link_state (na1\<lparr>nodeID2link := a, link2nodeID := b\<rparr>) k = link_state na1 k"
    "link_state (na1\<lparr>nodeID2link := a, link2nodeID := b, offerID2state := c, link2offerID := e\<rparr>) k = link_state na1 k"
    "link_state (na1\<lparr>offerID2state := c, link2offerID := e\<rparr>) k = link_state na1 k" for a b c e k
    by (simp_all add: link_state_def)
  have ka: "known_after known es1 = known" for known using m(8) by (simp add: known_after_def)
  have wf: "gomap_wf (nodeID2link na)" "gomap_wf (link2nodeID na)" "gomap_wf (offerID2state na)" "gomap_wf (link2offerID na)"
    using inv by (simp_all add: na_inv_def)
  have d': "es = es1 @ (case mget (link2nodeID na) l of None \<Rightarrow> []
        | Some nodeID \<Rightarrow> callChangeConnections (na1\<lparr>nodeID2link := mdel nodeID (nodeID2link na)\<rparr>))"
    "na' = (case mget (link2offerID na) l of None \<Rightarrow> (\<lambda>x. x)
        | Some i \<Rightarrow> (\<lambda>x. x\<lparr>offerID2state := mdel i (offerID2state na), link2offerID := mdel l (link2offerID na)\<rparr>))
      (case mget (link2nodeID na) l of None \<Rightarrow> na1
        | Some nodeID \<Rightarrow> na1\<lparr>nodeID2link := mdel nodeID (nodeID2link na), link2nodeID := mdel l (link2nodeID na)\<rparr>)"
    using d by (cases "mget (link2nodeID na) l"; cases "mget (link2offerID na) l";
        simp add: disconnectLink_def l m Let_def callChangeConnections_def)+
  show "mget (nodeID2link na') n = (if mget (nodeID2link na) n = Some l then None else mget (nodeID2link na) n)"
    unfolding na_invD(1) [OF inv, of n l]
    by (cases "mget (link2nodeID na) l"; cases "mget (link2offerID na) l"; simp add: d'(2) m)
  show "mget (link2nodeID na') k = (if k = l then None else mget (link2nodeID na) k)"
    "mget (offerID2state na') i = (if mget (link2offerID na) l = Some i then None else mget (offerID2state na) i)"
    "mget (link2offerID na') k = (if k = l then None else mget (link2offerID na) k)"
    "na_states na' = na_states na" "na_next na' = na_next na" "na_connectionTimeout na' = na_connectionTimeout na"
    "mget (na_links na') k = None \<longleftrightarrow> mget (na_links na) k = None"
    "link_state na' k = (if k = l then nodeLinkStateDisabled else link_state na k)"
    "gomap_wf (nodeID2link na')" "gomap_wf (link2nodeID na')" "gomap_wf (offerID2state na')" "gomap_wf (link2offerID na')"
    "known_after (set (mkeys (nodeID2link na))) es = set (mkeys (nodeID2link na'))"
    using wf by (cases "mget (link2nodeID na) l"; cases "mget (link2offerID na) l"; simp add: d' m ls ka)+
qed

lemma keeps_disconnectLink:
  assumes inv: "na_inv na" and d: "disconnectLink l na = (es, na')"
  shows "keeps na es na'"
proof -
  note m = disconnectLink_maps [OF assms]
  have inj: "k = l" if "mget (link2nodeID na) k = Some n" "mget (link2nodeID na) l = Some n" for k n
    using that na_invD(1) [OF inv] by (metis option.inject)
  have "na_inv na'"
    unfolding na_inv_def
  proof (intro conjI allI impI)
    show "gomap_wf (nodeID2link na')" "gomap_wf (link2nodeID na')" "gomap_wf (offerID2state na')" "gomap_wf (link2offerID na')"
      by (fact m)+
    show "mget (nodeID2link na') n = Some k \<longleftrightarrow> mget (link2nodeID na') k = Some n" for n k
      using inj [of k n] by (auto simp: m(1,2) na_invD(1) [OF inv])
    show "mget (link2offerID na') r = Some i" "mget (na_states na') r \<noteq> None" if "mget (offerID2state na') i = Some r" for i r
      using that na_invD(2,3) [OF inv, of i r] by (auto simp: m split: if_splits)
    show "cs_link s = r" if "mget (na_states na') r = Some s" for r s
      using that inv by (simp add: m na_inv_def)
    show "mget (link2offerID na') k = None" "mget (na_links na') k \<noteq> None" if "mget (link2nodeID na') k = Some n" for k n
      using that na_invD(4,5) [OF inv, of k n] by (auto simp: m split: if_splits)
    show "mget (na_links na') k \<noteq> None" if "mget (link2offerID na') k = Some i" for k i
      using that na_invD(7) [OF inv, of k i] by (simp add: m split: if_splits)
    show "k < na_next na'" if "mget (na_links na') k \<noteq> None" for k
      using that na_invD(6) [OF inv, of k] by (simp add: m)
  qed
  then show ?thesis by (simp add: keeps_def m)
qed

lemma keeps_disconnect_if:
  "na_inv na \<Longrightarrow> disconnect_if sel ks na = (es, na') \<Longrightarrow> keeps na es na'"
proof (induction ks arbitrary: na es na')
  case (Cons k ks)
  show ?case
  proof (cases "sel na k")
    case (Some l)
    obtain es1 na1 where d: "disconnectLink l na = (es1, na1)" by fastforce
    obtain es2 na2 where r: "disconnect_if sel ks na1 = (es2, na2)" by fastforce
    have k: "keeps na es1 na1" using keeps_disconnectLink [OF Cons.prems(1) d] .
    moreover have "keeps na1 es2 na2" using Cons.IH [OF _ r] k by (simp add: keeps_def)
    ultimately show ?thesis using Cons.prems(2) Some d r keeps_trans [of na es1 na1 es2 na2] by simp
  qed (use Cons in simp)
qed (simp add: keeps_refl)

subsection \<open>New links\<close>

lemma na_inv_put_state:
  assumes inv: "na_inv na" and n: "new_link now na = (link, na1)" and l: "cs_link state = link"
  shows "na_inv (put_state offerID state na1)"
proof -
  note fr = na_inv_fresh [OF inv]
  have link: "link = na_next na" and na1: "na1 = na\<lparr>na_links := mput link (newNodeLink (na_linkConfig na) now) (na_links na), na_next := na_next na + 1\<rparr>"
    using n by (auto simp: new_link_def)
  show ?thesis
    unfolding na_inv_def
  proof (intro conjI allI impI)
    show "gomap_wf (nodeID2link (put_state offerID state na1))" "gomap_wf (link2nodeID (put_state offerID state na1))"
      "gomap_wf (offerID2state (put_state offerID state na1))" "gomap_wf (link2offerID (put_state offerID state na1))"
      using inv by (simp_all add: na_inv_def put_state_def na1)
    show "mget (nodeID2link (put_state offerID state na1)) n = Some k \<longleftrightarrow> mget (link2nodeID (put_state offerID state na1)) k = Some n" for n k
      using na_invD(1) [OF inv] by (simp add: put_state_def na1)
    show "mget (link2offerID (put_state offerID state na1)) r = Some i" "mget (na_states (put_state offerID state na1)) r \<noteq> None"
      if "mget (offerID2state (put_state offerID state na1)) i = Some r" for i r
      using that na_invD(2,3) [OF inv, of i r] fr(5) by (auto simp: put_state_def na1 l link split: if_splits)
    show "cs_link s = r" if "mget (na_states (put_state offerID state na1)) r = Some s" for r s
      using that inv l by (auto simp: put_state_def na1 na_inv_def split: if_splits)
    show "mget (link2offerID (put_state offerID state na1)) k = None" "mget (na_links (put_state offerID state na1)) k \<noteq> None"
      if "mget (link2nodeID (put_state offerID state na1)) k = Some n" for k n
      using that na_invD(4,5) [OF inv, of k n] fr(2) by (auto simp: put_state_def na1 l link split: if_splits)
    show "mget (na_links (put_state offerID state na1)) k \<noteq> None" if "mget (link2offerID (put_state offerID state na1)) k = Some i" for k i
      using that na_invD(7) [OF inv, of k i] by (auto simp: put_state_def na1 l link split: if_splits)
    show "k < na_next (put_state offerID state na1)" if "mget (na_links (put_state offerID state na1)) k \<noteq> None" for k
      using that na_invD(6) [OF inv, of k] by (auto simp: put_state_def na1 l link split: if_splits)
  qed
qed

lemma new_link_maps:
  assumes "new_link now na = (link, na1)"
  shows "nodeID2link na1 = nodeID2link na" "offerID2state na1 = offerID2state na" "link2nodeID na1 = link2nodeID na"
    "na_states na1 = na_states na" "link = na_next na"
  using assms by (auto simp: new_link_def)

lemma keeps_connect:
  assumes inv: "na_inv na" and c: "na_connect now env ot nodeID na = Inr (r, es, na')"
  shows "keeps na es na'"
proof -
  obtain link na1 where n: "new_link now na = (link, na1)" by fastforce
  have "keeps na [GoOffer link (ce_draw env) ot nodeID] (put_state (ce_draw env) s na1)" if "cs_link s = link" for s
    using na_inv_put_state [OF inv n that] new_link_maps [OF n] by (intro keeps_silent) (simp_all add: put_state_def)
  then show ?thesis
    using c keeps_refl [OF inv] by (auto simp: na_connect_def n Let_def split: if_splits sum.splits)
qed

subsection \<open>Every operation keeps the invariant\<close>

lemma keeps_inv: "keeps na es na' \<Longrightarrow> na_inv na'"
  by (simp add: keeps_def)

lemma keeps_houseKeeping:
  assumes inv: "na_inv na" and h: "houseKeeping now na = (es, na')"
  shows "keeps na es na'"
  using h keeps_disconnect_if [OF inv] keeps_inv keeps_disconnect_if keeps_trans
  by (simp add: houseKeeping_def split: prod.splits) blast

lemma keeps_connect_or_skip:
  assumes "na_inv na"
    and "obind (if c then obind (na_connect now env ot nodeID na) (\<lambda>(_, es', na). Inr (es', na)) else Inr ([], na)) k = Inr x"
  shows "\<exists>es na'. keeps na es na' \<and> k (es, na') = Inr x"
proof (cases c)
  case True
  then obtain r es na' where "na_connect now env ot nodeID na = Inr (r, es, na')" "k (es, na') = Inr x"
    using assms(2) by (cases "na_connect now env ot nodeID na") auto
  then show ?thesis using keeps_connect [OF assms(1)] by blast
qed (use assms keeps_refl in auto)

lemma na_inv_timestamp [simp]: "na_inv (na\<lparr>nextConnectionTimestamp := t\<rparr>) = na_inv na"
  by (simp add: na_inv_def)

lemma keeps_timestamp [simp]: "keeps na es (na'\<lparr>nextConnectionTimestamp := t\<rparr>) = keeps na es na'"
  by (simp add: keeps_def)

lemma keeps_subRoutine:
  assumes inv: "na_inv na" and s: "na_subRoutine now env na = Inr (es, na')"
  shows "keeps na es na'"
proof -
  obtain es1 na1 where h: "houseKeeping now na = (es1, na1)" by fastforce
  have k1: "keeps na es1 na1" using keeps_houseKeeping [OF inv h] .
  show ?thesis
  proof (cases "na_isAlone na1")
    case True
    then show ?thesis using s k1 by (simp add: na_subRoutine_def h)
  next
    case False
    obtain es2 na2 where k2: "keeps na1 es2 na2" and
      s2: "(if length (link2nodeID na2) \<noteq> 0 \<and> now > nextConnectionTimestamp na2 + nextConnectionInterval then
              if nextConnectionTimestamp na2 = 0
              then Inr (es1 @ es2, na2\<lparr>nextConnectionTimestamp := nextConnectionTimestamp na2 - 10000000000 - nextConnectionInterval\<rparr>)
              else obind (na_connect now env OfferTypeNext (na_localNodeID na2) na2) (\<lambda>(_, es'', na). Inr (es1 @ es2 @ es'', na))
            else Inr (es1 @ es2, na2)) = Inr (es, na')"
      using keeps_connect_or_skip [OF keeps_inv [OF k1] s [unfolded na_subRoutine_def h prod.case if_not_P [OF False]]]
      by auto
    have k12: "keeps na (es1 @ es2) na2" using keeps_trans [OF k1 k2] .
    show ?thesis
    proof (cases "na_connect now env OfferTypeNext (na_localNodeID na2) na2")
      case (Inl e)
      then show ?thesis using s2 k12 by (auto split: if_splits)
    next
      case (Inr y)
      obtain r es3 na3 where y: "y = (r, es3, na3)" by (metis prod_cases3)
      have "keeps na ((es1 @ es2) @ es3) na3"
        using keeps_trans [OF k12 keeps_connect [OF keeps_inv [OF k12]]] Inr y by blast
      then show ?thesis using s2 k12 Inr y by (auto split: if_splits)
    qed
  qed
qed

text \<open>One turn of the loop over the required nodes, before it connects.\<close>

definition drop_disabled :: "NodeID \<Rightarrow> NodeAccessor \<Rightarrow> bool \<times> na_effect list \<times> NodeAccessor" where
  "drop_disabled nodeID na =
     (case mget (nodeID2link na) nodeID of
        None \<Rightarrow> (False, [], na)
      | Some link \<Rightarrow> if link_state na link = nodeLinkStateDisabled
                     then (case disconnectLink link na of (es, na) \<Rightarrow> (False, es, na))
                     else (True, [], na))"

lemma keeps_drop_disabled:
  assumes "na_inv na" "drop_disabled nodeID na = (skip, es, na')"
  shows "keeps na es na'"
  using assms keeps_refl keeps_disconnectLink
  by (auto simp: drop_disabled_def split: option.splits if_splits prod.splits)

lemma connect_required_Cons:
  assumes "connect_required now env (nodeID # rest) na = Inr (r, es, na')"
  obtains skip es1 na1 r1 es2 na2 where
    "drop_disabled nodeID na = (skip, es1, na1)"
    "(if skip \<or> connecting_to nodeID na1 then Inr (Inr (), [], na1)
      else na_connect now (env nodeID) OfferTypeExplicit nodeID na1) = Inr (r1, es2, na2)"
    "case r1 of Inl err \<Rightarrow> r = Inl err \<and> es = es1 @ es2 \<and> na' = na2
      | Inr _ \<Rightarrow> \<exists>es3. connect_required now env rest na2 = Inr (r, es3, na') \<and> es = es1 @ es2 @ es3"
proof -
  obtain skip es1 na1 where d: "drop_disabled nodeID na = (skip, es1, na1)" by (metis prod_cases3)
  have "obind (if skip \<or> connecting_to nodeID na1 then Inr (Inr (), [], na1)
      else na_connect now (env nodeID) OfferTypeExplicit nodeID na1) (\<lambda>(r, es', na).
           case r of
             Inl err \<Rightarrow> Inr (Inl err, es1 @ es', na)
           | Inr _ \<Rightarrow> obind (connect_required now env rest na) (\<lambda>(r, es'', na). Inr (r, es1 @ es' @ es'', na))) = Inr (r, es, na')"
    using assms by (simp add: d [unfolded drop_disabled_def] Let_def)
  then obtain x where "(if skip \<or> connecting_to nodeID na1 then Inr (Inr (), [], na1)
      else na_connect now (env nodeID) OfferTypeExplicit nodeID na1) = Inr x"
    and "(\<lambda>(r, es', na).
           case r of
             Inl err \<Rightarrow> Inr (Inl err, es1 @ es', na)
           | Inr _ \<Rightarrow> obind (connect_required now env rest na) (\<lambda>(r, es'', na). Inr (r, es1 @ es' @ es'', na))) x = Inr (r, es, na')"
    unfolding obind_eq_Inr by blast
  with d that show ?thesis
    by (cases x) (fastforce simp: obind_eq_Inr split: sum.splits)
qed

lemma keeps_connect_required:
  "na_inv na \<Longrightarrow> connect_required now env ids na = Inr (r, es, na') \<Longrightarrow> keeps na es na'"
proof (induction ids arbitrary: na es)
  case (Cons nodeID rest)
  from connect_required_Cons [OF Cons.prems(2)] obtain skip es1 na1 r1 es2 na2 where
    d: "drop_disabled nodeID na = (skip, es1, na1)"
    and c: "(if skip \<or> connecting_to nodeID na1 then Inr (Inr (), [], na1)
      else na_connect now (env nodeID) OfferTypeExplicit nodeID na1) = Inr (r1, es2, na2)"
    and r: "case r1 of Inl err \<Rightarrow> r = Inl err \<and> es = es1 @ es2 \<and> na' = na2
      | Inr _ \<Rightarrow> \<exists>es3. connect_required now env rest na2 = Inr (r, es3, na') \<and> es = es1 @ es2 @ es3" .
  have k1: "keeps na es1 na1" using keeps_drop_disabled [OF Cons.prems(1) d] .
  have "keeps na1 es2 na2"
    using c keeps_refl [OF keeps_inv [OF k1]] keeps_connect [OF keeps_inv [OF k1]] by (auto split: if_splits)
  from keeps_trans [OF k1 this] have k: "keeps na (es1 @ es2) na2" .
  then show ?case
    using r Cons.IH [OF keeps_inv [OF k]] keeps_trans [OF k] by (auto split: sum.splits)
qed (auto intro: keeps_refl)

lemma keeps_ConnectLinks:
  assumes inv: "na_inv na" and c: "ConnectLinks now env req keep na = Inr (r, es, na')"
  shows "keeps na es na'"
proof -
  obtain r1 es1 na1 where r1: "connect_required now env req na = Inr (r1, es1, na1)"
    using c by (cases "connect_required now env req na") (auto simp: ConnectLinks_def)
  have k: "keeps na es1 na1" using keeps_connect_required [OF inv r1] .
  show ?thesis
    using c k keeps_trans [OF k keeps_disconnect_if [OF keeps_inv [OF k]]]
    by (auto simp: ConnectLinks_def r1 split: sum.splits prod.splits)
qed

lemma keeps_SignalingOffer:
  assumes inv: "na_inv na" and o: "SignalingOffer now made src offer na = (es, na')"
  shows "keeps na es na'"
proof -
  obtain link na1 where n: "new_link now na = (link, na1)" by fastforce
  have "keeps na [GoAnswer link i src sdp] (put_state i s na1)" if "cs_link s = link" for s i sdp
    using na_inv_put_state [OF inv n that] new_link_maps [OF n] by (intro keeps_silent) (simp_all add: put_state_def)
  moreover have "keeps na [na_sendAnswer src i st sdp] na" for i st sdp
    using inv by (intro keeps_silent) (simp_all add: na_sendAnswer_def)
  ultimately show ?thesis
    using o keeps_refl [OF inv] by (auto simp: SignalingOffer_def accept_offer_def n Let_def split: if_splits sum.splits option.splits)
qed

lemma na_inv_state_update:
  assumes "na_inv na" "mget (na_states na) ref = Some s" "cs_link s' = cs_link s"
  shows "na_inv (na\<lparr>na_states := mput ref s' (na_states na)\<rparr>)"
  using assms unfolding na_inv_def by simp

lemma keeps_same_connections: "keeps na1 es na' \<Longrightarrow> nodeID2link na1 = nodeID2link na \<Longrightarrow> keeps na es na'"
  by (simp add: keeps_def)

lemma keeps_SignalingAnswer:
  assumes inv: "na_inv na" and a: "SignalingAnswer src answer na = (es, na')"
  shows "keeps na es na'"
proof (cases "offer_state na (an_OfferID answer)")
  case None
  then show ?thesis
    using a keeps_refl [OF inv] na_invD(3) [OF inv, of "an_OfferID answer"]
    by (auto simp: SignalingAnswer_def offer_state_def Let_def split: option.splits bind_splits)
next
  case (Some s)
  then obtain ref where ref: "mget (offerID2state na) (an_OfferID answer) = Some ref" "mget (na_states na) ref = Some s"
    by (auto simp: offer_state_def bind_eq_Some_conv)
  have proceed: "keeps na es na'"
    if "na_inv na1" "nodeID2link na1 = nodeID2link na"
      "(if an_Status answer = AnswerStatusReject then disconnectLink l na1 else ([GoRemote ref i src sdp], na1)) = (es, na')"
    for na1 l ref i sdp
  proof (cases "an_Status answer = AnswerStatusReject")
    case True
    then show ?thesis using keeps_same_connections [OF keeps_disconnectLink, of na1] that by simp
  next
    case False
    then show ?thesis using that by (auto intro: keeps_silent)
  qed
  show ?thesis
  proof (cases "cs_nodeID s")
    case None
    have "na_inv (na\<lparr>na_states := mput ref (s\<lparr>cs_nodeID := Some src\<rparr>) (na_states na)\<rparr>)"
      using na_inv_state_update [OF inv ref(2)] by simp
    from proceed [OF this] show ?thesis using a None by (simp add: SignalingAnswer_def ref)
  next
    case (Some n)
    then show ?thesis
      using a keeps_refl [OF inv] proceed [OF inv] by (simp add: SignalingAnswer_def ref split: if_splits)
  qed
qed

lemma keeps_flush_ices:
  assumes inv: "na_inv na" and f: "flush_ices src i ref na = (es, na')"
  shows "keeps na es na'"
proof (cases "mget (na_states na) ref")
  case None
  then show ?thesis using f keeps_refl [OF inv] by (simp add: flush_ices_def)
next
  case (Some s)
  have "na_inv (na\<lparr>na_states := mput ref (s\<lparr>cs_ices := None\<rparr>) (na_states na)\<rparr>)"
    using na_inv_state_update [OF inv Some] by simp
  then show ?thesis
    using f Some by (auto simp: flush_ices_def na_sendICE_def intro!: keeps_silent split: option.splits list.splits)
qed

lemma keeps_run:
  assumes inv: "na_inv na"
  shows "na_run_offer sdp sent link i ot nodeID na = (es, na') \<Longrightarrow> keeps na es na'"
    and "na_run_answer remote sdp sent link i src na = (es, na') \<Longrightarrow> keeps na es na'"
    and "na_run_remote remote ref i src na = (es, na') \<Longrightarrow> keeps na es na'"
    and "na_run_ice upd ref i src ices na = (es, na') \<Longrightarrow> keeps na es na'"
proof -
  obtain ed nd where d: "disconnectLink link na = (ed, nd)" by fastforce
  have kd: "keeps na ed nd" using keeps_disconnectLink [OF inv d] .
  have before: "keeps na (x # ed) nd" if "announcements [x] = []" for x
    using keeps_before [OF kd that] by simp
  show "na_run_offer sdp sent link i ot nodeID na = (es, na') \<Longrightarrow> keeps na es na'"
    using kd inv keeps_before [OF kd] before
    by (auto simp: na_run_offer_def d nl_getLocalSDP_def Let_def split: sum.splits intro: keeps_silent)
  show "na_run_answer remote sdp sent link i src na = (es, na') \<Longrightarrow> keeps na es na'"
    using kd inv keeps_before [OF kd] before
    by (auto simp: na_run_answer_def d nl_getLocalSDP_def nl_setRemoteSDP_def na_sendAnswer_def Let_def
        split: sum.splits intro: keeps_silent)
  show "na_run_remote remote ref i src na = (es, na') \<Longrightarrow> keeps na es na'"
    using inv keeps_flush_ices [OF inv]
    by (auto simp: na_run_remote_def nl_setRemoteSDP_def split: sum.splits intro: keeps_silent)
  show "na_run_ice upd ref i src ices na = (es, na') \<Longrightarrow> keeps na es na'"
    using keeps_before [OF keeps_flush_ices [OF inv]]
    by (auto simp: na_run_ice_def split: prod.splits)
qed

lemma keeps_link_moves:
  assumes inv: "na_inv na" and l: "mget (na_links na) l \<noteq> None"
  shows "keeps na (map (OfLink l) es) (na\<lparr>na_links := mput l n (na_links na)\<rparr>)"
proof (rule keeps_silent)
  show "na_inv (na\<lparr>na_links := mput l n (na_links na)\<rparr>)"
    using inv l unfolding na_inv_def by simp
qed simp_all

lemma keeps_link_sendPacket:
  assumes "na_inv na" "link_sendPacket cd wsend packet l na = Inr (r, es, na')"
  shows "keeps na es na'"
  using assms keeps_link_moves [OF assms(1), of l]
  by (auto simp: link_sendPacket_def obind_eq_Inr split: option.splits)

lemma keeps_multicast:
  "na_inv na \<Longrightarrow> multicast cd wsend packet links na = Inr (r, es, na') \<Longrightarrow> keeps na es na'"
proof (induction links arbitrary: na es)
  case (Cons x rest)
  obtain nodeID link where x: "x = (nodeID, link)" by fastforce
  show ?case
  proof (cases "link_state na link = nodeLinkStateOnline")
    case True
    obtain r1 es1 na1 where s: "link_sendPacket cd wsend (packet\<lparr>DstNodeID := nodeID\<rparr>) link na = Inr (r1, es1, na1)"
      using Cons.prems(2) True by (auto simp: x obind_eq_Inr)
    have k: "keeps na es1 na1" using keeps_link_sendPacket [OF Cons.prems(1) s] .
    show ?thesis
      using Cons.prems(2) True s k Cons.IH [OF keeps_inv [OF k]] keeps_trans [OF k]
      by (auto simp: x obind_eq_Inr split: sum.splits)
  next
    case False
    then show ?thesis using Cons by (simp add: x)
  qed
qed (auto intro: keeps_refl)

lemma keeps_RelayPacket:
  assumes inv: "na_inv na" and r: "na_RelayPacket cd wsend dst packet na = Inr (r, es, na')"
  shows "keeps na es na'"
  using r keeps_refl [OF inv] keeps_multicast [OF inv] keeps_link_sendPacket [OF inv]
  by (auto simp: na_RelayPacket_def obind_eq_Inr split: option.splits if_splits sum.splits)
    (metis obj_sumE old.unit.exhaust)

lemma na_inv_forget_offer:
  assumes inv: "na_inv na" and l: "mget (link2offerID na) link = Some i"
  shows "na_inv (na\<lparr>offerID2state := mdel i (offerID2state na), link2offerID := mdel link (link2offerID na)\<rparr>)"
  using assms unfolding na_inv_def by auto

lemma keeps_connect_link:
  assumes inv: "na_inv na" and l: "mget (link2offerID na) link = None" "mget (na_links na) link \<noteq> None"
    "mget (link2nodeID na) link = None" and n: "mget (nodeID2link na) nodeID = None"
  shows "na_inv (connect_link nodeID link na)"
proof -
  have "mget (link2nodeID na) k \<noteq> Some nodeID" for k using n na_invD(1) [OF inv, of nodeID k] by simp
  moreover have "mget (nodeID2link na) m \<noteq> Some link" for m using l na_invD(1) [OF inv, of m link] by simp
  ultimately show ?thesis
    using inv l n unfolding na_inv_def connect_link_def by auto
qed

lemma keeps_announce: "na_inv na' \<Longrightarrow> keeps na (es @ callChangeConnections na') na'"
  by (simp add: keeps_def)

lemma keeps_link_online:
  assumes inv: "na_inv na" and o: "link_online label link na = Inr (es, na')"
  shows "keeps na es na'"
proof (cases "mget (link2offerID na) link")
  case None
  then show ?thesis using o keeps_refl [OF inv] by (simp add: link_online_def)
next
  case (Some i)
  define na1 where "na1 = na\<lparr>offerID2state := mdel i (offerID2state na), link2offerID := mdel link (link2offerID na)\<rparr>"
  have inv1: "na_inv na1" using na_inv_forget_offer [OF inv Some] by (simp add: na1_def)
  have heap: "mget (na_links na1) link \<noteq> None" using na_invD(7) [OF inv Some] by (simp add: na1_def)
  have free: "mget (link2nodeID na1) link = None" "mget (link2offerID na1) link = None"
    using na_invD(4) [OF inv, of link] Some by (cases "mget (link2nodeID na) link"; simp add: na1_def)+
  obtain nodeID where nid: "Option.bind (offer_state na i) cs_nodeID = Some nodeID"
    using o Some by (auto simp: link_online_def Let_def split: option.splits)
  obtain es1 where main: "(case mget (nodeID2link na1) nodeID of
         Some e \<Rightarrow>
           if link_state na1 e \<noteq> nodeLinkStateOnline \<or> compare_strings (label e) (label link) > 0
           then (case disconnectLink e na1 of (es, na) \<Rightarrow> Inr (es, connect_link nodeID link na))
           else if compare_strings (label e) (label link) = 0
           then Inl (Panic ''data channel label should be unique'')
           else Inr (disconnectLink link na1)
       | None \<Rightarrow> Inr ([], connect_link nodeID link na1)) = Inr (es1, na')"
    and es: "es = es1 @ callChangeConnections na'"
    using o nid by (auto simp: link_online_def Some Let_def na1_def [symmetric] obind_eq_Inr)
  have "na_inv na'"
  proof (cases "mget (nodeID2link na1) nodeID")
    case None
    then show ?thesis using main keeps_connect_link [OF inv1 free(2) heap free(1)] by auto
  next
    case e: (Some e)
    obtain es2 na2 where d: "disconnectLink e na1 = (es2, na2)" by fastforce
    note m = disconnectLink_maps [OF inv1 d]
    have "na_inv (connect_link nodeID link na2)"
      using keeps_inv [OF keeps_disconnectLink [OF inv1 d]] free heap e
      by (intro keeps_connect_link) (simp_all add: m)
    moreover have "na_inv na3" if "disconnectLink link na1 = (es3, na3)" for es3 na3
      using keeps_inv [OF keeps_disconnectLink [OF inv1 that]] .
    ultimately show ?thesis using main by (simp add: e d split: if_splits)
  qed
  then show ?thesis using keeps_announce es by simp
qed

lemma keeps_nodeLinkChangeState:
  assumes inv: "na_inv na" and c: "nodeLinkChangeState label link st na = Inr (es, na')"
  shows "keeps na es na'"
proof (cases st)
  case nodeLinkStateOnline
  then show ?thesis using c keeps_link_online [OF inv] by (auto simp: nodeLinkChangeState_def obind_eq_Inr)
next
  case nodeLinkStateDisabled
  then show ?thesis using c keeps_disconnectLink [OF inv] by (auto simp: nodeLinkChangeState_def split: prod.splits)
qed (use c keeps_refl [OF inv] in \<open>simp add: nodeLinkChangeState_def\<close>)

lemma keeps_nodeLinkUpdateICE:
  assumes inv: "na_inv na" and u: "nodeLinkUpdateICE link ice na = Inr (es, na')"
  shows "keeps na es na'"
proof -
  have "na_inv (na\<lparr>na_states := mput ref (s\<lparr>cs_ices := x\<rparr>) (na_states na)\<rparr>)" if "mget (na_states na) ref = Some s" for ref s x
    using na_inv_state_update [OF inv that] by simp
  then show ?thesis
    using u inv by (auto simp: nodeLinkUpdateICE_def na_sendICE_def split: option.splits intro: keeps_silent)
qed

subsection \<open>Runs of the accessor\<close>

text \<open>
  Calls of the handler, turns of the ticker, bodies of the goroutines, events of the links, in
  any order and with any answers of the libraries; \<open>link_moves\<close> is any operation of a link on
  itself.
\<close>

inductive na_step :: "NodeAccessor \<Rightarrow> na_effect list \<Rightarrow> NodeAccessor \<Rightarrow> bool" where
  start: "na_step na [] (na_Start localNodeID na)"
| alone: "na_step na [] (na_SetBeAlone b na)"
| stop: "na_Stop na = (es, na') \<Longrightarrow> na_step na es na'"
| tick: "na_subRoutine now env na = Inr (es, na') \<Longrightarrow> na_step na es na'"
| connect_links: "ConnectLinks now envs req keep na = Inr (r, es, na') \<Longrightarrow> na_step na es na'"
| offer: "SignalingOffer now made src offer na = (es, na') \<Longrightarrow> na_step na es na'"
| answer: "SignalingAnswer src answer na = (es, na') \<Longrightarrow> na_step na es na'"
| ice: "SignalingICE src ic na = (es, na') \<Longrightarrow> na_step na es na'"
| run_offer: "na_run_offer sdp sent link i ot nodeID na = (es, na') \<Longrightarrow> na_step na es na'"
| run_answer: "na_run_answer remote sdp sent link i src na = (es, na') \<Longrightarrow> na_step na es na'"
| run_remote: "na_run_remote remote ref i src na = (es, na') \<Longrightarrow> na_step na es na'"
| run_ice: "na_run_ice upd ref i src ices na = (es, na') \<Longrightarrow> na_step na es na'"
| relay: "na_RelayPacket cd wsend dst packet na = Inr (r, es, na') \<Longrightarrow> na_step na es na'"
| change_state: "nodeLinkChangeState label link st na = Inr (es, na') \<Longrightarrow> na_step na es na'"
| update_ice: "nodeLinkUpdateICE link s na = Inr (es, na') \<Longrightarrow> na_step na es na'"
| recv_packet: "na_step na (nodeLinkRecvPacket link packet na) na"
| link_moves: "mget (na_links na) l = Some n \<Longrightarrow>
    na_step na (map (OfLink l) les) (na\<lparr>na_links := mput l n' (na_links na)\<rparr>)"

inductive na_reachable :: "duration \<Rightarrow> NodeLinkConfig \<Rightarrow> na_effect list \<Rightarrow> NodeAccessor \<Rightarrow> bool"
  for timeout nlc where
  created: "na_reachable timeout nlc [] (NewNodeAccessor timeout nlc)"
| moved: "na_reachable timeout nlc es na \<Longrightarrow> na_step na es' na' \<Longrightarrow> na_reachable timeout nlc (es @ es') na'"

lemma keeps_step: "na_step na es na' \<Longrightarrow> na_inv na \<Longrightarrow> keeps na es na'"
proof (induction rule: na_step.induct)
  case (stop na es na')
  then show ?case using keeps_disconnect_if by (simp add: na_Stop_def)
next
  case (ice src ic na es na')
  then show ?case by (auto simp: SignalingICE_def Let_def split: option.splits intro: keeps_silent)
next
  case (recv_packet na link packet)
  then show ?case by (intro keeps_silent) (simp_all add: nodeLinkRecvPacket_def)
next
  case (link_moves na l n les n')
  then show ?case by (simp add: keeps_link_moves)
next
  case (start na localNodeID)
  then show ?case by (intro keeps_silent) (simp_all add: na_Start_def na_inv_def)
next
  case (alone na b)
  then show ?case by (intro keeps_silent) (simp_all add: na_SetBeAlone_def na_inv_def)
qed (blast intro: keeps_subRoutine keeps_ConnectLinks keeps_SignalingOffer keeps_SignalingAnswer keeps_run
    keeps_RelayPacket keeps_nodeLinkChangeState keeps_nodeLinkUpdateICE)+

lemma keeps_reachable:
  "na_reachable timeout nlc es na \<Longrightarrow> keeps (NewNodeAccessor timeout nlc) es na"
proof (induction rule: na_reachable.induct)
  case created
  show ?case by (rule keeps_refl) (simp add: na_inv_def NewNodeAccessor_def)
next
  case (moved es na es' na')
  then show ?case using keeps_trans keeps_step keeps_inv by blast
qed

subsection \<open>House keeping\<close>

lemma offer_state_eq:
  assumes "mget (offerID2state na') i = mget (offerID2state na) i" "na_states na' = na_states na"
  shows "offer_state na' i = offer_state na i"
  using assms by (simp add: offer_state_def)

text \<open>Disconnecting a connected link leaves the offers alone, disconnecting a connecting one the connections.\<close>

lemma disconnect_connected:
  assumes inv: "na_inv na" and n: "mget (link2nodeID na) l = Some n" and d: "disconnectLink l na = (es, na')"
  shows "mget (offerID2state na') i = mget (offerID2state na) i" "offer_state na' i = offer_state na i"
    "mget (nodeID2link na') m = (if m = n then None else mget (nodeID2link na) m)"
  using disconnectLink_maps [OF inv d] na_invD(4) [OF inv n] na_invD(1) [OF inv] n
  by (auto intro!: offer_state_eq)

lemma disconnect_connecting:
  assumes inv: "na_inv na" and n: "mget (offerID2state na) i = Some l" and d: "disconnectLink l na = (es, na')"
  shows "mget (offerID2state na') j = (if j = i then None else mget (offerID2state na) j)"
    "mget (nodeID2link na') m = mget (nodeID2link na) m"
proof -
  have o: "mget (link2offerID na) l = Some i" using na_invD(2) [OF inv n] .
  then have "mget (link2nodeID na) l = None" using na_invD(4) [OF inv] by (cases "mget (link2nodeID na) l") auto
  then have "mget (nodeID2link na) m \<noteq> Some l" using na_invD(1) [OF inv] by simp
  then show "mget (offerID2state na') j = (if j = i then None else mget (offerID2state na) j)"
    "mget (nodeID2link na') m = mget (nodeID2link na) m"
    using disconnectLink_maps [OF inv d] o by auto
qed

lemma drop_disabled_links:
  assumes "na_inv na"
    and "disconnect_if (\<lambda>na l. if mhas (link2nodeID na) l \<and> link_state na l = nodeLinkStateDisabled then Some l else None) ls na = (es, na')"
  shows "(mget (nodeID2link na') n = Some l \<longleftrightarrow>
      mget (nodeID2link na) n = Some l \<and> \<not> (l \<in> set ls \<and> link_state na l = nodeLinkStateDisabled)) \<and>
    mget (offerID2state na') i = mget (offerID2state na) i \<and> na_states na' = na_states na \<and>
    na_connectionTimeout na' = na_connectionTimeout na"
  using assms
proof (induction ls arbitrary: na es)
  case (Cons k ls)
  show ?case
  proof (cases "mhas (link2nodeID na) k \<and> link_state na k = nodeLinkStateDisabled")
    case True
    then obtain m where m: "mget (link2nodeID na) k = Some m" by (auto simp: mhas_def)
    obtain es1 na1 where d: "disconnectLink k na = (es1, na1)" by fastforce
    note c = disconnect_connected [OF Cons.prems(1) m d] and e = disconnectLink_maps [OF Cons.prems(1) d]
    have "mget (nodeID2link na) n = Some k \<longleftrightarrow> n = m"
      using na_invD(1) [OF Cons.prems(1), of n k] m by auto
    then show ?thesis
      using Cons.IH [OF keeps_inv [OF keeps_disconnectLink [OF Cons.prems(1) d]]] Cons.prems(2) True
      by (auto simp: d c e split: prod.splits if_splits)
  next
    case False
    have *: "na_inv na" "disconnect_if (\<lambda>na l. if mhas (link2nodeID na) l \<and> link_state na l = nodeLinkStateDisabled then Some l else None) ls na = (es, na')"
      using Cons.prems False by auto
    show ?thesis
      using Cons.IH [OF *] False na_invD(1) [OF Cons.prems(1), of n k] by (auto simp: mhas_def)
  qed
qed simp

lemma drop_expired_offers:
  assumes "na_inv na"
    and "disconnect_if (\<lambda>na offerID. case offer_state na offerID of
               None \<Rightarrow> None
             | Some state \<Rightarrow> if now > cs_creationTimestamp state + na_connectionTimeout na then Some (cs_link state) else None) is na = (es, na')"
  shows "(mget (offerID2state na') i = Some r \<longleftrightarrow> mget (offerID2state na) i = Some r \<and>
      \<not> (i \<in> set is \<and> (\<exists>s. mget (na_states na) r = Some s \<and> now > cs_creationTimestamp s + na_connectionTimeout na))) \<and>
    mget (nodeID2link na') n = mget (nodeID2link na) n"
  using assms
proof (induction "is" arbitrary: na es)
  case (Cons k ks)
  show ?case
  proof (cases "\<exists>s. offer_state na k = Some s \<and> now > cs_creationTimestamp s + na_connectionTimeout na")
    case True
    then obtain s where s: "offer_state na k = Some s" "now > cs_creationTimestamp s + na_connectionTimeout na" by blast
    then have k: "mget (offerID2state na) k = Some (cs_link s)" "mget (na_states na) (cs_link s) = Some s"
      using na_invD(3) [OF Cons.prems(1), of k] by (auto simp: offer_state_def bind_eq_Some_conv)
    obtain es1 na1 where d: "disconnectLink (cs_link s) na = (es1, na1)" by fastforce
    note c = disconnect_connecting [OF Cons.prems(1) k(1) d] and e = disconnectLink_maps [OF Cons.prems(1) d]
    show ?thesis
      using Cons.IH [OF keeps_inv [OF keeps_disconnectLink [OF Cons.prems(1) d]]] Cons.prems(2) s k
      by (auto simp: d c e split: prod.splits if_splits)
  next
    case False
    then have "(case offer_state na k of None \<Rightarrow> None
             | Some state \<Rightarrow> if now > cs_creationTimestamp state + na_connectionTimeout na then Some (cs_link state) else None) = None"
      by (auto split: option.splits)
    then show ?thesis
      using Cons.IH [OF Cons.prems(1)] Cons.prems(2) False by (auto simp: offer_state_def bind_eq_Some_conv)
  qed
qed simp

lemma reachable_inv: "na_reachable timeout nlc es na \<Longrightarrow> na_inv na"
  using keeps_reachable keeps_inv by blast

subsection \<open>Required connections\<close>

definition connected_alive :: "NodeID \<Rightarrow> linkref \<Rightarrow> NodeAccessor \<Rightarrow> bool" where
  "connected_alive n l na \<longleftrightarrow> mget (nodeID2link na) n = Some l \<and> link_state na l \<noteq> nodeLinkStateDisabled"

definition pursued :: "NodeID \<Rightarrow> NodeAccessor \<Rightarrow> bool" where
  "pursued n na \<longleftrightarrow> (\<exists>l. connected_alive n l na) \<or> connecting_to n na"

text \<open>From \<open>na\<close> to \<open>na'\<close> nothing that is alive is lost.\<close>

definition extends :: "NodeAccessor \<Rightarrow> NodeAccessor \<Rightarrow> bool" where
  "extends na na' \<longleftrightarrow> (\<forall>n l. connected_alive n l na \<longrightarrow> connected_alive n l na') \<and>
     (\<forall>i s. offer_state na i = Some s \<longrightarrow> offer_state na' i = Some s)"

lemma extends_refl: "extends na na" and extends_trans: "extends na na' \<Longrightarrow> extends na' na'' \<Longrightarrow> extends na na''"
  by (auto simp: extends_def)

lemma connecting_to_iff: "connecting_to n na \<longleftrightarrow> (\<exists>i s. offer_state na i = Some s \<and> cs_nodeID s = Some n)"
proof
  assume "connecting_to n na"
  then obtain i s where "offer_state na i = Some s" "nid_Equal (cs_nodeID s) (Some n)"
    by (auto simp: connecting_to_def list_ex_iff split: option.splits)
  then show "\<exists>i s. offer_state na i = Some s \<and> cs_nodeID s = Some n"
    by (auto simp: nid_Equal_eq)
next
  assume "\<exists>i s. offer_state na i = Some s \<and> cs_nodeID s = Some n"
  then obtain i s where i: "offer_state na i = Some s" "cs_nodeID s = Some n" by blast
  then have "i \<in> set (mkeys (offerID2state na))" by (auto simp: offer_state_def bind_eq_Some_conv set_mkeys)
  with i show "connecting_to n na" by (force simp: connecting_to_def list_ex_iff)
qed

lemma extends_pursued: "extends na na' \<Longrightarrow> pursued n na \<Longrightarrow> pursued n na'"
  by (auto simp: extends_def pursued_def connecting_to_iff) blast+

lemma extends_drop_disabled:
  assumes inv: "na_inv na" and d: "drop_disabled nodeID na = (skip, es, na')"
  shows "extends na na'" "mget (offerID2state na') i = mget (offerID2state na) i"
    "skip \<longrightarrow> pursued nodeID na'" "\<not> skip \<longrightarrow> \<not> mhas (nodeID2link na') nodeID"
proof -
  have "extends na na' \<and> mget (offerID2state na') i = mget (offerID2state na) i \<and>
    (skip \<longrightarrow> pursued nodeID na') \<and> (\<not> skip \<longrightarrow> \<not> mhas (nodeID2link na') nodeID)"
  proof (cases "\<exists>l. mget (nodeID2link na) nodeID = Some l \<and> link_state na l = nodeLinkStateDisabled")
    case True
    then obtain l where l: "mget (nodeID2link na) nodeID = Some l" "link_state na l = nodeLinkStateDisabled" by blast
    obtain es1 na1 where dl: "disconnectLink l na = (es1, na1)" by fastforce
    have n: "mget (link2nodeID na) l = Some nodeID" using na_invD(1) [OF inv] l by simp
    show ?thesis
      using d disconnect_connected [OF inv n dl] disconnectLink_maps(9) [OF inv dl] l
      by (auto simp: drop_disabled_def dl extends_def connected_alive_def mhas_def)
  next
    case False
    then show ?thesis
      using d by (auto simp: drop_disabled_def extends_refl pursued_def connected_alive_def mhas_def split: option.splits if_splits)
  qed
  then show "extends na na'" "mget (offerID2state na') i = mget (offerID2state na) i"
    "skip \<longrightarrow> pursued nodeID na'" "\<not> skip \<longrightarrow> \<not> mhas (nodeID2link na') nodeID" by blast+
qed

definition env_ok :: "conn_env \<Rightarrow> bool" where
  "env_ok env \<longleftrightarrow> \<not> isl (ce_uuid env) \<and> \<not> isl (ce_link env)"

lemma connect_succeeds:
  assumes inv: "na_inv na" and env: "env_ok env" and a: "\<not> mhas (nodeID2link na) nodeID" "\<not> connecting_to nodeID na"
    and f: "\<not> mhas (offerID2state na) (ce_draw env)"
  shows "\<exists>es na'. na_connect now env OfferTypeExplicit nodeID na = Inr (Inr (), es, na') \<and> extends na na' \<and> pursued nodeID na' \<and>
    set (mkeys (offerID2state na')) = insert (ce_draw env) (set (mkeys (offerID2state na)))"
proof -
  obtain link na1 where n: "new_link now na = (link, na1)" by fastforce
  let ?s = "\<lparr>cs_isPrime = True, cs_ices = Some [], cs_link = link, cs_nodeID = Some nodeID, cs_creationTimestamp = now\<rparr>"
  let ?na = "put_state (ce_draw env) ?s na1"
  have "na_connect now env OfferTypeExplicit nodeID na = Inr (Inr (), [GoOffer link (ce_draw env) OfferTypeExplicit nodeID], ?na)"
    using env a f by (auto simp: na_connect_def n assignedNodeID_def new_link_maps [OF n] env_ok_def Let_def split: sum.splits)
  moreover have "l \<noteq> na_next na" if "mget (nodeID2link na) m = Some l" for m l
    using that na_inv_fresh(4) [OF inv] by blast
  then have "extends na ?na"
    using na_inv_fresh(5) [OF inv] f n
    by (auto simp: extends_def connected_alive_def put_state_def new_link_def link_state_def offer_state_def mhas_def bind_eq_Some_conv)
  moreover have "offer_state ?na (ce_draw env) = Some ?s" by (simp add: offer_state_def put_state_def)
  then have "pursued nodeID ?na" by (force simp: pursued_def connecting_to_iff)
  moreover have "set (mkeys (offerID2state ?na)) = insert (ce_draw env) (set (mkeys (offerID2state na)))"
    using n by (auto simp: set_mkeys put_state_def new_link_def dom_def)
  ultimately show ?thesis by blast
qed

lemma connect_required_succeeds:
  assumes "na_inv na" "\<forall>n \<in> set ids. env_ok (env n)" "inj_on (\<lambda>n. ce_draw (env n)) (set ids)"
    "\<forall>n \<in> set ids. pursued n na \<or> \<not> mhas (offerID2state na) (ce_draw (env n))"
  shows "\<exists>es na'. connect_required now env ids na = Inr (Inr (), es, na') \<and> extends na na' \<and> (\<forall>n \<in> set ids. pursued n na')"
  using assms
proof (induction ids arbitrary: na)
  case (Cons n ns)
  obtain skip es1 na1 where d: "drop_disabled n na = (skip, es1, na1)" by (metis prod_cases3)
  note e1 = extends_drop_disabled [OF Cons.prems(1) d] and inv1 = keeps_inv [OF keeps_drop_disabled [OF Cons.prems(1) d]]
  have keys1: "set (mkeys (offerID2state na1)) = set (mkeys (offerID2state na))" by (simp add: set_mkeys dom_def e1(2))
  obtain es2 na2 where c: "(if skip \<or> connecting_to n na1 then Inr (Inr (), [], na1)
      else na_connect now (env n) OfferTypeExplicit n na1) = Inr (Inr (), es2, na2)"
    and e2: "extends na1 na2" "pursued n na2"
      "set (mkeys (offerID2state na2)) \<subseteq> insert (ce_draw (env n)) (set (mkeys (offerID2state na)))"
  proof (cases "skip \<or> connecting_to n na1")
    case True
    then show thesis using that e1(3) keys1 extends_refl [of na1] by (auto simp: pursued_def)
  next
    case False
    then have nc: "\<not> mhas (nodeID2link na1) n" "\<not> connecting_to n na1" using e1(4) by auto
    then have "\<not> pursued n na" using extends_pursued [OF e1(1), of n] by (auto simp: pursued_def connected_alive_def mhas_def)
    then have "\<not> mhas (offerID2state na1) (ce_draw (env n))" using Cons.prems(4) keys1 by (auto simp: mhas_iff)
    moreover have "env_ok (env n)" using Cons.prems(2) by simp
    ultimately obtain es2 na2 where "na_connect now (env n) OfferTypeExplicit n na1 = Inr (Inr (), es2, na2)"
      "extends na1 na2" "pursued n na2"
      "set (mkeys (offerID2state na2)) = insert (ce_draw (env n)) (set (mkeys (offerID2state na1)))"
      using connect_succeeds [OF inv1 _ nc] by blast
    then show thesis using that [of es2 na2] False keys1 by simp
  qed
  have inv2: "na_inv na2" using c inv1 keeps_inv [OF keeps_connect [OF inv1]] by (auto split: if_splits)
  have "pursued m na2 \<or> \<not> mhas (offerID2state na2) (ce_draw (env m))" if m: "m \<in> set ns" for m
  proof (cases "m = n \<or> pursued m na")
    case True
    then show ?thesis using e2(2) extends_pursued [OF extends_trans [OF e1(1) e2(1)]] by blast
  next
    case False
    then have "ce_draw (env m) \<noteq> ce_draw (env n)" using Cons.prems(3) m by (auto simp: inj_on_def)
    then show ?thesis using e2(3) Cons.prems(4) m False by (auto simp: mhas_iff)
  qed
  then obtain es3 na3 where r: "connect_required now env ns na2 = Inr (Inr (), es3, na3)"
    and e3: "extends na2 na3" "\<forall>n \<in> set ns. pursued n na3"
    using Cons.IH [OF inv2] Cons.prems by (auto simp: inj_on_def)
  have "connect_required now env (n # ns) na = Inr (Inr (), es1 @ es2 @ es3, na3)"
    using d [unfolded drop_disabled_def] c by (simp add: Let_def r)
  then show ?case
    using e3 extends_pursued [OF e3(1) e2(2)] extends_trans [OF e1(1) extends_trans [OF e2(1) e3(1)]] by auto
qed (auto simp: extends_refl)

lemma drop_unwanted:
  assumes "na_inv na" "disconnect_if (\<lambda>na n. if n \<in> R \<or> n \<in> K then None else mget (nodeID2link na) n) ns na = (es, na')"
  shows "(mget (nodeID2link na') n = (if n \<in> set ns - (R \<union> K) then None else mget (nodeID2link na) n)) \<and>
    (connected_alive m l na \<and> m \<in> R \<union> K \<longrightarrow> connected_alive m l na') \<and> offer_state na' i = offer_state na i"
  using assms
proof (induction ns arbitrary: na es)
  case (Cons k ks)
  show ?case
  proof (cases "k \<in> R \<union> K \<or> mget (nodeID2link na) k = None")
    case True
    then have "disconnect_if (\<lambda>na n. if n \<in> R \<or> n \<in> K then None else mget (nodeID2link na) n) ks na = (es, na')"
      using Cons.prems(2) by (cases "k \<in> R \<or> k \<in> K") auto
    from Cons.IH [OF Cons.prems(1) this] True show ?thesis by auto
  next
    case False
    then obtain x where x: "mget (nodeID2link na) k = Some x" "k \<notin> R" "k \<notin> K" by auto
    obtain es1 na1 where d: "disconnectLink x na = (es1, na1)" by fastforce
    have n: "mget (link2nodeID na) x = Some k" using na_invD(1) [OF Cons.prems(1)] x by simp
    note c = disconnect_connected [OF Cons.prems(1) n d] and e = disconnectLink_maps(9) [OF Cons.prems(1) d]
    have "connected_alive m l na1" if "connected_alive m l na" "m \<in> R \<union> K"
      using that x na_invD(1) [OF Cons.prems(1), of m x] n by (auto simp: connected_alive_def c e)
    then show ?thesis
      using Cons.IH [OF keeps_inv [OF keeps_disconnectLink [OF Cons.prems(1) d]]] Cons.prems(2) x
      by (auto simp: d c split: prod.splits)
  qed
qed simp

subsection \<open>Two links to one node\<close>



subsection \<open>Properties\<close>

text \<open>
  C5. In every state the accessor can reach, the set of nodes it announced last is the set
  of its connections (so the routing layers know them), \<open>nodeID2link\<close> and \<open>link2nodeID\<close> are inverse to each
  other, and no link is connecting and connected at once. This is over all orders
  of calls, ticks, goroutines and link events, and all answers of the libraries.
\<close>

theorem connections_announced:
  assumes "na_reachable timeout nlc es na"
  shows "known_after {} es = set (mkeys (nodeID2link na)) \<and>
    (\<forall>n l. mget (nodeID2link na) n = Some l \<longleftrightarrow> mget (link2nodeID na) l = Some n) \<and>
    set (mkeys (link2nodeID na)) \<inter> set (mkeys (link2offerID na)) = {}"
proof -
  have k: "keeps (NewNodeAccessor timeout nlc) es na" using keeps_reachable [OF assms] .
  moreover have "mkeys (nodeID2link (NewNodeAccessor timeout nlc)) = []" by (simp add: NewNodeAccessor_def)
  ultimately show ?thesis
    using na_invD(1,4) [OF keeps_inv [OF k]] by (auto simp: keeps_def set_mkeys dom_def)
qed

text \<open>
  C28. The house keeping removes exactly the connections whose link is disabled and the
  connection attempts older than the timeout, and keeps all others.
\<close>

theorem houseKeeping_exact:
  assumes "na_reachable timeout nlc es0 na" and "houseKeeping now na = (es, na')"
  shows "(mget (nodeID2link na') n = Some l \<longleftrightarrow>
      mget (nodeID2link na) n = Some l \<and> link_state na l \<noteq> nodeLinkStateDisabled) \<and>
    (mget (offerID2state na') i = Some r \<longleftrightarrow> mget (offerID2state na) i = Some r \<and>
      (\<exists>s. mget (na_states na) r = Some s \<and> now \<le> cs_creationTimestamp s + na_connectionTimeout na))"
proof -
  have inv: "na_inv na" using reachable_inv [OF assms(1)] .
  obtain es1 na1 where 1: "disconnect_if (\<lambda>na l. if mhas (link2nodeID na) l \<and> link_state na l = nodeLinkStateDisabled then Some l else None)
      (mkeys (link2nodeID na)) na = (es1, na1)" by fastforce
  have inv1: "na_inv na1" using keeps_inv [OF keeps_disconnect_if [OF inv 1]] .
  have 2: "\<exists>es2. disconnect_if (\<lambda>na offerID. case offer_state na offerID of None \<Rightarrow> None
      | Some state \<Rightarrow> if now > cs_creationTimestamp state + na_connectionTimeout na then Some (cs_link state) else None)
      (mkeys (offerID2state na1)) na1 = (es2, na')"
    using assms(2) by (auto simp: houseKeeping_def 1 split: prod.splits)
  note h1 = drop_disabled_links [OF inv 1]
  have "l \<in> set (mkeys (link2nodeID na))" if "mget (nodeID2link na) n = Some l"
    using that na_invD(1) [OF inv] by (auto simp: set_mkeys)
  moreover have "i \<in> set (mkeys (offerID2state na1))" if "mget (offerID2state na1) i = Some r"
    using that by (auto simp: set_mkeys)
  moreover have "\<exists>s. mget (na_states na) r = Some s" if "mget (offerID2state na) i = Some r"
    using na_invD(3) [OF inv that] by blast
  ultimately show ?thesis
    using h1 [of n l i] drop_expired_offers [OF inv1, of now "mkeys (offerID2state na1)" _ na' i r n] 2
    by (auto simp: not_less)
qed

lemma connectLinks_result:
  assumes "na_reachable timeout nlc es0 na" and "\<forall>n \<in> set req. env_ok (env n)"
    and "inj_on (\<lambda>n. ce_draw (env n)) (set req)" and "\<forall>n \<in> set req. \<not> mhas (offerID2state na) (ce_draw (env n))"
  shows "\<exists>es na'. ConnectLinks now env req keep na = Inr (Inr (), es, na') \<and>
    (\<forall>n \<in> set req. pursued n na') \<and> set (mkeys (nodeID2link na')) \<subseteq> set req \<union> set keep \<and>
    (\<forall>n l. n \<in> set req \<union> set keep \<and> connected_alive n l na \<longrightarrow> connected_alive n l na')"
proof -
  have inv: "na_inv na" using reachable_inv [OF assms(1)] .
  obtain es1 na1 where c: "connect_required now env req na = Inr (Inr (), es1, na1)"
    and e: "extends na na1" "\<forall>n \<in> set req. pursued n na1"
    using connect_required_succeeds [OF inv assms(2,3)] assms(4) by blast
  have inv1: "na_inv na1" using keeps_inv [OF keeps_connect_required [OF inv c]] .
  obtain es2 na2 where d: "disconnect_if (\<lambda>na n. if n \<in> set req \<or> n \<in> set keep then None else mget (nodeID2link na) n)
      (mkeys (nodeID2link na1)) na1 = (es2, na2)" by fastforce
  note u = drop_unwanted [OF inv1 d]
  have "ConnectLinks now env req keep na = Inr (Inr (), es1 @ es2, na2)" by (simp add: ConnectLinks_def c d)
  moreover have "\<forall>n \<in> set req. pursued n na2" using e(2) u by (auto simp: pursued_def connecting_to_iff) blast+
  moreover have "n \<in> set req \<union> set keep" if "n \<in> set (mkeys (nodeID2link na2))" for n
  proof (rule ccontr)
    assume n: "n \<notin> set req \<union> set keep"
    obtain y where y: "mget (nodeID2link na2) n = Some y" using \<open>n \<in> set (mkeys (nodeID2link na2))\<close> by (auto simp: set_mkeys)
    show False using u [of n] n y by (cases "mget (nodeID2link na1) n") (auto simp: set_mkeys split: if_splits)
  qed
  moreover have "connected_alive n l na2" if "n \<in> set req \<union> set keep" "connected_alive n l na" for n l
    using that e(1) u by (auto simp: extends_def)
  ultimately show ?thesis by blast
qed

text \<open>
  \<open>ConnectLinks\<close> returns when the libraries can make links and the drawn offer identifiers are
  fresh and distinct, and then: every required node has a live link or is being connected to,
  only required and kept nodes are connected, and no live link to such a node is lost.
\<close>

theorem connectLinks_connects:
  assumes "na_reachable timeout nlc es0 na" and "\<forall>n \<in> set req. env_ok (env n)"
    and "inj_on (\<lambda>n. ce_draw (env n)) (set req)" and "\<forall>n \<in> set req. \<not> mhas (offerID2state na) (ce_draw (env n))"
  shows "\<exists>es na'. ConnectLinks now env req keep na = Inr (Inr (), es, na') \<and>
    (\<forall>n \<in> set req. pursued n na') \<and> set (mkeys (nodeID2link na')) \<subseteq> set req \<union> set keep \<and>
    (\<forall>n l. n \<in> set req \<union> set keep \<and> connected_alive n l na \<longrightarrow> connected_alive n l na')"
  by (rule connectLinks_result [OF assms])


subsection \<open>A run\<close>

definition peer :: NodeID where "peer = NodeID typeNormal 0 2"

definition run_offer_of :: "32 word \<Rightarrow> Offer" where
  "run_offer_of i = \<lparr>of_OfferID = i, of_OfferType = OfferTypeExplicit, of_Sdp = []\<rparr>"

definition run_online :: nodeLink where "run_online = (newNodeLink ex_config 1)\<lparr>nl_state := nodeLinkStateOnline\<rparr>"

definition run_state :: "linkref \<Rightarrow> connectingState" where
  "run_state l = \<lparr>cs_isPrime = False, cs_ices = Some [], cs_link = l, cs_nodeID = Some peer, cs_creationTimestamp = 1\<rparr>"

definition run1 :: NodeAccessor where
  "run1 = (NewNodeAccessor 5 ex_config)\<lparr>na_links := [(0, run_online)], na_next := 1, na_states := [(0, run_state 0)],
     nodeID2link := [(peer, 0)], link2nodeID := [(0, peer)]\<rparr>"

definition run2 :: NodeAccessor where
  "run2 = run1\<lparr>na_links := [(0, run_online), (1, newNodeLink ex_config 1)], na_next := 2,
     na_states := [(0, run_state 0), (1, run_state 1)], offerID2state := [(8, 1)], link2offerID := [(1, 8)]\<rparr>"

text \<open>The peer offers a link, the link comes up, the peer offers another one.\<close>

lemma run1_reachable: "na_reachable 5 ex_config [GoAnswer 0 7 peer [], ChangeConnections [peer]] run1"
proof -
  let ?a = "(NewNodeAccessor 5 ex_config)\<lparr>na_links := [(0, newNodeLink ex_config 1)], na_next := 1,
      na_states := [(0, run_state 0)], offerID2state := [(7, 0)], link2offerID := [(0, 7)]\<rparr>"
  have "SignalingOffer 1 (Inr ()) peer (run_offer_of 7) (NewNodeAccessor 5 ex_config) = ([GoAnswer 0 7 peer []], ?a)"
    by (simp add: SignalingOffer_def NewNodeAccessor_def accept_offer_def new_link_def put_state_def run_offer_of_def
        run_state_def offer_state_def Let_def)
  from na_reachable.moved [OF na_reachable.created na_step.offer [OF this]]
  have "na_reachable 5 ex_config [GoAnswer 0 7 peer []] ?a" by simp
  from na_reachable.moved [OF this na_step.link_moves [of ?a 0 "newNodeLink ex_config 1" "[]" run_online]]
  have r: "na_reachable 5 ex_config [GoAnswer 0 7 peer []] (?a\<lparr>na_links := [(0, run_online)]\<rparr>)" by simp
  have "nodeLinkChangeState (\<lambda>_. []) 0 nodeLinkStateOnline (?a\<lparr>na_links := [(0, run_online)]\<rparr>) = Inr ([ChangeConnections [peer]], run1)"
    by (simp add: nodeLinkChangeState_def link_online_def NewNodeAccessor_def offer_state_def run_state_def connect_link_def
        callChangeConnections_def run1_def Let_def)
  from na_reachable.moved [OF r na_step.change_state [OF this]] show ?thesis by simp
qed

lemma run2_reachable: "na_reachable 5 ex_config [GoAnswer 0 7 peer [], ChangeConnections [peer], GoAnswer 1 8 peer []] run2"
proof -
  have "SignalingOffer 1 (Inr ()) peer (run_offer_of 8) run1 = ([GoAnswer 1 8 peer []], run2)"
    by (simp add: SignalingOffer_def NewNodeAccessor_def accept_offer_def new_link_def put_state_def run_offer_of_def
        run_state_def offer_state_def run1_def run2_def Let_def)
  from na_reachable.moved [OF run1_reachable na_step.offer [OF this]] show ?thesis by simp
qed

theorem connections_announced_witness:
  "known_after {} [GoAnswer 0 7 peer [], ChangeConnections [peer], GoAnswer 1 8 peer []] = {peer} \<and>
   set (mkeys (link2nodeID run2)) \<inter> set (mkeys (link2offerID run2)) = {}"
  using connections_announced [OF run2_reachable] by (simp add: run2_def run1_def)

theorem houseKeeping_exact_witness:
  "\<exists>es na'. houseKeeping 7 run2 = (es, na') \<and> mget (nodeID2link na') peer = Some 0 \<and> mget (offerID2state na') 8 \<noteq> Some 1"
proof -
  obtain es na' where h: "houseKeeping 7 run2 = (es, na')" by fastforce
  show ?thesis
    using houseKeeping_exact [OF run2_reachable h, of peer 0 8 1] h
    by (simp add: run2_def run1_def link_state_def run_online_def run_state_def NewNodeAccessor_def)
qed

theorem connectLinks_connects_witness:
  "\<exists>es na'. ConnectLinks 9 (\<lambda>_. \<lparr>ce_uuid = Inr ''u'', ce_link = Inr (), ce_draw = 9\<rparr>) [NodeID typeNormal 0 3] [] run2 = Inr (Inr (), es, na') \<and>
     pursued (NodeID typeNormal 0 3) na' \<and> set (mkeys (nodeID2link na')) \<subseteq> {NodeID typeNormal 0 3}"
  using connectLinks_connects [OF run2_reachable, of "[NodeID typeNormal 0 3]"
      "\<lambda>_. \<lparr>ce_uuid = Inr ''u'', ce_link = Inr (), ce_draw = 9\<rparr>" 9 "[]"]
  by (auto simp: env_ok_def run2_def run1_def)


text \<open>
  An offer that arrives twice (the seed may resend it) makes two links with one offer identifier; when
  both come up, the second one finds its connecting state gone and the program panics.
\<close>

theorem repeated_offer_panics:
  "\<exists>na1 na2 na3 es3.
     snd (SignalingOffer 1 (Inr ()) peer (run_offer_of 7) (NewNodeAccessor 5 ex_config)) = na1 \<and>
     snd (SignalingOffer 2 (Inr ()) peer (run_offer_of 7) na1) = na2 \<and>
     nodeLinkChangeState label 0 nodeLinkStateOnline na2 = Inr (es3, na3) \<and>
     nodeLinkChangeState label 1 nodeLinkStateOnline na3 = Inl (Panic ''nil pointer dereference'')"
  by (simp add: SignalingOffer_def NewNodeAccessor_def accept_offer_def new_link_def put_state_def run_offer_of_def
      offer_state_def nodeLinkChangeState_def link_online_def connect_link_def Let_def)

end
