(* ===== verification/Wait_Any.thy ===== *)
theory Wait_Any
  imports Prelude
begin

text \<open>
  Waiting for the first success of several tasks (\<open>src/node/internal/wait_any/wait_any.go\<close>). A
  call of \<open>Wait\<close> that has to wait in the given state is the value \<open>Blocked\<close>; every \<open>Done\<close> wakes the
  waiters, which look at the state again.
\<close>

record WaitAny =
  wa_remains :: int
  wa_result :: bool

definition NewWaitAny :: WaitAny where
  "NewWaitAny = \<lparr>wa_remains = 0, wa_result = False\<rparr>"

definition wa_Add :: "int \<Rightarrow> WaitAny \<Rightarrow> WaitAny" where
  "wa_Add delta w = w\<lparr>wa_remains := wa_remains w + delta\<rparr>"

definition wa_Done :: "bool \<Rightarrow> WaitAny \<Rightarrow> WaitAny outcome" where
  "wa_Done result w =
     (if wa_remains w \<le> 0 then Inl (Panic ''negative WaitAny counter'')
      else let w = w\<lparr>wa_remains := wa_remains w - 1\<rparr>
           in Inr (if result then w\<lparr>wa_result := True\<rparr> else w))"

definition wa_Wait :: "WaitAny \<Rightarrow> bool outcome" where
  "wa_Wait w = (if \<not> wa_result w \<and> wa_remains w \<noteq> 0 then Inl Blocked else Inr (wa_result w))"

lemma dones:
  assumes "int (length rs) \<le> wa_remains w"
  shows "ofold wa_Done rs w = Inr \<lparr>wa_remains = wa_remains w - int (length rs), wa_result = (wa_result w \<or> True \<in> set rs)\<rparr>"
  using assms
  by (induction rs arbitrary: w) (auto simp: wa_Done_def Let_def)

text \<open>
  Waiting for any: of \<open>n\<close> tasks some have ended. \<open>Wait\<close> returns true as soon as one of
  them succeeded, false exactly when all have ended and none succeeded, and waits
  otherwise; one more end than tasks panics.
\<close>

theorem wait_any_spec:
  "(case ofold wa_Done rs (wa_Add (int n) NewWaitAny) of
      Inl e \<Rightarrow> n < length rs \<and> e = Panic ''negative WaitAny counter''
    | Inr w \<Rightarrow> length rs \<le> n \<and>
        wa_Wait w = (if True \<in> set rs then Inr True else if length rs = n then Inr False else Inl Blocked))"
proof (cases "length rs \<le> n")
  case True
  then show ?thesis using dones [of rs "wa_Add (int n) NewWaitAny"] by (auto simp: wa_Add_def NewWaitAny_def wa_Wait_def)
next
  case False
  then obtain as b bs where rs: "rs = as @ b # bs" "length as = n"
    by (metis add_diff_inverse_nat id_take_nth_drop length_take less_imp_le_nat min.absorb2 not_le)
  have "ofold wa_Done as (wa_Add (int n) NewWaitAny) = Inr \<lparr>wa_remains = 0, wa_result = (True \<in> set as)\<rparr>"
    using dones [of as "wa_Add (int n) NewWaitAny"] rs(2) by (simp add: wa_Add_def NewWaitAny_def)
  then show ?thesis using False rs by (simp add: ofold_append wa_Done_def)
qed

end
