(* ===== verification/Spread.thy ===== *)
theory Spread
  imports Transferer Routing2D Wait_Any
begin

text \<open>
  Spreading a message over an area (\<open>src/node/internal/spread/spread.go\<close>): a message is relayed
  towards its centre and then flooded among the nodes within its radius; a cache of message
  identifiers keeps a node from handling a message twice.

  A user's handler is a value of type \<open>'f\<close>. \<open>relay\<close> is the next step by position that the node's
  network gives. The random identifiers a request draws are given per destination. \<open>Post\<close> is cut where it
  waits: it returns, or waits for a \<open>WaitAny\<close> that the response handlers complete.
\<close>

definition optSomeoneMustExists :: "32 word" where "optSomeoneMustExists = 1"

definition ErrSomeoneMustReceiveViolation :: string where
  "ErrSomeoneMustReceiveViolation = ''receiving node not found''"

record sp_Options =
  SomeoneMustExists :: bool

record sp_Request =
  sq_SourceNodeID :: NodeID
  sq_Message :: bytes
  sq_Options :: sp_Options

record cache =
  ca_srcNodeID :: NodeID
  ca_uid :: "64 word"
  ca_center :: Coordinate
  ca_r :: real
  ca_name :: string
  ca_message :: bytes
  ca_opt :: sp_Options
  ca_timestamp :: time

record 'f Spread =
  cacheLifetime :: duration
  sizeToUseKnock :: "64 word"
  sp_handlers :: "(string, 'f) gomap"
  sp_cache :: "(64 word, cache) gomap"
  sp_localNodeID :: NodeID
  localPosition :: "Coordinate option"
  nextNodePositions :: "(NodeID, Coordinate) gomap"

text \<open>
  The response handlers a node registers with its transferer: of a posted message, of a
  knock (the message and the node to send it to), of a relay (the \<open>WaitAny\<close> it completes).
\<close>

datatype node_handler =
    MessagingResponseHandler nat
  | KnockHandler cache NodeID
  | RelayHandler nat

datatype 'f sp_effect =
    SpTransfer "node_handler tr_effect"
  | SpHandler 'f sp_Request

definition convertOptToProto :: "sp_Options \<Rightarrow> 32 word" where
  "convertOptToProto opt = (if SomeoneMustExists opt then 0 OR optSomeoneMustExists else 0)"

definition convertOptFromProto :: "32 word \<Rightarrow> sp_Options" where
  "convertOptFromProto opt = \<lparr>SomeoneMustExists = (optSomeoneMustExists AND opt \<noteq> 0)\<rparr>"

definition NewSpread :: "duration \<Rightarrow> 64 word \<Rightarrow> 'h Transferer \<Rightarrow> ('f Spread \<times> 'h Transferer) outcome" where
  "NewSpread lifetime knockSize t =
     obind (SetRequestHandler K_SpreadKnock t) (\<lambda>t. obind (SetRequestHandler K_SpreadRelay t) (\<lambda>t.
       obind (SetRequestHandler K_Spread t) (\<lambda>t.
         Inr (\<lparr>cacheLifetime = lifetime, sizeToUseKnock = knockSize, sp_handlers = [], sp_cache = [], sp_localNodeID = NodeLocal,
               localPosition = None, nextNodePositions = []\<rparr>, t))))"

text \<open>Starting; the goroutine calls \<open>cleanupCache\<close> at half the lifetime, which has to be positive.\<close>

definition sp_Start :: "NodeID \<Rightarrow> 'f Spread \<Rightarrow> 'f Spread outcome" where
  "sp_Start localNodeID s =
     (if cacheLifetime s div 2 \<le> 0 then Inl (Panic ''non-positive interval for NewTicker'')
      else Inr (s\<lparr>sp_localNodeID := localNodeID\<rparr>))"

definition sp_UpdateLocalPosition :: "Coordinate \<Rightarrow> 'f Spread \<Rightarrow> 'f Spread" where
  "sp_UpdateLocalPosition pos s = s\<lparr>localPosition := Some pos\<rparr>"

definition sp_UpdateNextNodePosition :: "(NodeID, Coordinate) gomap \<Rightarrow> 'f Spread \<Rightarrow> 'f Spread" where
  "sp_UpdateNextNodePosition positions s = s\<lparr>nextNodePositions := positions\<rparr>"

definition sp_SetHandler :: "string \<Rightarrow> 'f \<Rightarrow> 'f Spread \<Rightarrow> 'f Spread" where
  "sp_SetHandler name handler s = s\<lparr>sp_handlers := mput name handler (sp_handlers s)\<rparr>"

definition sp_UnsetHandler :: "string \<Rightarrow> 'f Spread \<Rightarrow> 'f Spread" where
  "sp_UnsetHandler name s = s\<lparr>sp_handlers := mdel name (sp_handlers s)\<rparr>"

definition sp_distance :: "CoordinateOps \<Rightarrow> Coordinate \<Rightarrow> 'f Spread \<Rightarrow> real outcome" where
  "sp_distance co center s =
     (case localPosition s of
        None \<Rightarrow> Inl (Panic ''nil pointer dereference'')
      | Some pos \<Rightarrow> Inr (co_GetDistance co center pos))"

subsection \<open>The cache\<close>

fun draw_uid :: "64 word list \<Rightarrow> (64 word, cache) gomap \<Rightarrow> 64 word option" where
  "draw_uid [] m = None"
| "draw_uid (uid # draws) m = (if uid = 0 \<or> mhas m uid then draw_uid draws m else Some uid)"

definition makeCacheWithUID ::
  "time \<Rightarrow> NodeID \<Rightarrow> 64 word \<Rightarrow> Coordinate \<Rightarrow> real \<Rightarrow> string \<Rightarrow> bytes \<Rightarrow> sp_Options \<Rightarrow> 'f Spread \<Rightarrow> cache \<times> 'f Spread" where
  "makeCacheWithUID now srcNodeID uid center r name message opt s =
     (let cache = \<lparr>ca_srcNodeID = srcNodeID, ca_uid = uid, ca_center = center, ca_r = r, ca_name = name,
                   ca_message = message, ca_opt = opt, ca_timestamp = now\<rparr>
      in (cache, s\<lparr>sp_cache := mput uid cache (sp_cache s)\<rparr>))"

definition makeCache ::
  "64 word list \<Rightarrow> time \<Rightarrow> Coordinate \<Rightarrow> real \<Rightarrow> string \<Rightarrow> bytes \<Rightarrow> sp_Options \<Rightarrow> 'f Spread \<Rightarrow> (cache \<times> 'f Spread) outcome" where
  "makeCache uids now center r name message opt s =
     (case draw_uid uids (sp_cache s) of
        None \<Rightarrow> Inl Blocked
      | Some uid \<Rightarrow> Inr (makeCacheWithUID now (sp_localNodeID s) uid center r name message opt s))"

definition cleanupCache :: "time \<Rightarrow> 'f Spread \<Rightarrow> 'f Spread" where
  "cleanupCache now s =
     s\<lparr>sp_cache := filter (\<lambda>(_, cache). \<not> now > ca_timestamp cache + cacheLifetime s) (sp_cache s)\<rparr>"

subsection \<open>Sending\<close>

definition spread_msg :: "cache \<Rightarrow> SpreadMsg outcome" where
  "spread_msg cache =
     obind (nid_Proto (ca_srcNodeID cache)) (\<lambda>source.
       Inr \<lparr>sm_Source = Some source, sm_Center = Some (coord_Proto (ca_center cache)), sm_R = ca_r cache, sm_Uid = ca_uid cache,
            sm_Name = ca_name cache, sm_Message = ca_message cache, sm_Opt = convertOptToProto (ca_opt cache)\<rparr>)"

definition sendSpread :: "NodeID \<Rightarrow> cache \<Rightarrow> 'h Transferer \<Rightarrow> 'h tr_effect list outcome" where
  "sendSpread dstNodeID cache t =
     obind (spread_msg cache) (\<lambda>m. Inr (tr_RequestOneWay dstNodeID PacketModeNone (Content_Spread m) t))"

definition sendRelay :: "(NodeID \<Rightarrow> 32 word list) \<Rightarrow> time \<Rightarrow> nat \<Rightarrow> NodeID \<Rightarrow> cache \<Rightarrow> node_handler Transferer \<Rightarrow>
    (node_handler tr_effect list \<times> node_handler Transferer) outcome" where
  "sendRelay draws now wa dstNodeID cache t =
     obind (spread_msg cache) (\<lambda>m.
       if SomeoneMustExists (ca_opt cache)
       then tr_Request (draws dstNodeID) now False dstNodeID PacketModeNone (Content_SpreadRelay m) (RelayHandler wa) t
       else Inr (tr_RequestOneWay dstNodeID PacketModeNone (Content_SpreadRelay m) t, t))"

fun knock_loop :: "CoordinateOps \<Rightarrow> (NodeID \<Rightarrow> 32 word list) \<Rightarrow> time \<Rightarrow> NodeID option \<Rightarrow> cache \<Rightarrow> (NodeID \<times> Coordinate) list \<Rightarrow>
    node_handler Transferer \<Rightarrow> (node_handler tr_effect list \<times> node_handler Transferer) outcome" where
  "knock_loop co draws now exclude cache [] t = Inr ([], t)"
| "knock_loop co draws now exclude cache ((nodeID, position) # rest) t =
     (if exclude = Some nodeID then knock_loop co draws now exclude cache rest t
      else if co_GetDistance co (ca_center cache) position < ca_r cache then
        obind (tr_Request (draws nodeID) now False nodeID PacketModeNone
                 (Content_SpreadKnock \<lparr>sk_Center = Some (coord_Proto (ca_center cache)), sk_R = ca_r cache, sk_Uid = ca_uid cache\<rparr>)
                 (KnockHandler cache nodeID) t) (\<lambda>(es, t).
          obind (knock_loop co draws now exclude cache rest t) (\<lambda>(es', t). Inr (es @ es', t)))
      else knock_loop co draws now exclude cache rest t)"

definition sendKnock :: "CoordinateOps \<Rightarrow> (NodeID \<Rightarrow> 32 word list) \<Rightarrow> time \<Rightarrow> NodeID option \<Rightarrow> cache \<Rightarrow> 'f Spread \<Rightarrow>
    node_handler Transferer \<Rightarrow> (node_handler tr_effect list \<times> node_handler Transferer) outcome" where
  "sendKnock co draws now exclude cache s t = knock_loop co draws now exclude cache (nextNodePositions s) t"

fun spread_loop :: "CoordinateOps \<Rightarrow> NodeID option \<Rightarrow> cache \<Rightarrow> (NodeID \<times> Coordinate) list \<Rightarrow> 'h Transferer \<Rightarrow> 'h tr_effect list outcome" where
  "spread_loop co exclude cache [] t = Inr []"
| "spread_loop co exclude cache ((nodeID, position) # rest) t =
     (if exclude \<noteq> Some nodeID \<and> co_GetDistance co (ca_center cache) position < ca_r cache
      then obind (sendSpread nodeID cache t) (\<lambda>es. obind (spread_loop co exclude cache rest t) (\<lambda>es'. Inr (es @ es')))
      else spread_loop co exclude cache rest t)"

text \<open>
  The end of all three operations that spread a message further: knocks first if the message
  is large. Only one of them leaves out the sender when it is small.
\<close>

definition spread_on :: "CoordinateOps \<Rightarrow> (NodeID \<Rightarrow> 32 word list) \<Rightarrow> time \<Rightarrow> NodeID option \<Rightarrow> NodeID option \<Rightarrow> cache \<Rightarrow> 'f Spread \<Rightarrow>
    node_handler Transferer \<Rightarrow> (node_handler tr_effect list \<times> node_handler Transferer) outcome" where
  "spread_on co draws now knockExclude spreadExclude cache s t =
     (if int (length (ca_message cache)) > sint (sizeToUseKnock s)
      then sendKnock co draws now knockExclude cache s t
      else obind (spread_loop co spreadExclude cache (nextNodePositions s) t) (\<lambda>es. Inr (es, t)))"

subsection \<open>Posting\<close>

datatype post_result = PostReturns "unit result" | PostWaits WaitAny

fun relay_loop :: "CoordinateOps \<Rightarrow> (NodeID \<Rightarrow> 32 word list) \<Rightarrow> time \<Rightarrow> nat \<Rightarrow> cache \<Rightarrow> (NodeID \<times> Coordinate) list \<Rightarrow>
    WaitAny \<Rightarrow> node_handler Transferer \<Rightarrow> (WaitAny \<times> node_handler tr_effect list \<times> node_handler Transferer) outcome" where
  "relay_loop co draws now wa cache [] w t = Inr (w, [], t)"
| "relay_loop co draws now wa cache ((nodeID, position) # rest) w t =
     (if co_GetDistance co (ca_center cache) position \<le> ca_r cache then
        obind (sendRelay draws now wa nodeID cache t) (\<lambda>(es, t).
          obind (relay_loop co draws now wa cache rest (wa_Add 1 w) t) (\<lambda>(w, es', t). Inr (w, es @ es', t)))
      else relay_loop co draws now wa cache rest w t)"

text \<open>\<open>wa\<close> names the \<open>WaitAny\<close> of this call.\<close>

definition sp_Post :: "CoordinateOps \<Rightarrow> (Coordinate \<Rightarrow> NodeID outcome) \<Rightarrow> (NodeID \<Rightarrow> 32 word list) \<Rightarrow> 64 word list \<Rightarrow> time \<Rightarrow> nat \<Rightarrow>
    Coordinate \<Rightarrow> real \<Rightarrow> string \<Rightarrow> bytes \<Rightarrow> sp_Options \<Rightarrow> 'f Spread \<Rightarrow> node_handler Transferer \<Rightarrow>
    (post_result \<times> node_handler tr_effect list \<times> 'f Spread \<times> node_handler Transferer) outcome" where
  "sp_Post co relay draws uids now wa center r name message opt s t =
     obind (makeCache uids now center r name message opt s) (\<lambda>(cache, s).
     obind (sp_distance co center s) (\<lambda>d.
       if SomeoneMustExists opt then
         if d \<le> r then
           obind (relay_loop co draws now wa cache (nextNodePositions s) NewWaitAny t) (\<lambda>(w, es, t).
             Inr (PostWaits w, es, s, t))
         else
           obind (relay center) (\<lambda>nextNodeID.
             if nid_Equal (Some nextNodeID) (Some NodeLocal)
             then Inr (PostReturns (Inl ErrSomeoneMustReceiveViolation), [], s, t)
             else obind (sendRelay draws now wa nextNodeID cache t) (\<lambda>(es, t).
                    Inr (PostWaits (wa_Add 1 NewWaitAny), es, s, t)))
       else if d > r then
         obind (relay center) (\<lambda>nextNodeID.
         obind (sendRelay draws now wa nextNodeID cache t) (\<lambda>(es, t).
           Inr (PostReturns (Inr ()), es, s, t)))
       else
         obind (spread_on co draws now None None cache s t) (\<lambda>(es, t).
           Inr (PostReturns (Inr ()), es, s, t))))"

text \<open>What \<open>Post\<close> returns once the wait is over.\<close>

definition sp_Post_result :: "bool \<Rightarrow> unit result" where
  "sp_Post_result found = (if \<not> found then Inl ErrSomeoneMustReceiveViolation else Inr ())"

subsection \<open>Receiving\<close>

definition recvKnock :: "CoordinateOps \<Rightarrow> Packet \<Rightarrow> 'f Spread \<Rightarrow> 'h Transferer \<Rightarrow> 'h tr_effect list outcome" where
  "recvKnock co packet s t =
     (case Content packet of
        Content_SpreadKnock content \<Rightarrow>
          obind (NewCoordinateFromProto (sk_Center content)) (\<lambda>center.
          obind (if mhas (sp_cache s) (sk_Uid content) then Inr False
                 else obind (sp_distance co center s) (\<lambda>d. Inr (d \<le> sk_R content))) (\<lambda>accept.
            tr_Response False packet (Content_SpreadKnockResponse accept) t))
      | _ \<Rightarrow> Inl (Panic ''nil pointer dereference''))"

definition responseForRelay :: "Packet \<Rightarrow> bool \<Rightarrow> 'h Transferer \<Rightarrow> 'h tr_effect list outcome" where
  "responseForRelay packet success t = tr_Response False packet (Content_SpreadRelayResponse success) t"

definition response_if :: "bool \<Rightarrow> Packet \<Rightarrow> bool \<Rightarrow> 'h Transferer \<Rightarrow> 'h tr_effect list outcome" where
  "response_if wanted packet success t = (if wanted then responseForRelay packet success t else Inr [])"

definition call_handler :: "cache \<Rightarrow> 'f Spread \<Rightarrow> 'f sp_effect list" where
  "call_handler cache s =
     (case mget (sp_handlers s) (ca_name cache) of
        None \<Rightarrow> []
      | Some handler \<Rightarrow> [SpHandler handler \<lparr>sq_SourceNodeID = ca_srcNodeID cache, sq_Message = ca_message cache, sq_Options = ca_opt cache\<rparr>])"

definition recvRelay :: "CoordinateOps \<Rightarrow> (Coordinate \<Rightarrow> NodeID outcome) \<Rightarrow> (NodeID \<Rightarrow> 32 word list) \<Rightarrow> time \<Rightarrow> Packet \<Rightarrow>
    'f Spread \<Rightarrow> node_handler Transferer \<Rightarrow> ('f sp_effect list \<times> 'f Spread \<times> node_handler Transferer) outcome" where
  "recvRelay co relay draws now packet s t =
     (case Content packet of
        Content_SpreadRelay content \<Rightarrow>
          let uid = sm_Uid content;
              oneWay = has_mode (Mode packet) PacketModeOneWay;
              r = sm_R content
          in obind (NewCoordinateFromProto (sm_Center content)) (\<lambda>center.
             if mhas (sp_cache s) uid then
               obind (response_if (\<not> oneWay) packet False t) (\<lambda>es. Inr (map SpTransfer es, s, t))
             else case NewNodeIDFromProto (sm_Source content) of
               Inl err \<Rightarrow> Inr ([], s, t)
             | Inr srcNodeID \<Rightarrow>
                 let (cache, s) = makeCacheWithUID now srcNodeID uid center r (sm_Name content) (sm_Message content)
                                    (convertOptFromProto (sm_Opt content)) s
                 in obind (sp_distance co center s) (\<lambda>d.
                    if d > r then
                      obind (relay center) (\<lambda>nextNodeID.
                        if nid_Equal (Some nextNodeID) (Some NodeLocal) then
                          obind (response_if (\<not> oneWay) packet False t) (\<lambda>es. Inr (map SpTransfer es, s, t))
                        else Inr (map SpTransfer (tr_Relay nextNodeID packet), s, t))
                    else
                      obind (response_if (\<not> oneWay) packet True t) (\<lambda>es.
                      obind (spread_on co draws now (Some (SrcNodeID packet)) None cache s t) (\<lambda>(es', t).
                        Inr (call_handler cache s @ map SpTransfer (es @ es'), s, t)))))
      | _ \<Rightarrow> Inl (Panic ''nil pointer dereference''))"

definition recvSpread :: "CoordinateOps \<Rightarrow> (NodeID \<Rightarrow> 32 word list) \<Rightarrow> time \<Rightarrow> Packet \<Rightarrow>
    'f Spread \<Rightarrow> node_handler Transferer \<Rightarrow> ('f sp_effect list \<times> 'f Spread \<times> node_handler Transferer) outcome" where
  "recvSpread co draws now packet s t =
     (case Content packet of
        Content_Spread content \<Rightarrow>
          obind (NewCoordinateFromProto (sm_Center content)) (\<lambda>center.
          obind (if mhas (sp_cache s) (sm_Uid content) then Inr True
                 else obind (sp_distance co center s) (\<lambda>d. Inr (d > sm_R content))) (\<lambda>ignored.
            if ignored then Inr ([], s, t)
            else case NewNodeIDFromProto (sm_Source content) of
              Inl err \<Rightarrow> Inr ([], s, t)
            | Inr srcNodeID \<Rightarrow>
                let (cache, s) = makeCacheWithUID now srcNodeID (sm_Uid content) center (sm_R content) (sm_Name content)
                                   (sm_Message content) (convertOptFromProto (sm_Opt content)) s
                in obind (spread_on co draws now (Some (SrcNodeID packet)) (Some (SrcNodeID packet)) cache s t) (\<lambda>(es, t).
                     Inr (call_handler cache s @ map SpTransfer es, s, t))))
      | _ \<Rightarrow> Inl (Panic ''nil pointer dereference''))"

subsection \<open>Responses\<close>

definition knock_OnResponse :: "cache \<Rightarrow> NodeID \<Rightarrow> Packet \<Rightarrow> 'h Transferer \<Rightarrow> 'h tr_effect list outcome" where
  "knock_OnResponse cache dstNodeID p t =
     (case Content p of
        Content_SpreadKnockResponse accept \<Rightarrow> if \<not> accept then Inr [] else sendSpread dstNodeID cache t
      | _ \<Rightarrow> Inr [])"

definition relay_OnResponse :: "Packet \<Rightarrow> WaitAny \<Rightarrow> WaitAny outcome" where
  "relay_OnResponse p w =
     (case Content p of
        Content_SpreadRelayResponse success \<Rightarrow> wa_Done success w
      | _ \<Rightarrow> wa_Done False w)"

definition relay_OnError :: "WaitAny \<Rightarrow> WaitAny outcome" where
  "relay_OnError w = wa_Done False w"

end
