(* ===== verification/Spread_Props.thy ===== *)
theory Spread_Props
  imports Spread
begin

text \<open>
  What spreading promises: a flood in an area ends, and when it has ended every node that can
  be reached within the area has handled the message exactly once. Also the cache cleanup and the
  wait of a post that needs a receiver.
\<close>

subsection \<open>One node\<close>

text \<open>The cache entry that a receiver of the message of \<open>c0\<close> makes, and the packets it sends.\<close>

definition spread_packet :: "SpreadMsg \<Rightarrow> NodeID \<Rightarrow> NodeID \<Rightarrow> Packet" where
  "spread_packet m n k =
     \<lparr>DstNodeID = k, SrcNodeID = n, pk_ID = 0, HopCount = 0, Mode = PacketModeNone OR PacketModeOneWay, Content = Content_Spread m\<rparr>"

definition targets :: "CoordinateOps \<Rightarrow> NodeID option \<Rightarrow> cache \<Rightarrow> 'f Spread \<Rightarrow> NodeID list" where
  "targets co exclude c0 s =
     map fst (filter (\<lambda>(k, pos). exclude \<noteq> Some k \<and> co_GetDistance co (ca_center c0) pos < ca_r c0) (nextNodePositions s))"

lemma spread_loop_sends:
  assumes "spread_msg c0 = Inr m"
  shows "spread_loop co exclude c0 ps t = Inr (map (\<lambda>k. SendPacket False (spread_packet m (tr_localNodeID t) k))
    (map fst (filter (\<lambda>(k, pos). exclude \<noteq> Some k \<and> co_GetDistance co (ca_center c0) pos < ca_r c0) ps)))"
proof (induction ps)
  case (Cons x ps)
  obtain k pos where x: "x = (k, pos)" by fastforce
  show ?case
    using Cons assms unfolding x
    by (cases "exclude = Some k"; cases "co_GetDistance co (ca_center c0) pos < ca_r c0";
        simp add: sendSpread_def tr_RequestOneWay_def spread_packet_def)
qed simp

lemma convertOpt_inverse [simp]: "convertOptFromProto (convertOptToProto opt) = opt"
  by (cases opt) (simp add: convertOptFromProto_def convertOptToProto_def optSomeoneMustExists_def)

text \<open>A receiver rebuilds the entry of the sender, up to the time.\<close>

lemma received_cache:
  assumes "spread_msg c0 = Inr m"
  shows "NewCoordinateFromProto (sm_Center m) = Inr (ca_center c0)" "NewNodeIDFromProto (sm_Source m) = Inr (ca_srcNodeID c0)"
    "sm_Uid m = ca_uid c0" "sm_R m = ca_r c0" "sm_Name m = ca_name c0" "sm_Message m = ca_message c0"
    "convertOptFromProto (sm_Opt m) = ca_opt c0"
  using assms FromProto_Proto by (auto simp: spread_msg_def obind_eq_Inr)

definition small :: "cache \<Rightarrow> 'f Spread \<Rightarrow> bool" where
  "small c0 s \<longleftrightarrow> int (length (ca_message c0)) \<le> sint (sizeToUseKnock s)"

lemma recvSpread_known:
  assumes "spread_msg c0 = Inr m" "Content p = Content_Spread m" "mhas (sp_cache s) (ca_uid c0)"
  shows "recvSpread co draws now p s t = Inr ([], s, t)"
  using assms received_cache [OF assms(1)] by (simp add: recvSpread_def)

lemma recvSpread_new:
  assumes m: "spread_msg c0 = Inr m" and p: "Content p = Content_Spread m" and new: "\<not> mhas (sp_cache s) (ca_uid c0)"
    and pos: "localPosition s = Some pos" "co_GetDistance co (ca_center c0) pos \<le> ca_r c0" and small: "small c0 s"
  shows "recvSpread co draws now p s t =
    Inr (call_handler (c0\<lparr>ca_timestamp := now\<rparr>) (s\<lparr>sp_cache := mput (ca_uid c0) (c0\<lparr>ca_timestamp := now\<rparr>) (sp_cache s)\<rparr>) @
           map (\<lambda>k. SpTransfer (SendPacket False (spread_packet m (tr_localNodeID t) k))) (targets co (Some (SrcNodeID p)) c0 s),
         s\<lparr>sp_cache := mput (ca_uid c0) (c0\<lparr>ca_timestamp := now\<rparr>) (sp_cache s)\<rparr>, t)"
proof -
  let ?c = "c0\<lparr>ca_timestamp := now\<rparr>"
  have c: "\<lparr>ca_srcNodeID = ca_srcNodeID c0, ca_uid = ca_uid c0, ca_center = ca_center c0, ca_r = ca_r c0, ca_name = ca_name c0,
      ca_message = ca_message c0, ca_opt = ca_opt c0, ca_timestamp = now\<rparr> = ?c" by simp
  have "spread_msg ?c = Inr m" using m by (simp add: spread_msg_def)
  from spread_loop_sends [OF this, of co "Some (SrcNodeID p)" "nextNodePositions s" t] small pos new show ?thesis
    by (simp add: recvSpread_def p received_cache [OF m] sp_distance_def makeCacheWithUID_def c spread_on_def small_def targets_def
        not_less comp_def Let_def)
qed

subsection \<open>A flood\<close>

fun sent_of :: "'f sp_effect list \<Rightarrow> Packet list" where
  "sent_of [] = []"
| "sent_of (SpTransfer (SendPacket _ p) # es) = p # sent_of es"
| "sent_of (_ # es) = sent_of es"

fun calls_of :: "'f sp_effect list \<Rightarrow> ('f \<times> sp_Request) list" where
  "calls_of [] = []"
| "calls_of (SpHandler f rq # es) = (f, rq) # calls_of es"
| "calls_of (_ # es) = calls_of es"

lemma sent_calls_append [simp]:
  "sent_of (es @ es') = sent_of es @ sent_of es'" "calls_of (es @ es') = calls_of es @ calls_of es'"
  by (induction es rule: sent_of.induct; simp)+

lemma sent_calls_map [simp]:
  "sent_of (map (\<lambda>k. SpTransfer (SendPacket b (f k))) ks) = map f ks"
  "calls_of (map (\<lambda>k. SpTransfer (SendPacket b (f k))) ks) = []"
  by (induction ks) simp_all

lemma sent_call_handler [simp]: "sent_of (call_handler c s) = []"
  by (simp add: call_handler_def split: option.splits)

text \<open>
  The nodes, the packets on their way, and the handler calls so far. A step delivers any of
  the packets, at any time and with any hop count.
\<close>

type_synonym 'f flood = "(NodeID \<Rightarrow> 'f Spread) \<times> Packet list \<times> (NodeID \<times> 'f \<times> sp_Request) list"

inductive flood_step :: "CoordinateOps \<Rightarrow> (NodeID \<Rightarrow> node_handler Transferer) \<Rightarrow> 'f flood \<Rightarrow> 'f flood \<Rightarrow> bool" for co tr where
  deliver: "recvSpread co draws now (p\<lparr>HopCount := h\<rparr>) (net (DstNodeID p)) (tr (DstNodeID p)) = Inr (es, s, t) \<Longrightarrow>
    flood_step co tr (net, ps @ p # ps', calls)
      (net(DstNodeID p := s), ps @ ps' @ sent_of es, calls @ map (\<lambda>(f, rq). (DstNodeID p, f, rq)) (calls_of es))"

definition holds :: "cache \<Rightarrow> 'f flood \<Rightarrow> NodeID \<Rightarrow> bool" where
  "holds c0 w n \<longleftrightarrow> mhas (sp_cache (fst w n)) (ca_uid c0)"

text \<open>
  The area \<open>N\<close>: the nodes know each other's positions, and the message is small. This does not
  depend on the caches.
\<close>

definition area_ok :: "NodeID set \<Rightarrow> (NodeID \<Rightarrow> node_handler Transferer) \<Rightarrow> cache \<Rightarrow> (NodeID \<Rightarrow> 'f Spread) \<Rightarrow> bool" where
  "area_ok N tr c0 net \<longleftrightarrow> finite N \<and> (\<forall>n \<in> N. tr_localNodeID (tr n) = n \<and> small c0 (net n) \<and>
     (\<forall>(k, pos) \<in> set (nextNodePositions (net n)). k \<in> N \<and> localPosition (net k) = Some pos))"

definition near :: "CoordinateOps \<Rightarrow> cache \<Rightarrow> (NodeID \<Rightarrow> 'f Spread) \<Rightarrow> NodeID \<Rightarrow> NodeID \<Rightarrow> bool" where
  "near co c0 net n k \<longleftrightarrow> (\<exists>pos. (k, pos) \<in> set (nextNodePositions (net n)) \<and> co_GetDistance co (ca_center c0) pos < ca_r c0)"

definition calls_at :: "NodeID \<Rightarrow> 'f flood \<Rightarrow> ('f \<times> sp_Request) list" where
  "calls_at n w = map snd (filter (\<lambda>(k, _). k = n) (snd (snd w)))"

definition request_of_cache :: "cache \<Rightarrow> sp_Request" where
  "request_of_cache c0 = \<lparr>sq_SourceNodeID = ca_srcNodeID c0, sq_Message = ca_message c0, sq_Options = ca_opt c0\<rparr>"

text \<open>What a node that has the message must have done, and what is on its way.\<close>

definition flood_inv :: "CoordinateOps \<Rightarrow> NodeID set \<Rightarrow> (NodeID \<Rightarrow> node_handler Transferer) \<Rightarrow> cache \<Rightarrow> SpreadMsg \<Rightarrow> NodeID \<Rightarrow> 'f flood \<Rightarrow> bool" where
  "flood_inv co N tr c0 m n0 w \<longleftrightarrow> area_ok N tr c0 (fst w) \<and> holds c0 w n0 \<and>
     (\<forall>p \<in> set (fst (snd w)). Content p = Content_Spread m \<and> DstNodeID p \<in> N \<and> holds c0 w (SrcNodeID p) \<and>
        (\<exists>pos. localPosition (fst w (DstNodeID p)) = Some pos \<and> co_GetDistance co (ca_center c0) pos \<le> ca_r c0)) \<and>
     (\<forall>n \<in> N. holds c0 w n \<longrightarrow> (\<forall>k. near co c0 (fst w) n k \<longrightarrow> holds c0 w k \<or> k \<in> DstNodeID ` set (fst (snd w)))) \<and>
     (\<forall>n. n \<noteq> n0 \<longrightarrow> calls_at n w = (if holds c0 w n then (case mget (sp_handlers (fst w n)) (ca_name c0) of
        None \<Rightarrow> [] | Some f \<Rightarrow> [(f, request_of_cache c0)]) else []))"

lemma near_targets: "near co c0 net n k \<longleftrightarrow> k \<in> set (targets co None c0 (net n))"
  by (force simp: near_def targets_def)

lemma targets_exclude: "set (targets co (Some x) c0 s) = set (targets co None c0 s) - {x}"
  by (auto simp: targets_def)

lemma calls_call_handler:
  "calls_of (call_handler (c0\<lparr>ca_timestamp := now\<rparr>) s) =
     (case mget (sp_handlers s) (ca_name c0) of None \<Rightarrow> [] | Some f \<Rightarrow> [(f, request_of_cache c0)])"
  by (simp add: call_handler_def request_of_cache_def split: option.splits)

lemma flood_step_cases:
  assumes m: "spread_msg c0 = Inr m" and inv: "flood_inv co N tr c0 m n0 w" and step: "flood_step co tr w w'"
  obtains (known) ps p ps' where "fst (snd w) = ps @ p # ps'" "holds c0 w (DstNodeID p)" "w' = (fst w, ps @ ps', snd (snd w))"
  | (new) ps p ps' now n s where "fst (snd w) = ps @ p # ps'" "n = DstNodeID p" "n \<in> N" "\<not> holds c0 w n"
      "s = (fst w n)\<lparr>sp_cache := mput (ca_uid c0) (c0\<lparr>ca_timestamp := now\<rparr>) (sp_cache (fst w n))\<rparr>"
      "w' = ((fst w)(n := s), ps @ ps' @ map (spread_packet m n) (targets co (Some (SrcNodeID p)) c0 (fst w n)),
        snd (snd w) @ map (\<lambda>(f, rq). (n, f, rq)) (case mget (sp_handlers s) (ca_name c0) of None \<Rightarrow> [] | Some f \<Rightarrow> [(f, request_of_cache c0)]))"
proof -
  from step obtain draws now p h net es s t ps ps' calls where
    r: "recvSpread co draws now (p\<lparr>HopCount := h\<rparr>) (net (DstNodeID p)) (tr (DstNodeID p)) = Inr (es, s, t)"
    and w: "w = (net, ps @ p # ps', calls)"
      "w' = (net(DstNodeID p := s), ps @ ps' @ sent_of es, calls @ map (\<lambda>(f, rq). (DstNodeID p, f, rq)) (calls_of es))"
    by (auto elim: flood_step.cases)
  have p: "Content (p\<lparr>HopCount := h\<rparr>) = Content_Spread m" "DstNodeID p \<in> N"
    using inv by (auto simp: flood_inv_def w)
  obtain pos where pos: "localPosition (net (DstNodeID p)) = Some pos" "co_GetDistance co (ca_center c0) pos \<le> ca_r c0"
    using inv by (auto simp: flood_inv_def w)
  have small: "small c0 (net (DstNodeID p))" and loc: "tr_localNodeID (tr (DstNodeID p)) = DstNodeID p"
    using inv p(2) by (auto simp: flood_inv_def area_ok_def w)
  show ?thesis
  proof (cases "holds c0 w (DstNodeID p)")
    case True
    then have "es = []" "s = net (DstNodeID p)"
      using recvSpread_known [OF m p(1), of "net (DstNodeID p)" co draws now "tr (DstNodeID p)"] r by (auto simp: holds_def w)
    then show ?thesis using known [of ps p ps'] True by (simp add: w)
  next
    case False
    then have "\<not> mhas (sp_cache (net (DstNodeID p))) (ca_uid c0)" by (simp add: holds_def w)
    from recvSpread_new [OF m p(1) this pos small, of draws now "tr (DstNodeID p)"] r
    have "es = call_handler (c0\<lparr>ca_timestamp := now\<rparr>) s @ map (\<lambda>k. SpTransfer (SendPacket False (spread_packet m (DstNodeID p) k)))
          (targets co (Some (SrcNodeID p)) c0 (net (DstNodeID p)))"
      "s = (net (DstNodeID p))\<lparr>sp_cache := mput (ca_uid c0) (c0\<lparr>ca_timestamp := now\<rparr>) (sp_cache (net (DstNodeID p)))\<rparr>"
      by (auto simp: loc)
    then show ?thesis using new [of ps p ps' "DstNodeID p" s now] False p(2) by (simp add: w calls_call_handler)
  qed
qed

text \<open>What changes when a node takes a message that is new to it, the second case above, and the parts of the invariant it keeps.\<close>

definition takes_new ::
  "CoordinateOps \<Rightarrow> cache \<Rightarrow> SpreadMsg \<Rightarrow> Packet \<Rightarrow> Packet list \<Rightarrow> Packet list \<Rightarrow> time \<Rightarrow> 'f flood \<Rightarrow> 'f flood \<Rightarrow> bool" where
  "takes_new co c0 m p ps ps' now w w' \<longleftrightarrow>
     (let n = DstNodeID p; s = (fst w n)\<lparr>sp_cache := mput (ca_uid c0) (c0\<lparr>ca_timestamp := now\<rparr>) (sp_cache (fst w n))\<rparr>
      in fst (snd w) = ps @ p # ps' \<and> \<not> holds c0 w n \<and>
         w' = ((fst w)(n := s), ps @ ps' @ map (spread_packet m n) (targets co (Some (SrcNodeID p)) c0 (fst w n)),
           snd (snd w) @ map (\<lambda>(f, rq). (n, f, rq)) (case mget (sp_handlers s) (ca_name c0) of None \<Rightarrow> [] | Some f \<Rightarrow> [(f, request_of_cache c0)])))"

lemma takes_new_frame:
  assumes "takes_new co c0 m p ps ps' now w w'"
  shows "holds c0 w' k \<longleftrightarrow> k = DstNodeID p \<or> holds c0 w k"
    and "nextNodePositions (fst w' k) = nextNodePositions (fst w k)" and "localPosition (fst w' k) = localPosition (fst w k)"
    and "sizeToUseKnock (fst w' k) = sizeToUseKnock (fst w k)" and "sp_handlers (fst w' k) = sp_handlers (fst w k)"
    and "near co c0 (fst w') k l \<longleftrightarrow> near co c0 (fst w) k l"
  using assms by (auto simp: takes_new_def Let_def holds_def near_def)

lemma takes_new_packets:
  assumes new: "takes_new co c0 m p ps ps' now w w'" and inv: "flood_inv co N tr c0 m n0 w" and q: "q \<in> set (fst (snd w'))"
  shows "Content q = Content_Spread m \<and> DstNodeID q \<in> N \<and> holds c0 w' (SrcNodeID q) \<and>
      (\<exists>pos. localPosition (fst w' (DstNodeID q)) = Some pos \<and> co_GetDistance co (ca_center c0) pos \<le> ca_r c0)"
proof -
  let ?n = "DstNodeID p"
  note frame = takes_new_frame [OF new]
  have ps: "fst (snd w) = ps @ p # ps'" using new by (simp add: takes_new_def Let_def)
  then have nN: "?n \<in> N" using inv by (auto simp: flood_inv_def)
  from q consider "q \<in> set (ps @ ps')" | k where "k \<in> set (targets co (Some (SrcNodeID p)) c0 (fst w ?n))" "q = spread_packet m ?n k"
    using new by (auto simp: takes_new_def Let_def)
  then show ?thesis
  proof cases
    case 1
    then have "q \<in> set (fst (snd w))" using ps by auto
    then show ?thesis using inv frame(1,3) by (auto simp: flood_inv_def)
  next
    case (2 k)
    then have "k \<in> N \<and> (\<exists>pos. localPosition (fst w k) = Some pos \<and> co_GetDistance co (ca_center c0) pos \<le> ca_r c0)"
      using inv nN by (fastforce simp: targets_def flood_inv_def area_ok_def)
    then show ?thesis using 2(2) frame(1,3) by (simp add: spread_packet_def)
  qed
qed

lemma takes_new_reaches:
  assumes new: "takes_new co c0 m p ps ps' now w w'" and inv: "flood_inv co N tr c0 m n0 w"
    and a: "a \<in> N" "holds c0 w' a" "near co c0 (fst w') a k"
  shows "holds c0 w' k \<or> k \<in> DstNodeID ` set (fst (snd w'))"
proof (cases "a = DstNodeID p \<and> k \<noteq> SrcNodeID p")
  case True
  then have "near co c0 (fst w) (DstNodeID p) k" using a(3) takes_new_frame(6) [OF new] by blast
  then have "spread_packet m (DstNodeID p) k \<in> set (fst (snd w'))"
    using near_targets [of co c0 "fst w" "DstNodeID p" k] True new by (auto simp: takes_new_def Let_def targets_exclude)
  moreover have "DstNodeID (spread_packet m (DstNodeID p) k) = k" by (simp add: spread_packet_def)
  ultimately show ?thesis by (metis imageI)
next
  case False
  have ps: "fst (snd w) = ps @ p # ps'" using new by (simp add: takes_new_def Let_def)
  show ?thesis
  proof (cases "a = DstNodeID p")
    case True
    then have "k = SrcNodeID p" using False by simp
    then have "holds c0 w k" using inv ps by (auto simp: flood_inv_def)
    then show ?thesis using takes_new_frame(1) [OF new] by blast
  next
    case other: False
    then have "holds c0 w a" "near co c0 (fst w) a k" using a takes_new_frame(1,6) [OF new] by auto
    then have "holds c0 w k \<or> k \<in> DstNodeID ` set (fst (snd w))" using inv a(1) by (auto simp: flood_inv_def)
    then show ?thesis using takes_new_frame(1) [OF new] ps new by (auto simp: takes_new_def Let_def)
  qed
qed

lemma takes_new_calls:
  assumes new: "takes_new co c0 m p ps ps' now w w'" and inv: "flood_inv co N tr c0 m n0 w" and k: "k \<noteq> n0"
  shows "calls_at k w' = (if holds c0 w' k then (case mget (sp_handlers (fst w' k)) (ca_name c0) of
        None \<Rightarrow> [] | Some f \<Rightarrow> [(f, request_of_cache c0)]) else [])"
proof -
  have old: "calls_at k w = (if holds c0 w k then (case mget (sp_handlers (fst w k)) (ca_name c0) of
      None \<Rightarrow> [] | Some f \<Rightarrow> [(f, request_of_cache c0)]) else [])" using inv k by (simp add: flood_inv_def)
  have "\<not> holds c0 w (DstNodeID p)" using new by (simp add: takes_new_def Let_def)
  then show ?thesis using old takes_new_frame(1,5) [OF new] new
    by (cases "k = DstNodeID p") (auto simp: takes_new_def Let_def calls_at_def split: option.splits)
qed

lemma flood_inv_step:
  assumes m: "spread_msg c0 = Inr m" and inv: "flood_inv co N tr c0 m n0 w" and step: "flood_step co tr w w'"
  shows "flood_inv co N tr c0 m n0 w'"
  using m inv step
proof (cases rule: flood_step_cases)
  case (known ps p ps')
  then show ?thesis using inv unfolding flood_inv_def by (auto simp: holds_def calls_at_def)
next
  case (new ps p ps' now n s)
  then have tn: "takes_new co c0 m p ps ps' now w w'" by (simp add: takes_new_def)
  have "area_ok N tr c0 (fst w')" "holds c0 w' n0"
    using inv takes_new_frame [OF tn] by (simp_all add: flood_inv_def area_ok_def small_def)
  then show ?thesis unfolding flood_inv_def
    using takes_new_packets [OF tn inv] takes_new_reaches [OF tn inv] takes_new_calls [OF tn inv] by blast
qed

text \<open>What a step does not change, and why the flood ends.\<close>

lemma flood_step_static:
  assumes "spread_msg c0 = Inr m" "flood_inv co N tr c0 m n0 w" "flood_step co tr w w'"
  shows "near co c0 (fst w') = near co c0 (fst w)" "sp_handlers (fst w' k) = sp_handlers (fst w k)"
  using assms by (cases rule: flood_step_cases; simp add: near_def fun_eq_iff)+

definition unserved :: "NodeID set \<Rightarrow> cache \<Rightarrow> 'f flood \<Rightarrow> nat" where
  "unserved N c0 w = card {n \<in> N. \<not> holds c0 w n}"

lemma flood_step_decreases:
  assumes "spread_msg c0 = Inr m" "flood_inv co N tr c0 m n0 w" "flood_step co tr w w'"
  shows "(w', w) \<in> measures [unserved N c0, \<lambda>w. length (fst (snd w))]"
  using assms
proof (cases rule: flood_step_cases)
  case (known ps p ps')
  then show ?thesis by (simp add: unserved_def holds_def)
next
  case (new ps p ps' now n s)
  have "{k \<in> N. \<not> holds c0 w' k} = {k \<in> N. \<not> holds c0 w k} - {n}" using new(5,6) by (auto simp: holds_def)
  moreover have "finite N" using assms(2) by (simp add: flood_inv_def area_ok_def)
  ultimately have "unserved N c0 w' < unserved N c0 w"
    unfolding unserved_def using new(3,4) by (simp only:) (intro card_Diff1_less, auto)
  then show ?thesis by simp
qed

lemma flood_enabled:
  assumes m: "spread_msg c0 = Inr m" and inv: "flood_inv co N tr c0 m n0 w" and p: "fst (snd w) \<noteq> []"
  shows "\<exists>w'. flood_step co tr w w'"
proof -
  obtain net p ps calls where w: "w = (net, p # ps, calls)" using p by (cases w; cases "fst (snd w)") auto
  obtain pos where pos: "localPosition (net (DstNodeID p)) = Some pos" "co_GetDistance co (ca_center c0) pos \<le> ca_r c0"
    and c: "Content (p\<lparr>HopCount := 0\<rparr>) = Content_Spread m" and small: "small c0 (net (DstNodeID p))"
    using inv by (auto simp: flood_inv_def area_ok_def w)
  have "\<exists>es s t. recvSpread co (\<lambda>_. []) 0 (p\<lparr>HopCount := 0\<rparr>) (net (DstNodeID p)) (tr (DstNodeID p)) = Inr (es, s, t)"
    using recvSpread_known [OF m c, of "net (DstNodeID p)"] recvSpread_new [OF m c _ pos small]
    by (cases "mhas (sp_cache (net (DstNodeID p))) (ca_uid c0)") blast+
  then obtain es s t where "recvSpread co (\<lambda>_. []) 0 (p\<lparr>HopCount := 0\<rparr>) (net (DstNodeID p)) (tr (DstNodeID p)) = Inr (es, s, t)" by blast
  from flood_step.deliver [where p = p and h = 0 and net = net and tr = tr and ps = "[]" and ps' = ps and calls = calls, OF this] show ?thesis unfolding w by auto
qed

lemma flood_run:
  assumes m: "spread_msg c0 = Inr m" and run: "(flood_step co tr)\<^sup>*\<^sup>* w w'" and inv: "flood_inv co N tr c0 m n0 w"
  shows "flood_inv co N tr c0 m n0 w'" "near co c0 (fst w') = near co c0 (fst w)" "sp_handlers (fst w' k) = sp_handlers (fst w k)"
proof -
  have "flood_inv co N tr c0 m n0 w' \<and> near co c0 (fst w') = near co c0 (fst w) \<and> sp_handlers (fst w' k) = sp_handlers (fst w k)"
    using run
  proof (induction rule: rtranclp_induct)
    case (step y z)
    then show ?case using flood_inv_step [OF m _ step(2)] flood_step_static [OF m _ step(2)] by auto
  qed (use inv in simp)
  then show "flood_inv co N tr c0 m n0 w'" "near co c0 (fst w') = near co c0 (fst w)" "sp_handlers (fst w' k) = sp_handlers (fst w k)"
    by auto
qed

lemma flood_ends:
  assumes m: "spread_msg c0 = Inr m" and inv: "flood_inv co N tr c0 m n0 w"
  shows "\<exists>w'. (flood_step co tr)\<^sup>*\<^sup>* w w' \<and> fst (snd w') = []"
proof -
  have "wf (measures [unserved N c0, \<lambda>w :: 'a flood. length (fst (snd w))])" by simp
  then show ?thesis using inv
  proof (induction w rule: wf_induct_rule)
    case (less w)
    show ?case
    proof (cases "fst (snd w) = []")
      case False
      then obtain w1 where s: "flood_step co tr w w1" using flood_enabled [OF m less.prems] by blast
      from less.IH [OF flood_step_decreases [OF m less.prems s] flood_inv_step [OF m less.prems s]] s show ?thesis
        by (meson converse_rtranclp_into_rtranclp)
    qed blast
  qed
qed

lemma no_infinite_flood:
  assumes m: "spread_msg c0 = Inr m" and inv: "flood_inv co N tr c0 m n0 (f 0)" and steps: "\<forall>i. flood_step co tr (f i) (f (Suc i))"
  shows False
proof -
  have "flood_inv co N tr c0 m n0 (f i)" for i
    by (induction i) (use inv steps flood_inv_step [OF m] in blast)+
  then have "\<forall>i. (f (Suc i), f i) \<in> measures [unserved N c0, \<lambda>w. length (fst (snd w))]"
    using flood_step_decreases [OF m] steps by blast
  moreover have "wf (measures [unserved N c0, \<lambda>w :: 'a flood. length (fst (snd w))])" by simp
  ultimately show False using wf_iff_no_infinite_down_chain by blast
qed

lemma flood_final:
  assumes inv: "flood_inv co N tr c0 m n0 w" and fin: "fst (snd w) = []" and n0: "n0 \<in> N" and path: "(near co c0 (fst w))\<^sup>*\<^sup>* n0 k"
  shows "k \<in> N \<and> holds c0 w k"
  using path
proof (induction rule: rtranclp_induct)
  case (step y z)
  then show ?case using inv fin by (fastforce simp: flood_inv_def near_def area_ok_def)
qed (use inv n0 in \<open>simp add: flood_inv_def\<close>)

subsection \<open>A post\<close>

lemma post_floods:
  assumes uid: "draw_uid uids (sp_cache s) = Some u" and pos: "localPosition s = Some pos" "co_GetDistance co center pos \<le> r"
    and opt: "\<not> SomeoneMustExists opt" and normal: "nid_IsNormal (sp_localNodeID s)"
    and c0: "c0 = \<lparr>ca_srcNodeID = sp_localNodeID s, ca_uid = u, ca_center = center, ca_r = r, ca_name = name, ca_message = message,
      ca_opt = opt, ca_timestamp = now\<rparr>" and small: "small c0 s"
  shows "\<exists>m. spread_msg c0 = Inr m \<and> sp_Post co relay draws uids now wa center r name message opt s t =
    Inr (PostReturns (Inr ()), map (\<lambda>k. SendPacket False (spread_packet m (tr_localNodeID t) k)) (targets co None c0 s),
      s\<lparr>sp_cache := mput u c0 (sp_cache s)\<rparr>, t)"
proof -
  obtain m where m: "spread_msg c0 = Inr m" using normal c0 by (simp add: spread_msg_def nid_Proto_normal)
  let ?s = "s\<lparr>sp_cache := mput u c0 (sp_cache s)\<rparr>"
  have "makeCache uids now center r name message opt s = Inr (c0, ?s)"
    using uid c0 by (simp add: makeCache_def makeCacheWithUID_def Let_def)
  moreover have "spread_on co draws now None None c0 ?s t =
      Inr (map (\<lambda>k. SendPacket False (spread_packet m (tr_localNodeID t) k)) (targets co None c0 s), t)"
    using small spread_loop_sends [OF m, of co None "nextNodePositions s" t]
    by (simp add: spread_on_def small_def not_less targets_def)
  moreover have "sp_distance co center ?s = Inr (co_GetDistance co center pos)" using pos by (simp add: sp_distance_def)
  ultimately show ?thesis using m pos opt by (simp add: sp_Post_def not_less)
qed

lemma post_flood_inv:
  assumes area: "area_ok N tr c0 net" and n0: "n0 \<in> N" "sp_localNodeID (net n0) = n0" and m: "spread_msg c0 = Inr m"
    and fresh: "\<forall>n. \<not> mhas (sp_cache (net n)) (ca_uid c0)"
    and s0: "s0 = (net n0)\<lparr>sp_cache := mput (ca_uid c0) c0 (sp_cache (net n0))\<rparr>"
  shows "flood_inv co N tr c0 m n0 (net(n0 := s0), map (spread_packet m n0) (targets co None c0 (net n0)), [])" (is "flood_inv co N tr c0 m n0 ?w")
proof -
  have same: "nextNodePositions (fst ?w k) = nextNodePositions (net k)" "localPosition (fst ?w k) = localPosition (net k)"
    "sizeToUseKnock (fst ?w k) = sizeToUseKnock (net k)" "sp_handlers (fst ?w k) = sp_handlers (net k)" for k
    by (cases "k = n0"; simp add: s0)+
  have h: "holds c0 ?w k \<longleftrightarrow> k = n0" for k using fresh by (cases "k = n0") (simp_all add: holds_def s0)
  have nr: "near co c0 (fst ?w) a b \<longleftrightarrow> near co c0 net a b" for a b unfolding near_def same ..
  have tgt: "k \<in> N \<and> (\<exists>pos. localPosition (net k) = Some pos \<and> co_GetDistance co (ca_center c0) pos \<le> ca_r c0)"
    if "k \<in> set (targets co None c0 (net n0))" for k
    using that area n0(1) by (fastforce simp: targets_def area_ok_def)
  have "area_ok N tr c0 (fst ?w)" using area unfolding area_ok_def small_def same .
  moreover have "\<forall>p \<in> set (fst (snd ?w)). Content p = Content_Spread m \<and> DstNodeID p \<in> N \<and> holds c0 ?w (SrcNodeID p) \<and>
      (\<exists>pos. localPosition (fst ?w (DstNodeID p)) = Some pos \<and> co_GetDistance co (ca_center c0) pos \<le> ca_r c0)"
  proof
    fix p assume "p \<in> set (fst (snd ?w))"
    then obtain k where k: "k \<in> set (targets co None c0 (net n0))" "p = spread_packet m n0 k" by auto
    have "Content p = Content_Spread m" "DstNodeID p = k" "SrcNodeID p = n0" using k(2) by (simp_all add: spread_packet_def)
    then show "Content p = Content_Spread m \<and> DstNodeID p \<in> N \<and> holds c0 ?w (SrcNodeID p) \<and>
      (\<exists>pos. localPosition (fst ?w (DstNodeID p)) = Some pos \<and> co_GetDistance co (ca_center c0) pos \<le> ca_r c0)"
      using tgt [OF k(1)] unfolding h same by blast
  qed
  moreover have "\<forall>n \<in> N. holds c0 ?w n \<longrightarrow> (\<forall>k. near co c0 (fst ?w) n k \<longrightarrow> holds c0 ?w k \<or> k \<in> DstNodeID ` set (fst (snd ?w)))"
  proof (intro ballI impI allI disjI2)
    fix n k assume "holds c0 ?w n" "near co c0 (fst ?w) n k"
    then have "near co c0 net n0 k" by (simp only: h nr)
    then have "k \<in> set (targets co None c0 (net n0))" by (simp only: near_targets)
    then have "spread_packet m n0 k \<in> set (fst (snd ?w))" by simp
    moreover have "DstNodeID (spread_packet m n0 k) = k" by (simp add: spread_packet_def)
    ultimately show "k \<in> DstNodeID ` set (fst (snd ?w))" by (metis imageI)
  qed
  moreover have "\<forall>n. n \<noteq> n0 \<longrightarrow> calls_at n ?w = (if holds c0 ?w n then (case mget (sp_handlers (fst ?w n)) (ca_name c0) of
        None \<Rightarrow> [] | Some f \<Rightarrow> [(f, request_of_cache c0)]) else [])"
    unfolding h by (simp add: calls_at_def)
  moreover have "holds c0 ?w n0" using h by blast
  ultimately show ?thesis unfolding flood_inv_def by (intro conjI)
qed

subsection \<open>Properties\<close>

text \<open>The world after a post: the packets it sends are on their way.\<close>

definition after_post :: "(NodeID \<Rightarrow> 'f Spread) \<Rightarrow> NodeID \<Rightarrow> 'f Spread \<Rightarrow> node_handler tr_effect list \<Rightarrow> 'f flood" where
  "after_post net n0 s0 es = (net(n0 := s0), sent_of (map SpTransfer es :: 'f sp_effect list), [])"

text \<open>
  C3. Spreading covers the area: a small message is posted from within its radius, the nodes
  know the positions of their neighbours, and packets are delivered in any order. Then the
  post returns; the flood ends however the deliveries are ordered; and once no packet is on its way, every node
  that a chain of neighbours strictly within the radius connects to the poster has had its
  handler called exactly once, with the message and its source.
\<close>

theorem spread_covers_area:
  assumes "area_ok N tr c0 net" and "n0 \<in> N" and "sp_localNodeID (net n0) = n0" and "nid_IsNormal n0"
    and "c0 = \<lparr>ca_srcNodeID = n0, ca_uid = u, ca_center = center, ca_r = r, ca_name = name, ca_message = message,
      ca_opt = opt, ca_timestamp = now\<rparr>"
    and "\<not> SomeoneMustExists opt" and "draw_uid uids (sp_cache (net n0)) = Some u" and "\<forall>n. \<not> mhas (sp_cache (net n)) u"
    and "localPosition (net n0) = Some pos" and "co_GetDistance co center pos \<le> r"
  shows "\<exists>es s0. sp_Post co relay draws uids now wa center r name message opt (net n0) (tr n0) = Inr (PostReturns (Inr ()), es, s0, tr n0) \<and>
    (\<exists>w. (flood_step co tr)\<^sup>*\<^sup>* (after_post net n0 s0 es) w \<and> fst (snd w) = []) \<and>
    (\<nexists>f. f 0 = after_post net n0 s0 es \<and> (\<forall>i. flood_step co tr (f i) (f (Suc i)))) \<and>
    (\<forall>w k. (flood_step co tr)\<^sup>*\<^sup>* (after_post net n0 s0 es) w \<and> fst (snd w) = [] \<and> (near co c0 net)\<^sup>*\<^sup>* n0 k \<and> k \<noteq> n0 \<longrightarrow>
      calls_at k w = (case mget (sp_handlers (net k)) name of None \<Rightarrow> []
        | Some f \<Rightarrow> [(f, \<lparr>sq_SourceNodeID = n0, sq_Message = message, sq_Options = opt\<rparr>)]))"
proof -
  have small: "small c0 (net n0)" and loc: "tr_localNodeID (tr n0) = n0" using assms(1,2) by (auto simp: area_ok_def)
  let ?s0 = "(net n0)\<lparr>sp_cache := mput u c0 (sp_cache (net n0))\<rparr>"
  obtain m where m: "spread_msg c0 = Inr m"
    and post: "sp_Post co relay draws uids now wa center r name message opt (net n0) (tr n0) =
      Inr (PostReturns (Inr ()), map (\<lambda>k. SendPacket False (spread_packet m n0 k)) (targets co None c0 (net n0)), ?s0, tr n0)"
    using post_floods [OF assms(7,9,10,6), of c0 name message now relay draws wa "tr n0"] assms(3-5) small loc by auto
  let ?es = "map (\<lambda>k. SendPacket False (spread_packet m n0 k)) (targets co None c0 (net n0)) :: node_handler tr_effect list"
  let ?w = "after_post net n0 ?s0 ?es"
  have w: "?w = (net(n0 := ?s0), map (spread_packet m n0) (targets co None c0 (net n0)), [])"
    unfolding after_post_def map_map comp_def sent_calls_map ..
  have inv: "flood_inv co N tr c0 m n0 ?w"
    unfolding w by (rule post_flood_inv [OF assms(1-3) m]) (use assms(5,8) in auto)
  have final: "calls_at k w = (case mget (sp_handlers (net k)) name of None \<Rightarrow> []
        | Some f \<Rightarrow> [(f, \<lparr>sq_SourceNodeID = n0, sq_Message = message, sq_Options = opt\<rparr>)])"
    if run: "(flood_step co tr)\<^sup>*\<^sup>* ?w w" "fst (snd w) = []" and path: "(near co c0 net)\<^sup>*\<^sup>* n0 k" "k \<noteq> n0" for w k
  proof -
    note r = flood_run [OF m run(1) inv]
    have "near co c0 (fst ?w) = near co c0 net" by (simp add: fun_eq_iff near_def w)
    with path r have "holds c0 w k" using flood_final [OF r(1) run(2) assms(2), of k] by simp
    moreover have "sp_handlers (fst w k) = sp_handlers (net k)" using r(3) [of k] by (simp add: w)
    moreover have "ca_name c0 = name" "request_of_cache c0 = \<lparr>sq_SourceNodeID = n0, sq_Message = message, sq_Options = opt\<rparr>"
      using assms(5) by (simp_all add: request_of_cache_def)
    ultimately show ?thesis using r(1) path(2) by (simp add: flood_inv_def split: option.splits)
  qed
  have "\<nexists>f. f 0 = ?w \<and> (\<forall>i. flood_step co tr (f i) (f (Suc i)))" using no_infinite_flood [OF m] inv by metis
  then show ?thesis
    by (intro exI [of _ ?es] exI [of _ ?s0] conjI post flood_ends [OF m inv] allI impI) (blast, blast intro: final)
qed

text \<open>
  A message is handled once: a node that has a message in its cache ignores it when it
  comes again, by flooding or by relay, calls no handler and sends it to no one; a
  relay that asks for a receiver is answered in the negative. A knock for it is refused.
\<close>

theorem known_message_ignored:
  assumes "mhas (sp_cache s) (sm_Uid m)" and "sm_Center m = Some c"
  shows "(Content p = Content_Spread m \<longrightarrow> recvSpread co draws now p s t = Inr ([], s, t)) \<and>
    (Content p = Content_SpreadRelay m \<longrightarrow> recvRelay co relay draws now p s t =
       Inr (if has_mode (Mode p) PacketModeOneWay then []
            else [SpTransfer (SendPacket False (response_packet (tr_localNodeID t) p (Content_SpreadRelayResponse False)))], s, t)) \<and>
    (Content p = Content_SpreadKnock \<lparr>sk_Center = Some c, sk_R = r, sk_Uid = sm_Uid m\<rparr> \<and> \<not> has_mode (Mode p) PacketModeOneWay \<longrightarrow>
       recvKnock co p s t = Inr [SendPacket False (response_packet (tr_localNodeID t) p (Content_SpreadKnockResponse False))])"
  using assms
  by (simp add: recvSpread_def recvRelay_def recvKnock_def NewCoordinateFromProto_def response_if_def responseForRelay_def tr_Response_def Let_def)

text \<open>
  A cached identifier is forgotten after its lifetime, not before: the cleanup drops
  exactly the entries older than that.
\<close>

theorem cleanup_exact:
  assumes "gomap_wf (sp_cache s)"
  shows "mget (sp_cache (cleanupCache now s)) u = Some c \<longleftrightarrow>
    mget (sp_cache s) u = Some c \<and> now \<le> ca_timestamp c + cacheLifetime s"
proof -
  have "gomap_wf (filter P (sp_cache s))" for P using assms by (rule gomap_wf_filter)
  then show ?thesis using assms by (auto simp: cleanupCache_def gomap_wf_mget_iff not_less)
qed

subsection \<open>Three nodes in a row\<close>

definition row_node :: "nat \<Rightarrow> NodeID" where "row_node i = NodeID typeNormal 0 (of_nat i)"

definition row_pos :: "nat \<Rightarrow> Coordinate" where "row_pos i = \<lparr>X = real i, Y = 0\<rparr>"

definition row_spread :: "nat \<Rightarrow> nat list \<Rightarrow> nat Spread" where
  "row_spread i ks = \<lparr>cacheLifetime = 60, sizeToUseKnock = 4096, sp_handlers = [(''m'', i)], sp_cache = [], sp_localNodeID = row_node i,
     localPosition = Some (row_pos i), nextNodePositions = map (\<lambda>k. (row_node k, row_pos k)) ks\<rparr>"

definition row_net :: "NodeID \<Rightarrow> nat Spread" where
  "row_net n = (if n = row_node 1 then row_spread 1 [2] else if n = row_node 2 then row_spread 2 [1, 3] else row_spread 3 [2])"

definition row_tr :: "NodeID \<Rightarrow> node_handler Transferer" where
  "row_tr n = (NewTransferer 0 0)\<lparr>tr_localNodeID := n\<rparr>"

definition row_co :: CoordinateOps where
  "row_co = \<lparr>co_GetDistance = (\<lambda>p q. \<bar>X p - X q\<bar>), co_GetPrecision = 0\<rparr>"

definition row_cache :: cache where
  "row_cache = \<lparr>ca_srcNodeID = row_node 1, ca_uid = 7, ca_center = row_pos 1, ca_r = 5, ca_name = ''m'', ca_message = [1],
     ca_opt = \<lparr>SomeoneMustExists = False\<rparr>, ca_timestamp = 0\<rparr>"

lemma row_nodes: "row_node 1 \<noteq> row_node 2" "row_node 1 \<noteq> row_node 3" "row_node 2 \<noteq> row_node 3"
  "nid_IsNormal (row_node 1)"
  by (simp_all add: row_node_def nid_IsNormal_def)

lemma row_nodes' [simp]: "row_node (Suc 0) \<noteq> row_node 2" "row_node (Suc 0) \<noteq> row_node 3" "row_node 2 \<noteq> row_node 3"
  "row_node 2 \<noteq> row_node (Suc 0)" "row_node 3 \<noteq> row_node (Suc 0)" "row_node 3 \<noteq> row_node 2"
  using row_nodes by auto

lemma row_area: "area_ok {row_node 1, row_node 2, row_node 3} row_tr row_cache row_net"
  by (simp add: area_ok_def row_tr_def small_def row_cache_def row_net_def row_spread_def)

lemma row_near: "(near row_co row_cache row_net)\<^sup>*\<^sup>* (row_node 1) (row_node 3)"
proof -
  have "near row_co row_cache row_net (row_node 1) (row_node 2)" "near row_co row_cache row_net (row_node 2) (row_node 3)"
    by (simp_all add: near_def row_net_def row_spread_def row_co_def row_cache_def row_pos_def)
  then show ?thesis by (meson r_into_rtranclp rtranclp_trans)
qed

theorem spread_covers_area_witness:
  "\<exists>es s0 w. sp_Post row_co (\<lambda>_. Inl Blocked) (\<lambda>_. []) [7] 0 0 (row_pos 1) 5 ''m'' [1] \<lparr>SomeoneMustExists = False\<rparr>
       (row_net (row_node 1)) (row_tr (row_node 1)) = Inr (PostReturns (Inr ()), es, s0, row_tr (row_node 1)) \<and>
     (flood_step row_co row_tr)\<^sup>*\<^sup>* (after_post row_net (row_node 1) s0 es) w \<and> fst (snd w) = [] \<and>
     calls_at (row_node 3) w = [(3, \<lparr>sq_SourceNodeID = row_node 1, sq_Message = [1], sq_Options = \<lparr>SomeoneMustExists = False\<rparr>\<rparr>)]"
proof -
  have h: "mget (sp_handlers (row_net (row_node 3))) ''m'' = Some 3" by (simp add: row_net_def row_spread_def)
  have "row_node 1 \<in> {row_node 1, row_node 2, row_node 3}" by simp
  moreover have "sp_localNodeID (row_net (row_node 1)) = row_node 1" "draw_uid [7] (sp_cache (row_net (row_node 1))) = Some 7"
    "\<forall>n. \<not> mhas (sp_cache (row_net n)) 7" "localPosition (row_net (row_node 1)) = Some (row_pos 1)"
    "co_GetDistance row_co (row_pos 1) (row_pos 1) \<le> 5" "\<not> SomeoneMustExists \<lparr>SomeoneMustExists = False\<rparr>"
    by (simp_all add: row_net_def row_spread_def row_co_def)
  ultimately have "\<exists>es s0. sp_Post row_co (\<lambda>_. Inl Blocked) (\<lambda>_. []) [7] 0 0 (row_pos 1) 5 ''m'' [1] \<lparr>SomeoneMustExists = False\<rparr>
       (row_net (row_node 1)) (row_tr (row_node 1)) = Inr (PostReturns (Inr ()), es, s0, row_tr (row_node 1)) \<and>
    (\<exists>w. (flood_step row_co row_tr)\<^sup>*\<^sup>* (after_post row_net (row_node 1) s0 es) w \<and> fst (snd w) = []) \<and>
    (\<forall>w k. (flood_step row_co row_tr)\<^sup>*\<^sup>* (after_post row_net (row_node 1) s0 es) w \<and> fst (snd w) = [] \<and>
        (near row_co row_cache row_net)\<^sup>*\<^sup>* (row_node 1) k \<and> k \<noteq> row_node 1 \<longrightarrow>
      calls_at k w = (case mget (sp_handlers (row_net k)) ''m'' of None \<Rightarrow> []
        | Some f \<Rightarrow> [(f, \<lparr>sq_SourceNodeID = row_node 1, sq_Message = [1], sq_Options = \<lparr>SomeoneMustExists = False\<rparr>\<rparr>)]))"
    using spread_covers_area [OF row_area, of "row_node 1" 7 "row_pos 1" 5 "''m''" "[1]" "\<lparr>SomeoneMustExists = False\<rparr>" 0 "[7]" "row_pos 1"
        row_co "\<lambda>_. Inl Blocked" "\<lambda>_. []" 0] row_nodes(4) row_cache_def by blast
  then obtain es s0 where p: "sp_Post row_co (\<lambda>_. Inl Blocked) (\<lambda>_. []) [7] 0 0 (row_pos 1) 5 ''m'' [1] \<lparr>SomeoneMustExists = False\<rparr>
       (row_net (row_node 1)) (row_tr (row_node 1)) = Inr (PostReturns (Inr ()), es, s0, row_tr (row_node 1))"
    and e: "\<exists>w. (flood_step row_co row_tr)\<^sup>*\<^sup>* (after_post row_net (row_node 1) s0 es) w \<and> fst (snd w) = []"
    and all: "\<forall>w k. (flood_step row_co row_tr)\<^sup>*\<^sup>* (after_post row_net (row_node 1) s0 es) w \<and> fst (snd w) = [] \<and>
        (near row_co row_cache row_net)\<^sup>*\<^sup>* (row_node 1) k \<and> k \<noteq> row_node 1 \<longrightarrow>
      calls_at k w = (case mget (sp_handlers (row_net k)) ''m'' of None \<Rightarrow> []
        | Some f \<Rightarrow> [(f, \<lparr>sq_SourceNodeID = row_node 1, sq_Message = [1], sq_Options = \<lparr>SomeoneMustExists = False\<rparr>\<rparr>)])" by blast
  from e obtain w where w: "(flood_step row_co row_tr)\<^sup>*\<^sup>* (after_post row_net (row_node 1) s0 es) w" "fst (snd w) = []" by blast
  from all [rule_format, of w "row_node 3"] w row_near row_nodes(2) [symmetric]
  have "calls_at (row_node 3) w = [(3, \<lparr>sq_SourceNodeID = row_node 1, sq_Message = [1], sq_Options = \<lparr>SomeoneMustExists = False\<rparr>\<rparr>)]"
    unfolding h option.case by blast
  with p w show ?thesis by blast
qed

theorem known_message_ignored_witness:
  "recvSpread row_co (\<lambda>_. []) 3 (spread_packet \<lparr>sm_Source = None, sm_Center = Some \<lparr>p_X = 0, p_Y = 0\<rparr>, sm_R = 1, sm_Uid = 7, sm_Name = [],
       sm_Message = [], sm_Opt = 0\<rparr> (row_node 1) (row_node 2)) ((row_spread 2 [])\<lparr>sp_cache := [(7, row_cache)]\<rparr>) (row_tr (row_node 2)) =
     Inr ([], (row_spread 2 [])\<lparr>sp_cache := [(7, row_cache)]\<rparr>, row_tr (row_node 2))"
  using known_message_ignored [of "(row_spread 2 [])\<lparr>sp_cache := [(7, row_cache)]\<rparr>"
      "\<lparr>sm_Source = None, sm_Center = Some \<lparr>p_X = 0, p_Y = 0\<rparr>, sm_R = 1, sm_Uid = 7, sm_Name = [], sm_Message = [], sm_Opt = 0\<rparr>"
      "\<lparr>p_X = 0, p_Y = 0\<rparr>"]
  by (simp add: spread_packet_def)

theorem cleanup_exact_witness:
  "mget (sp_cache (cleanupCache 60 ((row_spread 2 [])\<lparr>sp_cache := [(7, row_cache)]\<rparr>))) 7 = Some row_cache \<and>
   mget (sp_cache (cleanupCache 61 ((row_spread 2 [])\<lparr>sp_cache := [(7, row_cache)]\<rparr>))) 7 \<noteq> Some row_cache"
  using cleanup_exact [of "(row_spread 2 [])\<lparr>sp_cache := [(7, row_cache)]\<rparr>" 60 7 row_cache]
    cleanup_exact [of "(row_spread 2 [])\<lparr>sp_cache := [(7, row_cache)]\<rparr>" 61 7 row_cache]
  by (simp add: row_cache_def row_spread_def)

end
