(* ===== verification/Messaging.thy ===== *)
theory Messaging
  imports Transferer
begin

text \<open>
  Messages between two nodes (\<open>src/node/internal/messaging/messaging.go\<close>): a post is a request of
  the transferer, a registered handler gets the message and a writer for the response.

  A user's handler is a value of type \<open>'f\<close>, the response handler of a post a value of type \<open>'h\<close>.
  \<open>Post\<close> is cut where it waits for the channel of its response handler: \<open>msg_Post\<close> gives what it sends and
  whether it waits, \<open>msg_Post_result\<close> what it returns for the value it then gets.
\<close>

record msg_Options =
  AcceptNearby :: bool
  IgnoreResponse :: bool

record msg_Request =
  mr_SourceNodeID :: NodeID
  mr_Message :: bytes
  mr_Options :: msg_Options

type_synonym 'f Messaging = "(string, 'f) gomap"

record responseWriterImpl =
  rw_send :: bool
  rw_packet :: Packet

datatype ('f, 'h) msg_effect =
    MsgTransfer "'h tr_effect"
  | GoHandler 'f msg_Request "responseWriterImpl option"

definition NewMessaging :: "'h Transferer \<Rightarrow> ('f Messaging \<times> 'h Transferer) outcome" where
  "NewMessaging t = obind (SetRequestHandler K_Messaging t) (\<lambda>t. Inr ([], t))"

subsection \<open>Responses\<close>

definition newResponseWriter :: "Packet \<Rightarrow> responseWriterImpl" where
  "newResponseWriter packet = \<lparr>rw_send = False, rw_packet = packet\<rparr>"

definition rw_Write :: "bytes \<Rightarrow> 'h Transferer \<Rightarrow> responseWriterImpl \<Rightarrow>
    (unit result \<times> 'h tr_effect list \<times> responseWriterImpl) outcome" where
  "rw_Write message t r =
     (if rw_send r then Inr (Inl ''multiple responses are written'', [], r)
      else let r = r\<lparr>rw_send := True\<rparr>
           in obind (tr_Response False (rw_packet r) (Content_MessagingResponse message) t) (\<lambda>es. Inr (Inr (), es, r)))"

text \<open>The finalizer: a writer that was never used responds with nothing.\<close>

definition rw_finalize :: "'h Transferer \<Rightarrow> responseWriterImpl \<Rightarrow> ('h tr_effect list \<times> responseWriterImpl) outcome" where
  "rw_finalize t r =
     (if \<not> rw_send r then obind (rw_Write [] t r) (\<lambda>(_, es, r). Inr (es, r)) else Inr ([], r))"

record messagingResponse =
  mres_ok :: bool
  mres_response :: bytes
  mres_errorCode :: "32 word"
  mres_errorMessage :: string

text \<open>What the response handler puts into its channel; a response of another kind is nil there.\<close>

definition msg_OnResponse :: "Packet \<Rightarrow> messagingResponse outcome" where
  "msg_OnResponse packet =
     (case Content packet of
        Content_MessagingResponse response \<Rightarrow>
          Inr \<lparr>mres_ok = True, mres_response = response, mres_errorCode = 0, mres_errorMessage = []\<rparr>
      | _ \<Rightarrow> Inl (Panic ''nil pointer dereference''))"

definition msg_OnError :: "32 word \<Rightarrow> string \<Rightarrow> messagingResponse" where
  "msg_OnError errorCode errorMessage =
     \<lparr>mres_ok = False, mres_response = [], mres_errorCode = errorCode, mres_errorMessage = errorMessage\<rparr>"

subsection \<open>Posting\<close>

definition msg_Post :: "32 word list \<Rightarrow> time \<Rightarrow> NodeID \<Rightarrow> string \<Rightarrow> bytes \<Rightarrow> msg_Options \<Rightarrow> 'h \<Rightarrow> 'h Transferer \<Rightarrow>
    (bool \<times> 'h tr_effect list \<times> 'h Transferer) outcome" where
  "msg_Post draws now dstNodeID name val opt rh t =
     (let mode = (if \<not> AcceptNearby opt then PacketModeExplicit else PacketModeNone);
          content = Content_Messaging name val
      in if IgnoreResponse opt then Inr (False, tr_RequestOneWay dstNodeID mode content t, t)
         else obind (tr_Request draws now False dstNodeID mode content rh t) (\<lambda>(es, t). Inr (True, es, t)))"

text \<open>The error names the code and the message.\<close>

definition msg_Post_result :: "messagingResponse \<Rightarrow> (32 word \<times> string) + bytes" where
  "msg_Post_result res =
     (if \<not> mres_ok res then Inl (mres_errorCode res, mres_errorMessage res) else Inr (mres_response res))"

subsection \<open>Handlers\<close>

definition msg_SetHandler :: "string \<Rightarrow> 'f \<Rightarrow> 'f Messaging \<Rightarrow> 'f Messaging" where
  "msg_SetHandler name handler m = mput name handler m"

definition msg_UnsetHandler :: "string \<Rightarrow> 'f Messaging \<Rightarrow> 'f Messaging" where
  "msg_UnsetHandler name m = mdel name m"

definition recvMessage :: "Packet \<Rightarrow> 'h Transferer \<Rightarrow> 'f Messaging \<Rightarrow> ('f, 'h) msg_effect list outcome" where
  "recvMessage packet t m =
     (case Content packet of
        Content_Messaging name message \<Rightarrow>
          let oneWay = has_mode (Mode packet) PacketModeOneWay
          in (case mget m name of
                None \<Rightarrow>
                  if \<not> oneWay
                  then obind (tr_Error False packet PacketErrorCodeNoOneReceive (''no handler for the message('' @ name @ '')'') t) (\<lambda>es.
                    Inr (map MsgTransfer es))
                  else Inr []
              | Some handler \<Rightarrow>
                  let opt = \<lparr>AcceptNearby = \<not> has_mode (Mode packet) PacketModeExplicit,
                             IgnoreResponse = has_mode (Mode packet) PacketModeOneWay\<rparr>;
                      request = \<lparr>mr_SourceNodeID = SrcNodeID packet, mr_Message = message, mr_Options = opt\<rparr>
                  in if oneWay then Inr [GoHandler handler request None]
                     else Inr [GoHandler handler request (Some (newResponseWriter packet))])
      | _ \<Rightarrow> Inl (Panic ''nil pointer dereference''))"

subsection \<open>A message and its response\<close>

lemma post_sends:
  assumes "draw_id draws (requestRecords ta) = Some i" "dst \<noteq> NodeNeighborhoods" "\<not> IgnoreResponse opt"
  shows "\<exists>p ta'. msg_Post draws now dst name val opt rh ta = Inr (True, [SendPacket False p], ta') \<and>
    p = \<lparr>DstNodeID = dst, SrcNodeID = tr_localNodeID ta, pk_ID = i, HopCount = 0,
         Mode = (if AcceptNearby opt then PacketModeNone else PacketModeExplicit), Content = Content_Messaging name val\<rparr> \<and>
    tr_localNodeID ta' = tr_localNodeID ta \<and>
    (\<exists>rec. rr_handler rec = rh \<and> requestRecords ta' = mput i rec (requestRecords ta))"
  using assms by (simp add: msg_Post_def tr_Request_def Let_def) (metis requestRecord.select_convs(5))

lemma response_received:
  assumes "rr_handler rec = rh" "requestRecords ta' = mput i rec (requestRecords ta)" "i \<noteq> 0" "mget (requestRecords ta) i = None"
    and "pk_ID q = i" "has_mode (Mode q) PacketModeResponse"
  shows "\<exists>ta''. tr_Receive False q ta' =
      Inr ([case Content q of Content_Error code message \<Rightarrow> OnError rh code message | _ \<Rightarrow> OnResponse rh q], ta'') \<and>
    mget (requestRecords ta'') = mget (requestRecords ta)"
  using assms by (auto simp: tr_Receive_def fun_eq_iff)

text \<open>
  C13. A message gets to its handler and the response back to the caller: the post sends one
  packet; whatever its hop count when it arrives, the receiver calls the handler registered
  for the name with the sender, the message and the options of the post; the response the
  handler writes is sent to the poster; when it arrives, the post returns it and nothing is
  pending for it any more.
\<close>

theorem message_roundtrip:
  assumes "draw_id draws (requestRecords ta) = Some i" and "dst \<noteq> NodeNeighborhoods" and "\<not> IgnoreResponse opt"
    and "mget m name = Some f"
  shows "\<exists>p ta' rw q rw' ta'' res. msg_Post draws now dst name val opt rh ta = Inr (True, [SendPacket False p], ta') \<and> DstNodeID p = dst \<and>
    recvMessage (p\<lparr>HopCount := h\<rparr>) tb m =
      Inr [GoHandler f \<lparr>mr_SourceNodeID = tr_localNodeID ta, mr_Message = val, mr_Options = opt\<rparr> (Some rw)] \<and>
    rw_Write response tb rw = Inr (Inr (), [SendPacket False q], rw') \<and> DstNodeID q = tr_localNodeID ta \<and>
    tr_Receive False (q\<lparr>HopCount := h'\<rparr>) ta' = Inr ([OnResponse rh (q\<lparr>HopCount := h'\<rparr>)], ta'') \<and>
    mget (requestRecords ta'') = mget (requestRecords ta) \<and>
    msg_OnResponse (q\<lparr>HopCount := h'\<rparr>) = Inr res \<and> msg_Post_result res = Inr response"
proof -
  obtain p ta' rec where p: "msg_Post draws now dst name val opt rh ta = Inr (True, [SendPacket False p], ta')"
    "p = \<lparr>DstNodeID = dst, SrcNodeID = tr_localNodeID ta, pk_ID = i, HopCount = 0,
         Mode = (if AcceptNearby opt then PacketModeNone else PacketModeExplicit), Content = Content_Messaging name val\<rparr>"
    "rr_handler rec = rh" "requestRecords ta' = mput i rec (requestRecords ta)"
    using post_sends [OF assms(1-3), of now name val rh] by blast
  let ?p = "p\<lparr>HopCount := h\<rparr>" and ?rw = "newResponseWriter (p\<lparr>HopCount := h\<rparr>)"
  let ?q = "response_packet (tr_localNodeID tb) ?p (Content_MessagingResponse response)"
  have one: "\<not> has_mode (Mode ?p) PacketModeOneWay" by (simp add: p(2))
  have "recvMessage ?p tb m = Inr [GoHandler f \<lparr>mr_SourceNodeID = tr_localNodeID ta, mr_Message = val, mr_Options = opt\<rparr> (Some ?rw)]"
    using one assms(3,4) by (cases opt) (simp add: recvMessage_def p(2))
  moreover have "rw_Write response tb ?rw = Inr (Inr (), [SendPacket False ?q], ?rw\<lparr>rw_send := True\<rparr>)"
    using one by (simp add: rw_Write_def newResponseWriter_def tr_Response_def Let_def)
  moreover have "\<exists>ta''. tr_Receive False (?q\<lparr>HopCount := h'\<rparr>) ta' = Inr ([OnResponse rh (?q\<lparr>HopCount := h'\<rparr>)], ta'') \<and>
      mget (requestRecords ta'') = mget (requestRecords ta)"
    using response_received [OF p(3,4), of "?q\<lparr>HopCount := h'\<rparr>"] draw_id_new [OF assms(1)]
    by (simp add: response_packet_def p(2))
  moreover have "DstNodeID p = dst" "DstNodeID ?q = tr_localNodeID ta" by (simp_all add: p(2) response_packet_def)
  moreover have "msg_OnResponse (?q\<lparr>HopCount := h'\<rparr>) =
      Inr \<lparr>mres_ok = True, mres_response = response, mres_errorCode = 0, mres_errorMessage = []\<rparr>"
    by (simp add: msg_OnResponse_def response_packet_def)
  moreover have "msg_Post_result \<lparr>mres_ok = True, mres_response = response, mres_errorCode = 0, mres_errorMessage = []\<rparr> = Inr response"
    by (simp add: msg_Post_result_def)
  ultimately show ?thesis using p(1) by blast
qed

text \<open>
  Without a handler for the name the post ends with an error that says so, and nothing
  is pending for it any more.
\<close>

theorem message_without_handler:
  assumes "draw_id draws (requestRecords ta) = Some i" and "dst \<noteq> NodeNeighborhoods" and "\<not> IgnoreResponse opt"
    and "mget m name = None"
  shows "\<exists>p ta' q ta''. msg_Post draws now dst name val opt rh ta = Inr (True, [SendPacket False p], ta') \<and>
    recvMessage (p\<lparr>HopCount := h\<rparr>) tb (m :: 'f Messaging) = Inr [MsgTransfer (SendPacket False q)] \<and> DstNodeID q = tr_localNodeID ta \<and>
    tr_Receive False (q\<lparr>HopCount := h'\<rparr>) ta' =
      Inr ([OnError rh PacketErrorCodeNoOneReceive (''no handler for the message('' @ name @ '')'')], ta'') \<and>
    mget (requestRecords ta'') = mget (requestRecords ta) \<and>
    msg_Post_result (msg_OnError PacketErrorCodeNoOneReceive (''no handler for the message('' @ name @ '')'')) =
      Inl (PacketErrorCodeNoOneReceive, ''no handler for the message('' @ name @ '')'')"
proof -
  obtain p ta' rec where p: "msg_Post draws now dst name val opt rh ta = Inr (True, [SendPacket False p], ta')"
    "p = \<lparr>DstNodeID = dst, SrcNodeID = tr_localNodeID ta, pk_ID = i, HopCount = 0,
         Mode = (if AcceptNearby opt then PacketModeNone else PacketModeExplicit), Content = Content_Messaging name val\<rparr>"
    "rr_handler rec = rh" "requestRecords ta' = mput i rec (requestRecords ta)"
    using post_sends [OF assms(1-3), of now name val rh] by blast
  let ?q = "response_packet (tr_localNodeID tb) (p\<lparr>HopCount := h\<rparr>)
    (Content_Error PacketErrorCodeNoOneReceive (''no handler for the message('' @ name @ '')''))"
  have "recvMessage (p\<lparr>HopCount := h\<rparr>) tb m = Inr [MsgTransfer (SendPacket False ?q)]"
    using assms(4) by (simp add: recvMessage_def p(2) tr_Error_def tr_Response_def)
  moreover have "\<exists>ta''. tr_Receive False (?q\<lparr>HopCount := h'\<rparr>) ta' =
      Inr ([OnError rh PacketErrorCodeNoOneReceive (''no handler for the message('' @ name @ '')'')], ta'') \<and>
      mget (requestRecords ta'') = mget (requestRecords ta)"
    using response_received [OF p(3,4), of "?q\<lparr>HopCount := h'\<rparr>"] draw_id_new [OF assms(1)]
    by (simp add: response_packet_def p(2))
  moreover have "DstNodeID ?q = tr_localNodeID ta" by (simp add: p(2) response_packet_def)
  moreover have "msg_Post_result (msg_OnError PacketErrorCodeNoOneReceive (''no handler for the message('' @ name @ '')'')) =
      Inl (PacketErrorCodeNoOneReceive, ''no handler for the message('' @ name @ '')'')"
    by (simp add: msg_Post_result_def msg_OnError_def)
  ultimately show ?thesis using p(1) by blast
qed

text \<open>A handler that writes any number of times, and then drops the writer.\<close>

fun write_all :: "bytes list \<Rightarrow> 'h Transferer \<Rightarrow> responseWriterImpl \<Rightarrow> ('h tr_effect list \<times> responseWriterImpl) outcome" where
  "write_all [] t r = rw_finalize t r"
| "write_all (message # ms) t r =
     obind (rw_Write message t r) (\<lambda>(_, es, r). obind (write_all ms t r) (\<lambda>(es', r). Inr (es @ es', r)))"

lemma write_all_sent: "rw_send r \<Longrightarrow> write_all ms t r = Inr ([], r)"
  by (induction ms) (simp_all add: rw_finalize_def rw_Write_def)

text \<open>
  Exactly one response: however often a handler writes, never included, one response is
  sent for the request: the first one written, or an empty one when the writer is collected.
\<close>

theorem single_response:
  assumes "\<not> has_mode (Mode packet) PacketModeOneWay"
  shows "\<exists>r. write_all ms t (newResponseWriter packet) =
    Inr ([SendPacket False (response_packet (tr_localNodeID t) packet (Content_MessagingResponse (if ms = [] then [] else hd ms)))], r)"
  using assms
  by (cases ms) (simp_all add: rw_finalize_def rw_Write_def newResponseWriter_def tr_Response_def Let_def write_all_sent)

definition msg_tr :: "NodeID \<Rightarrow> nat Transferer" where
  "msg_tr n = (NewTransferer 0 0)\<lparr>tr_localNodeID := n\<rparr>"

theorem message_roundtrip_witness:
  "\<exists>p ta' rw q rw' ta'' res. msg_Post [5] 0 (NodeID typeNormal 0 2) ''m'' [1] \<lparr>AcceptNearby = False, IgnoreResponse = False\<rparr> 4
      (msg_tr (NodeID typeNormal 0 1)) = Inr (True, [SendPacket False p], ta') \<and>
    recvMessage (p\<lparr>HopCount := 3\<rparr>) (msg_tr (NodeID typeNormal 0 2)) [(''m'', 7::nat)] = Inr [GoHandler 7
      \<lparr>mr_SourceNodeID = NodeID typeNormal 0 1, mr_Message = [1], mr_Options = \<lparr>AcceptNearby = False, IgnoreResponse = False\<rparr>\<rparr> (Some rw)] \<and>
    rw_Write [2] (msg_tr (NodeID typeNormal 0 2)) rw = Inr (Inr (), [SendPacket False q], rw') \<and>
    tr_Receive False (q\<lparr>HopCount := 3\<rparr>) ta' = Inr ([OnResponse 4 (q\<lparr>HopCount := 3\<rparr>)], ta'') \<and>
    msg_OnResponse (q\<lparr>HopCount := 3\<rparr>) = Inr res \<and> msg_Post_result res = Inr [2]"
proof -
  have d: "draw_id [5] (requestRecords (msg_tr (NodeID typeNormal 0 1))) = Some 5" "NodeID typeNormal 0 2 \<noteq> NodeNeighborhoods"
    "tr_localNodeID (msg_tr (NodeID typeNormal 0 1)) = NodeID typeNormal 0 1"
    by (simp_all add: msg_tr_def NewTransferer_def NodeNeighborhoods_def typeNormal_def typeNeighborhoods_def)
  have o: "\<not> IgnoreResponse \<lparr>AcceptNearby = False, IgnoreResponse = False\<rparr>" "mget [(''m'', 7::nat)] ''m'' = Some 7" by simp_all
  from message_roundtrip [OF d(1,2) o, of 0 "[1]" 4 3 "msg_tr (NodeID typeNormal 0 2)" "[2]" 3]
  show ?thesis unfolding d(3) by blast
qed

theorem message_without_handler_witness:
  "\<exists>p ta' q ta''. msg_Post [5] 0 (NodeID typeNormal 0 2) ''m'' [1] \<lparr>AcceptNearby = False, IgnoreResponse = False\<rparr> 4
      (msg_tr (NodeID typeNormal 0 1)) = Inr (True, [SendPacket False p], ta') \<and>
    recvMessage (p\<lparr>HopCount := 3\<rparr>) (msg_tr (NodeID typeNormal 0 2)) ([] :: nat Messaging) = Inr [MsgTransfer (SendPacket False q)] \<and>
    tr_Receive False (q\<lparr>HopCount := 3\<rparr>) ta' = Inr ([OnError 4 PacketErrorCodeNoOneReceive ''no handler for the message(m)''], ta'')"
proof -
  have d: "draw_id [5] (requestRecords (msg_tr (NodeID typeNormal 0 1))) = Some 5" "NodeID typeNormal 0 2 \<noteq> NodeNeighborhoods"
    by (simp_all add: msg_tr_def NewTransferer_def NodeNeighborhoods_def typeNormal_def typeNeighborhoods_def)
  from message_without_handler [OF d(1,2), of "\<lparr>AcceptNearby = False, IgnoreResponse = False\<rparr>" "[]" "''m''" 0 "[1]" 4 3
      "msg_tr (NodeID typeNormal 0 2)" 3]
  show ?thesis by auto
qed

theorem single_response_witness:
  "\<exists>r. write_all [[1], [2]] (msg_tr (NodeID typeNormal 0 2))
      (newResponseWriter \<lparr>DstNodeID = NodeID typeNormal 0 2, SrcNodeID = NodeID typeNormal 0 1, pk_ID = 5, HopCount = 0,
        Mode = PacketModeNone, Content = Content_Messaging ''m'' []\<rparr>) =
    Inr ([SendPacket False (response_packet (NodeID typeNormal 0 2) \<lparr>DstNodeID = NodeID typeNormal 0 2, SrcNodeID = NodeID typeNormal 0 1,
        pk_ID = 5, HopCount = 0, Mode = PacketModeNone, Content = Content_Messaging ''m'' []\<rparr> (Content_MessagingResponse [1]))], r)"
  using single_response [of "\<lparr>DstNodeID = NodeID typeNormal 0 2, SrcNodeID = NodeID typeNormal 0 1, pk_ID = 5, HopCount = 0,
        Mode = PacketModeNone, Content = Content_Messaging ''m'' []\<rparr>" "[[1], [2]]" "msg_tr (NodeID typeNormal 0 2)"]
  by (simp add: msg_tr_def)

end
