(* ===== verification/Node.thy ===== *)
theory Node
  imports Network_Props Messaging Spread
begin

text \<open>
  The node a program uses (\<open>src/node/node.go\<close>): its configuration, the network, the messaging
  and the spreading built on one transferer, and the calls of the public interface. The
  observation of a node (\<open>src/node/observation/observation.go\<close>) is only told, never asked.

  The user's handlers are values of type \<open>'f\<close> (messaging) and \<open>'g\<close> (spreading), an ICE server one of
  type \<open>'i\<close>. A call that waits is cut where the component's is.
\<close>

subsection \<open>Configuration\<close>

record 'i Config =
  cfg_SeedURL :: string
  cfg_ICEServers :: "'i list"
  cfg_CoordinateSystem :: "CoordinateOps option"
  cfg_PacketHopLimit :: "64 word"
  cfg_SpreadCacheLifetime :: duration
  cfg_SpreadSizeToUseKnock :: "64 word"

definition WithSeedURL :: "string \<Rightarrow> 'i Config \<Rightarrow> 'i Config" where
  "WithSeedURL url c = c\<lparr>cfg_SeedURL := url\<rparr>"

definition WithICEServers :: "'i list \<Rightarrow> 'i Config \<Rightarrow> 'i Config" where
  "WithICEServers servers c = c\<lparr>cfg_ICEServers := servers\<rparr>"

text \<open>The draws of the random source for the first position are arguments.\<close>

definition WithPlaneGeometry :: "real \<Rightarrow> real \<Rightarrow> real \<Rightarrow> real \<Rightarrow> real \<Rightarrow> real \<Rightarrow> 'i Config \<Rightarrow> 'i Config" where
  "WithPlaneGeometry r1 r2 xmin xmax ymin ymax c =
     (let p = NewPlaneCoordinateSystem r1 r2 xmin xmax ymin ymax
      in c\<lparr>cfg_CoordinateSystem := Some \<lparr>co_GetDistance = pl_GetDistance p, co_GetPrecision = pl_GetPrecision p\<rparr>\<rparr>)"

definition WithSphereGeometry :: "real \<Rightarrow> real \<Rightarrow> real \<Rightarrow> 'i Config \<Rightarrow> 'i Config" where
  "WithSphereGeometry r1 r2 rad c =
     (let p = NewSphereCoordinateSystem r1 r2 rad
      in c\<lparr>cfg_CoordinateSystem := Some \<lparr>co_GetDistance = sp_GetDistance p, co_GetPrecision = sp_GetPrecision p\<rparr>\<rparr>)"

definition node_link_config :: NodeLinkConfig where
  "node_link_config =
     \<lparr>SessionTimeout = 5 * 60 * 1000000000, KeepaliveInterval = 60 * 1000000000, BufferInterval = 10 * 1000000, PacketBaseBytes = 4096\<rparr>"

record ('f, 'g) colonioImpl =
  ci_started :: bool
  ci_cancelled :: bool
  ci_localNodeID :: "NodeID option"
  ci_coordinateSystem :: CoordinateOps
  ci_network :: "node_handler Network"
  ci_messaging :: "'f Messaging"
  ci_spread :: "'g Spread"

definition NewNode :: "Routing \<Rightarrow> ('i Config \<Rightarrow> 'i Config) list \<Rightarrow> ('f, 'g) colonioImpl result outcome" where
  "NewNode routing setters =
     (let config = fold (\<lambda>setter c. setter c) setters
            \<lparr>cfg_SeedURL = [], cfg_ICEServers = [], cfg_CoordinateSystem = None, cfg_PacketHopLimit = 64,
             cfg_SpreadCacheLifetime = 60 * 1000000000, cfg_SpreadSizeToUseKnock = 4096\<rparr>
      in if length (cfg_SeedURL config) = 0 then Inr (Inl ''seed url should be set'')
         else if length (cfg_ICEServers config) = 0 then Inr (Inl ''ICE servers should be set'')
         else case cfg_CoordinateSystem config of
           None \<Rightarrow> Inr (Inl ''coordinate system should be set'')
         | Some co \<Rightarrow>
             obind (NewNetwork (cfg_SeedURL config) node_link_config (cfg_PacketHopLimit config) routing) (\<lambda>net.
             obind (NewMessaging (nw_transferer net)) (\<lambda>(m, t).
             obind (NewSpread (cfg_SpreadCacheLifetime config) (cfg_SpreadSizeToUseKnock config) t) (\<lambda>(s, t).
               Inr (Inr \<lparr>ci_started = False, ci_cancelled = False, ci_localNodeID = None, ci_coordinateSystem = co,
                         ci_network = net\<lparr>nw_transferer := t\<rparr>, ci_messaging = m, ci_spread = s\<rparr>)))))"

subsection \<open>Life of a node\<close>

definition ci_Start :: "(proto_NodeID option \<times> bool) call \<Rightarrow> time \<Rightarrow> ('f, 'g) colonioImpl \<Rightarrow> (unit result \<times> ('f, 'g) colonioImpl) outcome" where
  "ci_Start answer now c =
     (if ci_started c then Inr (Inl ''cannot call Start() twice'', c)
      else let c = c\<lparr>ci_started := True\<rparr>
           in case nw_Start answer now True (ci_network c) of
                (Inl err, net) \<Rightarrow> Inr (Inl err, c\<lparr>ci_network := net\<rparr>)
              | (Inr localNodeID, net) \<Rightarrow>
                  obind (sp_Start localNodeID (ci_spread c)) (\<lambda>s.
                    Inr (Inr (), c\<lparr>ci_localNodeID := Some localNodeID, ci_network := net, ci_spread := s\<rparr>)))"

text \<open>Before \<open>Start\<close> the cancel function is nil.\<close>

definition ci_Stop :: "('f, 'g) colonioImpl \<Rightarrow> ('f, 'g) colonioImpl outcome" where
  "ci_Stop c = (if \<not> ci_started c then Inl (Panic ''nil pointer dereference'') else Inr (c\<lparr>ci_cancelled := True\<rparr>))"

definition ci_IsOnline :: "('f, 'g) colonioImpl \<Rightarrow> bool" where
  "ci_IsOnline c = nw_IsOnline (ci_network c)"

definition ci_IsStable :: "('f, 'g) colonioImpl \<Rightarrow> bool" where
  "ci_IsStable c = fst (nw_GetStability (ci_network c))"

definition ci_GetLocalNodeID :: "('f, 'g) colonioImpl \<Rightarrow> string outcome" where
  "ci_GetLocalNodeID c =
     (case ci_localNodeID c of None \<Rightarrow> Inl (Panic ''nil pointer dereference'') | Some n \<Rightarrow> nid_String n)"

definition ci_UpdateLocalPosition ::
  "triangulate_fn \<Rightarrow> real \<Rightarrow> real \<Rightarrow> ('f, 'g) colonioImpl \<Rightarrow> (unit result \<times> ('f, 'g) colonioImpl) outcome" where
  "ci_UpdateLocalPosition triangulate x y c =
     (let position = NewCoordinate x y;
          c = c\<lparr>ci_spread := sp_UpdateLocalPosition position (ci_spread c)\<rparr>
      in obind (nw_UpdateLocalPosition (ci_coordinateSystem c) triangulate position (ci_network c)) (\<lambda>(r, net).
           Inr (r, c\<lparr>ci_network := net\<rparr>)))"

subsection \<open>Messaging\<close>

definition MessagingWithAcceptNearby :: "msg_Options \<Rightarrow> msg_Options" where
  "MessagingWithAcceptNearby opt = opt\<lparr>AcceptNearby := True\<rparr>"

definition MessagingWithIgnoreResponse :: "msg_Options \<Rightarrow> msg_Options" where
  "MessagingWithIgnoreResponse opt = opt\<lparr>IgnoreResponse := True\<rparr>"

text \<open>The flag tells whether the call now waits for the response handler named \<open>rh\<close>.\<close>

definition ci_MessagingPost ::
  "Codec \<Rightarrow> (linkref \<Rightarrow> NodePackets list \<Rightarrow> bool) \<Rightarrow> 32 word list \<Rightarrow> time \<Rightarrow> string \<Rightarrow> string \<Rightarrow> bytes \<Rightarrow>
    (msg_Options \<Rightarrow> msg_Options) list \<Rightarrow> nat \<Rightarrow> ('f, 'g) colonioImpl \<Rightarrow>
    (bool result \<times> node_handler nw_effect list \<times> ('f, 'g) colonioImpl) outcome" where
  "ci_MessagingPost cd wsend draws now dst name val setters rh c =
     (case NewNodeIDFromString dst of
        Inl err \<Rightarrow> Inr (Inl ''invalid node id'', [], c)
      | Inr dstNodeID \<Rightarrow>
          let opt = fold (\<lambda>setter opt. setter opt) setters \<lparr>AcceptNearby = False, IgnoreResponse = False\<rparr>
          in obind (msg_Post draws now dstNodeID name val opt (MessagingResponseHandler rh) (nw_transferer (ci_network c))) (\<lambda>(waits, es, t).
             obind (run_transferer cd wsend es ((ci_network c)\<lparr>nw_transferer := t\<rparr>)) (\<lambda>(out, net).
               Inr (Inr waits, out, c\<lparr>ci_network := net\<rparr>))))"

definition ci_MessagingSetHandler :: "string \<Rightarrow> 'f \<Rightarrow> ('f, 'g) colonioImpl \<Rightarrow> ('f, 'g) colonioImpl" where
  "ci_MessagingSetHandler name handler c = c\<lparr>ci_messaging := msg_SetHandler name handler (ci_messaging c)\<rparr>"

definition ci_MessagingUnsetHandler :: "string \<Rightarrow> ('f, 'g) colonioImpl \<Rightarrow> ('f, 'g) colonioImpl" where
  "ci_MessagingUnsetHandler name c = c\<lparr>ci_messaging := msg_UnsetHandler name (ci_messaging c)\<rparr>"

text \<open>What the user's handler is called with: the source as a string.\<close>

record MessagingRequest =
  nm_SourceNodeID :: string
  nm_Message :: bytes
  nm_Options :: msg_Options

definition user_request :: "msg_Request \<Rightarrow> MessagingRequest outcome" where
  "user_request req =
     obind (nid_String (mr_SourceNodeID req)) (\<lambda>src.
       Inr \<lparr>nm_SourceNodeID = src, nm_Message = mr_Message req, nm_Options = mr_Options req\<rparr>)"

subsection \<open>Spreading\<close>

definition SpreadWithSomeoneMustExists :: "sp_Options \<Rightarrow> sp_Options" where
  "SpreadWithSomeoneMustExists opt = opt\<lparr>SomeoneMustExists := True\<rparr>"

definition SpreadGetRelayNodeID :: "Coordinate \<Rightarrow> ('f, 'g) colonioImpl \<Rightarrow> NodeID outcome" where
  "SpreadGetRelayNodeID position c = nw_GetNextStep2D (ci_coordinateSystem c) position (ci_network c)"

definition ci_SpreadPost ::
  "Codec \<Rightarrow> (linkref \<Rightarrow> NodePackets list \<Rightarrow> bool) \<Rightarrow> (NodeID \<Rightarrow> 32 word list) \<Rightarrow> 64 word list \<Rightarrow> time \<Rightarrow> nat \<Rightarrow> real \<Rightarrow> real \<Rightarrow> real \<Rightarrow>
    string \<Rightarrow> bytes \<Rightarrow> (sp_Options \<Rightarrow> sp_Options) list \<Rightarrow> ('f, 'g) colonioImpl \<Rightarrow>
    (post_result \<times> node_handler nw_effect list \<times> ('f, 'g) colonioImpl) outcome" where
  "ci_SpreadPost cd wsend draws uids now wa x y r name val setters c =
     (let opt = fold (\<lambda>setter opt. setter opt) setters \<lparr>SomeoneMustExists = False\<rparr>
      in obind (sp_Post (ci_coordinateSystem c) (\<lambda>p. SpreadGetRelayNodeID p c) draws uids now wa (NewCoordinate x y) r name val opt
                  (ci_spread c) (nw_transferer (ci_network c))) (\<lambda>(res, es, s, t).
         obind (run_transferer cd wsend es ((ci_network c)\<lparr>nw_transferer := t\<rparr>)) (\<lambda>(out, net).
           Inr (res, out, c\<lparr>ci_spread := s, ci_network := net\<rparr>))))"

text \<open>What the user's handler is called with: the source as a string.\<close>

record SpreadRequest =
  ns_SourceNodeID :: string
  ns_Message :: bytes
  ns_Options :: sp_Options

definition user_spread_request :: "sp_Request \<Rightarrow> SpreadRequest outcome" where
  "user_spread_request r =
     obind (nid_String (sq_SourceNodeID r)) (\<lambda>src.
       Inr \<lparr>ns_SourceNodeID = src, ns_Message = sq_Message r, ns_Options = sq_Options r\<rparr>)"

definition ci_SpreadSetHandler :: "string \<Rightarrow> 'g \<Rightarrow> ('f, 'g) colonioImpl \<Rightarrow> ('f, 'g) colonioImpl" where
  "ci_SpreadSetHandler name handler c = c\<lparr>ci_spread := sp_SetHandler name handler (ci_spread c)\<rparr>"

definition ci_SpreadUnsetHandler :: "string \<Rightarrow> ('f, 'g) colonioImpl \<Rightarrow> ('f, 'g) colonioImpl" where
  "ci_SpreadUnsetHandler name c = c\<lparr>ci_spread := sp_UnsetHandler name (ci_spread c)\<rparr>"

definition NetworkUpdateNextNodePosition :: "(NodeID, Coordinate) gomap \<Rightarrow> ('f, 'g) colonioImpl \<Rightarrow> ('f, 'g) colonioImpl" where
  "NetworkUpdateNextNodePosition positions c = c\<lparr>ci_spread := sp_UpdateNextNodePosition positions (ci_spread c)\<rparr>"

subsection \<open>A new node\<close>

lemma SetRequestHandler_handlers:
  "SetRequestHandler k t = Inr t' \<Longrightarrow> requestHandlers t' = k # requestHandlers t"
  by (auto simp: SetRequestHandler_def split: if_splits)

text \<open>
  C31. A configured node works: with a seed, at least one ICE server and a coordinate system
  \<open>NewNode\<close> succeeds; every kind of request that nodes send each other has its handler, no kind has two; the
  routine of every link it makes can start and its frames have room for content; and, unless
  the cache lifetime was set too small for a ticker, \<open>Start\<close> succeeds when the seed assigns a node and
  a second \<open>Start\<close> is refused.
\<close>

theorem new_node_works:
  assumes "config = fold (\<lambda>setter c. setter c) setters
            \<lparr>cfg_SeedURL = [], cfg_ICEServers = [], cfg_CoordinateSystem = None, cfg_PacketHopLimit = 64,
             cfg_SpreadCacheLifetime = 60 * 1000000000, cfg_SpreadSizeToUseKnock = 4096\<rparr>"
    and "cfg_SeedURL config \<noteq> []" and "cfg_ICEServers config \<noteq> []" and "cfg_CoordinateSystem config = Some co"
    and "cfg_SpreadCacheLifetime config \<ge> 2" and "NewNodeIDFromProto p = Inr k"
  shows "\<exists>c c'. NewNode routing setters = Inr (Inr (c :: ('f, 'g) colonioImpl)) \<and>
    set (requestHandlers (nw_transferer (ci_network c))) = {K_Routing, K_Messaging, K_SpreadKnock, K_SpreadRelay, K_Spread} \<and>
    distinct (requestHandlers (nw_transferer (ci_network c))) \<and>
    nl_routine_start (newNodeLink (na_linkConfig (nw_nodeAccessor (ci_network c))) t) = Inr 1000000000 \<and>
    0 < PacketBaseBytes (na_linkConfig (nw_nodeAccessor (ci_network c))) \<and>
    ci_Start (Inr (p, alone)) now c = Inr (Inr (), c') \<and> ci_GetLocalNodeID c' = nid_String k \<and>
    ci_Start answer now' c' = Inr (Inl ''cannot call Start() twice'', c')"
proof -
  let ?net = "\<lparr>nw_localNodeID = NodeLocal, nw_seedAccessor = \<lparr>sa_localNodeID = None, sa_isAlone = False\<rparr>,
     nw_nodeAccessor = NewNodeAccessor 0 node_link_config,
     nw_transferer = (NewTransferer 0 0)\<lparr>requestHandlers := [K_Spread, K_SpreadRelay, K_SpreadKnock, K_Messaging, K_Routing]\<rparr>,
     nw_routing = routing, packetHopLimit = cfg_PacketHopLimit config\<rparr>"
  let ?s = "\<lparr>cacheLifetime = cfg_SpreadCacheLifetime config, sizeToUseKnock = cfg_SpreadSizeToUseKnock config, sp_handlers = [],
     sp_cache = [], sp_localNodeID = NodeLocal, localPosition = None, nextNodePositions = []\<rparr>"
  let ?c = "\<lparr>ci_started = False, ci_cancelled = False, ci_localNodeID = None, ci_coordinateSystem = co,
     ci_network = ?net, ci_messaging = [], ci_spread = ?s\<rparr> :: ('f, 'g) colonioImpl"
  have new: "NewNode routing setters = Inr (Inr ?c)"
    unfolding NewNode_def assms(1) [symmetric]
    using assms(2-4)
    by (simp add: NewNetwork_def NewSeedAccessor_def NewMessaging_def NewSpread_def SetRequestHandler_def NewTransferer_def)
  have "\<exists>c'. ci_Start (Inr (p, alone)) now ?c = Inr (Inr (), c') \<and> ci_GetLocalNodeID c' = nid_String k \<and> ci_started c'"
    using assms(5,6) by (simp add: ci_Start_def nw_Start_def sa_Start_def sp_Start_def ci_GetLocalNodeID_def)
  then obtain c' where "ci_Start (Inr (p, alone)) now ?c = Inr (Inr (), c')" "ci_GetLocalNodeID c' = nid_String k" "ci_started c'" by blast
  moreover from this(3) have "ci_Start answer now' c' = Inr (Inl ''cannot call Start() twice'', c')" by (simp add: ci_Start_def)
  moreover have "set (requestHandlers (nw_transferer (ci_network ?c))) = {K_Routing, K_Messaging, K_SpreadKnock, K_SpreadRelay, K_Spread}"
    "distinct (requestHandlers (nw_transferer (ci_network ?c)))"
    "nl_routine_start (newNodeLink (na_linkConfig (nw_nodeAccessor (ci_network ?c))) t) = Inr 1000000000"
    "0 < PacketBaseBytes (na_linkConfig (nw_nodeAccessor (ci_network ?c)))"
    by (auto simp: NewNodeAccessor_def node_link_config_def nl_routine_start_def newNodeLink_def Let_def)
  ultimately show ?thesis using new by (intro exI [of _ ?c] exI [of _ c'] conjI)
qed

theorem new_node_works_witness:
  "\<exists>c c'. NewNode (rt_Start 0 True NodeLocal) [WithSeedURL ''u'', WithICEServers [''stun''], WithPlaneGeometry 0 0 0 1 0 1] =
      Inr (Inr (c :: (nat, nat) colonioImpl)) \<and>
    set (requestHandlers (nw_transferer (ci_network c))) = {K_Routing, K_Messaging, K_SpreadKnock, K_SpreadRelay, K_Spread} \<and>
    ci_Start (Inr (Some \<lparr>p_Id0 = 0, p_Id1 = 1\<rparr>, True)) 0 c = Inr (Inr (), c') \<and> ci_GetLocalNodeID c' = nid_String (NodeID typeNormal 0 1)"
proof -
  let ?set = "[WithSeedURL ''u'', WithICEServers [''stun''], WithPlaneGeometry 0 0 0 1 0 1]"
  let ?cfg = "fold (\<lambda>setter c. setter c) ?set \<lparr>cfg_SeedURL = [], cfg_ICEServers = [], cfg_CoordinateSystem = None, cfg_PacketHopLimit = 64,
             cfg_SpreadCacheLifetime = 60 * 1000000000, cfg_SpreadSizeToUseKnock = 4096\<rparr>"
  let ?co = "\<lparr>co_GetDistance = pl_GetDistance (NewPlaneCoordinateSystem 0 0 0 1 0 1), co_GetPrecision = pl_GetPrecision (NewPlaneCoordinateSystem 0 0 0 1 0 1)\<rparr>"
  have c: "cfg_SeedURL ?cfg \<noteq> []" "cfg_ICEServers ?cfg \<noteq> []" "cfg_CoordinateSystem ?cfg = Some ?co" "cfg_SpreadCacheLifetime ?cfg \<ge> 2"
    "NewNodeIDFromProto (Some \<lparr>p_Id0 = 0, p_Id1 = 1\<rparr>) = Inr (NodeID typeNormal 0 1)"
    by (simp_all add: WithSeedURL_def WithICEServers_def WithPlaneGeometry_def NewNodeIDFromProto_def Let_def)
  from new_node_works [OF refl c] show ?thesis by blast
qed

text \<open>
  C32. A stray response stops a node: a packet for the node whose content is a kind of
  response (or an error) but that is not marked as a response has no handler, and the node
  panics on receiving it. Any node of the network can send such a packet.
\<close>

theorem stray_response_panics:
  assumes "set (requestHandlers (nw_transferer n)) = {K_Routing, K_Messaging, K_SpreadKnock, K_SpreadRelay, K_Spread}"
    and "DstNodeID packet = r1_localNodeID (rt_r1d (nw_routing n))" and "HopCount packet \<le> ucast (packetHopLimit n)"
    and "\<not> has_mode (Mode packet) PacketModeResponse"
    and "kind_of (Content packet) \<in> {Some K_Error, Some K_MessagingResponse, Some K_SpreadKnockResponse, Some K_SpreadRelayResponse}"
  shows "NodeAccessorRecvPacket cd wsend from' packet n = Inl (Panic ''the handler not found'')"
proof -
  have panic: "classifyPacket cd wsend False (packet\<lparr>HopCount := HopCount packet + 1\<rparr>) m = Inl (Panic ''the handler not found'')"
    if "nw_transferer m = nw_transferer n" "r1_localNodeID (rt_r1d (nw_routing m)) = r1_localNodeID (rt_r1d (nw_routing n))" for m
  proof -
    have "tr_Receive False (packet\<lparr>HopCount := HopCount packet + 1\<rparr>) (nw_transferer n) = Inl (Panic ''the handler not found'')"
    proof -
      from assms(5) obtain k where k: "kind_of (Content packet) = Some k"
        "k \<in> {K_Error, K_MessagingResponse, K_SpreadKnockResponse, K_SpreadRelayResponse}" by blast
      then have "k \<notin> set (requestHandlers (nw_transferer n))" unfolding assms(1) by blast
      then show ?thesis using k(1) assms(4) by (simp add: tr_Receive_def)
    qed
    then show ?thesis using that assms(2) by (simp add: classify_here)
  qed
  show ?thesis
    using leD [OF assms(3)] by (cases from') (simp_all add: NodeAccessorRecvPacket_def checkHopCount_def panic)
qed

definition stray_packet :: Packet where
  "stray_packet = \<lparr>DstNodeID = NodeID typeNormal 0 1, SrcNodeID = NodeID typeNormal 0 2, pk_ID = 0, HopCount = 0, Mode = PacketModeNone,
     Content = Content_MessagingResponse []\<rparr>"

definition stray_target :: "nat Network" where
  "stray_target = \<lparr>nw_localNodeID = NodeID typeNormal 0 1, nw_seedAccessor = \<lparr>sa_localNodeID = None, sa_isAlone = False\<rparr>,
     nw_nodeAccessor = NewNodeAccessor 0 node_link_config,
     nw_transferer = (NewTransferer 0 0)\<lparr>requestHandlers := [K_Spread, K_SpreadRelay, K_SpreadKnock, K_Messaging, K_Routing]\<rparr>,
     nw_routing = rt_Start 0 True (NodeID typeNormal 0 1), packetHopLimit = 64\<rparr>"

theorem stray_response_panics_witness:
  "NodeAccessorRecvPacket ex_codec (\<lambda>_ _. True) None stray_packet stray_target = Inl (Panic ''the handler not found'')"
  by (rule stray_response_panics) (auto simp: stray_packet_def stray_target_def rt_Start_def newRouting1D_def)

end
