(* ===== verification/WebRTC_Link.thy ===== *)
theory WebRTC_Link
  imports Node_Link
begin

text \<open>
  The data channel below a link (\<open>src/node/internal/network/node_accessor/webrtc_link.go\<close> and
  \<open>webrtc_link_native.go\<close>), and the link above it.

  The WebRTC library is not part of the program. What it answers to a call is an
  argument; the calls made of it are listed in the order of the code. A session
  description is a value of type \<open>'d\<close>, a data channel is a number (the object) and its label.
  The mutex of the native link is only held inside one operation.
\<close>

subsection \<open>The interface\<close>

record ICEServer =
  ice_URLs :: "string list"
  ice_Username :: string
  ice_Credential :: string

record webRTCLinkConfig =
  wc_iceServers :: "ICEServer list"
  wc_isOffer :: bool
  wc_label :: string

text \<open>The event handler that a link gives to its channel, as effects.\<close>

datatype wl_event =
    RaiseError string
  | ChangeLinkState bool bool
  | NewICE string
  | NewData bytes

subsection \<open>The native link\<close>

type_synonym data_channel = "nat \<times> string"

record webRTCLinkNative =
  wn_isOffer :: bool
  wn_connected :: bool \<comment> \<open>the peer connection is not nil\<close>
  wn_dataChannel :: "data_channel option"
  wn_ices :: "string list option"
  wn_active :: bool
  wn_online :: bool

datatype 'd pc_call =
    NewPeerConnection "(string list \<times> string \<times> string) list"
  | CreateDataChannel string
  | CreateOffer
  | CreateAnswer
  | SetLocalDescription 'd
  | SetRemoteDescription 'd
  | AddICECandidate string
  | ClosePeerConnection

text \<open>The answers of the library, and of the JSON library for descriptions.\<close>

record 'd pc_lib =
  pc_create :: "'d result"
  pc_setLocal :: "'d \<Rightarrow> unit result"
  pc_setRemote :: "'d \<Rightarrow> unit result"
  pc_addICE :: "string \<Rightarrow> unit result"
  pc_close :: "unit result"
  sdp_marshal :: "'d \<Rightarrow> string result"
  sdp_unmarshal :: "string \<Rightarrow> 'd result"

definition newWebRTCLinkNative :: "unit result \<Rightarrow> nat result \<Rightarrow> webRTCLinkConfig \<Rightarrow> webRTCLinkNative result \<times> 'd pc_call list" where
  "newWebRTCLinkNative made channel c =
     (let config = map (\<lambda>i. (ice_URLs i, ice_Username i, ice_Credential i)) (wc_iceServers c)
      in case made of
           Inl err \<Rightarrow> (Inl (''failed to create peer connection: '' @ err), [NewPeerConnection config])
         | Inr _ \<Rightarrow>
             let w = \<lparr>wn_isOffer = wc_isOffer c, wn_connected = True, wn_dataChannel = None, wn_ices = Some [],
                      wn_active = True, wn_online = False\<rparr>
             in if wc_isOffer c then
                  (case channel of
                     Inl err \<Rightarrow> (Inl (''failed to create data channel: '' @ err), [NewPeerConnection config, CreateDataChannel (wc_label c)])
                   | Inr d \<Rightarrow> (Inr (w\<lparr>wn_dataChannel := Some (d, wc_label c)\<rparr>), [NewPeerConnection config, CreateDataChannel (wc_label c)]))
                else (Inr w, [NewPeerConnection config]))"

text \<open>The callbacks the link registers. The states of a peer connection are those of the library.\<close>

datatype PeerConnectionState = PC_New | PC_Connecting | PC_Connected | PC_Disconnected | PC_Failed | PC_Closed

definition wn_OnConnectionStateChange :: "PeerConnectionState \<Rightarrow> webRTCLinkNative \<Rightarrow> wl_event list \<times> webRTCLinkNative" where
  "wn_OnConnectionStateChange state w =
     (let w' = (if state = PC_Disconnected \<or> state = PC_Failed \<or> state = PC_Closed
                then w\<lparr>wn_active := False, wn_online := False\<rparr> else w)
      in (if wn_active w' \<noteq> wn_active w \<or> wn_online w' \<noteq> wn_online w then [ChangeLinkState (wn_active w') (wn_online w')] else [], w'))"

definition wn_OnICECandidate :: "string option \<Rightarrow> wl_event list" where
  "wn_OnICECandidate candidate = (case candidate of None \<Rightarrow> [] | Some c \<Rightarrow> [NewICE c])"

definition wn_OnDataChannel :: "data_channel \<Rightarrow> webRTCLinkNative \<Rightarrow> webRTCLinkNative outcome" where
  "wn_OnDataChannel d w =
     (if wn_isOffer w then
        (if map_option fst (wn_dataChannel w) \<noteq> Some (fst d) then Inl (Panic ''data channel is not the same'') else Inr w)
      else Inr (w\<lparr>wn_dataChannel := Some d\<rparr>))"

text \<open>The callbacks of the data channel (\<open>setDataChannelHandler\<close>).\<close>

definition wn_OnOpen :: "webRTCLinkNative \<Rightarrow> wl_event list \<times> webRTCLinkNative" where
  "wn_OnOpen w = (if \<not> wn_online w then [ChangeLinkState (wn_active w) True] else [], w\<lparr>wn_online := True\<rparr>)"

definition wn_OnClose :: "webRTCLinkNative \<Rightarrow> wl_event list \<times> webRTCLinkNative" where
  "wn_OnClose w =
     (if wn_active w \<or> wn_online w then [ChangeLinkState False False] else [],
      w\<lparr>wn_active := False, wn_online := False\<rparr>)"

definition wn_OnMessage :: "bytes \<Rightarrow> wl_event list" where
  "wn_OnMessage data = [NewData data]"

definition wn_OnError :: "string \<Rightarrow> webRTCLinkNative \<Rightarrow> wl_event list" where
  "wn_OnError err w = (if \<not> wn_active w then [] else [RaiseError err])"

definition wn_isActive :: "webRTCLinkNative \<Rightarrow> bool" where
  "wn_isActive w = wn_active w"

definition wn_isOnline :: "webRTCLinkNative \<Rightarrow> bool" where
  "wn_isOnline w = wn_online w"

definition wn_getLabel :: "webRTCLinkNative \<Rightarrow> string outcome" where
  "wn_getLabel w =
     (case wn_dataChannel w of None \<Rightarrow> Inl (Panic ''data channel should not be nil'') | Some (_, label) \<Rightarrow> Inr label)"

definition wn_getLocalSDP :: "'d pc_lib \<Rightarrow> webRTCLinkNative \<Rightarrow> string result \<times> 'd pc_call list" where
  "wn_getLocalSDP lib w =
     (if \<not> wn_connected w then (Inl ''peer connection has been closed'', [])
      else let create = (if wn_isOffer w then CreateOffer else CreateAnswer)
           in case pc_create lib of
                Inl err \<Rightarrow> (Inl ((if wn_isOffer w then ''failed to create offer: '' else ''failed to create answer: '') @ err), [create])
              | Inr sdp \<Rightarrow>
                  (case pc_setLocal lib sdp of
                     Inl err \<Rightarrow> (Inl (''failed to set local description: '' @ err), [create, SetLocalDescription sdp])
                   | Inr _ \<Rightarrow>
                       (case sdp_marshal lib sdp of
                          Inl err \<Rightarrow> (Inl (''failed to marshal local description: '' @ err), [create, SetLocalDescription sdp])
                        | Inr b \<Rightarrow> (Inr b, [create, SetLocalDescription sdp]))))"

fun add_ices :: "'d pc_lib \<Rightarrow> string list \<Rightarrow> unit result \<times> 'd pc_call list" where
  "add_ices lib [] = (Inr (), [])"
| "add_ices lib (ice # ices) =
     (case pc_addICE lib ice of
        Inl err \<Rightarrow> (Inl (''failed to add ICE candidate: '' @ err), [AddICECandidate ice])
      | Inr _ \<Rightarrow> (case add_ices lib ices of (r, cs) \<Rightarrow> (r, AddICECandidate ice # cs)))"

definition wn_setRemoteSDP :: "'d pc_lib \<Rightarrow> string \<Rightarrow> webRTCLinkNative \<Rightarrow> unit result \<times> 'd pc_call list \<times> webRTCLinkNative" where
  "wn_setRemoteSDP lib sdp w =
     (case sdp_unmarshal lib sdp of
        Inl err \<Rightarrow> (Inl (''failed to unmarshal remote description: '' @ err), [], w)
      | Inr description \<Rightarrow>
          if \<not> wn_connected w then (Inl ''peer connection has been closed'', [], w)
          else (case pc_setRemote lib description of
                  Inl err \<Rightarrow> (Inl (''failed to set remote description: '' @ err), [SetRemoteDescription description], w)
                | Inr _ \<Rightarrow>
                    (case wn_ices w of
                       None \<Rightarrow> (Inr (), [SetRemoteDescription description], w)
                     | Some ices \<Rightarrow>
                         (case add_ices lib ices of
                            (Inl err, cs) \<Rightarrow> (Inl err, SetRemoteDescription description # cs, w)
                          | (Inr _, cs) \<Rightarrow> (Inr (), SetRemoteDescription description # cs, w\<lparr>wn_ices := None\<rparr>)))))"

definition wn_updateICE :: "'d pc_lib \<Rightarrow> string \<Rightarrow> webRTCLinkNative \<Rightarrow> unit result \<times> 'd pc_call list \<times> webRTCLinkNative" where
  "wn_updateICE lib ice w =
     (case wn_ices w of
        Some ices \<Rightarrow> (Inr (), [], w\<lparr>wn_ices := Some (ices @ [ice])\<rparr>)
      | None \<Rightarrow>
          if \<not> wn_connected w then (Inl ''peer connection has been closed'', [], w)
          else (case add_ices lib [ice] of (r, cs) \<Rightarrow> (r, cs, w)))"

text \<open>\<open>sent\<close> is what the data channel answers; without one the call dereferences nil.\<close>

definition wn_send :: "unit result \<Rightarrow> bytes \<Rightarrow> webRTCLinkNative \<Rightarrow> unit result outcome" where
  "wn_send sent data w =
     (if \<not> wn_active w then Inr (Inl ''link is not active'')
      else if wn_dataChannel w = None then Inl (Panic ''nil pointer dereference'')
      else Inr (case sent of Inl err \<Rightarrow> Inl (''failed to send data: '' @ err) | Inr _ \<Rightarrow> Inr ()))"

definition wn_disconnect :: "unit result \<Rightarrow> webRTCLinkNative \<Rightarrow> unit result \<times> 'd pc_call list \<times> wl_event list \<times> webRTCLinkNative" where
  "wn_disconnect answer w =
     (let w' = w\<lparr>wn_active := False, wn_connected := False\<rparr>
      in if \<not> wn_connected w then (Inr (), [], [], w')
         else (case answer of Inl err \<Rightarrow> Inl (''failed to close peer connection: '' @ err) | Inr _ \<Rightarrow> Inr (),
               [ClosePeerConnection], if wn_active w then [ChangeLinkState False (wn_online w)] else [], w'))"

subsection \<open>Candidates\<close>

text \<open>What the peer's signals make of a link: its description and its candidates, in any order.\<close>

datatype peer_signal = PeerSDP string | PeerICE string

fun signals_calls :: "'d pc_lib \<Rightarrow> peer_signal list \<Rightarrow> webRTCLinkNative \<Rightarrow> 'd pc_call list" where
  "signals_calls lib [] w = []"
| "signals_calls lib (PeerSDP sdp # ss) w = (case wn_setRemoteSDP lib sdp w of (_, cs, w) \<Rightarrow> cs @ signals_calls lib ss w)"
| "signals_calls lib (PeerICE ice # ss) w = (case wn_updateICE lib ice w of (_, cs, w) \<Rightarrow> cs @ signals_calls lib ss w)"

fun candidates :: "peer_signal list \<Rightarrow> string list" where
  "candidates [] = []"
| "candidates (PeerSDP _ # ss) = candidates ss"
| "candidates (PeerICE ice # ss) = ice # candidates ss"

definition added :: "'d pc_call list \<Rightarrow> string list" where
  "added cs = concat (map (\<lambda>c. case c of AddICECandidate ice \<Rightarrow> [ice] | _ \<Rightarrow> []) cs)"

definition descriptions :: "'d pc_call list \<Rightarrow> 'd list" where
  "descriptions cs = concat (map (\<lambda>c. case c of SetRemoteDescription d \<Rightarrow> [d] | _ \<Rightarrow> []) cs)"

definition lib_accepts :: "'d pc_lib \<Rightarrow> bool" where
  "lib_accepts lib \<longleftrightarrow> (\<forall>ice. pc_addICE lib ice = Inr ()) \<and> (\<forall>d. pc_setRemote lib d = Inr ()) \<and> (\<forall>s. \<exists>d. sdp_unmarshal lib s = Inr d)"

lemma added_simps [simp]:
  "added [] = []" "added (AddICECandidate i # cs) = i # added cs" "added (SetRemoteDescription d # cs) = added cs"
  "added (xs @ ys) = added xs @ added ys"
  by (simp_all add: added_def)

lemma add_ices_all: "lib_accepts lib \<Longrightarrow> add_ices lib ices = (Inr (), map AddICECandidate ices)"
  by (induction ices) (auto simp: lib_accepts_def)

lemma added_map [simp]: "added (map AddICECandidate ices) = ices"
  by (induction ices) auto

lemma calls_after_description:
  assumes "lib_accepts lib" "wn_ices w = None" "wn_connected w"
  shows "added (signals_calls lib ss w) = candidates ss"
  using assms
proof (induction ss arbitrary: w rule: candidates.induct)
  case (2 sdp ss)
  then show ?case by (auto simp: lib_accepts_def wn_setRemoteSDP_def split: sum.splits)
next
  case (3 ice ss)
  then show ?case by (simp add: wn_updateICE_def lib_accepts_def)
qed simp

lemma calls_before_description:
  assumes "lib_accepts lib" "wn_ices w = Some ices" "wn_connected w"
  shows "added (signals_calls lib ss w) = (if \<exists>sdp. PeerSDP sdp \<in> set ss then ices @ candidates ss else []) \<and>
    (signals_calls lib ss w = [] \<or> (\<exists>d. hd (signals_calls lib ss w) = SetRemoteDescription d))"
  using assms
proof (induction ss arbitrary: w ices rule: candidates.induct)
  case (2 sdp ss)
  obtain d where "sdp_unmarshal lib sdp = Inr d" "pc_setRemote lib d = Inr ()" using "2.prems"(1) unfolding lib_accepts_def by blast
  then have r: "wn_setRemoteSDP lib sdp w = (Inr (), SetRemoteDescription d # map AddICECandidate ices, w\<lparr>wn_ices := None\<rparr>)"
    using "2.prems" by (simp add: wn_setRemoteSDP_def add_ices_all)
  have "added (signals_calls lib ss (w\<lparr>wn_ices := None\<rparr>)) = candidates ss"
    using calls_after_description [of lib "w\<lparr>wn_ices := None\<rparr>"] "2.prems" by simp
  then show ?case by (auto simp: r)
next
  case (3 ice ss)
  have "wn_updateICE lib ice w = (Inr (), [] :: 'a pc_call list, w\<lparr>wn_ices := Some (ices @ [ice])\<rparr>)"
    using "3.prems" by (simp add: wn_updateICE_def)
  then show ?case using "3.IH" [of "w\<lparr>wn_ices := Some (ices @ [ice])\<rparr>" "ices @ [ice]"] "3.prems" by auto
qed simp

text \<open>
  C17. Candidates are neither lost nor early: the signals of a peer, its description and its
  candidates, arrive at a new link in any order. If the library accepts them, then once a
  description has arrived the peer connection has been given exactly the candidates that
  arrived, in their order; and nothing is asked of it before it has a description.
\<close>

theorem candidates_in_order:
  assumes "newWebRTCLinkNative made channel c = (Inr w, calls)" and "lib_accepts lib"
  shows "added (signals_calls lib ss w) = (if \<exists>sdp. PeerSDP sdp \<in> set ss then candidates ss else []) \<and>
    (signals_calls lib ss w = [] \<or> (\<exists>d. hd (signals_calls lib ss w) = SetRemoteDescription d))"
proof -
  have "wn_ices w = Some []" "wn_connected w"
    using assms(1) by (auto simp: newWebRTCLinkNative_def Let_def split: sum.splits if_splits)
  from calls_before_description [OF assms(2) this, of ss] show ?thesis by simp
qed

definition any_lib :: "string pc_lib" where
  "any_lib = \<lparr>pc_create = Inr ''sdp'', pc_setLocal = (\<lambda>_. Inr ()), pc_setRemote = (\<lambda>_. Inr ()), pc_addICE = (\<lambda>_. Inr ()),
     pc_close = Inr (), sdp_marshal = Inr, sdp_unmarshal = Inr\<rparr>"

theorem candidates_in_order_witness:
  "\<exists>w calls. newWebRTCLinkNative (Inr ()) (Inr 0) \<lparr>wc_iceServers = [], wc_isOffer = True, wc_label = ''l''\<rparr> = (Inr w, calls :: string pc_call list) \<and>
    added (signals_calls any_lib [PeerICE ''a'', PeerSDP ''s'', PeerICE ''b''] w) = [''a'', ''b'']"
proof -
  let ?c = "\<lparr>wc_iceServers = [], wc_isOffer = True, wc_label = ''l''\<rparr>"
  obtain w and calls :: "string pc_call list" where n: "newWebRTCLinkNative (Inr ()) (Inr 0) ?c = (Inr w, calls)"
    by (simp add: newWebRTCLinkNative_def)
  have "lib_accepts any_lib" by (simp add: lib_accepts_def any_lib_def)
  from candidates_in_order [OF n this, of "[PeerICE ''a'', PeerSDP ''s'', PeerICE ''b'']"] n show ?thesis by auto
qed

end
