(* ===== verification/Link_Channel.thy ===== *)
theory Link_Channel
  imports WebRTC_Link
begin

text \<open>
  A link together with the data channel below it. The channel reports its two flags to the link
  (\<open>changeLinkState\<close>) outside of its mutex, so reports are on their way while other things
  happen; they are assumed to be handled in the order in which they are made. The link
  disconnects the channel at once. \<open>cn_told\<close> is the state the link last told the node accessor.
\<close>

record 's channel_pair =
  cn_channel :: 's
  cn_link :: nodeLink
  cn_reports :: "(bool \<times> bool) list"
  cn_told :: nodeLinkState

definition state_of :: "bool \<Rightarrow> bool \<Rightarrow> nodeLinkState" where
  "state_of active online = (if active then if online then nodeLinkStateOnline else nodeLinkStateConnecting else nodeLinkStateDisabled)"

text \<open>What an operation of the link does to its surroundings.\<close>

definition told_after :: "nodeLinkState \<Rightarrow> nl_effect list \<Rightarrow> nodeLinkState" where
  "told_after st es = fold (\<lambda>e st. case e of ChangeState st' \<Rightarrow> st' | _ \<Rightarrow> st) es st"

definition after_link :: "('s \<Rightarrow> (bool \<times> bool) list \<times> 's) \<Rightarrow> nl_effect list \<Rightarrow> nodeLink \<Rightarrow> 's channel_pair \<Rightarrow> 's channel_pair" where
  "after_link disc es n c =
     (let c = c\<lparr>cn_link := n, cn_told := told_after (cn_told c) es\<rparr>
      in if WebrtcDisconnect \<in> set es
         then (case disc (cn_channel c) of (rs, s) \<Rightarrow> c\<lparr>cn_channel := s, cn_reports := cn_reports c @ rs\<rparr>)
         else c)"

text \<open>The operations a link carries out by itself.\<close>

inductive link_op :: "nodeLink \<Rightarrow> nl_effect list \<Rightarrow> nodeLink \<Rightarrow> bool" where
  send: "nl_sendPacket cd wsend packet n = Inr (r, es, n') \<Longrightarrow> link_op n es n'"
| turn: "nl_routine_turn cd wsend now ev n = Inr (b, es, n') \<Longrightarrow> link_op n es n'"
| data: "nl_webrtcRecvData cd now d n = (es, n') \<Longrightarrow> link_op n es n'"
| raised: "nl_webrtcRaiseError n = (es, n') \<Longrightarrow> link_op n es n'"
| remove: "nl_disconnect n = (es, n') \<Longrightarrow> link_op n es n'"
| failed_sdp: "nl_setRemoteSDP answer = (r, es) \<Longrightarrow> link_op n es n"
| failed_ice: "nl_updateICE answer = (r, es) \<Longrightarrow> link_op n es n"
| failed_local: "nl_getLocalSDP local = (r', es) \<Longrightarrow> link_op n es n"

inductive pair_step :: "('s \<Rightarrow> (bool \<times> bool) list \<Rightarrow> 's \<Rightarrow> bool) \<Rightarrow> ('s \<Rightarrow> (bool \<times> bool) list \<times> 's) \<Rightarrow> 's channel_pair \<Rightarrow> 's channel_pair \<Rightarrow> bool"
  for event disc where
  event: "event (cn_channel c) rs s \<Longrightarrow> pair_step event disc c (c\<lparr>cn_channel := s, cn_reports := cn_reports c @ rs\<rparr>)"
| report: "cn_reports c = (a, b) # rs \<Longrightarrow> nl_webrtcChangeLinkState cd wsend a b (cn_link c) = Inr (es, n) \<Longrightarrow>
    pair_step event disc c (after_link disc es n (c\<lparr>cn_reports := rs\<rparr>))"
| link: "link_op (cn_link c) es n \<Longrightarrow> pair_step event disc c (after_link disc es n c)"

subsection \<open>What the operations of a link do to its state\<close>

text \<open>
  Every operation leaves the state alone and the channel connected, or disables the link and
  disconnects the channel; what it tells is the state it leaves.
\<close>

definition fair_op :: "nodeLink \<Rightarrow> nl_effect list \<Rightarrow> nodeLink \<Rightarrow> bool" where
  "fair_op n es n' \<longleftrightarrow> told_after (nl_state n) es = nl_state n' \<and>
     (nl_state n' = nl_state n \<and> WebrtcDisconnect \<notin> set es \<or> nl_state n' = nodeLinkStateDisabled \<and> WebrtcDisconnect \<in> set es)"

lemma told_after_simps [simp]:
  "told_after st [] = st" "told_after st (ChangeState st' # es) = told_after st' es" "told_after st (Wire q d # es) = told_after st es"
  "told_after st (WebrtcDisconnect # es) = told_after st es" "told_after st (RecvPacket p # es) = told_after st es"
  "told_after st (xs @ ys) = told_after (told_after st xs) ys"
  by (simp_all add: told_after_def)

lemma fair_refl: "nl_state n' = nl_state n \<Longrightarrow> fair_op n [] n'"
  by (simp add: fair_op_def)

lemma fair_trans: "fair_op n es n' \<Longrightarrow> fair_op n' es' n'' \<Longrightarrow> fair_op n (es @ es') n''"
  by (auto simp: fair_op_def)

lemma fair_state: "fair_op n es n' \<Longrightarrow> nl_state m = nl_state n \<Longrightarrow> nl_state m' = nl_state n' \<Longrightarrow> fair_op m es m'"
  by (simp add: fair_op_def)

lemma fair_disconnect: "nl_disconnect n = (es, n') \<Longrightarrow> fair_op n es n'"
  by (auto simp: nl_disconnect_def fair_op_def Let_def)

lemma fair_send: "nl_send cd ok p n = Inr (b, es, n') \<Longrightarrow> fair_op n es n'"
  by (auto simp: nl_send_def fair_op_def nl_disconnect_def Let_def split: sum.splits if_splits)

lemma fair_fragment:
  assumes "flush_fragment cd wsend base w i k s = Inr (k', s')" "fair_op n (fs_effects s) (fs_link s)"
  shows "fair_op n (fs_effects s') (fs_link s')"
proof (cases "i = 0")
  case True
  then show ?thesis using assms by (auto simp: flush_fragment_def Let_def obind_eq_Inr)
next
  case False
  with assms(1) obtain ok es l p where "nl_send cd (wsend (wires (fs_effects s) @ [p])) p (fs_link s) = Inr (ok, es, l)"
    and "fs_effects s' = fs_effects s @ es" "fs_link s' = l"
    by (auto simp: flush_fragment_def Let_def obind_eq_Inr split: if_splits)
  then show ?thesis using fair_trans [OF assms(2) fair_send] by simp
qed

lemma fair_fragments:
  "flush_fragments cd wsend base w i k s = Inr s' \<Longrightarrow> fair_op n (fs_effects s) (fs_link s) \<Longrightarrow> fair_op n (fs_effects s') (fs_link s')"
proof (induction i arbitrary: k s)
  case (Suc i)
  from Suc.prems(1) obtain k1 s1 where 1: "flush_fragment cd wsend base w i k s = Inr (k1, s1)"
    "(if fs_failed s1 then Inr s1 else flush_fragments cd wsend base w i k1 s1) = Inr s'"
    by (auto simp: obind_eq_Inr)
  then show ?case using fair_fragment [OF 1(1) Suc.prems(2)] Suc.IH by (auto split: if_splits)
qed simp

lemma fair_waiting:
  "flush_waiting cd wsend base w s = Inr s' \<Longrightarrow> fair_op n (fs_effects s) (fs_link s) \<Longrightarrow> fair_op n (fs_effects s') (fs_link s')"
  by (auto simp: flush_waiting_def Let_def obind_eq_Inr simp del: flush_fragments.simps split: if_splits dest: fair_fragments)

lemma fair_flush:
  assumes "nl_flush cd wsend n = Inr (es, n')"
  shows "fair_op n es n'"
proof (cases "nl_state n")
  case nodeLinkStateOnline
  let ?s = "\<lparr>fs_p = [], fs_contentSize = 0, fs_effects = [], fs_link = n\<lparr>nl_queue := []\<rparr>, fs_failed = False\<rparr>"
  obtain s where s: "ofold (flush_waiting cd wsend (PacketBaseBytes (nl_config n))) (nl_queue n) ?s = Inr s"
    using assms nodeLinkStateOnline by (auto simp: nl_flush_def Let_def obind_eq_Inr)
  have f: "fair_op n (fs_effects s) (fs_link s)"
    by (rule ofold_invariant [OF _ fair_waiting s]) (auto simp: fair_refl)
  show ?thesis
  proof (cases "fs_failed s \<or> fs_p s = []")
    case True
    then show ?thesis using assms nodeLinkStateOnline s f
      by (auto simp: nl_flush_def Let_def intro: fair_state [OF f] split: if_splits)
  next
    case False
    then obtain ok es' l where "nl_send cd (wsend (wires (fs_effects s) @ [fs_p s])) (fs_p s) (fs_link s) = Inr (ok, es', l)"
      "es = fs_effects s @ es'" "nl_state n' = nl_state l"
      using assms nodeLinkStateOnline s by (auto simp: nl_flush_def Let_def obind_eq_Inr split: if_splits)
    then show ?thesis using fair_state [OF fair_trans [OF f fair_send], of _ _ _ _ _ _ n n'] by simp
  qed
qed (use assms in \<open>auto simp: nl_flush_def fair_op_def\<close>)


lemma fair_keepalive: "nl_sendKeepalive cd ok n = Inr (es, n') \<Longrightarrow> fair_op n es n'"
  by (auto simp: nl_sendKeepalive_def obind_eq_Inr fair_refl dest!: fair_send split: if_splits intro: fair_state)

lemma fair_turn:
  assumes "nl_routine_turn cd wsend now ev n = Inr (b, es, n')"
  shows "fair_op n es n'"
proof (cases "ev = CtxDoneEvent")
  case True
  then show ?thesis using assms by (auto simp: nl_routine_turn_def split: prod.splits dest: fair_disconnect)
next
  case False
  then obtain es1 n1 where 1: "(case ev of KeepaliveTick \<Rightarrow> if length (nl_queue n) \<noteq> 0 then nl_flush cd wsend n else nl_sendKeepalive cd (wsend [[]]) n
      | BufferTick \<Rightarrow> nl_flush cd wsend n | _ \<Rightarrow> Inr ([], n)) = Inr (es1, n1)"
    and rest: "(if now > keepaliveTimestamp n1 + SessionTimeout (nl_config n1)
      then (case nl_disconnect n1 of (es', n) \<Rightarrow> Inr (True, es1 @ es', n)) else Inr (True, es1, n1)) = (Inr (b, es, n') :: _ outcome)"
    using assms by (cases ev) (simp_all add: nl_routine_turn_def obind_eq_Inr, blast+)
  have 2: "es = es1 \<and> n' = n1 \<or> (\<exists>es2. nl_disconnect n1 = (es2, n') \<and> es = es1 @ es2)"
    using rest by (cases "nl_disconnect n1") (auto split: if_splits)
  have "fair_op n es1 n1"
    using 1 False by (cases ev) (auto dest: fair_flush fair_keepalive simp: fair_refl split: if_splits)
  then show ?thesis using 2 fair_trans [OF _ fair_disconnect] by blast
qed

lemma fair_packet: "fair_op n es n' \<Longrightarrow> fair_op n (RecvPacket p # es) n'"
  by (simp add: fair_op_def)

lemma fair_recv: "recv_loop cd ps n = (ok, es, n') \<Longrightarrow> fair_op n es n'"
proof (induction ps arbitrary: n es)
  case Nil
  then show ?case by (simp add: fair_refl)
next
  case (Cons p ps)
  show ?case
  proof (cases "nl_stack n \<noteq> None \<and> stackID n \<noteq> np_Id p")
    case True
    then show ?thesis using Cons.prems by (auto dest: fair_disconnect)
  next
    case False
    then show ?thesis
    proof (cases "np_Index p \<noteq> 0")
      case True
      with Cons.prems False show ?thesis by (auto split: option.splits dest!: Cons.IH intro: fair_state)
    next
      case last: False
      let ?n = "n\<lparr>nl_stack := None\<rparr>"
      show ?thesis
      proof (cases "assemble cd (case nl_stack n of None \<Rightarrow> [p] | Some st \<Rightarrow> st @ [p]) p")
        case None
        then have "nl_disconnect ?n = (es, n')" using Cons.prems False last by (auto simp: Let_def)
        from fair_state [OF fair_disconnect [OF this]] show ?thesis by simp
      next
        case (Some q)
        then obtain es' where r: "recv_loop cd ps ?n = (ok, es', n')" "es = RecvPacket q # es'"
          using Cons.prems False last by (cases "recv_loop cd ps ?n") (auto simp: Let_def)
        from Cons.IH [OF r(1)] have "fair_op n es' n'" by (rule fair_state) simp_all
        then show ?thesis unfolding r(2) by (rule fair_packet)
      qed
    qed
  qed
qed

lemma fair_data:
  assumes "nl_webrtcRecvData cd now d n = (es, n')"
  shows "fair_op n es n'"
proof (cases "dec_packets cd d")
  case (Inr ps)
  obtain ok l where "recv_loop cd ps n = (ok, es, l)" "nl_state n' = nl_state l"
    using assms Inr by (cases "recv_loop cd ps n") (auto simp: nl_webrtcRecvData_def split: if_splits)
  then show ?thesis using fair_state [OF fair_recv] by simp
qed (use assms in \<open>auto simp: nl_webrtcRecvData_def dest: fair_disconnect\<close>)

lemma fair_packet_sent: "nl_sendPacket cd wsend p n = Inr (r, es, n') \<Longrightarrow> fair_op n es n'"
  by (auto simp: nl_sendPacket_def Let_def obind_eq_Inr fair_refl split: sum.splits if_splits dest!: fair_flush intro: fair_state)


text \<open>
  A call of the channel that fails disconnects it and leaves the state to the report that
  follows; all the others are fair.
\<close>

lemma link_op_cases:
  assumes "link_op n es n'"
  shows "fair_op n es n' \<or> n' = n \<and> es = [WebrtcDisconnect]"
  using assms
proof cases
qed (auto simp: nl_webrtcRaiseError_def nl_setRemoteSDP_def nl_updateICE_def nl_getLocalSDP_def fair_refl
    dest: fair_packet_sent fair_turn fair_data fair_disconnect split: sum.splits)

lemma report_fair:
  assumes "nl_webrtcChangeLinkState cd wsend a b n = Inr (es, n')"
  shows "told_after (nl_state n) es = nl_state n' \<and>
    (nl_state n' = state_of a b \<and> (WebrtcDisconnect \<in> set es \<longrightarrow> nl_state n' = nodeLinkStateDisabled) \<or>
     nl_state n' = nodeLinkStateDisabled \<and> WebrtcDisconnect \<in> set es)"
proof (cases "nl_state n = state_of a b")
  case True
  then show ?thesis using assms by (auto simp: nl_webrtcChangeLinkState_def state_of_def Let_def split: if_splits)
next
  case False
  let ?n = "n\<lparr>nl_state := state_of a b\<rparr>"
  have "\<exists>es1. es = ChangeState (state_of a b) # es1 \<and> fair_op ?n es1 n'"
  proof (cases "state_of a b")
    case nodeLinkStateConnecting
    then show ?thesis using assms False
      by (auto simp: nl_webrtcChangeLinkState_def Let_def fair_refl state_of_def split: if_splits)
  next
    case nodeLinkStateOnline
    then have "a" "b" by (simp_all add: state_of_def split: if_splits)
    then show ?thesis using assms False
      by (auto simp: nl_webrtcChangeLinkState_def Let_def state_of_def obind_eq_Inr dest: fair_flush)
  next
    case nodeLinkStateDisabled
    then have "\<not> a" by (simp add: state_of_def split: if_splits)
    then show ?thesis using assms False
      by (cases "nl_disconnect (n\<lparr>nl_state := nodeLinkStateDisabled\<rparr>)")
         (auto simp: nl_webrtcChangeLinkState_def Let_def state_of_def dest: fair_disconnect)
  qed
  then show ?thesis by (auto simp: fair_op_def)
qed

subsection \<open>The contract of a channel\<close>

text \<open>
  What a link relies on: every change of the flags is reported, a channel that is not
  active never becomes active again, and \<open>disconnect\<close> makes it inactive.
\<close>

definition agree :: "('s \<Rightarrow> bool) \<Rightarrow> ('s \<Rightarrow> bool) \<Rightarrow> ('s \<Rightarrow> bool) \<Rightarrow> 's channel_pair \<Rightarrow> bool" where
  "agree active online sound c \<longleftrightarrow> sound (cn_channel c) \<and> cn_told c = nl_state (cn_link c) \<and>
     (if cn_reports c = [] then nl_state (cn_link c) = state_of (active (cn_channel c)) (online (cn_channel c))
      else last (cn_reports c) = (active (cn_channel c), online (cn_channel c)))"

definition dead :: "('s \<Rightarrow> bool) \<Rightarrow> ('s \<Rightarrow> bool) \<Rightarrow> 's channel_pair \<Rightarrow> bool" where
  "dead active sound c \<longleftrightarrow> sound (cn_channel c) \<and> \<not> active (cn_channel c) \<and> nl_state (cn_link c) = nodeLinkStateDisabled \<and>
     (\<forall>(a, b) \<in> set (cn_reports c). \<not> a)"

locale webrtc_channel =
  fixes active online sound :: "'s \<Rightarrow> bool"
    and event :: "'s \<Rightarrow> (bool \<times> bool) list \<Rightarrow> 's \<Rightarrow> bool"
    and disc :: "'s \<Rightarrow> (bool \<times> bool) list \<times> 's"
  assumes event_inv: "event s rs s' \<Longrightarrow> sound s \<Longrightarrow> sound s'"
    and event_reported: "event s rs s' \<Longrightarrow> sound s \<Longrightarrow> last ((active s, online s) # rs) = (active s', online s')"
    and event_inactive: "event s rs s' \<Longrightarrow> sound s \<Longrightarrow> \<not> active s \<Longrightarrow> \<not> active s' \<and> (\<forall>(a, b) \<in> set rs. \<not> a)"
    and disc_inv: "disc s = (rs, s') \<Longrightarrow> sound s \<Longrightarrow> sound s'"
    and disc_reported: "disc s = (rs, s') \<Longrightarrow> sound s \<Longrightarrow> last ((active s, online s) # rs) = (active s', online s')"
    and disc_inactive: "disc s = (rs, s') \<Longrightarrow> sound s \<Longrightarrow> \<not> active s' \<and> (\<forall>(a, b) \<in> set rs. \<not> a)"
begin

lemma agree_step:
  assumes "pair_step event disc c c'" "agree active online sound c"
  shows "agree active online sound c'"
  using assms(1)
proof cases
  case (event rs s)
  then show ?thesis using assms(2) event_inv event_reported [OF event(2)] by (auto simp: agree_def last_append split: if_splits)
next
  case (report a b rs cd wsend es n)
  show ?thesis
  proof (cases "WebrtcDisconnect \<in> set es")
    case False
    then show ?thesis using report assms(2) report_fair [OF report(3)] by (auto simp: agree_def after_link_def Let_def split: if_splits)
  next
    case True
    obtain rs' s' where d: "disc (cn_channel c) = (rs', s')" by fastforce
    have i: "sound (cn_channel c)" using assms(2) by (simp add: agree_def)
    show ?thesis using True report assms(2) report_fair [OF report(3)] d disc_inv [OF d i] disc_reported [OF d i] disc_inactive [OF d i]
      by (auto simp: agree_def after_link_def Let_def state_of_def last_append split: if_splits)
  qed
next
  case (link es n)
  show ?thesis
  proof (cases "WebrtcDisconnect \<in> set es")
    case False
    then show ?thesis using link assms(2) link_op_cases [OF link(2)] by (auto simp: agree_def after_link_def Let_def fair_op_def split: if_splits)
  next
    case True
    obtain rs' s' where d: "disc (cn_channel c) = (rs', s')" by fastforce
    have i: "sound (cn_channel c)" using assms(2) by (simp add: agree_def)
    show ?thesis using True link assms(2) link_op_cases [OF link(2)] d disc_inv [OF d i] disc_reported [OF d i] disc_inactive [OF d i]
      by (auto simp: agree_def after_link_def Let_def state_of_def fair_op_def last_append split: if_splits)
  qed
qed

lemma agree_reach: "(pair_step event disc)\<^sup>*\<^sup>* c c' \<Longrightarrow> agree active online sound c \<Longrightarrow> agree active online sound c'"
  by (induction rule: rtranclp_induct) (auto dest: agree_step)

lemma dead_step:
  assumes "pair_step event disc c c'" "dead active sound c"
  shows "dead active sound c'"
  using assms(1)
proof cases
  case (event rs s)
  then show ?thesis using assms(2) event_inv event_inactive [OF event(2)] by (auto simp: dead_def)
next
  case (report a b rs cd wsend es n)
  obtain rs' s' where d: "disc (cn_channel c) = (rs', s')" by fastforce
  have i: "sound (cn_channel c)" using assms(2) by (simp add: dead_def)
  show ?thesis using report assms(2) report_fair [OF report(3)] d disc_inv [OF d i] disc_inactive [OF d i]
    by (auto simp: dead_def after_link_def Let_def state_of_def)
next
  case (link es n)
  obtain rs' s' where d: "disc (cn_channel c) = (rs', s')" by fastforce
  have i: "sound (cn_channel c)" using assms(2) by (simp add: dead_def)
  show ?thesis using link assms(2) link_op_cases [OF link(2)] d disc_inv [OF d i] disc_inactive [OF d i]
    by (auto simp: dead_def after_link_def Let_def fair_op_def)
qed

lemma dead_reach: "(pair_step event disc)\<^sup>*\<^sup>* c c' \<Longrightarrow> dead active sound c \<Longrightarrow> dead active sound c'"
  by (induction rule: rtranclp_induct) (auto dest: dead_step)

lemma settled:
  assumes "agree active online sound c0" "(pair_step event disc)\<^sup>*\<^sup>* c0 c"
  shows "cn_told c = nl_state (cn_link c) \<and>
    (cn_reports c = [] \<longrightarrow> nl_state (cn_link c) = state_of (active (cn_channel c)) (online (cn_channel c))) \<and>
    (cn_reports c = [] \<and> nl_state (cn_link c) = nodeLinkStateDisabled \<and> (pair_step event disc)\<^sup>*\<^sup>* c c' \<longrightarrow>
      nl_state (cn_link c') = nodeLinkStateDisabled)"
proof -
  have a: "agree active online sound c" using agree_reach [OF assms(2,1)] .
  have "dead active sound c" if "cn_reports c = []" "nl_state (cn_link c) = nodeLinkStateDisabled"
    using that a by (auto simp: agree_def dead_def state_of_def split: if_splits)
  then show ?thesis using a dead_reach [of c c'] by (auto simp: agree_def dead_def)
qed

end

subsection \<open>The native link is such a channel\<close>

definition reports_of :: "wl_event list \<Rightarrow> (bool \<times> bool) list" where
  "reports_of es = concat (map (\<lambda>e. case e of ChangeLinkState a b \<Rightarrow> [(a, b)] | _ \<Rightarrow> []) es)"

lemma reports_of_simps [simp]: "reports_of [] = []" "reports_of (ChangeLinkState a b # es) = (a, b) # reports_of es"
  by (simp_all add: reports_of_def)

inductive native_event :: "webRTCLinkNative \<Rightarrow> (bool \<times> bool) list \<Rightarrow> webRTCLinkNative \<Rightarrow> bool" where
  state: "wn_OnConnectionStateChange st w = (es, w') \<Longrightarrow> native_event w (reports_of es) w'"
| opened: "wn_OnOpen w = (es, w') \<Longrightarrow> native_event w (reports_of es) w'"
| closed: "wn_OnClose w = (es, w') \<Longrightarrow> native_event w (reports_of es) w'"
| channel: "wn_OnDataChannel d w = Inr w' \<Longrightarrow> native_event w [] w'"
| remote: "wn_setRemoteSDP (lib :: string pc_lib) sdp w = (r, cs, w') \<Longrightarrow> native_event w [] w'"
| candidate: "wn_updateICE (lib :: string pc_lib) ice w = (r, cs, w') \<Longrightarrow> native_event w [] w'"

definition native_disc :: "unit result \<Rightarrow> webRTCLinkNative \<Rightarrow> (bool \<times> bool) list \<times> webRTCLinkNative" where
  "native_disc answer w = (case wn_disconnect answer w of (_, _ :: unit pc_call list, es, w') \<Rightarrow> (reports_of es, w'))"

definition native_sound :: "webRTCLinkNative \<Rightarrow> bool" where
  "native_sound w \<longleftrightarrow> (wn_active w \<longrightarrow> wn_connected w)"

lemma native_event_flags:
  assumes "native_event w rs w'"
  shows "wn_connected w' = wn_connected w \<and> (wn_active w' \<longrightarrow> wn_active w) \<and>
    last ((wn_active w, wn_online w) # rs) = (wn_active w', wn_online w') \<and> (\<forall>(a, b) \<in> set rs. a \<longrightarrow> wn_active w)"
  using assms
  by cases (auto simp: wn_OnConnectionStateChange_def wn_OnOpen_def wn_OnClose_def wn_OnDataChannel_def wn_setRemoteSDP_def
      wn_updateICE_def Let_def split: if_splits sum.splits option.splits prod.splits)

interpretation native: webrtc_channel wn_isActive wn_isOnline native_sound native_event "native_disc answer" for answer
proof unfold_locales
  fix s s' :: webRTCLinkNative and rs
  assume e: "native_event s rs s'" and i: "native_sound s"
  note f = native_event_flags [OF e]
  show "native_sound s'" using f i by (auto simp: native_sound_def)
  show "last ((wn_isActive s, wn_isOnline s) # rs) = (wn_isActive s', wn_isOnline s')"
    using f by (simp add: wn_isActive_def wn_isOnline_def)
  show "\<not> wn_isActive s' \<and> (\<forall>(a, b)\<in>set rs. \<not> a)" if "\<not> wn_isActive s"
    using f that by (auto simp: wn_isActive_def)
qed (auto simp: native_disc_def wn_disconnect_def native_sound_def wn_isActive_def wn_isOnline_def Let_def split: if_splits)

definition fresh_pair :: "'s \<Rightarrow> nodeLink \<Rightarrow> 's channel_pair" where
  "fresh_pair s n = \<lparr>cn_channel = s, cn_link = n, cn_reports = [], cn_told = nl_state n\<rparr>"

text \<open>
  C16. A link follows its native channel: in every run from a new channel and a new link, over all
  events of the library, calls and turns of the link and reports on their way, the node
  accessor has been told the state the link is in; once no report is on its way
  this is the state of the channel, online, connecting or gone; and a link that is then
  disabled stays so for ever. Assumed: reports are handled in the order in which they are made.
\<close>

theorem native_link_settles:
  assumes "newWebRTCLinkNative made channel conf = (Inr w, calls)"
    and "(pair_step native_event (native_disc answer))\<^sup>*\<^sup>* (fresh_pair w (newNodeLink config t)) c"
  shows "cn_told c = nl_state (cn_link c) \<and>
    (cn_reports c = [] \<longrightarrow> nl_state (cn_link c) = state_of (wn_isActive (cn_channel c)) (wn_isOnline (cn_channel c))) \<and>
    (cn_reports c = [] \<and> nl_state (cn_link c) = nodeLinkStateDisabled \<and> (pair_step native_event (native_disc answer))\<^sup>*\<^sup>* c c' \<longrightarrow>
      nl_state (cn_link c') = nodeLinkStateDisabled)"
proof -
  have "agree wn_isActive wn_isOnline native_sound (fresh_pair w (newNodeLink config t))"
    using assms(1) by (auto simp: newWebRTCLinkNative_def agree_def fresh_pair_def native_sound_def newNodeLink_def state_of_def
        wn_isActive_def wn_isOnline_def Let_def split: sum.splits if_splits)
  from native.settled [OF this assms(2)] show ?thesis .
qed

definition demo_native :: webRTCLinkNative where
  "demo_native = \<lparr>wn_isOffer = True, wn_connected = True, wn_dataChannel = Some (0, ''l''), wn_ices = Some [], wn_active = True, wn_online = False\<rparr>"

lemma demo_native_new:
  "newWebRTCLinkNative (Inr ()) (Inr 0) \<lparr>wc_iceServers = [], wc_isOffer = True, wc_label = ''l''\<rparr> =
    (Inr demo_native, [NewPeerConnection [], CreateDataChannel ''l''])"
  by (simp add: newWebRTCLinkNative_def demo_native_def)

text \<open>The channel opens, its report on the way.\<close>

definition demo_open :: "webRTCLinkNative channel_pair" where
  "demo_open = (fresh_pair demo_native (newNodeLink ex_config 0))\<lparr>cn_channel := demo_native\<lparr>wn_online := True\<rparr>, cn_reports := [(True, True)]\<rparr>"

lemma demo_open_reached:
  "(pair_step native_event (native_disc (Inr ())))\<^sup>*\<^sup>* (fresh_pair demo_native (newNodeLink ex_config 0)) demo_open"
proof -
  have "native_event demo_native [(True, True)] (demo_native\<lparr>wn_online := True\<rparr>)"
    using native_event.opened [of demo_native] by (simp add: wn_OnOpen_def demo_native_def)
  from pair_step.event [where c = "fresh_pair demo_native (newNodeLink ex_config 0)", of native_event, simplified fresh_pair_def, simplified, OF this]
  show ?thesis by (auto simp: demo_open_def fresh_pair_def)
qed

lemma report_online:
  assumes "nl_state n \<noteq> nodeLinkStateOnline" "nl_queue n = []"
  shows "\<exists>n'. nl_webrtcChangeLinkState cd wsend True True n = Inr ([ChangeState nodeLinkStateOnline], n') \<and> nl_state n' = nodeLinkStateOnline"
  using assms by (simp add: nl_webrtcChangeLinkState_def nl_flush_def Let_def)

theorem native_link_settles_witness:
  "\<exists>c. (pair_step native_event (native_disc (Inr ())))\<^sup>*\<^sup>* (fresh_pair demo_native (newNodeLink ex_config 0)) c \<and>
    cn_reports c = [] \<and> cn_told c = nodeLinkStateOnline \<and> nl_state (cn_link c) = nodeLinkStateOnline"
proof -
  obtain n where n: "nl_webrtcChangeLinkState ex_codec (\<lambda>_. True) True True (cn_link demo_open) = Inr ([ChangeState nodeLinkStateOnline], n)"
    "nl_state n = nodeLinkStateOnline"
    using report_online [of "cn_link demo_open"] by (auto simp: demo_open_def fresh_pair_def newNodeLink_def)
  let ?c = "after_link (native_disc (Inr ())) [ChangeState nodeLinkStateOnline] n (demo_open\<lparr>cn_reports := []\<rparr>)"
  have "pair_step native_event (native_disc (Inr ())) demo_open ?c"
    by (rule pair_step.report [OF _ n(1)]) (simp add: demo_open_def)
  with demo_open_reached have r: "(pair_step native_event (native_disc (Inr ())))\<^sup>*\<^sup>* (fresh_pair demo_native (newNodeLink ex_config 0)) ?c"
    by (rule rtranclp.rtrancl_into_rtrancl)
  have "cn_told ?c = nl_state (cn_link ?c)" using native_link_settles [OF demo_native_new r] by blast
  moreover have "cn_reports ?c = []" "cn_link ?c = n" by (simp_all add: after_link_def)
  ultimately show ?thesis using r n(2) by metis
qed

text \<open>
  While a report is on its way this can be wrong: the channel opens, the link is
  disconnected before the report is handled, and the report takes the disabled link back
  online although its channel is closed.
\<close>

theorem stale_report_revives:
  "\<exists>c c'. (pair_step native_event (native_disc (Inr ())))\<^sup>*\<^sup>* (fresh_pair demo_native (newNodeLink ex_config 0)) c \<and>
    cn_told c = nodeLinkStateDisabled \<and> pair_step native_event (native_disc (Inr ())) c c' \<and>
    cn_told c' = nodeLinkStateOnline \<and> \<not> wn_isActive (cn_channel c')"
proof -
  obtain es n where d: "nl_disconnect (cn_link demo_open) = (es, n)" by fastforce
  then have es: "es = [WebrtcDisconnect, ChangeState nodeLinkStateDisabled]" "nl_state n = nodeLinkStateDisabled" "nl_queue n = []"
    by (auto simp: nl_disconnect_def demo_open_def fresh_pair_def newNodeLink_def)
  let ?c = "after_link (native_disc (Inr ())) es n demo_open"
  have s: "pair_step native_event (native_disc (Inr ())) demo_open ?c" by (rule pair_step.link [OF link_op.remove [OF d]])
  have c: "cn_reports ?c = [(True, True), (False, True)]" "cn_link ?c = n" "cn_told ?c = nodeLinkStateDisabled" "\<not> wn_isActive (cn_channel ?c)"
    by (simp_all add: after_link_def es(1) native_disc_def wn_disconnect_def demo_open_def demo_native_def wn_isActive_def)
  obtain n' where n': "nl_webrtcChangeLinkState ex_codec (\<lambda>_. True) True True n = Inr ([ChangeState nodeLinkStateOnline], n')"
    using report_online [of n] es by auto
  let ?c' = "after_link (native_disc (Inr ())) [ChangeState nodeLinkStateOnline] n' (?c\<lparr>cn_reports := [(False, True)]\<rparr>)"
  have "pair_step native_event (native_disc (Inr ())) ?c ?c'"
    by (rule pair_step.report [of ?c]) (use c n' in simp_all)
  moreover have "cn_told ?c' = nodeLinkStateOnline" "\<not> wn_isActive (cn_channel ?c')"
    using c(4) by (simp_all add: after_link_def [of _ "[ChangeState nodeLinkStateOnline]"])
  moreover have "(pair_step native_event (native_disc (Inr ())))\<^sup>*\<^sup>* (fresh_pair demo_native (newNodeLink ex_config 0)) ?c"
    using demo_open_reached s by (rule rtranclp.rtrancl_into_rtrancl)
  ultimately show ?thesis using c(3) by blast
qed

end
