(* ===== verification/WebRTC_Wasm.thy ===== *)
theory WebRTC_Wasm
  imports Link_Channel
begin

text \<open>
  The data channel in a browser (\<open>src/node/internal/network/node_accessor/webrtc_link_wasm.go\<close>).
  The links are kept in a table by the number the JavaScript side gave them; its callbacks
  name a link by that number. What a JavaScript call answers, and the last error it
  keeps, are arguments. \<open>ww_locked\<close> tells that the mutex of the link is held by a call that does not
  give it back; \<open>None\<close> is the nil channel.
\<close>

record webRTCLinkWASM =
  ww_config :: webRTCLinkConfig
  ww_id :: int
  ww_locked :: bool
  ww_active :: bool
  ww_online :: bool
  ww_label :: string
  localSDPCh :: "string list option"

type_synonym wasm_links = "(int, webRTCLinkWASM) gomap"

definition getLink :: "int \<Rightarrow> wasm_links \<Rightarrow> webRTCLinkWASM option" where
  "getLink linkID links = mget links linkID"

subsection \<open>Callbacks\<close>

text \<open>
  An empty label is an error, raised with the mutex held; the function returns without giving
  it back, and then reports the change it deferred.
\<close>

definition jsOnUpdateLinkState :: "string \<Rightarrow> int \<Rightarrow> bool \<Rightarrow> wasm_links \<Rightarrow> (wl_event list \<times> wasm_links) outcome" where
  "jsOnUpdateLinkState label linkID online links =
     (case getLink linkID links of
        None \<Rightarrow> Inr ([], links)
      | Some link \<Rightarrow>
          if ww_locked link then Inl Blocked
          else let link' = link\<lparr>ww_active := (if ww_online link \<and> \<not> online then False else ww_active link), ww_online := online\<rparr>;
                   changed = (ww_active link \<noteq> ww_active link' \<or> ww_online link \<noteq> ww_online link');
                   report = (if changed then [ChangeLinkState (ww_active link') (ww_online link')] else [])
               in if changed \<and> ww_online link' then
                    (if length label = 0
                     then Inr (RaiseError ''failed to get label'' # report, mput linkID (link'\<lparr>ww_locked := True\<rparr>) links)
                     else Inr (report, mput linkID (link'\<lparr>ww_label := label\<rparr>) links))
                  else Inr (report, mput linkID link' links))"

definition jsOnUpdateICE :: "int \<Rightarrow> string \<Rightarrow> wasm_links \<Rightarrow> wl_event list" where
  "jsOnUpdateICE linkID ice links = (case getLink linkID links of None \<Rightarrow> [] | Some _ \<Rightarrow> [NewICE ice])"

definition jsOnGetLocalSDP :: "int \<Rightarrow> string \<Rightarrow> wasm_links \<Rightarrow> wasm_links outcome" where
  "jsOnGetLocalSDP linkID sdp links =
     (case getLink linkID links of
        None \<Rightarrow> Inr links
      | Some link \<Rightarrow>
          (case localSDPCh link of
             Some [] \<Rightarrow> Inr (mput linkID (link\<lparr>localSDPCh := Some [sdp]\<rparr>) links)
           | _ \<Rightarrow> Inl Blocked))"

definition jsOnReceiveData :: "int \<Rightarrow> bytes \<Rightarrow> wasm_links \<Rightarrow> wl_event list" where
  "jsOnReceiveData linkID data links = (case getLink linkID links of None \<Rightarrow> [] | Some _ \<Rightarrow> [NewData data])"

definition jsOnRaiseError :: "int \<Rightarrow> string \<Rightarrow> wasm_links \<Rightarrow> wl_event list" where
  "jsOnRaiseError linkID message links = (case getLink linkID links of None \<Rightarrow> [] | Some _ \<Rightarrow> [RaiseError message])"

subsection \<open>Operations\<close>

definition newWebRTCLinkWASM :: "string result \<Rightarrow> int \<Rightarrow> webRTCLinkConfig \<Rightarrow> wasm_links \<Rightarrow> int result \<times> wasm_links" where
  "newWebRTCLinkWASM iceServersBin linkID config links =
     (case iceServersBin of
        Inl err \<Rightarrow> (Inl (''failed to marshal ice: '' @ err), links)
      | Inr _ \<Rightarrow>
          if linkID = 0 then (Inl ''failed to create webrtc link'', links)
          else (Inr linkID,
                mput linkID \<lparr>ww_config = config, ww_id = linkID, ww_locked = False, ww_active = True, ww_online = False,
                             ww_label = [], localSDPCh = Some []\<rparr> links))"

definition ww_isActive :: "webRTCLinkWASM \<Rightarrow> bool outcome" where
  "ww_isActive w = (if ww_locked w then Inl Blocked else Inr (ww_active w))"

definition ww_isOnline :: "webRTCLinkWASM \<Rightarrow> bool outcome" where
  "ww_isOnline w = (if ww_locked w then Inl Blocked else Inr (ww_online w))"

definition ww_getLabel :: "webRTCLinkWASM \<Rightarrow> string outcome" where
  "ww_getLabel w = (if ww_locked w then Inl Blocked else Inr (ww_label w))"

text \<open>The call waits for the callback; the channel is used once.\<close>

definition ww_getLocalSDP :: "bool \<Rightarrow> string \<Rightarrow> webRTCLinkWASM \<Rightarrow> (string result \<times> webRTCLinkWASM) outcome" where
  "ww_getLocalSDP res lastError w =
     (if \<not> res then Inr (Inl (''failed to get local SDP: '' @ lastError), w)
      else case localSDPCh w of
             Some (sdp # _) \<Rightarrow>
               Inr (if sdp = [] then Inl (''failed to get local SDP: '' @ lastError) else Inr sdp, w\<lparr>localSDPCh := None\<rparr>)
           | _ \<Rightarrow> Inl Blocked)"

definition ww_setRemoteSDP :: "bool \<Rightarrow> string \<Rightarrow> unit result" where
  "ww_setRemoteSDP res lastError = (if \<not> res then Inl (''failed to set remote SDP: '' @ lastError) else Inr ())"

definition ww_updateICE :: "bool \<Rightarrow> string \<Rightarrow> unit result" where
  "ww_updateICE res lastError = (if \<not> res then Inl (''failed to update ICE: '' @ lastError) else Inr ())"

definition ww_send :: "bool \<Rightarrow> string \<Rightarrow> unit result" where
  "ww_send res lastError = (if \<not> res then Inl (''failed to send data: '' @ lastError) else Inr ())"

definition ww_disconnect :: "bool \<Rightarrow> string \<Rightarrow> webRTCLinkWASM \<Rightarrow> (unit result \<times> wl_event list \<times> webRTCLinkWASM) outcome" where
  "ww_disconnect res lastError w =
     (if ww_locked w then Inl Blocked
      else Inr (if \<not> res then Inl (''failed to disconnect: '' @ lastError) else Inr (),
                if ww_active w then [ChangeLinkState False (ww_online w)] else [], w\<lparr>ww_active := False\<rparr>))"

subsection \<open>The link in a browser is a channel as well\<close>

text \<open>The events of one link, as long as labels can be read.\<close>

inductive wasm_event :: "webRTCLinkWASM \<Rightarrow> (bool \<times> bool) list \<Rightarrow> webRTCLinkWASM \<Rightarrow> bool" where
  state: "getLink linkID links = Some w \<Longrightarrow> label \<noteq> [] \<Longrightarrow> jsOnUpdateLinkState label linkID online links = Inr (es, links') \<Longrightarrow>
    getLink linkID links' = Some w' \<Longrightarrow> wasm_event w (reports_of es) w'"
| got: "getLink linkID links = Some w \<Longrightarrow> jsOnGetLocalSDP linkID sdp links = Inr links' \<Longrightarrow> getLink linkID links' = Some w' \<Longrightarrow>
    wasm_event w [] w'"
| sdp: "ww_getLocalSDP res lastError w = Inr (r, w') \<Longrightarrow> wasm_event w [] w'"

definition wasm_disc :: "bool \<Rightarrow> string \<Rightarrow> webRTCLinkWASM \<Rightarrow> (bool \<times> bool) list \<times> webRTCLinkWASM" where
  "wasm_disc res lastError w = (case ww_disconnect res lastError w of Inl _ \<Rightarrow> ([], w) | Inr (_, es, w') \<Rightarrow> (reports_of es, w'))"

definition wasm_sound :: "webRTCLinkWASM \<Rightarrow> bool" where
  "wasm_sound w \<longleftrightarrow> \<not> ww_locked w"

lemma wasm_event_flags:
  assumes "wasm_event w rs w'" "\<not> ww_locked w"
  shows "\<not> ww_locked w' \<and> (ww_active w' \<longrightarrow> ww_active w) \<and>
    last ((ww_active w, ww_online w) # rs) = (ww_active w', ww_online w') \<and> (\<forall>(a, b) \<in> set rs. a \<longrightarrow> ww_active w)"
  using assms
proof cases
  case (state linkID links label online es links')
  then show ?thesis using assms(2)
    by (auto simp: jsOnUpdateLinkState_def getLink_def Let_def mget_mput split: if_splits)
next
  case (got linkID links sdp links')
  then show ?thesis using assms(2)
    by (auto simp: jsOnGetLocalSDP_def getLink_def mget_mput split: option.splits list.splits)
qed (auto simp: ww_getLocalSDP_def split: if_splits option.splits list.splits)

interpretation wasm: webrtc_channel ww_active ww_online wasm_sound wasm_event "wasm_disc res lastError" for res lastError
proof unfold_locales
  fix s s' :: webRTCLinkWASM and rs
  assume e: "wasm_event s rs s'" and i: "wasm_sound s"
  note f = wasm_event_flags [OF e i [unfolded wasm_sound_def]]
  show "wasm_sound s'" "last ((ww_active s, ww_online s) # rs) = (ww_active s', ww_online s')"
    using f by (auto simp: wasm_sound_def)
  show "\<not> ww_active s' \<and> (\<forall>(a, b)\<in>set rs. \<not> a)" if "\<not> ww_active s" using f that by auto
qed (auto simp: wasm_disc_def ww_disconnect_def wasm_sound_def split: if_splits)

text \<open>
  The browser's link behaves as the native one as long as labels can be read: what the
  node accessor is told is the state the link is in, which is the state of the
  channel once no report is on its way, and a link that is then disabled stays so.
\<close>

theorem wasm_link_settles:
  assumes "newWebRTCLinkWASM bin linkID conf links = (Inr i, links')" and "getLink i links' = Some w"
    and "(pair_step wasm_event (wasm_disc res lastError))\<^sup>*\<^sup>* (fresh_pair w (newNodeLink config t)) c"
  shows "cn_told c = nl_state (cn_link c) \<and>
    (cn_reports c = [] \<longrightarrow> nl_state (cn_link c) = state_of (ww_active (cn_channel c)) (ww_online (cn_channel c))) \<and>
    (cn_reports c = [] \<and> nl_state (cn_link c) = nodeLinkStateDisabled \<and> (pair_step wasm_event (wasm_disc res lastError))\<^sup>*\<^sup>* c c' \<longrightarrow>
      nl_state (cn_link c') = nodeLinkStateDisabled)"
proof -
  have "agree ww_active ww_online wasm_sound (fresh_pair w (newNodeLink config t))"
    using assms(1,2) by (auto simp: newWebRTCLinkWASM_def getLink_def mget_mput agree_def fresh_pair_def wasm_sound_def
        newNodeLink_def state_of_def split: sum.splits if_splits)
  from wasm.settled [OF this assms(3)] show ?thesis .
qed

definition demo_wasm :: webRTCLinkWASM where
  "demo_wasm = \<lparr>ww_config = \<lparr>wc_iceServers = [], wc_isOffer = True, wc_label = ''l''\<rparr>, ww_id = 1, ww_locked = False, ww_active = True,
     ww_online = False, ww_label = [], localSDPCh = Some []\<rparr>"

theorem wasm_link_settles_witness:
  "\<exists>c. (pair_step wasm_event (wasm_disc True []))\<^sup>*\<^sup>* (fresh_pair demo_wasm (newNodeLink ex_config 0)) c \<and> cn_channel c \<noteq> demo_wasm \<and>
    cn_told c = nl_state (cn_link c)"
proof -
  let ?c = "(fresh_pair demo_wasm (newNodeLink ex_config 0))\<lparr>cn_channel := demo_wasm\<lparr>ww_online := True, ww_label := ''l''\<rparr>, cn_reports := [(True, True)]\<rparr>"
  have n: "newWebRTCLinkWASM (Inr ''[]'') 1 (ww_config demo_wasm) [] = (Inr 1, [(1, demo_wasm)])"
    by (simp add: newWebRTCLinkWASM_def demo_wasm_def)
  have g: "getLink 1 [(1, demo_wasm)] = Some demo_wasm" by (simp add: getLink_def)
  have "jsOnUpdateLinkState ''l'' 1 True [(1, demo_wasm)] =
      Inr ([ChangeLinkState True True], [(1, demo_wasm\<lparr>ww_online := True, ww_label := ''l''\<rparr>)])"
    by (simp add: jsOnUpdateLinkState_def getLink_def demo_wasm_def)
  from wasm_event.state [OF g _ this] have "wasm_event demo_wasm [(True, True)] (demo_wasm\<lparr>ww_online := True, ww_label := ''l''\<rparr>)"
    by (simp add: getLink_def)
  from pair_step.event [where c = "fresh_pair demo_wasm (newNodeLink ex_config 0)", of wasm_event, simplified fresh_pair_def, simplified, OF this]
  have r: "(pair_step wasm_event (wasm_disc True []))\<^sup>*\<^sup>* (fresh_pair demo_wasm (newNodeLink ex_config 0)) ?c"
    by (auto simp: fresh_pair_def)
  have "cn_channel ?c \<noteq> demo_wasm" by (simp add: demo_wasm_def)
  then show ?thesis using r wasm_link_settles [OF n g r] by blast
qed

text \<open>
  C37. A label that cannot be read hangs the link: when the channel comes online and its label
  is empty, the error is raised with the mutex held, and what the error leads to, the
  link disconnecting its channel, waits for that mutex for ever.
\<close>

theorem empty_label_hangs:
  assumes "getLink i links = Some w" and "\<not> ww_locked w" and "\<not> ww_online w"
  shows "\<exists>es links' w' es' n'. jsOnUpdateLinkState [] i True links = Inr (RaiseError ''failed to get label'' # es, links') \<and>
    getLink i links' = Some w' \<and> nl_webrtcRaiseError n = (WebrtcDisconnect # es', n') \<and>
    ww_disconnect res lastError w' = Inl Blocked"
  using assms by (simp add: jsOnUpdateLinkState_def getLink_def Let_def mget_mput ww_disconnect_def nl_webrtcRaiseError_def nl_disconnect_def)

theorem empty_label_hangs_witness:
  "\<exists>es links' w' es' n'. jsOnUpdateLinkState [] 1 True [(1, demo_wasm)] = Inr (RaiseError ''failed to get label'' # es, links') \<and>
    getLink 1 links' = Some w' \<and> nl_webrtcRaiseError (newNodeLink ex_config 0) = (WebrtcDisconnect # es', n') \<and>
    ww_disconnect True [] w' = Inl Blocked"
  by (rule empty_label_hangs [of _ _ demo_wasm]) (simp_all add: getLink_def demo_wasm_def)

end
