(* ===== verification/Sim_Store.thy ===== *)
theory Sim_Store
  imports Prelude
begin

text \<open>
  The records of a simulation (\<open>src/simulator/datastore\<close> and the command \<open>export\<close>): writers and
  readers of entries over a file, over MongoDB or over nothing.

  A record is written as JSON, \<open>marshal\<close> and \<open>unmarshal\<close> being arguments; a file is the list of
  the JSON values written to it, \<open>encode\<close> and \<open>decode\<close> being the JSON form of an entry. The
  MongoDB driver is an argument too: whether an insertion succeeds. The writer's background
  goroutine and its callers interleave at the points where the mutex is free, so \<open>flush\<close> is two
  steps: taking the buffer under the mutex, and inserting what was taken.
\<close>

subsection \<open>Entries\<close>

type_synonym raw = "8 word list"

record Entry =
  Timestamp :: time
  en_NodeID :: string
  en_Record :: raw

subsection \<open>MongoDB\<close>

text \<open>
  \<open>mw_inserting\<close> are the batches taken from the buffer and not inserted yet, \<open>mw_collection\<close> what
  the collection has received; the context is \<open>mw_cancelled\<close> when it or its parent is.
\<close>

record MongodbWriter =
  mw_client :: bool
  mw_buffer :: "Entry list"
  mw_cancelled :: bool
  mw_inserting :: "Entry list list"
  mw_collection :: "Entry list"


definition mw_Write :: "time \<Rightarrow> string \<Rightarrow> raw \<Rightarrow> MongodbWriter \<Rightarrow> MongodbWriter" where
  "mw_Write timestamp nodeID rec m =
     (if \<not> mw_client m then m
      else m\<lparr>mw_buffer := mw_buffer m @ [\<lparr>Timestamp = timestamp, en_NodeID = nodeID, en_Record = rec\<rparr>]\<rparr>)"

definition flush_take :: "MongodbWriter \<Rightarrow> Entry list option \<times> MongodbWriter" where
  "flush_take m =
     (if mw_buffer m = [] \<or> \<not> mw_client m then (None, m)
      else (Some (mw_buffer m), m\<lparr>mw_buffer := [], mw_inserting := mw_inserting m @ [mw_buffer m]\<rparr>))"

text \<open>\<open>insert\<close> is the driver's answer; a batch it refuses is gone.\<close>

definition flush_insert :: "(bool \<Rightarrow> Entry list \<Rightarrow> string option) \<Rightarrow> Entry list \<Rightarrow> MongodbWriter \<Rightarrow> string option \<times> MongodbWriter" where
  "flush_insert insertMany buffer m =
     (let m = m\<lparr>mw_inserting := remove1 buffer (mw_inserting m)\<rparr>
      in case insertMany (mw_cancelled m) buffer of
           Some e \<Rightarrow> (Some e, m)
         | None \<Rightarrow> (None, m\<lparr>mw_collection := mw_collection m @ buffer\<rparr>))"

definition mw_flush :: "(bool \<Rightarrow> Entry list \<Rightarrow> string option) \<Rightarrow> MongodbWriter \<Rightarrow> string option \<times> MongodbWriter" where
  "mw_flush insertMany m =
     (case flush_take m of (None, m) \<Rightarrow> (None, m) | (Some buffer, m) \<Rightarrow> flush_insert insertMany buffer m)"

definition mw_Close :: "(bool \<Rightarrow> Entry list \<Rightarrow> string option) \<Rightarrow> MongodbWriter \<Rightarrow> MongodbWriter" where
  "mw_Close insertMany m =
     (let m = snd (mw_flush insertMany m)
      in if mw_client m then m\<lparr>mw_cancelled := True, mw_client := False\<rparr> else m)"

text \<open>The reader's cursor holds the entries in the order of their time, as asked by the sort option.\<close>

record MongodbReader =
  mr_client :: bool
  mr_cursor :: "Entry result list option"

definition NewMongodbReader :: "string option \<Rightarrow> Entry result list result \<Rightarrow> MongodbReader result" where
  "NewMongodbReader connect found =
     (case connect of Some e \<Rightarrow> Inl e
      | None \<Rightarrow>
          (case found of Inl e \<Rightarrow> Inl (''failed to find from mongodb: '' @ e)
           | Inr cursor \<Rightarrow> Inr \<lparr>mr_client = True, mr_cursor = Some cursor\<rparr>))"

definition mr_Close :: "MongodbReader \<Rightarrow> MongodbReader" where
  "mr_Close m = m\<lparr>mr_cursor := None, mr_client := False\<rparr>"

text \<open>A read gives the fields of an entry, nothing at the end, or an error.\<close>

type_synonym raw_read = "(time \<times> string \<times> raw) option result"

definition mr_Read :: "MongodbReader \<Rightarrow> raw_read \<times> MongodbReader" where
  "mr_Read m =
     (case mr_cursor m of
        None \<Rightarrow> (Inr None, mr_Close m)
      | Some [] \<Rightarrow> (Inr None, mr_Close m)
      | Some (Inl e # rest) \<Rightarrow> (Inl (''failed to decode from mongodb: '' @ e), m\<lparr>mr_cursor := Some rest\<rparr>)
      | Some (Inr en # rest) \<Rightarrow>
          (Inr (Some (Timestamp en, en_NodeID en, en_Record en)), m\<lparr>mr_cursor := Some rest\<rparr>))"

subsection \<open>Files\<close>

text \<open>The file is the list of the JSON values in it; a failed write adds nothing.\<close>

definition fw_Write :: "(Entry \<Rightarrow> 'j result) \<Rightarrow> time \<Rightarrow> string \<Rightarrow> raw \<Rightarrow> 'j list \<Rightarrow> string option \<times> 'j list" where
  "fw_Write encode timestamp nodeID rec file =
     (case encode \<lparr>Timestamp = timestamp, en_NodeID = nodeID, en_Record = rec\<rparr> of
        Inl e \<Rightarrow> (Some e, file)
      | Inr j \<Rightarrow> (None, file @ [j]))"

definition NewFileWriter :: "string option \<Rightarrow> 'j list result" where
  "NewFileWriter opened = (case opened of Some e \<Rightarrow> Inl e | None \<Rightarrow> Inr [])"

text \<open>
  The reader has what is left of the file. \<open>Read\<close> works on a copy of the reader, so the decoder it
  clears at the end is the copy's; the file itself is closed.
\<close>

definition fr_Read :: "('j \<Rightarrow> Entry result) \<Rightarrow> 'j list \<Rightarrow> raw_read \<times> 'j list" where
  "fr_Read decode file =
     (case file of [] \<Rightarrow> (Inr None, [])
      | j # rest \<Rightarrow>
          (case decode j of Inl e \<Rightarrow> (Inl e, rest)
           | Inr en \<Rightarrow> (Inr (Some (Timestamp en, en_NodeID en, en_Record en)), rest)))"

subsection \<open>Records\<close>

definition wr_Write :: "('r \<Rightarrow> raw result) \<Rightarrow> (time \<Rightarrow> string \<Rightarrow> raw \<Rightarrow> 'w \<Rightarrow> string option \<times> 'w) \<Rightarrow>
    time \<Rightarrow> string \<Rightarrow> 'r \<Rightarrow> 'w \<Rightarrow> string option \<times> 'w" where
  "wr_Write marshal rawWrite timestamp nodeID rec w =
     (case marshal rec of Inl e \<Rightarrow> (Some e, w) | Inr js \<Rightarrow> rawWrite timestamp nodeID js w)"

text \<open>
  The interface of a writer, and the two that need no store: one drops what it is given, the other prints it,
  \<open>printed\<close> being the form of a time, \<open>failure\<close> the error of a print.
\<close>

record 'w RawWriter =
  raw_Write :: "time \<Rightarrow> string \<Rightarrow> raw \<Rightarrow> 'w \<Rightarrow> string option \<times> 'w"
  raw_Close :: "'w \<Rightarrow> 'w"

definition none_Write :: "time \<Rightarrow> string \<Rightarrow> raw \<Rightarrow> 'w \<Rightarrow> string option \<times> 'w" where
  "none_Write timestamp nodeID rec w = (None, w)"

definition NewNoneWriter :: "'w RawWriter" where
  "NewNoneWriter = \<lparr>raw_Write = none_Write, raw_Close = (\<lambda>w. w)\<rparr>"

definition std_Write ::
  "(time \<Rightarrow> string) \<Rightarrow> (string \<Rightarrow> string option) \<Rightarrow> time \<Rightarrow> string \<Rightarrow> raw \<Rightarrow> string \<Rightarrow> string option \<times> string" where
  "std_Write printed failure timestamp nodeID rec out =
     (let line = printed timestamp @ [CHR 0x09] @ nodeID @ [CHR 0x09] @ map (\<lambda>b. char_of (unat b)) rec @ [CHR 0x0A]
      in case failure line of Some e \<Rightarrow> (Some e, out) | None \<Rightarrow> (None, out @ line))"

definition NewStdWriter :: "(time \<Rightarrow> string) \<Rightarrow> (string \<Rightarrow> string option) \<Rightarrow> string RawWriter" where
  "NewStdWriter printed failure = \<lparr>raw_Write = std_Write printed failure, raw_Close = (\<lambda>w. w)\<rparr>"

definition wr_Close :: "'w RawWriter \<Rightarrow> 'w \<Rightarrow> 'w" where
  "wr_Close rawWriter w = raw_Close rawWriter w"

text \<open>\<open>v\<close> is the record the caller hands in, returned as it is when there is nothing to decode.\<close>

definition rd_Read :: "(raw \<Rightarrow> 'r \<Rightarrow> 'r result) \<Rightarrow> ('w \<Rightarrow> raw_read \<times> 'w) \<Rightarrow> 'r \<Rightarrow> 'w \<Rightarrow>
    (time \<times> string) option result \<times> 'r \<times> 'w" where
  "rd_Read unmarshal rawRead v w =
     (case rawRead w of
        (Inl e, w) \<Rightarrow> (Inl e, v, w)
      | (Inr None, w) \<Rightarrow> (Inr None, v, w)
      | (Inr (Some (timestamp, nodeID, js)), w) \<Rightarrow>
          if js = [] then (Inr (Some (timestamp, nodeID)), v, w)
          else case unmarshal js v of
            Inl e \<Rightarrow> (Inl e, v, w)
          | Inr v' \<Rightarrow> (Inr (Some (timestamp, nodeID)), v', w))"

subsection \<open>The command \<open>export\<close>\<close>

text \<open>The loop runs until a read gives an error or nothing; what a write returns is ignored.\<close>

fun export_loop ::
  "(time \<Rightarrow> string \<Rightarrow> raw \<Rightarrow> 'w \<Rightarrow> string option \<times> 'w) \<Rightarrow> nat \<Rightarrow> MongodbReader \<Rightarrow> 'w \<Rightarrow> (string option \<times> 'w) option" where
  "export_loop rawWrite 0 m w = None"
| "export_loop rawWrite (Suc fuel) m w =
     (case mr_Read m of
        (Inl e, m) \<Rightarrow> Some (Some e, w)
      | (Inr None, m) \<Rightarrow> Some (None, w)
      | (Inr (Some (timestamp, nodeID, rec)), m) \<Rightarrow>
          export_loop rawWrite fuel m (snd (rawWrite timestamp nodeID rec w)))"

definition export_run ::
  "string option \<Rightarrow> Entry result list result \<Rightarrow> string option \<Rightarrow> (Entry \<Rightarrow> 'j result) \<Rightarrow> nat \<Rightarrow> (string option \<times> 'j list) option" where
  "export_run connect found opened encode fuel =
     (case NewMongodbReader connect found of
        Inl e \<Rightarrow> Some (Some (''failed to create Mongodb datastore: '' @ e), [])
      | Inr reader \<Rightarrow>
          (case NewFileWriter opened of
             Inl e \<Rightarrow> Some (Some (''failed to create FileWriter: '' @ e), [])
           | Inr file \<Rightarrow> export_loop (fw_Write encode) fuel reader file))"

subsection \<open>No entry is lost\<close>

text \<open>What can happen between two points where the mutex is free, with the driver's answers.\<close>

datatype mongo_event = EvWrite time string raw | EvTake | EvInsert "Entry list"

inductive mongo_step :: "(bool \<Rightarrow> Entry list \<Rightarrow> string option) \<Rightarrow> MongodbWriter \<Rightarrow> mongo_event \<Rightarrow> MongodbWriter \<Rightarrow> bool"
  for insertMany where
  wrote: "mongo_step insertMany m (EvWrite t n r) (mw_Write t n r m)"
| took: "mongo_step insertMany m EvTake (snd (flush_take m))"
| inserted: "b \<in> set (mw_inserting m) \<Longrightarrow> mongo_step insertMany m (EvInsert b) (snd (flush_insert insertMany b m))"

inductive mongo_run :: "(bool \<Rightarrow> Entry list \<Rightarrow> string option) \<Rightarrow> MongodbWriter \<Rightarrow> mongo_event list \<Rightarrow> MongodbWriter \<Rightarrow> bool"
  for insertMany where
  nil: "mongo_run insertMany m [] m"
| step: "mongo_step insertMany m e m' \<Longrightarrow> mongo_run insertMany m' es m'' \<Longrightarrow> mongo_run insertMany m (e # es) m''"

inductive_cases mongo_run_NilE: "mongo_run insertMany m [] m'"
inductive_cases mongo_run_ConsE: "mongo_run insertMany m (e # es) m'"

definition written :: "mongo_event list \<Rightarrow> Entry list" where
  "written es = concat (map (\<lambda>e. case e of EvWrite t n r \<Rightarrow> [\<lparr>Timestamp = t, en_NodeID = n, en_Record = r\<rparr>] | _ \<Rightarrow> []) es)"


lemma written_Cons [simp]:
  "written (EvWrite t n r # es) = \<lparr>Timestamp = t, en_NodeID = n, en_Record = r\<rparr> # written es"
  "written (EvTake # es) = written es" "written (EvInsert b # es) = written es" "written [] = []"
  by (simp_all add: written_def)






text \<open>
  A driver refuses to insert in a context that has ended. \<open>cmd/node.go\<close> ends the context on a
  signal and closes the writer afterwards: the entries still in the buffer are gone.
\<close>

theorem closed_after_cancel:
  assumes "\<And>b. insertMany True b = Some ''context canceled''" "mw_cancelled m" "mw_client m"
  shows "mw_collection (mw_Close insertMany m) = mw_collection m" "mw_buffer (mw_Close insertMany m) = []"
  using assms by (simp_all add: mw_Close_def mw_flush_def flush_take_def flush_insert_def Let_def)

subsection \<open>Exporting and reading back\<close>

lemma export_loop_entries:
  "length es < fuel \<Longrightarrow> export_loop rawWrite fuel \<lparr>mr_client = True, mr_cursor = Some (map Inr es)\<rparr> w =
     Some (None, fold (\<lambda>en w. snd (rawWrite (Timestamp en) (en_NodeID en) (en_Record en) w)) es w)"
proof (induction es arbitrary: fuel w)
  case Nil
  then show ?case by (cases fuel) (simp_all add: mr_Read_def)
next
  case (Cons en es)
  then show ?case by (cases fuel) (simp_all add: mr_Read_def)
qed

lemma Entry_eta [simp]: "\<lparr>Timestamp = Timestamp en, en_NodeID = en_NodeID en, en_Record = en_Record en\<rparr> = en" for en :: Entry
  by simp

lemma fold_fw_Write:
  "(\<And>en. encode en = Inr (enc en)) \<Longrightarrow>
   fold (\<lambda>en w. snd (fw_Write encode (Timestamp en) (en_NodeID en) (en_Record en) w)) es js = js @ map enc es"
  by (induction es arbitrary: js) (simp_all add: fw_Write_def)

text \<open>Reading a file to its end.\<close>

fun read_all :: "('j \<Rightarrow> Entry result) \<Rightarrow> nat \<Rightarrow> 'j list \<Rightarrow> (time \<times> string \<times> raw) list result option" where
  "read_all decode 0 file = None"
| "read_all decode (Suc fuel) file =
     (case fr_Read decode file of
        (Inl e, _) \<Rightarrow> Some (Inl e)
      | (Inr None, _) \<Rightarrow> Some (Inr [])
      | (Inr (Some r), rest) \<Rightarrow> map_option (map_sum id ((#) r)) (read_all decode fuel rest))"

lemma read_all_entries:
  "(\<And>en. decode (enc en) = Inr en) \<Longrightarrow> length es < fuel \<Longrightarrow>
   read_all decode fuel (map enc es) = Some (Inr (map (\<lambda>en. (Timestamp en, en_NodeID en, en_Record en)) es))"
proof (induction es arbitrary: fuel)
  case Nil
  then show ?case by (cases fuel) (simp_all add: fr_Read_def)
next
  case (Cons en es)
  then show ?case by (cases fuel) (simp_all add: fr_Read_def)
qed

text \<open>
  What is exported can be rendered: with a JSON form of entries that decodes to what was
  encoded, the export of a collection ends, without error, after one turn per entry and one more,
  and reading the file gives every entry of the collection in order and then its end.
\<close>

theorem export_roundtrip:
  assumes "\<And>en. encode en = Inr (enc en)" "\<And>en. decode (enc en) = Inr en" "length es < fuel"
  shows "\<exists>file. export_run None (Inr (map Inr es)) None encode fuel = Some (None, file) \<and>
     read_all decode fuel file = Some (Inr (map (\<lambda>en. (Timestamp en, en_NodeID en, en_Record en)) es))"
  using export_loop_entries [OF assms(3), of "fw_Write encode" "[]"] fold_fw_Write [of encode enc, OF assms(1)]
    read_all_entries [of decode enc, OF assms(2,3)]
  by (simp add: export_run_def NewMongodbReader_def NewFileWriter_def)

theorem export_roundtrip_witness:
  "\<exists>file. export_run None (Inr [Inr \<lparr>Timestamp = 7, en_NodeID = ''a'', en_Record = [123, 125]\<rparr>]) None
        (\<lambda>en. Inr (Timestamp en, en_NodeID en, en_Record en)) 2 = Some (None, file) \<and>
     read_all (\<lambda>(t, n, r). Inr \<lparr>Timestamp = t, en_NodeID = n, en_Record = r\<rparr>) 2 file = Some (Inr [(7, ''a'', [123, 125])])"
  using export_roundtrip [of "\<lambda>en. Inr (Timestamp en, en_NodeID en, en_Record en)"
      "\<lambda>en. (Timestamp en, en_NodeID en, en_Record en)" "\<lambda>(t, n, r). Inr \<lparr>Timestamp = t, en_NodeID = n, en_Record = r\<rparr>"
      "[\<lparr>Timestamp = 7, en_NodeID = ''a'', en_Record = [123, 125]\<rparr>]" 2]
  by simp

end
