(* ===== verification/Sim_Position.thy ===== *)
theory Sim_Position
  imports Geometry
begin

text \<open>
  Where a simulated node is (\<open>src/simulator/utils/position.go\<close>): a random walk inside a
  region, or over the whole sphere when no region is given.

  A \<open>float64\<close> is a real number. The draws of \<open>rand.Float64\<close> are arguments: \<open>NewPosition\<close>
  makes four of them, one turn of the region loop makes a pair. A loop whose draws are used up
  is still running, the outcome \<open>Blocked\<close>.

  The lemmas show that a position is always one that the sphere's coordinate system of the node
  takes, and when the loop over the draws ends.
\<close>

subsection \<open>Regions and positions\<close>

record Region =
  rg_X :: real
  rg_Y :: real
  rg_R :: real

record Position =
  po_X :: real
  po_Y :: real
  po_ax :: real
  po_ay :: real
  po_region :: "Region option"

definition isInsideRegion :: "Position \<Rightarrow> real \<Rightarrow> real \<Rightarrow> bool outcome" where
  "isInsideRegion p px py =
     (case po_region p of None \<Rightarrow> Inl (Panic ''region is nil'')
      | Some rg \<Rightarrow>
          let dx = px - rg_X rg; dy = py - rg_Y rg
          in Inr (dx * dx + dy * dy \<le> rg_R rg * rg_R rg))"

definition NewPosition :: "Region option \<Rightarrow> real \<Rightarrow> real \<Rightarrow> real \<Rightarrow> real \<Rightarrow> Position outcome" where
  "NewPosition region r1 r2 r3 r4 =
     (case region of
        Some rg \<Rightarrow>
          let randR = r1 * rg_R rg;
              randTheta = r2 * pi * 2;
              pos = \<lparr>po_X = rg_X rg + randR * cos randTheta,
                     po_Y = rg_Y rg + randR * sin randTheta,
                     po_ax = (r3 - 0.5) * 0.01 * rg_R rg,
                     po_ay = (r4 - 0.5) * 0.01 * rg_R rg,
                     po_region = region\<rparr>
          in obind (isInsideRegion pos (po_X pos) (po_Y pos)) (\<lambda>inside.
               if inside then Inr pos else Inl (Panic ''initial position is not in the region''))
      | None \<Rightarrow>
          Inr \<lparr>po_X = r1 * pi * 2 - pi, po_Y = r2 * pi - pi / 2,
               po_ax = (r3 - 0.5) * 0.01, po_ay = (r4 - 0.5) * 0.01, po_region = None\<rparr>)"

definition updateAcceleration :: "real \<Rightarrow> real \<Rightarrow> real" where
  "updateAcceleration draw a =
     (let a = a + (draw * 0.001 - 0.0005);
          a = (if a > 0.01 then 0.01 else a);
          a = (if a < - 0.01 then - 0.01 else a)
      in a)"

text \<open>The loop of a walk inside a region: a step that leaves the region draws another one.\<close>

definition try_step :: "Position \<Rightarrow> Position option outcome" where
  "try_step p =
     (let px = po_X p + po_ax p; py = po_Y p + po_ay p
      in obind (isInsideRegion p px py) (\<lambda>inside.
           Inr (if inside then Some (p\<lparr>po_X := px, po_Y := py\<rparr>) else None)))"

definition redraw :: "Region \<Rightarrow> real \<times> real \<Rightarrow> Position \<Rightarrow> Position" where
  "redraw rg d p = p\<lparr>po_ax := (fst d - 0.5) * 0.1 * rg_R rg, po_ay := (snd d - 0.5) * 0.1 * rg_R rg\<rparr>"

fun walk_region :: "Region \<Rightarrow> (real \<times> real) list \<Rightarrow> Position \<Rightarrow> Position outcome" where
  "walk_region rg [] p =
     obind (try_step p) (\<lambda>r. case r of Some p' \<Rightarrow> Inr p' | None \<Rightarrow> Inl Blocked)"
| "walk_region rg (d # ds) p =
     obind (try_step p) (\<lambda>r. case r of Some p' \<Rightarrow> Inr p' | None \<Rightarrow> walk_region rg ds (redraw rg d p))"

definition walk_sphere :: "real \<Rightarrow> real \<Rightarrow> Position \<Rightarrow> Position" where
  "walk_sphere d1 d2 p =
     (let ax = updateAcceleration d1 (po_ax p);
          ay = updateAcceleration d2 (po_ay p);
          x = po_X p + ax;
          y = po_Y p + ay;
          x = (if x > pi then x - pi * 2 else x);
          x = (if x < - pi then x + pi * 2 else x);
          (y, ay) = (if y > pi / 2 then (pi / 2, - ay) else (y, ay));
          (y, ay) = (if y < - pi / 2 then (- pi / 2, - ay) else (y, ay))
      in p\<lparr>po_X := x, po_Y := y, po_ax := ax, po_ay := ay\<rparr>)"

definition MoveRandom :: "(real \<times> real) list \<Rightarrow> Position \<Rightarrow> Position outcome" where
  "MoveRandom ds p =
     (case po_region p of
        Some rg \<Rightarrow> walk_region rg ds p
      | None \<Rightarrow> (case ds of [] \<Rightarrow> Inl Blocked | (d1, d2) # _ \<Rightarrow> Inr (walk_sphere d1 d2 p)))"

subsection \<open>The positions a node can have\<close>

definition inside :: "Region \<Rightarrow> real \<Rightarrow> real \<Rightarrow> bool" where
  "inside rg x y \<longleftrightarrow> (x - rg_X rg)\<^sup>2 + (y - rg_Y rg)\<^sup>2 \<le> (rg_R rg)\<^sup>2"

definition position_ok :: "Position \<Rightarrow> bool" where
  "position_ok p \<longleftrightarrow>
     (case po_region p of
        Some rg \<Rightarrow> inside rg (po_X p) (po_Y p)
      | None \<Rightarrow> \<bar>po_X p\<bar> \<le> pi \<and> \<bar>po_Y p\<bar> \<le> pi / 2 \<and> \<bar>po_ax p\<bar> \<le> 0.01 \<and> \<bar>po_ay p\<bar> \<le> 0.01)"

definition draw_ok :: "real \<Rightarrow> bool" where
  "draw_ok d \<longleftrightarrow> 0 \<le> d \<and> d < 1"

definition coordinate_of :: "Position \<Rightarrow> Coordinate" where
  "coordinate_of p = \<lparr>X = po_X p, Y = po_Y p\<rparr>"

lemma isInsideRegion_Some [simp]:
  "po_region p = Some rg \<Longrightarrow> isInsideRegion p x y = Inr (inside rg x y)"
  by (simp add: isInsideRegion_def inside_def power2_eq_square Let_def)

lemma try_step_Some:
  "po_region p = Some rg \<Longrightarrow>
   try_step p = Inr (if inside rg (po_X p + po_ax p) (po_Y p + po_ay p)
                     then Some (p\<lparr>po_X := po_X p + po_ax p, po_Y := po_Y p + po_ay p\<rparr>) else None)"
  by (simp add: try_step_def Let_def)

lemma redraw_simps [simp]:
  "po_region (redraw rg d p) = po_region p" "po_X (redraw rg d p) = po_X p" "po_Y (redraw rg d p) = po_Y p"
  by (simp_all add: redraw_def)

lemma polar_inside:
  assumes "0 \<le> r" "r \<le> 1"
  shows "inside rg (rg_X rg + r * rg_R rg * cos t) (rg_Y rg + r * rg_R rg * sin t)"
proof -
  have "(r * rg_R rg * cos t)\<^sup>2 + (r * rg_R rg * sin t)\<^sup>2 = (r * rg_R rg)\<^sup>2 * ((cos t)\<^sup>2 + (sin t)\<^sup>2)"
    by (simp only: power_mult_distrib distrib_left)
  also have "\<dots> = r\<^sup>2 * (rg_R rg)\<^sup>2" by (simp only: power_mult_distrib) simp
  also have "\<dots> \<le> 1 * (rg_R rg)\<^sup>2"
    using assms by (intro mult_right_mono) (auto simp: power_le_one)
  finally show ?thesis by (simp add: inside_def)
qed

lemma NewPosition_ok:
  assumes "draw_ok r1" "draw_ok r2" "draw_ok r3" "draw_ok r4"
  shows "\<exists>p. NewPosition region r1 r2 r3 r4 = Inr p \<and> po_region p = region \<and> position_ok p"
proof (cases region)
  case None
  have "r1 * pi \<le> pi" "r2 * pi \<le> pi" "0 \<le> r1 * pi" "0 \<le> r2 * pi"
    using assms by (auto simp: draw_ok_def)
  with None assms show ?thesis
    by (auto simp: NewPosition_def position_ok_def draw_ok_def abs_if)
next
  case (Some rg)
  with assms polar_inside [of r1 rg "r2 * pi * 2"] show ?thesis
    by (simp add: NewPosition_def position_ok_def Let_def draw_ok_def)
qed

lemma updateAcceleration_bound: "\<bar>updateAcceleration d a\<bar> \<le> 0.01"
  unfolding updateAcceleration_def Let_def by (auto simp: abs_if)

lemma walk_region_ok:
  "po_region p = Some rg \<Longrightarrow> walk_region rg ds p = Inr p' \<Longrightarrow> po_region p' = Some rg \<and> position_ok p'"
  by (induction rg ds p rule: walk_region.induct)
     (auto simp: try_step_Some position_ok_def split: if_splits)

lemma walk_sphere_ok:
  assumes "po_region p = None" "position_ok p"
  shows "po_region (walk_sphere d1 d2 p) = None \<and> position_ok (walk_sphere d1 d2 p)"
proof -
  have b: "\<bar>updateAcceleration d1 (po_ax p)\<bar> \<le> 0.01" "\<bar>updateAcceleration d2 (po_ay p)\<bar> \<le> 0.01"
    by (rule updateAcceleration_bound)+
  have "2 \<le> pi" by (rule pi_ge_two)
  with assms b show ?thesis
    by (simp add: walk_sphere_def position_ok_def Let_def) (auto simp: abs_if split: if_splits)
qed

lemma MoveRandom_ok:
  "position_ok p \<Longrightarrow> MoveRandom ds p = Inr p' \<Longrightarrow> po_region p' = po_region p \<and> position_ok p'"
  by (auto simp: MoveRandom_def dest: walk_region_ok walk_sphere_ok split: option.splits list.splits prod.splits)

subsection \<open>Walks\<close>

text \<open>A whole walk is one list of draws per move.\<close>

definition walk :: "(real \<times> real) list list \<Rightarrow> Position \<Rightarrow> Position outcome" where
  "walk dss p = ofold MoveRandom dss p"

lemma walk_ok:
  "position_ok p \<Longrightarrow> walk dss p = Inr p' \<Longrightarrow> po_region p' = po_region p \<and> position_ok p'"
proof (induction dss arbitrary: p)
  case Nil
  then show ?case by (simp add: walk_def)
next
  case (Cons ds dss)
  from Cons.prems obtain q where q: "MoveRandom ds p = Inr q" "walk dss q = Inr p'"
    by (auto simp: walk_def obind_eq_Inr)
  with MoveRandom_ok [OF Cons.prems(1) q(1)] Cons.IH [OF _ q(2)] show ?case by simp
qed

text \<open>The rectangle of the sphere holds the disc.\<close>

definition region_fits :: "Region \<Rightarrow> bool" where
  "region_fits rg \<longleftrightarrow> \<bar>rg_X rg\<bar> + \<bar>rg_R rg\<bar> \<le> pi \<and> \<bar>rg_Y rg\<bar> + \<bar>rg_R rg\<bar> \<le> pi / 2"

lemma inside_bounds:
  assumes "inside rg x y"
  shows "\<bar>x - rg_X rg\<bar> \<le> \<bar>rg_R rg\<bar>" "\<bar>y - rg_Y rg\<bar> \<le> \<bar>rg_R rg\<bar>"
proof -
  have "(x - rg_X rg)\<^sup>2 \<le> (rg_R rg)\<^sup>2" "(y - rg_Y rg)\<^sup>2 \<le> (rg_R rg)\<^sup>2"
    using assms zero_le_power2 [of "x - rg_X rg"] zero_le_power2 [of "y - rg_Y rg"]
    unfolding inside_def by linarith+
  then show "\<bar>x - rg_X rg\<bar> \<le> \<bar>rg_R rg\<bar>" "\<bar>y - rg_Y rg\<bar> \<le> \<bar>rg_R rg\<bar>"
    by (simp_all add: abs_le_square_iff)
qed

lemma position_accepted:
  assumes "position_ok p" "case po_region p of None \<Rightarrow> True | Some rg \<Rightarrow> region_fits rg"
  shows "sp_accepts (coordinate_of p)"
proof (cases "po_region p")
  case None
  with assms show ?thesis
    by (auto simp: position_ok_def sp_accepts_def coordinate_of_def sphereXMin_def sphereXMax_def
      sphereYMin_def sphereYMax_def)
next
  case (Some rg)
  with assms inside_bounds [of rg "po_X p" "po_Y p"] show ?thesis
    by (auto simp: position_ok_def region_fits_def sp_accepts_def coordinate_of_def sphereXMin_def
      sphereXMax_def sphereYMin_def sphereYMax_def)
qed

text \<open>When the loop of a region walk ends: at the first step that stays inside.\<close>

lemma walk_region_ends:
  assumes "po_region p = Some rg"
    and "inside rg (po_X p + po_ax p) (po_Y p + po_ay p) \<or>
         (\<exists>d\<in>set ds. inside rg (po_X p + (fst d - 0.5) * 0.1 * rg_R rg) (po_Y p + (snd d - 0.5) * 0.1 * rg_R rg))"
  shows "\<exists>p'. walk_region rg ds p = Inr p'"
  using assms
proof (induction rg ds p rule: walk_region.induct)
  case (1 rg p)
  then show ?case by (auto simp: try_step_Some)
next
  case (2 rg d ds p)
  show ?case
  proof (cases "inside rg (po_X p + po_ax p) (po_Y p + po_ay p)")
    case True
    with 2 show ?thesis by (auto simp: try_step_Some)
  next
    case False
    have "\<exists>p'. walk_region rg ds (redraw rg d p) = Inr p'"
      using 2 False by (intro "2.IH") (auto simp: try_step_Some redraw_def)
    with 2 False show ?thesis by (auto simp: try_step_Some)
  qed
qed

text \<open>Inside the region the draw \<open>(1/2, 1/2)\<close> is one of them: the step of length zero.\<close>

lemma still_inside:
  "position_ok p \<Longrightarrow> po_region p = Some rg \<Longrightarrow> (1 / 2, 1 / 2) \<in> set ds \<Longrightarrow> \<exists>p'. MoveRandom ds p = Inr p'"
  using walk_region_ends [of p rg ds] by (force simp: MoveRandom_def position_ok_def)

text \<open>
  The walk of a simulated node. With draws in \<open>[0, 1)\<close> the first position never panics; after
  any number of moves the node is still in its region, or on the sphere with an acceleration of
  at most 0.01; and when the region lies within the sphere's rectangle, or there is none, the
  sphere's coordinate system of the node accepts every position of the walk.
\<close>

theorem walk_accepted:
  assumes "draw_ok r1" "draw_ok r2" "draw_ok r3" "draw_ok r4"
  shows "\<exists>p. NewPosition region r1 r2 r3 r4 = Inr p \<and>
     (\<forall>dss p'. walk dss p = Inr p' \<longrightarrow>
        po_region p' = region \<and> position_ok p' \<and>
        ((case region of None \<Rightarrow> True | Some rg \<Rightarrow> region_fits rg) \<longrightarrow>
           (\<exists>s'. sp_SetLocalPosition s (coordinate_of p') = Inr s' \<and>
                 sp_GetLocalPosition s' = coordinate_of p')))"
proof -
  obtain p where p: "NewPosition region r1 r2 r3 r4 = Inr p" "po_region p = region" "position_ok p"
    using NewPosition_ok [OF assms, of region] by blast
  have "\<exists>s'. sp_SetLocalPosition s (coordinate_of p') = Inr s' \<and> sp_GetLocalPosition s' = coordinate_of p'"
    if "walk dss p = Inr p'" "case region of None \<Rightarrow> True | Some rg \<Rightarrow> region_fits rg" for dss p'
    using position_accepted [of p'] walk_ok [OF p(3) that(1)] that(2) p(2)
      sphere.set_accepts [of "coordinate_of p'" s] sphere.set_get [of s "coordinate_of p'"]
    by metis
  with p walk_ok [OF p(3)] show ?thesis by metis
qed

theorem walk_accepted_witness:
  "\<exists>p. NewPosition (Some \<lparr>rg_X = 1, rg_Y = 0, rg_R = 1\<rparr>) 0 0 (1 / 2) (1 / 2) = Inr p \<and>
     walk [[(1 / 2, 1 / 2)]] p = Inr p \<and>
     (\<exists>s'. sp_SetLocalPosition \<lparr>radius = 1, sp_localPosition = \<lparr>X = 0, Y = 0\<rparr>\<rparr> (coordinate_of p) = Inr s' \<and>
        sp_GetLocalPosition s' = \<lparr>X = 1, Y = 0\<rparr>)"
proof -
  let ?rg = "\<lparr>rg_X = 1, rg_Y = 0, rg_R = 1\<rparr>"
  let ?p = "\<lparr>po_X = 1, po_Y = 0, po_ax = 0, po_ay = 0, po_region = Some ?rg\<rparr>"
  let ?s = "\<lparr>radius = 1, sp_localPosition = \<lparr>X = 0, Y = 0\<rparr>\<rparr>"
  have new: "NewPosition (Some ?rg) 0 0 (1 / 2) (1 / 2) = Inr ?p"
    by (simp add: NewPosition_def Let_def inside_def)
  have stay: "walk [[(1 / 2, 1 / 2)]] ?p = Inr ?p"
    by (simp add: walk_def MoveRandom_def try_step_Some inside_def)
  have fits: "case Some ?rg of None \<Rightarrow> True | Some rg \<Rightarrow> region_fits rg"
    using pi_ge_two by (simp add: region_fits_def)
  have draws: "draw_ok 0" "draw_ok 0" "draw_ok (1 / 2)" "draw_ok (1 / 2)"
    by (simp_all add: draw_ok_def)
  have "\<exists>s'. sp_SetLocalPosition ?s (coordinate_of ?p) = Inr s' \<and> sp_GetLocalPosition s' = coordinate_of ?p"
    using walk_accepted [OF draws, of "Some ?rg" ?s] new stay fits by auto
  with new stay show ?thesis by (auto simp: coordinate_of_def)
qed

text \<open>
  A region that leaves the rectangle is another matter: the walk neither wraps at the
  antimeridian nor stops at the poles, and its positions are ones the coordinate system refuses.
\<close>

theorem region_walk_refused:
  "\<exists>rg p. draw_ok (1 / 2) \<and> NewPosition (Some rg) (1 / 2) 0 0 0 = Inr p \<and>
     (\<exists>e. sp_SetLocalPosition s (coordinate_of p) = Inl e)"
proof -
  let ?rg = "\<lparr>rg_X = pi, rg_Y = 0, rg_R = 2\<rparr>"
  have "NewPosition (Some ?rg) (1 / 2) 0 0 0 =
      Inr \<lparr>po_X = pi + 1, po_Y = 0, po_ax = - 0.01, po_ay = - 0.01, po_region = Some ?rg\<rparr>"
    by (simp add: NewPosition_def Let_def inside_def)
  then show ?thesis
    by (intro exI [of _ ?rg]) (simp add: draw_ok_def sp_SetLocalPosition_def coordinate_of_def sphereXMax_def)
qed

end
