(* ===== verification/Sim_Node.thy ===== *)
theory Sim_Node
  imports Sim_Position
begin

text \<open>
  The node of a simulation (\<open>src/simulator/base/node.go\<close>, \<open>base/record.go\<close>, \<open>circle/node.go\<close>,
  \<open>sphere/node.go\<close>, \<open>sphere/record.go\<close>): it runs a node of the library for a while, posts a message
  every second and writes a record of what it saw.

  The record of a story extends the base record (\<open>sphere.Record\<close> embeds \<open>base.Record\<close>), so the
  node is polymorphic in the extension. What happens outside is an argument: a turn of the loop
  carries the message identifier and the time of its post, the callbacks that ran meanwhile, and
  what the library answers. \<open>fmt\<close> is \<open>time.Format(RFC3339Nano)\<close>. A loop whose turns are used up
  still runs, the outcome \<open>Blocked\<close>.
\<close>

subsection \<open>Records\<close>

definition StateStart :: string where "StateStart = ''start''"
definition StateNormal :: string where "StateNormal = []"
definition StateStop :: string where "StateStop = ''stop''"

record Record =
  State :: string
  IsOnline :: bool
  IsStable :: bool
  ConnectedNodeIDs :: "string list"
  RequiredNodeIDs1D :: "string list"
  RequiredNodeIDs2D :: "string list"
  rec_Post :: "(string, string) gomap"
  rec_Receive :: "(string, string) gomap"

record sphere_Record = Record +
  sr_X :: real
  sr_Y :: real

subsection \<open>The node\<close>

text \<open>\<open>nd_out\<close> is what the writer has taken: time, node identifier and record.\<close>

record 'z simNode =
  nd_position :: Position
  nd_record :: "'z Record_scheme"
  nd_out :: "(time \<times> string \<times> 'z Record_scheme) list"

text \<open>
  A turn of the loop of \<open>runNode\<close>: the post; the callbacks while it waits; whether the context
  ended first; what \<open>IsOnline\<close> and \<open>IsStable\<close> answer; the draws of \<open>MoveRandom\<close>; when the record is
  written and whether the writer takes it.
\<close>

datatype node_event =
    ConnectedChanged "string list"
  | Required1DChanged "string list"
  | Required2DChanged "string list"
  | MessageReceived string time

record turn =
  tu_id :: string
  tu_posted :: time
  tu_events :: "node_event list"
  tu_ended :: bool
  tu_online :: bool
  tu_stable :: bool
  tu_draws :: "(real \<times> real) list"
  tu_now :: time
  tu_stored :: bool

record 'z sim_Handler =
  OnEachTime :: "(turn \<Rightarrow> 'z simNode \<Rightarrow> (string option \<times> 'z simNode) outcome) option"
  OnWrite :: "('z simNode \<Rightarrow> string + 'z simNode) option"

definition sim_NewNode ::
  "'z Record_scheme \<Rightarrow> Region option \<Rightarrow> real \<Rightarrow> real \<Rightarrow> real \<Rightarrow> real \<Rightarrow> 'z simNode outcome" where
  "sim_NewNode rec region r1 r2 r3 r4 =
     (let r = rec\<lparr>ConnectedNodeIDs := [], RequiredNodeIDs1D := [], RequiredNodeIDs2D := [], rec_Post := [], rec_Receive := []\<rparr>
      in obind (NewPosition region r1 r2 r3 r4) (\<lambda>p.
           Inr \<lparr>nd_position = p, nd_record = r, nd_out = []\<rparr>))"

definition convertMapToSlice :: "string list \<Rightarrow> string list" where
  "convertMapToSlice m = fold (\<lambda>k s. s @ [k]) m []"

text \<open>
  The observation of a node (\<open>src/node/observation/observation.go\<close>): a handler that may be nil, with
  callbacks that may be nil. Each call starts a goroutine of its own; the result is the list of the
  callbacks it starts.
\<close>

record observation_Handler =
  OnChangeConnectedNodes :: "(string list \<Rightarrow> node_event) option"
  OnUpdateRequiredNodeIDs1D :: "(string list \<Rightarrow> node_event) option"
  OnUpdateRequiredNodeIDs2D :: "(string list \<Rightarrow> node_event) option"

definition start_callback :: "(observation_Handler \<Rightarrow> (string list \<Rightarrow> node_event) option) \<Rightarrow> observation_Handler option \<Rightarrow>
    string list \<Rightarrow> node_event list" where
  "start_callback sel h p1 =
     (case h of None \<Rightarrow> [] | Some h \<Rightarrow> (case sel h of None \<Rightarrow> [] | Some cb \<Rightarrow> [cb p1]))"

definition obs_ChangeConnectedNodes :: "observation_Handler option \<Rightarrow> string list \<Rightarrow> node_event list" where
  "obs_ChangeConnectedNodes = start_callback OnChangeConnectedNodes"

definition obs_UpdateRequiredNodeIDs1D :: "observation_Handler option \<Rightarrow> string list \<Rightarrow> node_event list" where
  "obs_UpdateRequiredNodeIDs1D = start_callback OnUpdateRequiredNodeIDs1D"

definition obs_UpdateRequiredNodeIDs2D :: "observation_Handler option \<Rightarrow> string list \<Rightarrow> node_event list" where
  "obs_UpdateRequiredNodeIDs2D = start_callback OnUpdateRequiredNodeIDs2D"

text \<open>The handler and the callbacks that \<open>renewColonio\<close> installs.\<close>

definition sim_observation :: observation_Handler where
  "sim_observation =
     \<lparr>OnChangeConnectedNodes = Some ConnectedChanged, OnUpdateRequiredNodeIDs1D = Some Required1DChanged,
      OnUpdateRequiredNodeIDs2D = Some Required2DChanged\<rparr>"

fun node_callback :: "(time \<Rightarrow> string) \<Rightarrow> node_event \<Rightarrow> 'z simNode \<Rightarrow> 'z simNode" where
  "node_callback fmt (ConnectedChanged ids) n =
     n\<lparr>nd_record := (nd_record n)\<lparr>ConnectedNodeIDs := convertMapToSlice ids\<rparr>\<rparr>"
| "node_callback fmt (Required1DChanged ids) n =
     n\<lparr>nd_record := (nd_record n)\<lparr>RequiredNodeIDs1D := convertMapToSlice ids\<rparr>\<rparr>"
| "node_callback fmt (Required2DChanged ids) n =
     n\<lparr>nd_record := (nd_record n)\<lparr>RequiredNodeIDs2D := convertMapToSlice ids\<rparr>\<rparr>"
| "node_callback fmt (MessageReceived ident now) n =
     n\<lparr>nd_record := (nd_record n)\<lparr>rec_Receive := mput ident (fmt now) (rec_Receive (nd_record n))\<rparr>\<rparr>"

definition nd_Write :: "'z sim_Handler option \<Rightarrow> ('z Record_scheme \<Rightarrow> string + 'z Record_scheme) \<Rightarrow> bool \<Rightarrow> time \<Rightarrow> string \<Rightarrow>
    'z simNode \<Rightarrow> 'z simNode" where
  "nd_Write handler f stored now localID n =
     (case f (nd_record n) of Inl e \<Rightarrow> n
      | Inr r \<Rightarrow>
          let n = n\<lparr>nd_record := r\<rparr>;
              res = (case handler of None \<Rightarrow> Inr n
                     | Some h \<Rightarrow> (case OnWrite h of None \<Rightarrow> Inr n | Some onWrite \<Rightarrow> onWrite n))
          in case res of Inl e \<Rightarrow> n
             | Inr n \<Rightarrow>
                 let n = (if stored then n\<lparr>nd_out := nd_out n @ [(now, localID, nd_record n)]\<rparr> else n)
                 in n\<lparr>nd_record := (nd_record n)\<lparr>rec_Post := [], rec_Receive := []\<rparr>\<rparr>)"

definition set_state :: "string \<Rightarrow> bool \<Rightarrow> bool \<Rightarrow> 'z Record_scheme \<Rightarrow> string + 'z Record_scheme" where
  "set_state s isOnline isStable r = Inr (r\<lparr>State := s, IsOnline := isOnline, IsStable := isStable\<rparr>)"

definition post_message :: "(time \<Rightarrow> string) \<Rightarrow> turn \<Rightarrow> 'z simNode \<Rightarrow> 'z simNode" where
  "post_message fmt t n =
     n\<lparr>nd_record := (nd_record n)\<lparr>rec_Post := mput (tu_id t) (fmt (tu_posted t)) (rec_Post (nd_record n))\<rparr>\<rparr>"

fun node_loop ::
  "(time \<Rightarrow> string) \<Rightarrow> 'z sim_Handler option \<Rightarrow> string \<Rightarrow> turn list \<Rightarrow> 'z simNode \<Rightarrow> (string option \<times> 'z simNode) outcome" where
  "node_loop fmt handler localID [] n = Inl Blocked"
| "node_loop fmt handler localID (t # ts) n =
     (let n = fold (node_callback fmt) (tu_events t) (post_message fmt t n)
      in if tu_ended t then Inr (None, n)
         else
           obind (case handler of None \<Rightarrow> Inr (None, n)
                  | Some h \<Rightarrow> (case OnEachTime h of None \<Rightarrow> Inr (None, n) | Some onEachTime \<Rightarrow> onEachTime t n)) (\<lambda>(err, n).
             if err \<noteq> None then Inr (err, n)
             else node_loop fmt handler localID ts
                    (nd_Write handler (set_state StateNormal (tu_online t) (tu_stable t)) (tu_stored t) (tu_now t) localID n)))"

text \<open>
  \<open>first\<close> gives the answers before the loop, \<open>final\<close> the time and the writer's answer of the
  deferred write. An error of \<open>UpdateLocalPosition\<close> is only logged.
\<close>

definition runNode ::
  "(time \<Rightarrow> string) \<Rightarrow> 'z sim_Handler option \<Rightarrow> string result \<Rightarrow> turn \<Rightarrow> time \<times> bool \<Rightarrow> turn list \<Rightarrow> 'z simNode \<Rightarrow>
   (string option \<times> 'z simNode) outcome" where
  "runNode fmt handler started first final ts n =
     (case started of Inl e \<Rightarrow> Inr (Some e, n)
      | Inr localID \<Rightarrow>
          obind (MoveRandom (tu_draws first) (nd_position n)) (\<lambda>p.
            let n = n\<lparr>nd_position := p\<rparr>;
                n = nd_Write handler (set_state StateStart (tu_online first) (tu_stable first)) (tu_stored first) (tu_now first) localID n
            in obind (node_loop fmt handler localID ts n) (\<lambda>(err, n).
                 Inr (err, nd_Write handler (\<lambda>r. Inr (r\<lparr>State := StateStop\<rparr>)) (snd final) (fst final) localID n))))"

text \<open>
  A session of \<open>Start\<close>: whether the context has ended, the error of \<open>renewColonio\<close>, the lifetime drawn
  for the session and what happens in it.
\<close>

record sim_session =
  se_ended :: bool
  se_renew :: "string option"
  se_draw :: nat
  se_started :: "string result"
  se_first :: turn
  se_final :: "time \<times> bool"
  se_turns :: "turn list"

text \<open>\<open>rand.Intn(9*60+30) + 30\<close>, in seconds.\<close>

definition session_length :: "nat \<Rightarrow> nat" where
  "session_length draw = draw mod (9 * 60 + 30) + 30"

lemma session_length_range: "30 \<le> session_length draw" "session_length draw < 10 * 60"
  using mod_less_divisor [of "9 * 60 + 30" draw] by (simp_all add: session_length_def)

fun sim_Start :: "(time \<Rightarrow> string) \<Rightarrow> 'z sim_Handler option \<Rightarrow> sim_session list \<Rightarrow> 'z simNode \<Rightarrow> (string option \<times> 'z simNode) outcome" where
  "sim_Start fmt handler [] n = Inl Blocked"
| "sim_Start fmt handler (s # ss) n =
     (if se_ended s then Inr (None, n)
      else case se_renew s of Some e \<Rightarrow> Inr (Some e, n)
      | None \<Rightarrow>
          obind (runNode fmt handler (se_started s) (se_first s) (se_final s) (se_turns s) n) (\<lambda>(err, n).
            if err \<noteq> None then Inr (err, n) else sim_Start fmt handler ss n))"

subsection \<open>The two stories\<close>

definition circle_RunNode ::
  "(time \<Rightarrow> string) \<Rightarrow> Region option \<Rightarrow> real \<Rightarrow> real \<Rightarrow> real \<Rightarrow> real \<Rightarrow> sim_session list \<Rightarrow> (string option \<times> unit simNode) outcome" where
  "circle_RunNode fmt region r1 r2 r3 r4 ss =
     obind (sim_NewNode \<lparr>State = [], IsOnline = False, IsStable = False, ConnectedNodeIDs = [],
        RequiredNodeIDs1D = [], RequiredNodeIDs2D = [], rec_Post = [], rec_Receive = []\<rparr> region r1 r2 r3 r4)
       (sim_Start fmt None ss)"

text \<open>\<open>update\<close> is the answer of \<open>UpdateLocalPosition\<close> of the library.\<close>

definition sphere_onEachTime ::
  "(real \<Rightarrow> real \<Rightarrow> string option) \<Rightarrow> turn \<Rightarrow> unit sphere_Record_ext simNode \<Rightarrow> (string option \<times> unit sphere_Record_ext simNode) outcome" where
  "sphere_onEachTime update t n =
     obind (MoveRandom (tu_draws t) (nd_position n)) (\<lambda>p.
       Inr (update (po_X p) (po_Y p), n\<lparr>nd_position := p\<rparr>))"

definition sphere_OnWrite :: "unit sphere_Record_ext simNode \<Rightarrow> string + unit sphere_Record_ext simNode" where
  "sphere_OnWrite n =
     Inr (n\<lparr>nd_record := (nd_record n)\<lparr>sr_X := po_X (nd_position n), sr_Y := po_Y (nd_position n)\<rparr>\<rparr>)"

definition sphere_handler :: "(real \<Rightarrow> real \<Rightarrow> string option) \<Rightarrow> unit sphere_Record_ext sim_Handler" where
  "sphere_handler update = \<lparr>OnEachTime = Some (sphere_onEachTime update), OnWrite = Some sphere_OnWrite\<rparr>"

definition sphere_RunNode ::
  "(time \<Rightarrow> string) \<Rightarrow> (real \<Rightarrow> real \<Rightarrow> string option) \<Rightarrow> Region option \<Rightarrow> real \<Rightarrow> real \<Rightarrow> real \<Rightarrow> real \<Rightarrow> sim_session list \<Rightarrow>
   (string option \<times> unit sphere_Record_ext simNode) outcome" where
  "sphere_RunNode fmt update region r1 r2 r3 r4 ss =
     obind (sim_NewNode \<lparr>State = [], IsOnline = False, IsStable = False, ConnectedNodeIDs = [],
        RequiredNodeIDs1D = [], RequiredNodeIDs2D = [], rec_Post = [], rec_Receive = [], sr_X = 0, sr_Y = 0\<rparr> region r1 r2 r3 r4)
       (sim_Start fmt (Some (sphere_handler update)) ss)"

subsection \<open>What a run reports\<close>

definition posts :: "(time \<times> string \<times> 'z Record_scheme) list \<Rightarrow> (string \<times> string) list" where
  "posts out = concat (map (\<lambda>(_, _, r). rec_Post r) out)"

definition receipts :: "(time \<times> string \<times> 'z Record_scheme) list \<Rightarrow> (string \<times> string) list" where
  "receipts out = concat (map (\<lambda>(_, _, r). rec_Receive r) out)"

definition states :: "(time \<times> string \<times> 'z Record_scheme) list \<Rightarrow> string list" where
  "states out = map (\<lambda>(_, _, r). State r) out"

definition posted :: "(time \<Rightarrow> string) \<Rightarrow> turn list \<Rightarrow> (string \<times> string) list" where
  "posted fmt ts = map (\<lambda>t. (tu_id t, fmt (tu_posted t))) ts"

definition received :: "(time \<Rightarrow> string) \<Rightarrow> node_event list \<Rightarrow> (string \<times> string) list" where
  "received fmt es = concat (map (\<lambda>e. case e of MessageReceived i now \<Rightarrow> [(i, fmt now)] | _ \<Rightarrow> []) es)"

definition all_received :: "(time \<Rightarrow> string) \<Rightarrow> turn list \<Rightarrow> (string \<times> string) list" where
  "all_received fmt ts = received fmt (concat (map tu_events ts))"

lemma report_simps [simp]:
  "posts [] = []" "posts (x # out) = rec_Post (snd (snd x)) @ posts out"
  "receipts [] = []" "receipts (x # out) = rec_Receive (snd (snd x)) @ receipts out"
  "states [] = []" "states (x # out) = State (snd (snd x)) # states out"
  "posted fmt [] = []" "posted fmt (t # ts) = (tu_id t, fmt (tu_posted t)) # posted fmt ts"
  "all_received fmt [] = []" "all_received fmt (t # ts) = received fmt (tu_events t) @ all_received fmt ts"
  by (auto simp: posts_def receipts_def states_def posted_def received_def all_received_def split: prod.splits)

lemma report_append [simp]:
  "posts (out @ out') = posts out @ posts out'" "receipts (out @ out') = receipts out @ receipts out'"
  "states (out @ out') = states out @ states out'"
  by (simp_all add: posts_def receipts_def states_def)

lemma mput_new: "k \<notin> set (mkeys m) \<Longrightarrow> mput k v m = m @ [(k, v)]"
  by (induction m) auto

lemma callbacks_out:
  "nd_out (fold (node_callback fmt) es n) = nd_out n"
  "rec_Post (nd_record (fold (node_callback fmt) es n)) = rec_Post (nd_record n)"
proof (induction es arbitrary: n)
  case (Cons e es)
  { case 1 show ?case using Cons(1) by (cases e) simp_all
  next
    case 2 show ?case using Cons(2) by (cases e) simp_all }
qed simp_all

text \<open>
  The goroutines of two reports run in any order, so the record may end with the older of them.
\<close>

theorem reports_may_swap:
  assumes "obs_ChangeConnectedNodes (Some sim_observation) older = [e1]"
    and "obs_ChangeConnectedNodes (Some sim_observation) newer = [e2]"
  shows "ConnectedNodeIDs (nd_record (fold (node_callback fmt) [e1, e2] n)) = newer"
    and "ConnectedNodeIDs (nd_record (fold (node_callback fmt) [e2, e1] n)) = older"
proof -
  have keys: "fold (\<lambda>k s. s @ [k]) m a = a @ m" for m a :: "string list"
    by (induction m arbitrary: a) simp_all
  have "e1 = ConnectedChanged older" "e2 = ConnectedChanged newer"
    using assms by (simp_all add: obs_ChangeConnectedNodes_def start_callback_def sim_observation_def)
  then show "ConnectedNodeIDs (nd_record (fold (node_callback fmt) [e1, e2] n)) = newer"
    "ConnectedNodeIDs (nd_record (fold (node_callback fmt) [e2, e1] n)) = older"
    by (simp_all add: convertMapToSlice_def keys)
qed

lemma callbacks_receive:
  "distinct (map fst (rec_Receive (nd_record n) @ received fmt es)) \<Longrightarrow>
   rec_Receive (nd_record (fold (node_callback fmt) es n)) = rec_Receive (nd_record n) @ received fmt es"
proof (induction es arbitrary: n)
  case Nil
  then show ?case by (simp add: received_def)
next
  case (Cons e es)
  then show ?case
    by (cases e) (auto simp: received_def mput_new mkeys_def)
qed

subsection \<open>What a handler may do\<close>

text \<open>
  The contract of a story's handler: it leaves the base record and what was written alone, and
  its hook on writing does not fail.
\<close>

definition base_of :: "'z Record_scheme \<Rightarrow> Record" where
  "base_of r = Record.truncate r"

lemma base_of_simps [simp]:
  "rec_Post (base_of r) = rec_Post r" "rec_Receive (base_of r) = rec_Receive r" "State (base_of r) = State r"
  by (simp_all add: base_of_def Record.defs)

locale story =
  fixes handler :: "'z sim_Handler option"
  assumes each_time: "handler = Some h \<Longrightarrow> OnEachTime h = Some f \<Longrightarrow> f t n = Inr (err, n') \<Longrightarrow>
      base_of (nd_record n') = base_of (nd_record n) \<and> nd_out n' = nd_out n"
    and on_write: "handler = Some h \<Longrightarrow> OnWrite h = Some g \<Longrightarrow>
      \<exists>n'. g n = Inr n' \<and> base_of (nd_record n') = base_of (nd_record n) \<and> nd_out n' = nd_out n"
begin

lemma write_spec:
  assumes "f (nd_record n) = Inr r"
  shows "\<exists>r'. base_of r' = base_of r \<and>
     nd_out (nd_Write handler f stored now localID n) = nd_out n @ (if stored then [(now, localID, r')] else []) \<and>
     base_of (nd_record (nd_Write handler f stored now localID n)) = (base_of r)\<lparr>rec_Post := [], rec_Receive := []\<rparr>"
proof -
  have "\<exists>n'. (case handler of None \<Rightarrow> Inr (n\<lparr>nd_record := r\<rparr>)
           | Some h \<Rightarrow> (case OnWrite h of None \<Rightarrow> Inr (n\<lparr>nd_record := r\<rparr>) | Some onWrite \<Rightarrow> onWrite (n\<lparr>nd_record := r\<rparr>))) = Inr n' \<and>
        base_of (nd_record n') = base_of r \<and> nd_out n' = nd_out n"
    using on_write [of _ _ "n\<lparr>nd_record := r\<rparr>"] by (fastforce split: option.splits)
  then obtain n' where n': "(case handler of None \<Rightarrow> Inr (n\<lparr>nd_record := r\<rparr>)
           | Some h \<Rightarrow> (case OnWrite h of None \<Rightarrow> Inr (n\<lparr>nd_record := r\<rparr>) | Some onWrite \<Rightarrow> onWrite (n\<lparr>nd_record := r\<rparr>))) = Inr n'"
    "base_of (nd_record n') = base_of r" "nd_out n' = nd_out n" by blast
  show ?thesis
    using assms n' by (intro exI [of _ "nd_record n'"]) (auto simp: nd_Write_def Let_def base_of_def Record.defs)
qed

lemma write_report:
  assumes "f (nd_record n) = Inr r" "rec_Post r = rec_Post (nd_record n)" "rec_Receive r = rec_Receive (nd_record n)" "stored"
  shows "\<exists>out. nd_out (nd_Write handler f stored now localID n) = nd_out n @ out \<and>
     posts out = rec_Post (nd_record n) \<and> receipts out = rec_Receive (nd_record n) \<and> states out = [State r] \<and>
     rec_Post (nd_record (nd_Write handler f stored now localID n)) = [] \<and>
     rec_Receive (nd_record (nd_Write handler f stored now localID n)) = []"
proof -
  obtain r' where r': "base_of r' = base_of r"
    "nd_out (nd_Write handler f stored now localID n) = nd_out n @ [(now, localID, r')]"
    "base_of (nd_record (nd_Write handler f stored now localID n)) = (base_of r)\<lparr>rec_Post := [], rec_Receive := []\<rparr>"
    using write_spec [where f = f and n = n and r = r and stored = stored and now = now and localID = localID] assms(1,4) by auto
  then have "rec_Post r' = rec_Post r" "rec_Receive r' = rec_Receive r" "State r' = State r"
    "rec_Post (nd_record (nd_Write handler f stored now localID n)) = []"
    "rec_Receive (nd_record (nd_Write handler f stored now localID n)) = []"
    by (metis base_of_simps Record.select_convs Record.update_convs Record.surjective)+
  with r'(2) assms show ?thesis by (intro exI [of _ "[(now, localID, r')]"]) simp
qed

lemma loop_report:
  assumes "node_loop fmt handler localID ts n = Inr (err, n')" "\<forall>t\<in>set ts. tu_stored t"
    and "distinct (map fst (rec_Post (nd_record n) @ posted fmt ts))"
    and "distinct (map fst (rec_Receive (nd_record n) @ all_received fmt ts))"
  shows "\<exists>k out. 0 < k \<and> k \<le> length ts \<and> nd_out n' = nd_out n @ out \<and> states out = replicate (k - 1) StateNormal \<and>
     posts out @ rec_Post (nd_record n') = rec_Post (nd_record n) @ posted fmt (take k ts) \<and>
     receipts out @ rec_Receive (nd_record n') = rec_Receive (nd_record n) @ all_received fmt (take k ts)"
  using assms
proof (induction ts arbitrary: n)
  case Nil
  then show ?case by simp
next
  case (Cons t ts)
  let ?n = "fold (node_callback fmt) (tu_events t) (post_message fmt t n)"
  have post: "rec_Post (nd_record ?n) = rec_Post (nd_record n) @ [(tu_id t, fmt (tu_posted t))]"
    using Cons.prems(3) by (auto simp: callbacks_out post_message_def mput_new mkeys_def)
  have recv: "rec_Receive (nd_record ?n) = rec_Receive (nd_record n) @ received fmt (tu_events t)"
    using Cons.prems(4) by (subst callbacks_receive) (auto simp: post_message_def)
  have out: "nd_out ?n = nd_out n" by (simp add: callbacks_out post_message_def)
  let ?e = "case handler of None \<Rightarrow> Inr (None, ?n)
      | Some h \<Rightarrow> (case OnEachTime h of None \<Rightarrow> Inr (None, ?n) | Some onEachTime \<Rightarrow> onEachTime t ?n)"
  show ?case
  proof (cases "tu_ended t")
    case True
    with Cons.prems(1) have "n' = ?n" by simp
    with post recv out show ?thesis by (intro exI [of _ 1] exI [of _ "[]"]) simp
  next
    case False
    with Cons.prems(1) obtain err1 n1 where e: "?e = Inr (err1, n1)"
      "(if err1 \<noteq> None then Inr (err1, n1) else node_loop fmt handler localID ts
          (nd_Write handler (set_state StateNormal (tu_online t) (tu_stable t)) (tu_stored t) (tu_now t) localID n1)) = Inr (err, n')"
      by (auto simp: obind_eq_Inr Let_def)
    have same: "base_of (nd_record n1) = base_of (nd_record ?n)" "nd_out n1 = nd_out ?n"
      using e(1) each_time [of _ _ t ?n err1 n1] by (auto split: option.splits)
    then have n1: "rec_Post (nd_record n1) = rec_Post (nd_record ?n)" "rec_Receive (nd_record n1) = rec_Receive (nd_record ?n)"
      by (metis base_of_simps)+
    show ?thesis
    proof (cases "err1 = None")
      case False
      with e(2) have "n' = n1" by simp
      with post recv out n1 same show ?thesis by (intro exI [of _ 1] exI [of _ "[]"]) simp
    next
      case True
      let ?w = "nd_Write handler (set_state StateNormal (tu_online t) (tu_stable t)) (tu_stored t) (tu_now t) localID n1"
      from write_report [of "set_state StateNormal (tu_online t) (tu_stable t)" n1 _ "tu_stored t" "tu_now t" localID] Cons.prems(2)
      obtain out1 where w: "nd_out ?w = nd_out n1 @ out1" "posts out1 = rec_Post (nd_record n1)"
        "receipts out1 = rec_Receive (nd_record n1)" "states out1 = [StateNormal]"
        "rec_Post (nd_record ?w) = []" "rec_Receive (nd_record ?w) = []"
        by (auto simp: set_state_def)
      from True e(2) have l: "node_loop fmt handler localID ts ?w = Inr (err, n')" by simp
      have "\<exists>k out. 0 < k \<and> k \<le> length ts \<and> nd_out n' = nd_out ?w @ out \<and> states out = replicate (k - 1) StateNormal \<and>
          posts out @ rec_Post (nd_record n') = rec_Post (nd_record ?w) @ posted fmt (take k ts) \<and>
          receipts out @ rec_Receive (nd_record n') = rec_Receive (nd_record ?w) @ all_received fmt (take k ts)"
        using Cons.prems w(5,6) by (intro Cons.IH [OF l]) auto
      then obtain k out where k: "0 < k" "k \<le> length ts" "nd_out n' = nd_out ?w @ out" "states out = replicate (k - 1) StateNormal"
          "posts out @ rec_Post (nd_record n') = posted fmt (take k ts)"
          "receipts out @ rec_Receive (nd_record n') = all_received fmt (take k ts)"
        using w(5,6) by auto
      have "states (out1 @ out) = replicate (Suc k - 1) StateNormal"
        using w(4) k(1,4) by (cases k) simp_all
      with k w n1 same post recv out show ?thesis
        by (intro exI [of _ "Suc k"] exI [of _ "out1 @ out"]) simp
    qed
  qed
qed

text \<open>A whole session: from the start record over the normal ones to the stop record.\<close>

lemma run_report:
  assumes "runNode fmt handler (Inr localID) first final ts n = Inr (err, n')"
    and "tu_stored first" "snd final" "\<forall>t\<in>set ts. tu_stored t"
    and "rec_Post (nd_record n) = []" "rec_Receive (nd_record n) = []"
    and "distinct (map fst (posted fmt ts))" "distinct (map fst (all_received fmt ts))"
  shows "\<exists>k out. 0 < k \<and> k \<le> length ts \<and> nd_out n' = nd_out n @ out \<and>
     states out = StateStart # replicate (k - 1) StateNormal @ [StateStop] \<and>
     posts out = posted fmt (take k ts) \<and> receipts out = all_received fmt (take k ts) \<and>
     rec_Post (nd_record n') = [] \<and> rec_Receive (nd_record n') = []"
proof -
  let ?start = "set_state StateStart (tu_online first) (tu_stable first)"
  let ?stop = "\<lambda>r. Inr (r\<lparr>State := StateStop\<rparr>)"
  from assms(1) obtain p n2 where p: "MoveRandom (tu_draws first) (nd_position n) = Inr p"
    and l: "node_loop fmt handler localID ts (nd_Write handler ?start (tu_stored first) (tu_now first) localID (n\<lparr>nd_position := p\<rparr>)) = Inr (err, n2)"
    and n': "n' = nd_Write handler ?stop (snd final) (fst final) localID n2"
    by (auto simp: runNode_def obind_eq_Inr Let_def)
  let ?n1 = "nd_Write handler ?start (tu_stored first) (tu_now first) localID (n\<lparr>nd_position := p\<rparr>)"
  obtain out1 where w: "nd_out ?n1 = nd_out n @ out1" "posts out1 = []" "receipts out1 = []" "states out1 = [StateStart]"
    "rec_Post (nd_record ?n1) = []" "rec_Receive (nd_record ?n1) = []"
    using write_report [of ?start "n\<lparr>nd_position := p\<rparr>" _ "tu_stored first" "tu_now first" localID] assms(2,5,6)
    by (auto simp: set_state_def)
  obtain k out2 where k: "0 < k" "k \<le> length ts" "nd_out n2 = nd_out ?n1 @ out2" "states out2 = replicate (k - 1) StateNormal"
      "posts out2 @ rec_Post (nd_record n2) = posted fmt (take k ts)"
      "receipts out2 @ rec_Receive (nd_record n2) = all_received fmt (take k ts)"
    using loop_report [OF l] assms(4,7,8) w(5,6) by auto
  obtain out3 where v: "nd_out n' = nd_out n2 @ out3" "posts out3 = rec_Post (nd_record n2)" "receipts out3 = rec_Receive (nd_record n2)"
    "states out3 = [StateStop]" "rec_Post (nd_record n') = []" "rec_Receive (nd_record n') = []"
    using write_report [of ?stop n2 _ "snd final" "fst final" localID] assms(3) n' by auto
  from k v w show ?thesis
    by (intro exI [of _ k] exI [of _ "out1 @ out2 @ out3"]) simp
qed

end

interpretation circle_story: story None
  by unfold_locales simp_all






end
