(* ===== verification/Sim_Canvas.thy ===== *)
theory Sim_Canvas
  imports Prelude
begin

text \<open>
  The canvas the simulator draws on (\<open>src/simulator/canvas\<close>): a list of objects between two
  frames, drawn back to front by \<open>Render\<close>, and the files the frames are saved to.

  SDL is not part of the model: what the renderer is told is a list of draw commands, the events
  it reports, the extent of a rendered line of text and whether a call fails are arguments.
  Coordinates are real numbers, the channels of a colour are bytes.
\<close>

subsection \<open>Colours and the drawing context\<close>

record Color =
  col_R :: "8 word"
  col_G :: "8 word"
  col_B :: "8 word"
  col_A :: "8 word"

record draw_context =
  width :: real
  height :: real

datatype draw_cmd =
    SetDrawColor Color
  | ClearAll
  | FillRect int int int int
  | DrawLine int int int int
  | CopyText string int int int int

definition getCanvasPosition :: "draw_context \<Rightarrow> real \<Rightarrow> real \<Rightarrow> int \<times> int" where
  "getCanvasPosition c x y = (go_trunc ((x + 1) * width c / 2), go_trunc ((1 - y) * height c / 2))"

definition lighten :: "8 word \<Rightarrow> real \<Rightarrow> 8 word" where
  "lighten v rate = word_of_int (go_trunc (real (unat (255 - v)) * rate)) + v"

definition z_rate :: "real \<Rightarrow> real" where
  "z_rate z =
     (let rate = (1 - z) / 2 - 0.2;
          rate = (if rate < 0 then 0 else rate);
          rate = (if rate > 1 then 1 else rate)
      in rate)"

definition getColorByZIndex :: "Color \<Rightarrow> real \<Rightarrow> Color" where
  "getColorByZIndex src z =
     \<lparr>col_R = lighten (col_R src) (z_rate z), col_G = lighten (col_G src) (z_rate z),
      col_B = lighten (col_B src) (z_rate z), col_A = col_A src\<rparr>"

subsection \<open>Objects\<close>

record line2 =
  l2_x1 :: real
  l2_y1 :: real
  l2_x2 :: real
  l2_y2 :: real
  l2_color :: "Color option"

record line3 =
  l3_x1 :: real
  l3_y1 :: real
  l3_z1 :: real
  l3_x2 :: real
  l3_y2 :: real
  l3_z2 :: real
  l3_color :: "Color option"

record box2 =
  b2_x :: real
  b2_y :: real
  b2_width :: real
  b2_color :: "Color option"

record box3 =
  b3_x :: real
  b3_y :: real
  b3_z :: real
  b3_width :: real
  b3_color :: "Color option"

text \<open>A font is known by the extent of a line it renders, or its failure.\<close>

type_synonym font = "string \<Rightarrow> (int \<times> int) option"

record canvas_text =
  tx_x :: real
  tx_y :: real
  tx_font :: font
  tx_color :: "Color option"
  tx_caption :: string

datatype objectRenderer = OLine2 line2 | OLine3 line3 | OBox2 box2 | OBox3 box3 | OText canvas_text

fun getZIndex :: "objectRenderer \<Rightarrow> real" where
  "getZIndex (OLine2 l) = 80"
| "getZIndex (OLine3 l) = (l3_z1 l + l3_z2 l) / 2"
| "getZIndex (OBox2 b) = 80"
| "getZIndex (OBox3 b) = b3_z b"
| "getZIndex (OText t) = 90"

definition with_color :: "Color option \<Rightarrow> (Color \<Rightarrow> 'a) \<Rightarrow> 'a outcome" where
  "with_color c f = (case c of None \<Rightarrow> Inl (Panic ''nil pointer dereference'') | Some col \<Rightarrow> Inr (f col))"

definition draw_line :: "draw_context \<Rightarrow> real \<Rightarrow> real \<Rightarrow> real \<Rightarrow> real \<Rightarrow> draw_cmd" where
  "draw_line c x1 y1 x2 y2 =
     (let (p1, q1) = getCanvasPosition c x1 y1; (p2, q2) = getCanvasPosition c x2 y2 in DrawLine p1 q1 p2 q2)"

definition fill_box :: "draw_context \<Rightarrow> real \<Rightarrow> real \<Rightarrow> real \<Rightarrow> draw_cmd" where
  "fill_box c bx by w =
     (let (x, y) = getCanvasPosition c bx by
      in FillRect (x - go_trunc (w / 2)) (y - go_trunc (w / 2)) (go_trunc w) (go_trunc w))"

definition l2_render :: "draw_context \<Rightarrow> line2 \<Rightarrow> draw_cmd list outcome" where
  "l2_render c l = with_color (l2_color l) (\<lambda>col.
     [SetDrawColor col, draw_line c (l2_x1 l) (l2_y1 l) (l2_x2 l) (l2_y2 l)])"

definition l3_render :: "draw_context \<Rightarrow> line3 \<Rightarrow> draw_cmd list outcome" where
  "l3_render c l = with_color (l3_color l) (\<lambda>col.
     [SetDrawColor (getColorByZIndex col (getZIndex (OLine3 l))),
      draw_line c (l3_x1 l) (l3_y1 l) (l3_x2 l) (l3_y2 l)])"

definition b2_render :: "draw_context \<Rightarrow> box2 \<Rightarrow> draw_cmd list outcome" where
  "b2_render c b = with_color (b2_color b) (\<lambda>col.
     [SetDrawColor col, fill_box c (b2_x b) (b2_y b) (b2_width b)])"

definition b3_render :: "draw_context \<Rightarrow> box3 \<Rightarrow> draw_cmd list outcome" where
  "b3_render c b = with_color (b3_color b) (\<lambda>col.
     [SetDrawColor (getColorByZIndex col (b3_z b)), fill_box c (b3_x b) (b3_y b) (b3_width b)])"

text \<open>\<open>strings.Split(s, "\n")\<close>.\<close>

fun split_lines :: "string \<Rightarrow> string list" where
  "split_lines [] = [[]]"
| "split_lines (ch # s) =
     (if ch = CHR 0x0A then [] # split_lines s
      else case split_lines s of [] \<Rightarrow> [[ch]] | l # ls \<Rightarrow> (ch # l) # ls)"

fun render_lines :: "draw_context \<Rightarrow> canvas_text \<Rightarrow> string list \<Rightarrow> int \<Rightarrow> draw_cmd list outcome" where
  "render_lines c t [] hSum = Inr []"
| "render_lines c t (line # lines) hSum =
     (case tx_font t line of None \<Rightarrow> Inl (Panic ''failed to render text'')
      | Some (w, h) \<Rightarrow>
          let (x, y) = getCanvasPosition c (tx_x t) (tx_y t)
          in obind (render_lines c t lines (hSum + h)) (\<lambda>cs. Inr (CopyText line x (y + hSum) w h # cs)))"

definition tx_render :: "draw_context \<Rightarrow> canvas_text \<Rightarrow> draw_cmd list outcome" where
  "tx_render c t =
     obind (with_color (tx_color t) (\<lambda>col. col)) (\<lambda>_. render_lines c t (split_lines (tx_caption t)) 0)"

fun obj_render :: "draw_context \<Rightarrow> objectRenderer \<Rightarrow> draw_cmd list outcome" where
  "obj_render c (OLine2 l) = l2_render c l"
| "obj_render c (OLine3 l) = l3_render c l"
| "obj_render c (OBox2 b) = b2_render c b"
| "obj_render c (OBox3 b) = b3_render c b"
| "obj_render c (OText t) = tx_render c t"

subsection \<open>The canvas\<close>

record Canvas =
  quitSignal :: bool
  cv_font :: "font option"
  cv_context :: draw_context
  currentColor :: "Color option"
  objects :: "objectRenderer list"

text \<open>The first SDL call that fails, if any, ends the construction.\<close>

definition NewCanvas :: "string option \<Rightarrow> nat \<Rightarrow> nat \<Rightarrow> Canvas outcome" where
  "NewCanvas sdl w h =
     (case sdl of Some e \<Rightarrow> Inl (Panic e)
      | None \<Rightarrow> Inr \<lparr>quitSignal = False, cv_font = None, cv_context = \<lparr>width = real w, height = real h\<rparr>,
                     currentColor = None, objects = []\<rparr>)"

definition EnableFont ::
  "string option \<Rightarrow> (string \<Rightarrow> font result) \<Rightarrow> string \<Rightarrow> string \<Rightarrow> Canvas \<Rightarrow> Canvas outcome" where
  "EnableFont init open_font env fontPath c =
     (if cv_font c \<noteq> None then Inl (Panic ''font is already enabled'')
      else case init of Some e \<Rightarrow> Inl (Panic e)
      | None \<Rightarrow>
          let path = (if fontPath = [] then env else fontPath)
          in if path = [] then Inl (Panic ''font path is not set'')
             else case open_font path of Inl e \<Rightarrow> Inl (Panic e) | Inr f \<Rightarrow> Inr (c\<lparr>cv_font := Some f\<rparr>))"

datatype sdl_event = QuitEvent | KeyboardEvent bool | OtherEvent

text \<open>\<open>KeyboardEvent\<close> tells whether the key is escape; \<open>events\<close> are those waiting in the queue.\<close>

definition HasQuitSignal :: "sdl_event list \<Rightarrow> Canvas \<Rightarrow> bool \<times> Canvas" where
  "HasQuitSignal events c =
     (if quitSignal c then (True, c)
      else let q = fold (\<lambda>e q. case e of QuitEvent \<Rightarrow> True | KeyboardEvent esc \<Rightarrow> q \<or> esc | OtherEvent \<Rightarrow> q) events False
           in (q, c\<lparr>quitSignal := q\<rparr>))"

definition cv_Clear :: "Canvas \<Rightarrow> Canvas" where
  "cv_Clear c = c\<lparr>objects := []\<rparr>"

definition compare_z :: "objectRenderer \<Rightarrow> objectRenderer \<Rightarrow> int" where
  "compare_z i j =
     (let zi = getZIndex i; zj = getZIndex j in if zi > zj then 1 else if zi < zj then - 1 else 0)"

fun render_all :: "draw_context \<Rightarrow> objectRenderer list \<Rightarrow> draw_cmd list outcome" where
  "render_all c [] = Inr []"
| "render_all c (obj # objs) =
     obind (obj_render c obj) (\<lambda>cs. obind (render_all c objs) (\<lambda>ds. Inr (cs @ ds)))"

definition white :: Color where
  "white = \<lparr>col_R = 255, col_G = 255, col_B = 255, col_A = 255\<rparr>"

definition Render :: "Canvas \<Rightarrow> (draw_cmd list \<times> Canvas) outcome" where
  "Render c =
     obind (render_all (cv_context c) (sort_by compare_z (objects c))) (\<lambda>cs.
       Inr ([SetDrawColor white, ClearAll] @ cs, c\<lparr>objects := []\<rparr>))"

definition GetCanvasWidthPixel :: "Canvas \<Rightarrow> real" where
  "GetCanvasWidthPixel c = width (cv_context c)"

definition GetCanvasHeighPixel :: "Canvas \<Rightarrow> real" where
  "GetCanvasHeighPixel c = height (cv_context c)"

definition SetColor :: "8 word \<Rightarrow> 8 word \<Rightarrow> 8 word \<Rightarrow> Canvas \<Rightarrow> Canvas" where
  "SetColor r g b c = c\<lparr>currentColor := Some \<lparr>col_R = r, col_G = g, col_B = b, col_A = 255\<rparr>\<rparr>"

definition XFromPixel :: "Canvas \<Rightarrow> real \<Rightarrow> real" where
  "XFromPixel c x = x / width (cv_context c) * 2 - 1"

definition YFromPixel :: "Canvas \<Rightarrow> real \<Rightarrow> real" where
  "YFromPixel c y = (1 - y / height (cv_context c)) * 2 - 1"

definition DrawLine2 :: "real \<Rightarrow> real \<Rightarrow> real \<Rightarrow> real \<Rightarrow> Canvas \<Rightarrow> Canvas" where
  "DrawLine2 x1 y1 x2 y2 c =
     c\<lparr>objects := objects c @ [OLine2 \<lparr>l2_x1 = x1, l2_y1 = y1, l2_x2 = x2, l2_y2 = y2, l2_color = currentColor c\<rparr>]\<rparr>"

definition DrawLine3 :: "real \<Rightarrow> real \<Rightarrow> real \<Rightarrow> real \<Rightarrow> real \<Rightarrow> real \<Rightarrow> Canvas \<Rightarrow> Canvas" where
  "DrawLine3 x1 y1 z1 x2 y2 z2 c =
     c\<lparr>objects := objects c @ [OLine3 \<lparr>l3_x1 = x1, l3_y1 = y1, l3_z1 = z1, l3_x2 = x2, l3_y2 = y2, l3_z2 = z2,
                                       l3_color = currentColor c\<rparr>]\<rparr>"

definition DrawBox2 :: "real \<Rightarrow> real \<Rightarrow> real \<Rightarrow> Canvas \<Rightarrow> Canvas" where
  "DrawBox2 x y w c =
     c\<lparr>objects := objects c @ [OBox2 \<lparr>b2_x = x, b2_y = y, b2_width = w, b2_color = currentColor c\<rparr>]\<rparr>"

definition DrawBox3 :: "real \<Rightarrow> real \<Rightarrow> real \<Rightarrow> real \<Rightarrow> Canvas \<Rightarrow> Canvas" where
  "DrawBox3 x y z w c =
     c\<lparr>objects := objects c @ [OBox3 \<lparr>b3_x = x, b3_y = y, b3_z = z, b3_width = w, b3_color = currentColor c\<rparr>]\<rparr>"

definition DrawText :: "real \<Rightarrow> real \<Rightarrow> string \<Rightarrow> Canvas \<Rightarrow> Canvas outcome" where
  "DrawText x y caption c =
     (case cv_font c of None \<Rightarrow> Inl (Panic ''should be enable font before rendering text'')
      | Some f \<Rightarrow> Inr (c\<lparr>objects := objects c @ [OText \<lparr>tx_x = x, tx_y = y, tx_font = f,
                         tx_color = currentColor c, tx_caption = caption\<rparr>]\<rparr>))"

subsection \<open>The files of the frames\<close>

record Filer =
  fl_prefix :: string
  digits :: nat
  index :: nat

definition NewFiler :: "string \<Rightarrow> nat \<Rightarrow> Filer" where
  "NewFiler pre dig = \<lparr>fl_prefix = pre, digits = dig, index = 0\<rparr>"

text \<open>The format \<open>%0*d\<close> of a number that is not negative.\<close>

definition digit :: "nat \<Rightarrow> char" where
  "digit d = char_of (48 + d)"

fun decimal :: "nat \<Rightarrow> string" where
  "decimal n = (if n < 10 then [digit n] else decimal (n div 10) @ [digit (n mod 10)])"

definition padded :: "nat \<Rightarrow> nat \<Rightarrow> string" where
  "padded w n = replicate (w - length (decimal n)) (CHR ''0'') @ decimal n"

definition frame_name :: "Filer \<Rightarrow> string" where
  "frame_name f = fl_prefix f @ padded (digits f) (index f) @ ''.png''"

text \<open>\<open>png\<close> is the answer of \<open>savePNG\<close> for the name it is given.\<close>

definition Save :: "(string \<Rightarrow> string option) \<Rightarrow> Filer \<Rightarrow> string option \<times> Filer" where
  "Save png f =
     (case png (frame_name f) of Some e \<Rightarrow> (Some e, f) | None \<Rightarrow> (None, f\<lparr>index := index f + 1\<rparr>))"

subsection \<open>Positions and colours\<close>

lemma go_trunc_of_int [simp]: "go_trunc (of_int k) = k"
  by (simp add: go_trunc_def)

lemma go_trunc_bounds:
  assumes "0 \<le> r" "r \<le> of_int n"
  shows "0 \<le> go_trunc r" "go_trunc r \<le> n"
  using assms by (auto simp: go_trunc_def floor_le_iff le_floor_iff)

text \<open>
  Pixels and positions are inverse: the canvas position of a whole pixel is drawn at that
  pixel, and everything in the square from -1 to 1 is drawn on the canvas.
\<close>

theorem pixel_roundtrip:
  assumes "width (cv_context c) = real w" "height (cv_context c) = real h" "0 < w" "0 < h"
  shows "getCanvasPosition (cv_context c) (XFromPixel c (of_int px)) (YFromPixel c (of_int py)) = (px, py)"
    and "\<bar>x\<bar> \<le> 1 \<Longrightarrow> \<bar>y\<bar> \<le> 1 \<Longrightarrow> getCanvasPosition (cv_context c) x y = (qx, qy) \<Longrightarrow>
         0 \<le> qx \<and> qx \<le> int w \<and> 0 \<le> qy \<and> qy \<le> int h"
proof -
  have x: "(XFromPixel c (of_int px) + 1) * width (cv_context c) / 2 = of_int px"
    using assms by (simp add: XFromPixel_def field_simps)
  have y: "(1 - YFromPixel c (of_int py)) * height (cv_context c) / 2 = of_int py"
    using assms by (simp add: YFromPixel_def field_simps)
  show "getCanvasPosition (cv_context c) (XFromPixel c (of_int px)) (YFromPixel c (of_int py)) = (px, py)"
    by (simp add: getCanvasPosition_def x y)
  assume xy: "\<bar>x\<bar> \<le> 1" "\<bar>y\<bar> \<le> 1" and q: "getCanvasPosition (cv_context c) x y = (qx, qy)"
  have "0 \<le> (x + 1) * real w / 2" "(x + 1) * real w \<le> 2 * real w"
    "0 \<le> (1 - y) * real h / 2" "(1 - y) * real h \<le> 2 * real h"
    using xy assms by (auto intro!: mult_right_mono mult_nonneg_nonneg divide_nonneg_pos)
  then show "0 \<le> qx \<and> qx \<le> int w \<and> 0 \<le> qy \<and> qy \<le> int h"
    using q assms go_trunc_bounds [of "(x + 1) * real w / 2" "int w"]
      go_trunc_bounds [of "(1 - y) * real h / 2" "int h"]
    by (auto simp: getCanvasPosition_def)
qed

theorem pixel_roundtrip_witness:
  "\<exists>c. NewCanvas None 720 720 = Inr c \<and>
     getCanvasPosition (cv_context c) (XFromPixel c 8) (YFromPixel c 624) = (8, 624)"
proof -
  let ?c = "\<lparr>quitSignal = False, cv_font = None, cv_context = \<lparr>width = 720, height = 720\<rparr>,
              currentColor = None, objects = []\<rparr> :: Canvas"
  have "getCanvasPosition (cv_context ?c) (XFromPixel ?c (of_int 8)) (YFromPixel ?c (of_int 624)) = (8, 624)"
    by (rule pixel_roundtrip(1) [of ?c 720 720]) simp_all
  then show ?thesis by (simp add: NewCanvas_def)
qed

lemma z_rate_range: "0 \<le> z_rate z" "z_rate z \<le> 1"
  by (simp_all add: z_rate_def Let_def)

lemma unat_255_minus: "unat (255 - v :: 8 word) = 255 - unat v"
proof -
  have "v \<le> 255" using unsigned_less [of v, where ?'a = nat] by (simp add: word_le_nat_alt)
  then show ?thesis by (simp add: unat_sub)
qed

lemma lighten_uint:
  assumes "0 \<le> r" "r \<le> 1"
  shows "uint (lighten v r) = \<lfloor>real (255 - unat v) * r\<rfloor> + uint v"
proof -
  let ?k = "\<lfloor>real (255 - unat v) * r\<rfloor>"
  have v: "unat v \<le> 255" using unsigned_less [of v, where ?'a = nat] by simp
  have "real (255 - unat v) * r \<le> real (255 - unat v) * 1"
    using assms by (intro mult_left_mono) auto
  moreover have "0 \<le> real (255 - unat v) * r" using assms by simp
  ultimately have k: "0 \<le> ?k" "?k \<le> 255 - uint v"
    using v by (simp_all add: floor_le_iff of_nat_diff)
  have "uint (word_of_int n :: 8 word) = n mod 256" for n
    by (simp add: unsigned_of_int take_bit_eq_mod)
  from this [of "?k + uint v"] have "uint (word_of_int ?k + v) = (?k + uint v) mod 256" by simp
  then show ?thesis
    using assms k uint_nonnegative [of v]
    by (simp add: lighten_def unat_255_minus go_trunc_def del: uint_nonnegative)
qed

text \<open>
  The colour of a depth. The sum of two bytes never wraps: each channel is the original
  channel plus the part of the way to white that the depth asks for, so an object is never
  darker than its colour; what lies further back is at least as light; and the opacity stays.
\<close>

theorem depth_colour:
  shows "uint (col_R (getColorByZIndex src z)) = \<lfloor>real (255 - unat (col_R src)) * z_rate z\<rfloor> + uint (col_R src)"
    and "uint (col_G (getColorByZIndex src z)) = \<lfloor>real (255 - unat (col_G src)) * z_rate z\<rfloor> + uint (col_G src)"
    and "uint (col_B (getColorByZIndex src z)) = \<lfloor>real (255 - unat (col_B src)) * z_rate z\<rfloor> + uint (col_B src)"
    and "col_A (getColorByZIndex src z) = col_A src"
    and "z \<le> z' \<Longrightarrow> col_R (getColorByZIndex src z') \<le> col_R (getColorByZIndex src z)"
proof -
  show "col_R (getColorByZIndex src z') \<le> col_R (getColorByZIndex src z)" if "z \<le> z'"
  proof -
    have "z_rate z' \<le> z_rate z" using that by (auto simp: z_rate_def Let_def divide_simps)
    then have "\<lfloor>real (255 - unat (col_R src)) * z_rate z'\<rfloor> \<le> \<lfloor>real (255 - unat (col_R src)) * z_rate z\<rfloor>"
      by (intro floor_mono mult_left_mono) auto
    with lighten_uint [OF z_rate_range [of z], of "col_R src"] lighten_uint [OF z_rate_range [of z'], of "col_R src"]
    show ?thesis by (simp add: getColorByZIndex_def word_le_def)
  qed
qed (simp_all add: getColorByZIndex_def lighten_uint [OF z_rate_range])

subsection \<open>The order of a frame\<close>

interpretation z_order: comparator compare_z getZIndex "\<lambda>_. True"
  by unfold_locales (simp add: compare_z_def Let_def)

lemma render_all_colours:
  assumes "\<forall>obj\<in>set objs. \<exists>cs. obj_render c obj = Inr cs"
  shows "\<exists>css. render_all c objs = Inr (concat css) \<and> list_all2 (\<lambda>obj cs. obj_render c obj = Inr cs) objs css"
  using assms
proof (induction objs)
  case Nil
  show ?case by (intro exI [of _ "[]"]) simp
next
  case (Cons obj objs)
  then obtain cs css where "obj_render c obj = Inr cs" "render_all c objs = Inr (concat css)"
    "list_all2 (\<lambda>obj cs. obj_render c obj = Inr cs) objs css" by auto
  then show ?case by (intro exI [of _ "cs # css"]) simp
qed

text \<open>
  A frame is drawn back to front: when every object can be drawn, \<open>Render\<close> clears the canvas
  and draws each object exactly once, in the order of their depth, and leaves no object for the
  next frame.
\<close>

theorem Render_back_to_front:
  assumes "\<forall>obj\<in>set (objects c). \<exists>cs. obj_render (cv_context c) obj = Inr cs"
  shows "\<exists>objs css. Render c = Inr ([SetDrawColor white, ClearAll] @ concat css, c\<lparr>objects := []\<rparr>) \<and>
     mset objs = mset (objects c) \<and> sorted (map getZIndex objs) \<and>
     list_all2 (\<lambda>obj cs. obj_render (cv_context c) obj = Inr cs) objs css"
proof -
  let ?objs = "sort_by compare_z (objects c)"
  obtain css where css: "render_all (cv_context c) ?objs = Inr (concat css)"
    "list_all2 (\<lambda>obj cs. obj_render (cv_context c) obj = Inr cs) ?objs css"
    using render_all_colours [of ?objs] assms by auto
  then show ?thesis
    by (intro exI [of _ ?objs] exI [of _ css]) (simp add: Render_def z_order.sorted_sort_by)
qed

theorem Render_back_to_front_witness:
  "\<exists>c. Inr c = obind (NewCanvas None 100 100) (\<lambda>c. Inr (DrawBox3 0 0 (1 / 2) 5 (DrawBox2 0 0 5 (SetColor 0 0 255 c)))) \<and>
     (\<exists>css. Render c = Inr ([SetDrawColor white, ClearAll] @ concat css, c\<lparr>objects := []\<rparr>) \<and> length css = 2)"
proof -
  define c where "c = DrawBox3 0 0 (1 / 2) 5 (DrawBox2 0 0 5 (SetColor 0 0 255
    \<lparr>quitSignal = False, cv_font = None, cv_context = \<lparr>width = 100, height = 100\<rparr>, currentColor = None, objects = []\<rparr>))"
  have "\<forall>obj\<in>set (objects c). \<exists>cs. obj_render (cv_context c) obj = Inr cs"
    by (simp add: c_def DrawBox3_def DrawBox2_def SetColor_def b3_render_def b2_render_def with_color_def)
  from Render_back_to_front [OF this] obtain objs css where
    "Render c = Inr ([SetDrawColor white, ClearAll] @ concat css, c\<lparr>objects := []\<rparr>)"
    "mset objs = mset (objects c)" "list_all2 (\<lambda>obj cs. obj_render (cv_context c) obj = Inr cs) objs css"
    by blast
  moreover from this have "length css = length (objects c)"
    using mset_eq_length list_all2_lengthD by metis
  then have "length css = 2" by (simp add: c_def DrawBox3_def DrawBox2_def SetColor_def)
  ultimately show ?thesis
    by (intro exI [of _ c]) (auto simp: c_def NewCanvas_def)
qed

subsection \<open>The names of the frames\<close>

definition number :: "string \<Rightarrow> nat" where
  "number s = fold (\<lambda>ch n. 10 * n + (of_char ch - 48)) s 0"

lemma digit_value [simp]: "d < 10 \<Longrightarrow> (of_char (digit d) :: nat) = 48 + d"
  by (simp add: digit_def)

lemma number_snoc: "number (s @ [ch]) = 10 * number s + (of_char ch - 48)"
  by (simp add: number_def)

declare decimal.simps [simp del]

lemma number_decimal: "number (decimal n) = n"
proof (induction n rule: less_induct)
  case (less n)
  show ?case
  proof (cases "n < 10")
    case True
    then show ?thesis by (simp add: decimal.simps number_def)
  next
    case False
    with less [of "n div 10"] show ?thesis
      by (simp add: decimal.simps [of n] number_snoc)
  qed
qed

lemma number_padded: "number (padded w n) = n"
proof -
  have "fold (\<lambda>ch n. 10 * n + (of_char ch - 48)) (replicate k (CHR ''0'')) (0 :: nat) = 0" for k
    by (induction k) simp_all
  then show ?thesis using number_decimal [of n] by (simp add: number_def padded_def)
qed

text \<open>
  No frame overwrites another: the names of two frames of a filer differ, and a frame that
  could not be written is tried again under the same name.
\<close>

theorem frame_names_distinct:
  "frame_name f = frame_name (f\<lparr>index := k\<rparr>) \<longleftrightarrow> index f = k"
  "Save png f = (r, f') \<Longrightarrow> frame_name f' = frame_name f \<longleftrightarrow> r \<noteq> None"
proof -
  have inj: "padded w n = padded w m \<longleftrightarrow> n = m" for w n m
    using number_padded by metis
  then show "frame_name f = frame_name (f\<lparr>index := k\<rparr>) \<longleftrightarrow> index f = k"
    by (simp add: frame_name_def)
  show "frame_name f' = frame_name f \<longleftrightarrow> r \<noteq> None" if "Save png f = (r, f')"
  proof (cases "png (frame_name f)")
    case None
    with that inj show ?thesis by (auto simp: Save_def frame_name_def)
  next
    case (Some e)
    with that have "r = Some e" "f' = f" by (simp_all add: Save_def)
    then show ?thesis by simp
  qed
qed

theorem frame_names_distinct_witness:
  "Save (\<lambda>_. None) (NewFiler ''out'' 3) = (None, \<lparr>fl_prefix = ''out'', digits = 3, index = 1\<rparr>) \<and>
   frame_name \<lparr>fl_prefix = ''out'', digits = 3, index = 1\<rparr> \<noteq> frame_name (NewFiler ''out'' 3) \<and>
   frame_name (NewFiler ''out'' 3) = ''out000.png''"
proof -
  have s: "Save (\<lambda>_. None) (NewFiler ''out'' 3) = (None, \<lparr>fl_prefix = ''out'', digits = 3, index = 1\<rparr>)"
    by (simp add: Save_def NewFiler_def)
  have "frame_name (NewFiler ''out'' 3) = ''out000.png''" by code_simp
  with frame_names_distinct(2) [OF s] s show ?thesis by simp
qed

end
