(* ===== verification/Sim_Render.thy ===== *)
theory Sim_Render
  imports Sim_Node Sim_Canvas
begin

text \<open>
  Rendering the records of a simulation (\<open>src/simulator/base/render_framework.go\<close>): the records are
  read in order, the state of the network is kept from them, and one frame is drawn per second.

  A time is the number of nanoseconds since the zero time, so \<open>IsZero\<close> is equality with 0. \<open>parse\<close>
  is \<open>time.Parse(RFC3339Nano)\<close>, the reads are a list of answers, \<open>quit\<close> says in which second the
  window is closed. A loss rate of no packet at all is NaN, here \<open>None\<close>. A frame is what was drawn in
  it, kept in \<open>rf_frames\<close>.
\<close>

definition second :: duration where "second = 10 ^ 9"

subsection \<open>State\<close>

record 'z NodeInfo =
  ni_timestamp :: time
  ni_Record :: "'z Record_scheme"

record Edge =
  NodeID1 :: string
  NodeID2 :: string

record PacketInfo =
  PostTime :: time
  ReceiveTime :: time

record 'z RenderFramework =
  rf_canvas :: Canvas
  rf_filer :: "Filer option"
  edgeKind :: "64 word"
  packetInfos :: "(string, PacketInfo) gomap"
  AliveNodes :: "(string, 'z NodeInfo) gomap"
  SilentNodes :: "(string, 'z NodeInfo) gomap"
  ConnectEdges :: "(Edge, time) gomap"
  RequiredEdges :: "(Edge, time) gomap"
  PacketCount :: nat
  PacketLossRate :: "real option"
  PacketDurationP90 :: duration
  PacketDurationP99 :: duration
  rf_frames :: "(nat \<times> draw_cmd list) list"

definition NewRenderFramework :: "Canvas \<Rightarrow> Filer option \<Rightarrow> 64 word \<Rightarrow> 'z RenderFramework" where
  "NewRenderFramework canvas filer kind =
     \<lparr>rf_canvas = canvas, rf_filer = filer, edgeKind = kind, packetInfos = [], AliveNodes = [], SilentNodes = [],
      ConnectEdges = [], RequiredEdges = [], PacketCount = 0, PacketLossRate = Some 0,
      PacketDurationP90 = 0, PacketDurationP99 = 0, rf_frames = []\<rparr>"

subsection \<open>Packets\<close>

text \<open>One visit of the loop over the packets: the map, the counters and the durations.\<close>

definition base_time :: "PacketInfo \<Rightarrow> time" where
  "base_time p = (if PostTime p = 0 then ReceiveTime p else PostTime p)"

definition visit_packet ::
  "time \<Rightarrow> string \<times> PacketInfo \<Rightarrow> (string, PacketInfo) gomap \<times> nat \<times> nat \<times> duration list \<Rightarrow>
   (string, PacketInfo) gomap \<times> nat \<times> nat \<times> duration list" where
  "visit_packet timestamp = (\<lambda>(uuid, p) (m, count, receivedCount, durations).
     if base_time p + 70 * second < timestamp then (mdel uuid m, count, receivedCount, durations)
     else if base_time p + 10 * second > timestamp then (m, count, receivedCount, durations)
     else if PostTime p = 0 then (m, count, receivedCount, durations)
     else if ReceiveTime p \<noteq> 0
     then (m, count + 1, receivedCount + 1, durations @ [ReceiveTime p - PostTime p])
     else (m, count + 1, receivedCount, durations))"

definition compare_durations :: "duration \<Rightarrow> duration \<Rightarrow> int" where
  "compare_durations a b = (if a < b then - 1 else if b < a then 1 else 0)"

text \<open>The entry at a share of a sorted list.\<close>

definition percentile :: "real \<Rightarrow> duration list \<Rightarrow> duration outcome" where
  "percentile share durations =
     (let i = nat (go_trunc (real (length durations) * share))
      in if i < length durations then Inr (durations ! i) else Inl (Panic ''index out of range''))"

definition aggregatePacketInfos :: "time \<Rightarrow> 'z RenderFramework \<Rightarrow> 'z RenderFramework outcome" where
  "aggregatePacketInfos timestamp f =
     (let (m, count, receivedCount, durations) =
            fold (visit_packet timestamp) (packetInfos f) (packetInfos f, 0, 0, []);
          f = f\<lparr>packetInfos := m, PacketCount := count,
                PacketLossRate := (if count = 0 then None else Some (real (count - receivedCount) / real count))\<rparr>
      in if durations = [] then Inr (f\<lparr>PacketDurationP90 := 0, PacketDurationP99 := 0\<rparr>)
         else let durations = sort_by compare_durations durations
              in obind (percentile 0.9 durations) (\<lambda>p90.
                 obind (percentile 0.99 durations) (\<lambda>p99.
                   Inr (f\<lparr>PacketDurationP90 := p90, PacketDurationP99 := p99\<rparr>))))"

definition note_post :: "(string \<Rightarrow> time option) \<Rightarrow> string \<times> string \<Rightarrow> (string, PacketInfo) gomap \<Rightarrow> (string, PacketInfo) gomap outcome" where
  "note_post parse = (\<lambda>(uuid, postTimeStr) m.
     case parse postTimeStr of None \<Rightarrow> Inl (Panic ''parsing time'')
     | Some postTime \<Rightarrow>
         (case mget m uuid of
            Some p \<Rightarrow> Inr (mput uuid (p\<lparr>PostTime := postTime\<rparr>) m)
          | None \<Rightarrow> Inr (mput uuid \<lparr>PostTime = postTime, ReceiveTime = 0\<rparr> m)))"

definition note_receive :: "(string \<Rightarrow> time option) \<Rightarrow> string \<times> string \<Rightarrow> (string, PacketInfo) gomap \<Rightarrow> (string, PacketInfo) gomap outcome" where
  "note_receive parse = (\<lambda>(uuid, receiveTimeStr) m.
     case parse receiveTimeStr of None \<Rightarrow> Inl (Panic ''parsing time'')
     | Some receiveTime \<Rightarrow>
         (case mget m uuid of
            Some p \<Rightarrow> Inr (mput uuid (p\<lparr>ReceiveTime := receiveTime\<rparr>) m)
          | None \<Rightarrow> Inr (mput uuid \<lparr>PostTime = 0, ReceiveTime = receiveTime\<rparr> m)))"

subsection \<open>Nodes and edges\<close>

definition edge_of :: "string \<Rightarrow> string \<Rightarrow> Edge" where
  "edge_of nodeID node =
     (if compare_strings nodeID node < 0 then \<lparr>NodeID1 = nodeID, NodeID2 = node\<rparr>
      else \<lparr>NodeID1 = node, NodeID2 = nodeID\<rparr>)"

definition appendEdges :: "time \<Rightarrow> string \<Rightarrow> string list \<Rightarrow> (Edge, time) gomap \<Rightarrow> (Edge, time) gomap" where
  "appendEdges timestamp nodeID nodes edges = fold (\<lambda>node. mput (edge_of nodeID node) timestamp) nodes edges"

definition cleanupNodes :: "time \<Rightarrow> 'z RenderFramework \<Rightarrow> 'z RenderFramework" where
  "cleanupNodes timestamp f =
     fold (\<lambda>(nodeID, n) f.
       if timestamp > ni_timestamp n + 3 * second
       then f\<lparr>AliveNodes := mdel nodeID (AliveNodes f), SilentNodes := mput nodeID n (SilentNodes f)\<rparr>
       else f\<lparr>SilentNodes := mdel nodeID (SilentNodes f)\<rparr>) (AliveNodes f) f"

definition cleanupEdges :: "time \<Rightarrow> (Edge, time) gomap \<Rightarrow> (Edge, time) gomap" where
  "cleanupEdges timestamp edges =
     fold (\<lambda>(e, t) m. if timestamp > t + 3 * second then mdel e m else m) edges edges"

subsection \<open>The loop\<close>

text \<open>A record updates the state, or is skipped.\<close>

definition wants_edges :: "64 word \<Rightarrow> 64 word \<Rightarrow> bool" where
  "wants_edges kind flag \<longleftrightarrow> kind AND flag \<noteq> 0"

definition take_edges :: "time \<Rightarrow> string \<Rightarrow> 'z Record_scheme \<Rightarrow> 'z RenderFramework \<Rightarrow> 'z RenderFramework" where
  "take_edges timestamp nodeID rec f =
     (let f = f\<lparr>ConnectEdges := appendEdges timestamp nodeID (ConnectedNodeIDs rec) (ConnectEdges f)\<rparr>;
          f = (if wants_edges (edgeKind f) 1
               then f\<lparr>RequiredEdges := appendEdges timestamp nodeID (RequiredNodeIDs1D rec) (RequiredEdges f)\<rparr> else f)
      in if wants_edges (edgeKind f) 2
         then f\<lparr>RequiredEdges := appendEdges timestamp nodeID (RequiredNodeIDs2D rec) (RequiredEdges f)\<rparr> else f)"

text \<open>\<open>None\<close> is \<open>continue\<close>: the state with it is kept, but no frame is due.\<close>

definition take_record ::
  "(string \<Rightarrow> time option) \<Rightarrow> time \<Rightarrow> string \<Rightarrow> 'z Record_scheme \<Rightarrow> 'z RenderFramework \<Rightarrow> (bool \<times> 'z RenderFramework) outcome" where
  "take_record parse timestamp nodeID rec f =
     (if State rec = StateStart
      then Inr (True, take_edges timestamp nodeID rec
             (f\<lparr>AliveNodes := mput nodeID \<lparr>ni_timestamp = timestamp, ni_Record = rec\<rparr> (AliveNodes f)\<rparr>))
      else if State rec = StateNormal
      then if \<not> mhas (AliveNodes f) nodeID \<and> \<not> mhas (SilentNodes f) nodeID then Inr (False, f)
           else obind (ofold (note_post parse) (rec_Post rec) (packetInfos f)) (\<lambda>m.
                obind (ofold (note_receive parse) (rec_Receive rec) m) (\<lambda>m.
                  Inr (True, take_edges timestamp nodeID rec
                    (f\<lparr>AliveNodes := mput nodeID \<lparr>ni_timestamp = timestamp, ni_Record = rec\<rparr> (AliveNodes f), packetInfos := m\<rparr>))))
      else if State rec = StateStop
      then Inr (False, f\<lparr>AliveNodes := mdel nodeID (AliveNodes f), SilentNodes := mdel nodeID (SilentNodes f)\<rparr>)
      else Inr (True, take_edges timestamp nodeID rec f))"

text \<open>A frame: the drawer and \<open>Render\<close>, then the file; the errors of both calls are ignored.\<close>

definition draw_frame ::
  "('z RenderFramework \<Rightarrow> nat \<Rightarrow> Canvas \<Rightarrow> Canvas outcome) \<Rightarrow> (string \<Rightarrow> string option) \<Rightarrow> nat \<Rightarrow> 'z RenderFramework \<Rightarrow>
   'z RenderFramework outcome" where
  "draw_frame drawer png sec f =
     obind (drawer f sec (rf_canvas f)) (\<lambda>canvas.
     obind (Render canvas) (\<lambda>(cmds, canvas).
       Inr (f\<lparr>rf_canvas := canvas, rf_frames := rf_frames f @ [(sec, cmds)],
             rf_filer := map_option (\<lambda>filer. snd (Save png filer)) (rf_filer f)\<rparr>)))"

function draw_frames ::
  "('z RenderFramework \<Rightarrow> nat \<Rightarrow> Canvas \<Rightarrow> Canvas outcome) \<Rightarrow> (string \<Rightarrow> string option) \<Rightarrow> (nat \<Rightarrow> bool) \<Rightarrow> time \<Rightarrow>
   time \<Rightarrow> nat \<Rightarrow> 'z RenderFramework \<Rightarrow> (bool \<times> time \<times> nat \<times> 'z RenderFramework) outcome" where
  "draw_frames drawer png quit recordTime timestamp sec f =
     (if timestamp < recordTime
      then obind (aggregatePacketInfos timestamp f) (\<lambda>f.
           obind (draw_frame drawer png (sec + 1) f) (\<lambda>f.
             if quit (sec + 1) then Inr (True, timestamp, sec + 1, f)
             else let f = cleanupNodes timestamp f;
                      f = f\<lparr>ConnectEdges := cleanupEdges timestamp (ConnectEdges f)\<rparr>;
                      f = f\<lparr>RequiredEdges := cleanupEdges timestamp (RequiredEdges f)\<rparr>
                  in draw_frames drawer png quit recordTime (timestamp + second) (sec + 1) f))
      else Inr (False, timestamp, sec, f))"
  by pat_completeness auto

termination draw_frames
  by (relation "measure (\<lambda>(_, _, _, recordTime, timestamp, _, _). nat (recordTime - timestamp))")
     (auto simp: second_def)

text \<open>What the record reader gives: an error, the end, or a record.\<close>

datatype 'z read = ReadError string | ReadEnd | ReadRecord time string "'z Record_scheme"

text \<open>\<open>recordTime.Round(time.Second)\<close>.\<close>

definition round_second :: "time \<Rightarrow> time" where
  "round_second t = (t + second div 2) div second * second"

fun rf_Start ::
  "('z RenderFramework \<Rightarrow> nat \<Rightarrow> Canvas \<Rightarrow> Canvas outcome) \<Rightarrow> (string \<Rightarrow> time option) \<Rightarrow> (string \<Rightarrow> string option) \<Rightarrow>
   (nat \<Rightarrow> bool) \<Rightarrow> 'z read list \<Rightarrow> time \<Rightarrow> nat \<Rightarrow> 'z RenderFramework \<Rightarrow> (string option \<times> time \<times> nat \<times> 'z RenderFramework) outcome" where
  "rf_Start drawer parse png quit [] timestamp sec f = Inl Blocked"
| "rf_Start drawer parse png quit (ReadError e # rs) timestamp sec f = Inr (Some e, timestamp, sec, f)"
| "rf_Start drawer parse png quit (ReadEnd # rs) timestamp sec f = Inr (None, timestamp, sec, f)"
| "rf_Start drawer parse png quit (ReadRecord recordTime nodeID rec # rs) timestamp sec f =
     (let timestamp = (if timestamp = 0 then round_second recordTime else timestamp)
      in obind (take_record parse timestamp nodeID rec f) (\<lambda>(due, f).
           if \<not> due then rf_Start drawer parse png quit rs timestamp sec f
           else obind (draw_frames drawer png quit recordTime timestamp sec f) (\<lambda>(quitted, timestamp, sec, f).
                  if quitted then Inr (None, timestamp, sec, f)
                  else rf_Start drawer parse png quit rs timestamp sec f)))"

subsection \<open>The figures of a frame\<close>

definition too_old :: "time \<Rightarrow> PacketInfo \<Rightarrow> bool" where
  "too_old now p \<longleftrightarrow> base_time p + 70 * second < now"

definition counted :: "time \<Rightarrow> PacketInfo \<Rightarrow> bool" where
  "counted now p \<longleftrightarrow> \<not> too_old now p \<and> base_time p + 10 * second \<le> now \<and> PostTime p \<noteq> 0"

definition arrived :: "time \<Rightarrow> PacketInfo \<Rightarrow> bool" where
  "arrived now p \<longleftrightarrow> counted now p \<and> ReceiveTime p \<noteq> 0"

definition delays :: "time \<Rightarrow> (string, PacketInfo) gomap \<Rightarrow> duration list" where
  "delays now ps = map (\<lambda>(_, p). ReceiveTime p - PostTime p) (filter (arrived now \<circ> snd) ps)"

lemma fold_visit:
  "fold (visit_packet now) ps (m, c, r, d) =
     (fold (\<lambda>(u, p) m. if too_old now p then mdel u m else m) ps m,
      c + length (filter (counted now \<circ> snd) ps), r + length (filter (arrived now \<circ> snd) ps), d @ delays now ps)"
proof (induction ps arbitrary: m c r d)
  case Nil
  show ?case by (simp add: delays_def)
next
  case (Cons x ps)
  obtain u p where x: "x = (u, p)" by (cases x)
  show ?case
    using Cons
    by (cases "too_old now p"; cases "base_time p + 10 * second > now"; cases "PostTime p = 0"; cases "ReceiveTime p = 0")
       (simp_all add: x visit_packet_def delays_def counted_def arrived_def too_old_def)
qed

lemma fold_del:
  "fold (\<lambda>(k, v) m. if P v then mdel k m else m) ps m =
     filter (\<lambda>x. fst x \<notin> fst ` set (filter (P \<circ> snd) ps)) m"
proof (induction ps arbitrary: m)
  case Nil
  show ?case by simp
next
  case (Cons x ps)
  then show ?case by (cases x) (auto simp: AList.delete_eq split_def intro!: filter_cong)
qed

text \<open>Deleting from a map while ranging over it.\<close>

lemma del_where:
  assumes "gomap_wf ps"
  shows "fold (\<lambda>(k, v) m. if P v then mdel k m else m) ps ps = filter (Not \<circ> P \<circ> snd) ps"
  unfolding fold_del
proof (rule filter_cong [OF refl])
  fix x assume x: "x \<in> set ps"
  have "y = x" if "y \<in> set ps" "fst y = fst x" for y
    using assms x that eq_key_imp_eq_value [of ps "fst x" "snd x" "snd y"]
    by (metis gomap_wf_def prod.collapse)
  with x show "fst x \<notin> fst ` set (filter (P \<circ> snd) ps) \<longleftrightarrow> (Not \<circ> P \<circ> snd) x"
    by auto
qed

interpretation by_duration: comparator compare_durations "\<lambda>d. d" "\<lambda>_. True"
  by unfold_locales (simp add: compare_durations_def)

lemma percentile_index:
  assumes "0 \<le> s" "s < 1" "ds \<noteq> []"
  shows "nat (go_trunc (real (length ds) * s)) < length ds"
    and "real (length ds) * s < real (nat (go_trunc (real (length ds) * s))) + 1"
proof -
  have "real (length ds) * s < real (length ds) * 1"
    using assms by (intro mult_strict_left_mono) auto
  then show "nat (go_trunc (real (length ds) * s)) < length ds"
    using assms by (simp add: go_trunc_def nat_less_iff floor_less_iff)
  show "real (length ds) * s < real (nat (go_trunc (real (length ds) * s))) + 1"
    using assms by (simp add: go_trunc_def)
qed

text \<open>More than the share of the entries is at most the percentile, and it is one of them.\<close>

lemma percentile_covers:
  assumes "sorted ds" "ds \<noteq> []" "0 \<le> s" "s < 1"
  shows "\<exists>v. percentile s ds = Inr v \<and> v \<in> set ds \<and>
     real (length ds) * s < real (length (filter (\<lambda>d. d \<le> v) ds))"
proof -
  let ?i = "nat (go_trunc (real (length ds) * s))"
  note i = percentile_index [OF assms(3,4,2)]
  have "\<forall>d\<in>set (take (Suc ?i) ds). d \<le> ds ! ?i"
    using assms(1) i(1) by (auto simp: in_set_conv_nth sorted_nth_mono)
  then have "length (take (Suc ?i) ds) \<le> length (filter (\<lambda>d. d \<le> ds ! ?i) (take (Suc ?i) ds))"
    by (simp add: filter_id_conv [THEN iffD2])
  also have "\<dots> \<le> length (filter (\<lambda>d. d \<le> ds ! ?i) ds)"
    by (metis append_take_drop_id filter_append length_append le_add1)
  finally have "Suc ?i \<le> length (filter (\<lambda>d. d \<le> ds ! ?i) ds)" using i(1) by simp
  with i show ?thesis by (auto simp: percentile_def Let_def)
qed

lemma length_filter_sort [simp]: "length (filter P (sort_by cmp xs)) = length (filter P xs)"
  by (metis mset_filter mset_sort_by size_mset)

lemma percentile_sorted:
  assumes "ds \<noteq> []" "0 \<le> s" "s < 1"
  shows "\<exists>v. percentile s (sort_by compare_durations ds) = Inr v \<and> v \<in> set ds \<and>
     s * real (length ds) < real (length (filter (\<lambda>d. d \<le> v) ds))"
proof -
  let ?s = "sort_by compare_durations ds"
  have "sorted ?s" using by_duration.sorted_sort_by [of ds] by simp
  moreover have "?s \<noteq> []" using assms(1) by (metis length_0_conv length_sort_by)
  ultimately have "\<exists>v. percentile s ?s = Inr v \<and> v \<in> set ?s \<and> real (length ?s) * s < real (length (filter (\<lambda>d. d \<le> v) ?s))"
    using assms(2,3) by (rule percentile_covers)
  then show ?thesis by (simp add: mult.commute)
qed

lemma arrived_counted: "length (filter (arrived now \<circ> snd) ps) \<le> length (filter (counted now \<circ> snd) ps)"
  by (induction ps) (auto simp: arrived_def)

lemma aggregate_figures:
  assumes "gomap_wf (packetInfos f)"
  shows "\<exists>f'. aggregatePacketInfos now f = Inr f' \<and>
     packetInfos f' = filter (Not \<circ> too_old now \<circ> snd) (packetInfos f) \<and>
     PacketCount f' = length (filter (counted now \<circ> snd) (packetInfos f)) \<and>
     PacketLossRate f' = (if PacketCount f' = 0 then None
        else Some (1 - real (length (delays now (packetInfos f))) / real (PacketCount f'))) \<and>
     (delays now (packetInfos f) = [] \<longrightarrow> PacketDurationP90 f' = 0 \<and> PacketDurationP99 f' = 0) \<and>
     (delays now (packetInfos f) \<noteq> [] \<longrightarrow>
        PacketDurationP90 f' \<in> set (delays now (packetInfos f)) \<and> PacketDurationP99 f' \<in> set (delays now (packetInfos f)) \<and>
        0.9 * real (length (delays now (packetInfos f)))
          < real (length (filter (\<lambda>d. d \<le> PacketDurationP90 f') (delays now (packetInfos f)))) \<and>
        0.99 * real (length (delays now (packetInfos f)))
          < real (length (filter (\<lambda>d. d \<le> PacketDurationP99 f') (delays now (packetInfos f)))))"
proof -
  let ?ps = "packetInfos f"
  let ?c = "length (filter (counted now \<circ> snd) ?ps)" and ?r = "length (filter (arrived now \<circ> snd) ?ps)"
  let ?ds = "delays now ?ps"
  let ?g = "f\<lparr>packetInfos := filter (Not \<circ> too_old now \<circ> snd) ?ps, PacketCount := ?c,
      PacketLossRate := (if ?c = 0 then None else Some (real (?c - ?r) / real ?c))\<rparr>"
  have len: "length ?ds = ?r" by (simp add: delays_def)
  have "?r \<le> ?c" using arrived_counted by blast
  then have rate: "?c \<noteq> 0 \<Longrightarrow> real (?c - ?r) / real ?c = 1 - real ?r / real ?c"
    by (simp add: of_nat_diff diff_divide_distrib)
  have agg: "aggregatePacketInfos now f =
      (if ?ds = [] then Inr (?g\<lparr>PacketDurationP90 := 0, PacketDurationP99 := 0\<rparr>)
       else let ds = sort_by compare_durations ?ds
            in obind (percentile 0.9 ds) (\<lambda>p90. obind (percentile 0.99 ds) (\<lambda>p99.
                 Inr (?g\<lparr>PacketDurationP90 := p90, PacketDurationP99 := p99\<rparr>))))"
    unfolding aggregatePacketInfos_def fold_visit del_where [OF assms] by (simp add: Let_def)
  show ?thesis
  proof (cases "?ds = []")
    case True
    with agg len rate show ?thesis by auto
  next
    case False
    obtain p90 where p90: "percentile 0.9 (sort_by compare_durations ?ds) = Inr p90" "p90 \<in> set ?ds"
      "0.9 * real (length ?ds) < real (length (filter (\<lambda>d. d \<le> p90) ?ds))"
      using percentile_sorted [OF False, of "0.9"] by auto
    obtain p99 where p99: "percentile 0.99 (sort_by compare_durations ?ds) = Inr p99" "p99 \<in> set ?ds"
      "0.99 * real (length ?ds) < real (length (filter (\<lambda>d. d \<le> p99) ?ds))"
      using percentile_sorted [OF False, of "0.99"] by auto
    from False agg p90 p99 have "aggregatePacketInfos now f = Inr (?g\<lparr>PacketDurationP90 := p90, PacketDurationP99 := p99\<rparr>)"
      by (simp add: Let_def)
    with False p90 p99 len rate show ?thesis by simp
  qed
qed

text \<open>
  The figures on a frame. Whatever packets are on record the figures are computed without an
  index error: a packet more than seventy seconds old is forgotten; those counted are the ones
  posted at least ten seconds ago; the loss rate is the share of them that never arrived, no
  number at all when there is none; and the two percentiles are durations of packets that
  arrived, more than 90 and 99 percent of which took no longer.
\<close>

theorem figures:
  assumes "gomap_wf (packetInfos f)"
  shows "\<exists>f'. aggregatePacketInfos now f = Inr f' \<and>
     packetInfos f' = filter (Not \<circ> too_old now \<circ> snd) (packetInfos f) \<and>
     PacketCount f' = length (filter (counted now \<circ> snd) (packetInfos f)) \<and>
     PacketLossRate f' = (if PacketCount f' = 0 then None
        else Some (1 - real (length (delays now (packetInfos f))) / real (PacketCount f'))) \<and>
     (delays now (packetInfos f) = [] \<longrightarrow> PacketDurationP90 f' = 0 \<and> PacketDurationP99 f' = 0) \<and>
     (delays now (packetInfos f) \<noteq> [] \<longrightarrow>
        PacketDurationP90 f' \<in> set (delays now (packetInfos f)) \<and> PacketDurationP99 f' \<in> set (delays now (packetInfos f)) \<and>
        0.9 * real (length (delays now (packetInfos f)))
          < real (length (filter (\<lambda>d. d \<le> PacketDurationP90 f') (delays now (packetInfos f)))) \<and>
        0.99 * real (length (delays now (packetInfos f)))
          < real (length (filter (\<lambda>d. d \<le> PacketDurationP99 f') (delays now (packetInfos f)))))"
  using aggregate_figures [OF assms] .

theorem figures_witness:
  "\<exists>f'. aggregatePacketInfos (20 * second) ((NewRenderFramework \<lparr>quitSignal = False, cv_font = None,
        cv_context = \<lparr>width = 100, height = 100\<rparr>, currentColor = None, objects = []\<rparr> None 1 :: unit RenderFramework)
        \<lparr>packetInfos := [(''a'', \<lparr>PostTime = 5, ReceiveTime = 12\<rparr>), (''b'', \<lparr>PostTime = 6, ReceiveTime = 0\<rparr>)]\<rparr>) = Inr f' \<and>
     PacketCount f' = 2 \<and> PacketLossRate f' = Some (1 / 2) \<and> PacketDurationP90 f' = 7"
proof -
  define f where "f = (NewRenderFramework \<lparr>quitSignal = False, cv_font = None,
        cv_context = \<lparr>width = 100, height = 100\<rparr>, currentColor = None, objects = []\<rparr> None 1 :: unit RenderFramework)
        \<lparr>packetInfos := [(''a'', \<lparr>PostTime = 5, ReceiveTime = 12\<rparr>), (''b'', \<lparr>PostTime = 6, ReceiveTime = 0\<rparr>)]\<rparr>"
  have "gomap_wf (packetInfos f)" by (simp add: f_def)
  from figures [OF this, of "20 * second"] show ?thesis
    unfolding f_def [symmetric]
    by (auto simp: f_def delays_def arrived_def counted_def too_old_def base_time_def second_def)
qed

subsection \<open>Nodes and edges\<close>

lemma edge_of_sym: "edge_of a b = edge_of b a"
  using compare_strings_neg [of a b] compare_strings_zero [of a b]
  by (auto simp: edge_of_def simp del: compare_strings_zero)

definition canonical :: "Edge \<Rightarrow> bool" where
  "canonical e \<longleftrightarrow> compare_strings (NodeID1 e) (NodeID2 e) \<le> 0"

lemma edge_of_canonical: "canonical (edge_of a b)"
  using compare_strings_neg [of a b] by (auto simp: edge_of_def canonical_def)

definition edges_ok :: "(Edge, time) gomap \<Rightarrow> bool" where
  "edges_ok m \<longleftrightarrow> gomap_wf m \<and> (\<forall>e\<in>set (mkeys m). canonical e)"

lemma edges_ok_mput: "edges_ok m \<Longrightarrow> canonical e \<Longrightarrow> edges_ok (mput e t m)"
  by (simp add: edges_ok_def)

lemma appendEdges_ok: "edges_ok m \<Longrightarrow> edges_ok (appendEdges t i ns m)"
  unfolding appendEdges_def
  by (induction ns arbitrary: m) (simp_all add: edges_ok_mput edge_of_canonical)

lemma cleanupEdges_filter:
  "gomap_wf m \<Longrightarrow> cleanupEdges now m = filter (\<lambda>(e, t). now \<le> t + 3 * second) m"
  unfolding cleanupEdges_def by (subst del_where) (auto intro!: filter_cong)

lemma cleanupEdges_ok: "edges_ok m \<Longrightarrow> edges_ok (cleanupEdges now m)"
  by (auto simp: edges_ok_def cleanupEdges_filter mkeys_def)

lemma mget_appendEdges:
  "mget (appendEdges t i ns m) e = (if e \<in> edge_of i ` set ns then Some t else mget m e)"
  unfolding appendEdges_def by (induction ns arbitrary: m) auto

definition stale :: "time \<Rightarrow> 'z NodeInfo \<Rightarrow> bool" where
  "stale now n \<longleftrightarrow> now > ni_timestamp n + 3 * second"

definition cleanup_node :: "time \<Rightarrow> string \<times> 'z NodeInfo \<Rightarrow> 'z RenderFramework \<Rightarrow> 'z RenderFramework" where
  "cleanup_node now = (\<lambda>(i, n) f.
     if stale now n then f\<lparr>AliveNodes := mdel i (AliveNodes f), SilentNodes := mput i n (SilentNodes f)\<rparr>
     else f\<lparr>SilentNodes := mdel i (SilentNodes f)\<rparr>)"

lemma cleanupNodes_fold: "cleanupNodes now f = fold (cleanup_node now) (AliveNodes f) f"
  by (simp add: cleanupNodes_def cleanup_node_def stale_def)

lemma cleanup_fold:
  assumes "gomap_wf xs"
  shows "mget (AliveNodes (fold (cleanup_node now) xs f)) k =
       (case mget xs k of Some n \<Rightarrow> if stale now n then None else mget (AliveNodes f) k | None \<Rightarrow> mget (AliveNodes f) k)"
    and "mget (SilentNodes (fold (cleanup_node now) xs f)) k =
       (case mget xs k of Some n \<Rightarrow> if stale now n then Some n else None | None \<Rightarrow> mget (SilentNodes f) k)"
proof -
  have "mget (AliveNodes (fold (cleanup_node now) xs f)) k =
       (case mget xs k of Some n \<Rightarrow> if stale now n then None else mget (AliveNodes f) k | None \<Rightarrow> mget (AliveNodes f) k) \<and>
     mget (SilentNodes (fold (cleanup_node now) xs f)) k =
       (case mget xs k of Some n \<Rightarrow> if stale now n then Some n else None | None \<Rightarrow> mget (SilentNodes f) k)"
    using assms
  proof (induction xs arbitrary: f)
    case Nil
    show ?case by simp
  next
    case (Cons x xs)
    obtain i n where x: "x = (i, n)" by (cases x)
    have "i \<notin> dom (mget xs)" using Cons.prems x by (auto simp: set_mkeys [symmetric] gomap_wf_def mkeys_def)
    then have "mget xs i = None" by blast
    with Cons x show ?case by (cases "k = i"; cases "stale now n") (simp_all add: cleanup_node_def split: option.splits)
  qed
  then show "mget (AliveNodes (fold (cleanup_node now) xs f)) k =
       (case mget xs k of Some n \<Rightarrow> if stale now n then None else mget (AliveNodes f) k | None \<Rightarrow> mget (AliveNodes f) k)"
    "mget (SilentNodes (fold (cleanup_node now) xs f)) k =
       (case mget xs k of Some n \<Rightarrow> if stale now n then Some n else None | None \<Rightarrow> mget (SilentNodes f) k)"
    by simp_all
qed

text \<open>
  After the clean-up that follows a frame every node known is either alive or silent and never
  both: alive are the ones heard of in the last three seconds, silent those that were alive and
  fell quiet or that were silent and have not been heard of since.
\<close>

theorem nodes_partitioned:
  assumes "gomap_wf (AliveNodes f)"
  shows "mget (AliveNodes (cleanupNodes now f)) k =
       (case mget (AliveNodes f) k of Some n \<Rightarrow> if stale now n then None else Some n | None \<Rightarrow> None)"
    and "mget (SilentNodes (cleanupNodes now f)) k =
       (case mget (AliveNodes f) k of Some n \<Rightarrow> if stale now n then Some n else None | None \<Rightarrow> mget (SilentNodes f) k)"
    and "mhas (AliveNodes (cleanupNodes now f)) k \<longrightarrow> \<not> mhas (SilentNodes (cleanupNodes now f)) k"
proof -
  show a: "mget (AliveNodes (cleanupNodes now f)) k =
       (case mget (AliveNodes f) k of Some n \<Rightarrow> if stale now n then None else Some n | None \<Rightarrow> None)" for k
    by (simp add: cleanupNodes_fold cleanup_fold [OF assms] split: option.splits)
  show b: "mget (SilentNodes (cleanupNodes now f)) k =
       (case mget (AliveNodes f) k of Some n \<Rightarrow> if stale now n then Some n else None | None \<Rightarrow> mget (SilentNodes f) k)" for k
    by (simp add: cleanupNodes_fold cleanup_fold [OF assms])
  show "mhas (AliveNodes (cleanupNodes now f)) k \<longrightarrow> \<not> mhas (SilentNodes (cleanupNodes now f)) k"
    using a [of k] b [of k] by (auto simp: mhas_iff set_mkeys dom_def split: option.splits if_splits)
qed

theorem nodes_partitioned_witness:
  "mget (SilentNodes (cleanupNodes (4 * second) ((NewRenderFramework \<lparr>quitSignal = False, cv_font = None,
        cv_context = \<lparr>width = 100, height = 100\<rparr>, currentColor = None, objects = []\<rparr> None 1)
        \<lparr>AliveNodes := [(''a'', \<lparr>ni_timestamp = 0, ni_Record = nd_record example_node\<rparr>)]\<rparr>))) ''a'' =
     Some \<lparr>ni_timestamp = 0, ni_Record = nd_record example_node\<rparr>"
  using nodes_partitioned(2) [of "(NewRenderFramework \<lparr>quitSignal = False, cv_font = None,
        cv_context = \<lparr>width = 100, height = 100\<rparr>, currentColor = None, objects = []\<rparr> None 1)
        \<lparr>AliveNodes := [(''a'', \<lparr>ni_timestamp = 0, ni_Record = nd_record example_node\<rparr>)]\<rparr>" "4 * second" "''a''"]
  by (simp add: stale_def second_def)

subsection \<open>A whole rendering\<close>

definition render_ok :: "'z RenderFramework \<Rightarrow> bool" where
  "render_ok f \<longleftrightarrow> gomap_wf (packetInfos f) \<and> gomap_wf (AliveNodes f) \<and> gomap_wf (SilentNodes f) \<and>
     edges_ok (ConnectEdges f) \<and> edges_ok (RequiredEdges f)"

definition parseable :: "(string \<Rightarrow> time option) \<Rightarrow> 'z Record_scheme \<Rightarrow> bool" where
  "parseable parse r \<longleftrightarrow> (\<forall>x\<in>set (rec_Post r) \<union> set (rec_Receive r). parse (snd x) \<noteq> None)"

lemma aggregate_keeps:
  assumes "render_ok f"
  shows "\<exists>f'. aggregatePacketInfos now f = Inr f' \<and> render_ok f' \<and> rf_canvas f' = rf_canvas f \<and> rf_frames f' = rf_frames f"
proof -
  have "gomap_wf (packetInfos f)" using assms by (simp add: render_ok_def)
  then obtain f' where f': "aggregatePacketInfos now f = Inr f'" "gomap_wf (packetInfos f')"
    using aggregate_figures by (metis gomap_wf_filter)
  then have "AliveNodes f' = AliveNodes f \<and> SilentNodes f' = SilentNodes f \<and> ConnectEdges f' = ConnectEdges f \<and>
      RequiredEdges f' = RequiredEdges f \<and> rf_canvas f' = rf_canvas f \<and> rf_frames f' = rf_frames f"
    by (auto simp: aggregatePacketInfos_def Let_def obind_eq_Inr split: prod.splits if_splits)
  with f' assms show ?thesis by (auto simp: render_ok_def)
qed

lemma cleanup_node_keeps:
  "rf_canvas (cleanup_node now x f) = rf_canvas f" "rf_frames (cleanup_node now x f) = rf_frames f"
  "render_ok f \<Longrightarrow> render_ok (cleanup_node now x f)"
  by (cases x; simp add: cleanup_node_def render_ok_def)+

lemma cleanup_keeps:
  "rf_canvas (fold (cleanup_node now) xs f) = rf_canvas f" "rf_frames (fold (cleanup_node now) xs f) = rf_frames f"
  "render_ok f \<Longrightarrow> render_ok (fold (cleanup_node now) xs f)"
  by (induction xs arbitrary: f) (simp_all add: cleanup_node_keeps)

lemma take_edges_keeps:
  "render_ok f \<Longrightarrow> render_ok (take_edges t i r f)"
  "rf_canvas (take_edges t i r f) = rf_canvas f" "rf_frames (take_edges t i r f) = rf_frames f"
  by (simp_all add: take_edges_def Let_def render_ok_def appendEdges_ok)

lemma note_keeps:
  assumes "gomap_wf m" "parse (snd x) \<noteq> None"
  shows "\<exists>m'. note_post parse x m = Inr m' \<and> gomap_wf m'" "\<exists>m'. note_receive parse x m = Inr m' \<and> gomap_wf m'"
  using assms by (auto simp: note_post_def note_receive_def split: prod.splits option.splits)

lemma ofold_keeps:
  assumes "\<And>x m. x \<in> set xs \<Longrightarrow> P m \<Longrightarrow> \<exists>m'. g x m = Inr m' \<and> P m'" "P m"
  shows "\<exists>m'. ofold g xs m = Inr m' \<and> P m'"
  using assms
proof (induction xs arbitrary: m)
  case (Cons x xs)
  then obtain m' where m': "g x m = Inr m'" "P m'" by (metis list.set_intros(1))
  with Cons show ?case by simp
qed simp

lemma take_record_keeps:
  assumes "render_ok f" "parseable parse r"
  shows "\<exists>due f'. take_record parse t i r f = Inr (due, f') \<and> render_ok f' \<and> rf_canvas f' = rf_canvas f \<and> rf_frames f' = rf_frames f"
proof -
  have "\<exists>m. ofold (note_post parse) (rec_Post r) (packetInfos f) = Inr m \<and> gomap_wf m"
    using assms by (intro ofold_keeps note_keeps) (auto simp: parseable_def render_ok_def)
  then obtain m where m: "ofold (note_post parse) (rec_Post r) (packetInfos f) = Inr m" "gomap_wf m" by blast
  have "\<exists>m'. ofold (note_receive parse) (rec_Receive r) m = Inr m' \<and> gomap_wf m'"
    using assms m by (intro ofold_keeps note_keeps) (auto simp: parseable_def)
  then obtain m' where m': "ofold (note_receive parse) (rec_Receive r) m = Inr m'" "gomap_wf m'" by blast
  have ok: "render_ok (f\<lparr>AliveNodes := mput i v (AliveNodes f), packetInfos := m'\<rparr>)"
    "render_ok (f\<lparr>AliveNodes := mput i v (AliveNodes f)\<rparr>)"
    "render_ok (f\<lparr>AliveNodes := mdel i (AliveNodes f), SilentNodes := mdel i (SilentNodes f)\<rparr>)" for v
    using assms(1) m' by (auto simp: render_ok_def)
  show ?thesis
    unfolding take_record_def by (simp add: m m' ok assms(1) take_edges_keeps ex_bool_eq)
qed

text \<open>
  What the loop asks of a drawer: on a canvas it is ready for it draws without a fault, what it
  drew can be rendered, and the canvas is ready for the next frame.
\<close>

locale story_drawer =
  fixes drawer :: "'z RenderFramework \<Rightarrow> nat \<Rightarrow> Canvas \<Rightarrow> Canvas outcome"
    and ready :: "Canvas \<Rightarrow> bool"
  assumes draws: "ready c \<Longrightarrow> \<exists>c' cmds c''. drawer f sec c = Inr c' \<and> Render c' = Inr (cmds, c'') \<and> ready c''"
begin

lemma draw_frame_ok:
  assumes "render_ok f" "ready (rf_canvas f)"
  shows "\<exists>f'. draw_frame drawer png sec f = Inr f' \<and> render_ok f' \<and> ready (rf_canvas f') \<and>
     map fst (rf_frames f') = map fst (rf_frames f) @ [sec]"
  using draws [OF assms(2), of f sec] assms(1) by (auto simp: draw_frame_def render_ok_def)

lemma frames_ok:
  assumes "render_ok f" "ready (rf_canvas f)" "\<And>s. \<not> quit s"
  shows "\<exists>k f'. draw_frames drawer png quit recordTime timestamp sec f = Inr (False, timestamp + int k * second, sec + k, f') \<and>
     render_ok f' \<and> ready (rf_canvas f') \<and>
     map fst (rf_frames f') = map fst (rf_frames f) @ [sec + 1..<sec + k + 1] \<and>
     recordTime \<le> timestamp + int k * second \<and> (k = 0 \<or> timestamp + (int k - 1) * second < recordTime)"
  using assms
proof (induction "nat (recordTime - timestamp)" arbitrary: timestamp sec f rule: less_induct)
  case less
  show ?case
  proof (cases "timestamp < recordTime")
    case False
    then show ?thesis using less.prems
      by (intro exI [of _ 0] exI [of _ f]) (simp add: draw_frames.simps)
  next
    case True
    obtain f1 where f1: "aggregatePacketInfos timestamp f = Inr f1" "render_ok f1" "ready (rf_canvas f1)" "rf_frames f1 = rf_frames f"
      using aggregate_keeps [OF less.prems(1)] less.prems(2) by metis
    obtain f2 where f2: "draw_frame drawer png (sec + 1) f1 = Inr f2" "render_ok f2" "ready (rf_canvas f2)"
      "map fst (rf_frames f2) = map fst (rf_frames f) @ [sec + 1]"
      using draw_frame_ok [OF f1(2,3)] f1(4) by metis
    define f3 where "f3 = cleanupNodes timestamp f2"
    define f4 where "f4 = f3\<lparr>ConnectEdges := cleanupEdges timestamp (ConnectEdges f3)\<rparr>"
    define f5 where "f5 = f4\<lparr>RequiredEdges := cleanupEdges timestamp (RequiredEdges f4)\<rparr>"
    have f5: "render_ok f5" "ready (rf_canvas f5)" "rf_frames f5 = rf_frames f2"
      using f2 cleanup_keeps [where now = timestamp and xs = "AliveNodes f2" and f = f2]
      by (simp_all add: f5_def f4_def f3_def cleanupNodes_fold render_ok_def cleanupEdges_ok)
    have step: "draw_frames drawer png quit recordTime timestamp sec f =
        draw_frames drawer png quit recordTime (timestamp + second) (sec + 1) f5"
      using True f1(1) f2(1) less.prems(3) by (subst draw_frames.simps) (simp add: f3_def f4_def f5_def Let_def)
    have "nat (recordTime - (timestamp + second)) < nat (recordTime - timestamp)"
      using True by (simp add: second_def)
    from less.hyps [OF this f5(1,2) less.prems(3)] obtain k f' where
      k: "draw_frames drawer png quit recordTime (timestamp + second) (sec + 1) f5 =
            Inr (False, timestamp + second + int k * second, sec + 1 + k, f')"
         "render_ok f'" "ready (rf_canvas f')"
         "map fst (rf_frames f') = map fst (rf_frames f5) @ [sec + 1 + 1..<sec + 1 + k + 1]"
         "recordTime \<le> timestamp + second + int k * second"
         "k = 0 \<or> timestamp + second + (int k - 1) * second < recordTime" by blast
    have "map fst (rf_frames f') = map fst (rf_frames f) @ [sec + 1..<sec + Suc k + 1]"
      using k(4) f5(3) f2(4) by (simp add: upt_conv_Cons)
    moreover have ts: "timestamp + second + int k * second = timestamp + int (Suc k) * second"
      by (simp add: distrib_right)
    moreover have "timestamp + (int (Suc k) - 1) * second < recordTime"
      using k(6) True by (auto simp: distrib_right left_diff_distrib)
    ultimately show ?thesis
      using k(1,2,3,5) step unfolding ts by (intro exI [of _ "Suc k"] exI [of _ f']) simp
  qed
qed

lemma Start_ok:
  assumes "\<forall>x\<in>set rs. parseable parse (snd (snd x))" "render_ok f" "ready (rf_canvas f)" "\<And>s. \<not> quit s"
  shows "\<exists>timestamp' k f'.
     rf_Start drawer parse png quit (map (\<lambda>(t, i, r). ReadRecord t i r) rs @ [ReadEnd]) timestamp sec f =
       Inr (None, timestamp', sec + k, f') \<and>
     render_ok f' \<and> map fst (rf_frames f') = map fst (rf_frames f) @ [sec + 1..<sec + k + 1]"
  using assms
proof (induction rs arbitrary: timestamp sec f)
  case Nil
  then show ?case by (intro exI [of _ timestamp] exI [of _ 0] exI [of _ f]) simp
next
  case (Cons x rs)
  obtain t i r where x: "x = (t, i, r)" by (cases x)
  let ?ts = "if timestamp = 0 then round_second t else timestamp"
  obtain due f1 where f1: "take_record parse ?ts i r f = Inr (due, f1)" "render_ok f1" "ready (rf_canvas f1)" "rf_frames f1 = rf_frames f"
    using take_record_keeps [OF Cons.prems(2), of parse r ?ts i] Cons.prems(1,3) x by auto
  show ?case
  proof (cases due)
    case False
    with f1 Cons.IH [OF _ f1(2,3) Cons.prems(4), of ?ts sec] Cons.prems(1) show ?thesis by (simp add: x Let_def)
  next
    case True
    obtain k f2 where f2: "draw_frames drawer png quit t ?ts sec f1 = Inr (False, ?ts + int k * second, sec + k, f2)"
      "render_ok f2" "ready (rf_canvas f2)" "map fst (rf_frames f2) = map fst (rf_frames f1) @ [sec + 1..<sec + k + 1]"
      using frames_ok [where quit = quit, OF f1(2,3) Cons.prems(4), where png = png and recordTime = t and timestamp = ?ts and sec = sec] by blast
    from Cons.IH [OF _ f2(2,3) Cons.prems(4), of "?ts + int k * second" "sec + k"] Cons.prems(1)
    obtain ts' l f' where l: "rf_Start drawer parse png quit (map (\<lambda>(t, i, r). ReadRecord t i r) rs @ [ReadEnd]) (?ts + int k * second) (sec + k) f2 =
        Inr (None, ts', sec + k + l, f')" "render_ok f'"
        "map fst (rf_frames f') = map fst (rf_frames f2) @ [sec + k + 1..<sec + k + l + 1]"
      by auto
    have "[sec + 1..<(sec + k + 1) + l] = [sec + 1..<sec + k + 1] @ [sec + k + 1..<(sec + k + 1) + l]"
      by (rule upt_add_eq_append) simp
    moreover have "(sec + k + 1) + l = sec + k + l + 1" "(sec + k + 1) + l = sec + (k + l) + 1" by simp_all
    ultimately have "[sec + 1..<sec + k + 1] @ [sec + k + 1..<sec + k + l + 1] = [sec + 1..<sec + (k + l) + 1]" by metis
    with True f1 f2 l x show ?thesis
      by (intro exI [of _ ts'] exI [of _ "k + l"] exI [of _ f']) (simp add: Let_def add.assoc)
  qed
qed

end

end
