(* ===== verification/Sim_Draw.thy ===== *)
theory Sim_Draw
  imports Sim_Render Node_ID
begin

text \<open>
  The two stories a simulation is drawn as (\<open>src/simulator/circle/render.go\<close> and
  \<open>src/simulator/sphere/render.go\<close>): the nodes on a circle by their identifiers, or on a sphere by
  their positions, with their connections.

  \<open>fixed1\<close> is the format \<open>%.1f\<close>, of a number or of none (a quotient of zeros).
\<close>

definition scale :: real where "scale = 0.95"

subsection \<open>What both stories show\<close>

definition show_int :: "int \<Rightarrow> string" where
  "show_int n = (if n < 0 then ''-'' @ decimal (nat (- n)) else decimal (nat n))"

text \<open>\<open>Duration.Milliseconds\<close>, rounded towards zero.\<close>

definition Milliseconds :: "duration \<Rightarrow> int" where
  "Milliseconds d = sgn d * (\<bar>d\<bar> div 10 ^ 6)"

definition newline :: string where "newline = [CHR 0x0A]"

definition count_nodes :: "('z Record_scheme \<Rightarrow> bool) \<Rightarrow> 'z RenderFramework \<Rightarrow> nat" where
  "count_nodes P f = length (filter (\<lambda>(i, n). P (ni_Record n)) (AliveNodes f))"

definition status_text :: "(real option \<Rightarrow> string) \<Rightarrow> nat \<Rightarrow> 'z RenderFramework \<Rightarrow> string" where
  "status_text fixed1 sec f =
     (let offline = count_nodes (\<lambda>r. \<not> IsOnline r) f;
          unstable = count_nodes (\<lambda>r. IsOnline r \<and> \<not> IsStable r) f;
          alive = length (AliveNodes f);
          edges = length (ConnectEdges f);
          avg = (if alive = 0 then None else Some (real edges / real alive * 2))
      in ''time: '' @ decimal sec @ '' s'' @ newline @ ''nodes: '' @ decimal alive @ newline @
         ''lost: '' @ decimal (length (SilentNodes f)) @ '', offline: '' @ decimal offline @
         '', unstable: '' @ decimal unstable @ newline @
         ''connections: '' @ decimal edges @ '', avg:'' @ fixed1 avg)"

definition packet_text :: "(real option \<Rightarrow> string) \<Rightarrow> 'z RenderFramework \<Rightarrow> string" where
  "packet_text fixed1 f =
     ''packet duration p90: '' @ show_int (Milliseconds (PacketDurationP90 f)) @ ''ms'' @ newline @
     ''packet duration p99: '' @ show_int (Milliseconds (PacketDurationP99 f)) @ ''ms'' @ newline @
     ''packets/min: '' @ decimal (PacketCount f) @ newline @
     ''loss: '' @ fixed1 (map_option (\<lambda>r. r * 100) (PacketLossRate f)) @ ''%''"

definition draw_legend :: "(real option \<Rightarrow> string) \<Rightarrow> 'z RenderFramework \<Rightarrow> nat \<Rightarrow> Canvas \<Rightarrow> Canvas outcome" where
  "draw_legend fixed1 f sec canvas =
     (let canvas = SetColor 0 0 0 canvas
      in obind (DrawText (XFromPixel canvas 8) (YFromPixel canvas (GetCanvasHeighPixel canvas - 96)) (status_text fixed1 sec f) canvas) (\<lambda>canvas.
           DrawText (XFromPixel canvas 8) (YFromPixel canvas 8) (packet_text fixed1 f) canvas))"

definition set_node_color :: "'z Record_scheme \<Rightarrow> Canvas \<Rightarrow> Canvas" where
  "set_node_color r =
     (if \<not> IsOnline r then SetColor 255 63 0 else if \<not> IsStable r then SetColor 0 255 63 else SetColor 0 0 255)"

subsection \<open>The circle\<close>

definition circle_convertCoordinate :: "string \<Rightarrow> (real \<times> real) outcome" where
  "circle_convertCoordinate n =
     (case NewNodeIDFromString n of
        Inl e \<Rightarrow> Inl (Panic (''invalid nodeID: '' @ n @ '', '' @ e))
      | Inr nodeID \<Rightarrow>
          obind (nid_Raw nodeID) (\<lambda>(i, _).
            let rad = 2 * pi * real (unat i) / real (2 ^ 64 - 1 :: nat)
            in Inr (cos rad * scale, sin rad * scale)))"

definition circle_drawNode :: "string \<Rightarrow> Canvas \<Rightarrow> Canvas outcome" where
  "circle_drawNode n canvas = obind (circle_convertCoordinate n) (\<lambda>(x, y). Inr (DrawBox2 x y 5 canvas))"

definition circle_drawEdge :: "string \<Rightarrow> string \<Rightarrow> Canvas \<Rightarrow> Canvas outcome" where
  "circle_drawEdge n1 n2 canvas =
     obind (circle_convertCoordinate n1) (\<lambda>(x1, y1).
     obind (circle_convertCoordinate n2) (\<lambda>(x2, y2).
       Inr (DrawLine2 x1 y1 x2 y2 canvas)))"

definition circle_edge :: "'z RenderFramework \<Rightarrow> Edge \<Rightarrow> Canvas \<Rightarrow> Canvas outcome" where
  "circle_edge f e canvas =
     (let canvas = (if mhas (SilentNodes f) (NodeID1 e) \<or> mhas (SilentNodes f) (NodeID2 e)
                    then SetColor 63 63 63 canvas else canvas)
      in circle_drawEdge (NodeID1 e) (NodeID2 e) canvas)"

definition circle_drawer :: "(real option \<Rightarrow> string) \<Rightarrow> 'z RenderFramework \<Rightarrow> nat \<Rightarrow> Canvas \<Rightarrow> Canvas outcome" where
  "circle_drawer fixed1 f sec canvas =
     obind (draw_legend fixed1 f sec canvas) (\<lambda>canvas.
     obind (ofold (\<lambda>(n, info) canvas. circle_drawNode n (set_node_color (ni_Record info) canvas)) (AliveNodes f) canvas) (\<lambda>canvas.
     obind (ofold (\<lambda>(n, info). circle_drawNode n) (SilentNodes f) (SetColor 63 63 63 canvas)) (\<lambda>canvas.
     obind (ofold (\<lambda>(e, t) canvas. circle_edge f e (SetColor 0 63 255 canvas)) (ConnectEdges f) canvas) (\<lambda>canvas.
       ofold (\<lambda>(e, t) canvas.
         let canvas = SetColor 0 255 63 canvas
         in if mhas (ConnectEdges f) e then Inr canvas else circle_edge f e canvas) (RequiredEdges f) canvas))))"

definition circle_RunRender ::
  "(real option \<Rightarrow> string) \<Rightarrow> (string \<Rightarrow> time option) \<Rightarrow> (string \<Rightarrow> string option) \<Rightarrow> (nat \<Rightarrow> bool) \<Rightarrow>
   string option \<Rightarrow> (string \<Rightarrow> font result) \<Rightarrow> string \<Rightarrow> unit read list \<Rightarrow> Filer option \<Rightarrow> Canvas \<Rightarrow>
   (string option \<times> time \<times> nat \<times> unit RenderFramework) outcome" where
  "circle_RunRender fixed1 parse png quit init open_font env reads filer canvas =
     obind (EnableFont init open_font env [] canvas) (\<lambda>canvas.
       rf_Start (circle_drawer fixed1) parse png quit reads 0 0 (NewRenderFramework canvas filer 1))"

subsection \<open>The sphere\<close>

type_synonym sphere_ext = "unit sphere_Record_ext"

definition sphere_convertCoordinate :: "sphere_ext NodeInfo \<Rightarrow> real \<times> real \<times> real" where
  "sphere_convertCoordinate n =
     (let r = ni_Record n
      in (cos (sr_X r) * cos (sr_Y r) * scale, sin (sr_Y r) * scale, sin (sr_X r) * cos (sr_Y r)))"

definition sphere_drawNode :: "sphere_ext NodeInfo \<Rightarrow> Canvas \<Rightarrow> Canvas" where
  "sphere_drawNode n canvas = (let (x, y, z) = sphere_convertCoordinate n in DrawBox3 x y z 5 canvas)"

definition sphere_drawEdge :: "sphere_ext NodeInfo \<Rightarrow> sphere_ext NodeInfo \<Rightarrow> Canvas \<Rightarrow> Canvas" where
  "sphere_drawEdge n1 n2 canvas =
     (let (x1, y1, z1) = sphere_convertCoordinate n1; (x2, y2, z2) = sphere_convertCoordinate n2
      in DrawLine3 x1 y1 z1 x2 y2 z2 canvas)"

text \<open>The node of an end of an edge: alive, or silent and then in grey, or none.\<close>

definition sphere_end :: "sphere_ext RenderFramework \<Rightarrow> string \<Rightarrow> Canvas \<Rightarrow> sphere_ext NodeInfo option \<times> Canvas" where
  "sphere_end f i canvas =
     (case mget (AliveNodes f) i of Some n \<Rightarrow> (Some n, canvas)
      | None \<Rightarrow> (mget (SilentNodes f) i, SetColor 63 63 63 canvas))"

definition sphere_edge :: "sphere_ext RenderFramework \<Rightarrow> Edge \<times> time \<Rightarrow> Canvas \<Rightarrow> Canvas" where
  "sphere_edge f = (\<lambda>(e, t) canvas.
     let canvas = SetColor 0 255 63 canvas;
         canvas = (if mhas (ConnectEdges f) e then SetColor 0 0 255 canvas else canvas);
         (n1, canvas) = sphere_end f (NodeID1 e) canvas;
         (n2, canvas) = sphere_end f (NodeID2 e) canvas
     in case (n1, n2) of (Some a, Some b) \<Rightarrow> sphere_drawEdge a b canvas | _ \<Rightarrow> canvas)"

definition sphere_node :: "string \<times> sphere_ext NodeInfo \<Rightarrow> Canvas \<Rightarrow> Canvas" where
  "sphere_node = (\<lambda>(i, info) canvas. sphere_drawNode info (set_node_color (ni_Record info) canvas))"

definition sphere_drawer :: "(real option \<Rightarrow> string) \<Rightarrow> sphere_ext RenderFramework \<Rightarrow> nat \<Rightarrow> Canvas \<Rightarrow> Canvas outcome" where
  "sphere_drawer fixed1 f sec canvas =
     obind (draw_legend fixed1 f sec canvas) (\<lambda>canvas.
       let canvas = fold sphere_node (AliveNodes f) canvas;
           canvas = fold (\<lambda>(i, n). sphere_drawNode n) (SilentNodes f) (SetColor 63 63 63 canvas)
       in Inr (fold (sphere_edge f) (RequiredEdges f) canvas))"

definition sphere_RunRender ::
  "(real option \<Rightarrow> string) \<Rightarrow> (string \<Rightarrow> time option) \<Rightarrow> (string \<Rightarrow> string option) \<Rightarrow> (nat \<Rightarrow> bool) \<Rightarrow>
   string option \<Rightarrow> (string \<Rightarrow> font result) \<Rightarrow> string \<Rightarrow> sphere_ext read list \<Rightarrow> Filer option \<Rightarrow> Canvas \<Rightarrow>
   (string option \<times> time \<times> nat \<times> sphere_ext RenderFramework) outcome" where
  "sphere_RunRender fixed1 parse png quit init open_font env reads filer canvas =
     obind (EnableFont init open_font env [] canvas) (\<lambda>canvas.
       rf_Start (sphere_drawer fixed1) parse png quit reads 0 0 (NewRenderFramework canvas filer 2))"

subsection \<open>Every frame can be drawn\<close>

text \<open>A canvas to draw on: a font that renders every line, and objects that have a colour.\<close>

definition drawable :: "font \<Rightarrow> Canvas \<Rightarrow> bool" where
  "drawable ft c \<longleftrightarrow> cv_font c = Some ft \<and> (\<forall>obj\<in>set (objects c). \<exists>cs. obj_render (cv_context c) obj = Inr cs)"

definition coloured :: "font \<Rightarrow> Canvas \<Rightarrow> bool" where
  "coloured ft c \<longleftrightarrow> drawable ft c \<and> currentColor c \<noteq> None"

lemma render_lines_ok: "(\<And>l. ft l \<noteq> None) \<Longrightarrow> tx_font t = ft \<Longrightarrow> \<exists>cs. render_lines c t ls h = Inr cs"
proof (induction ls arbitrary: h)
  case (Cons l ls)
  obtain w k where "ft l = Some (w, k)" using Cons.prems(1) [of l] by auto
  moreover obtain cs where "render_lines c t ls (h + k) = Inr cs" using Cons by blast
  ultimately show ?case using Cons.prems(2) by (simp add: split_def Let_def)
qed simp

lemma SetColor_coloured: "drawable ft c \<Longrightarrow> coloured ft (SetColor r g b c)"
  by (simp add: coloured_def drawable_def SetColor_def)

lemma coloured_drawable: "coloured ft c \<Longrightarrow> drawable ft c"
  by (simp add: coloured_def)

lemma Draw_coloured:
  assumes "coloured ft c"
  shows "coloured ft (DrawBox3 x y z w c)" "coloured ft (DrawLine3 x y z x' y' z' c)"
  using assms
  by (auto simp: coloured_def drawable_def DrawBox3_def DrawLine3_def b3_render_def l3_render_def with_color_def)

lemma DrawText_coloured:
  assumes "coloured ft c" "\<And>l. ft l \<noteq> None"
  shows "\<exists>c'. DrawText x y caption c = Inr c' \<and> coloured ft c'"
proof -
  obtain col where col: "currentColor c = Some col" using assms(1) by (auto simp: coloured_def)
  let ?t = "\<lparr>tx_x = x, tx_y = y, tx_font = ft, tx_color = Some col, tx_caption = caption\<rparr>"
  obtain cs where "render_lines (cv_context c) ?t (split_lines caption) 0 = Inr cs"
    using render_lines_ok [OF assms(2), of ?t] by fastforce
  then have "obj_render (cv_context c) (OText ?t) = Inr cs" by (simp add: tx_render_def with_color_def)
  with assms(1) col show ?thesis by (auto simp: DrawText_def coloured_def drawable_def)
qed

lemma legend_coloured:
  assumes "drawable ft c" "\<And>l. ft l \<noteq> None"
  shows "\<exists>c'. draw_legend fixed1 f sec c = Inr c' \<and> coloured ft c'"
proof -
  obtain c1 where c1: "DrawText (XFromPixel (SetColor 0 0 0 c) 8)
      (YFromPixel (SetColor 0 0 0 c) (GetCanvasHeighPixel (SetColor 0 0 0 c) - 96)) (status_text fixed1 sec f) (SetColor 0 0 0 c) = Inr c1"
    "coloured ft c1"
    using DrawText_coloured [OF SetColor_coloured [OF assms(1)] assms(2)] by metis
  then show ?thesis
    using DrawText_coloured [OF c1(2) assms(2)] by (simp add: draw_legend_def Let_def)
qed

lemma fold_coloured: "(\<And>x c. coloured ft c \<Longrightarrow> coloured ft (g x c)) \<Longrightarrow> coloured ft c \<Longrightarrow> coloured ft (fold g xs c)"
  by (induction xs arbitrary: c) auto

lemma sphere_drawNode_coloured: "coloured ft c \<Longrightarrow> coloured ft (sphere_drawNode n c)"
  by (simp add: sphere_drawNode_def Draw_coloured split: prod.splits)

lemma sphere_node_coloured: "coloured ft c \<Longrightarrow> coloured ft (sphere_node x c)"
  by (cases x) (simp add: sphere_node_def set_node_color_def sphere_drawNode_coloured SetColor_coloured coloured_drawable)

lemma sphere_end_coloured: "coloured ft c \<Longrightarrow> coloured ft (snd (sphere_end f i c))"
  by (simp add: sphere_end_def SetColor_coloured coloured_drawable split: option.splits)

lemma sphere_edge_coloured:
  assumes "coloured ft c"
  shows "coloured ft (sphere_edge f x c)"
proof -
  obtain e t where x: "x = (e, t)" by (cases x)
  let ?c = "if mhas (ConnectEdges f) e then SetColor 0 0 255 (SetColor 0 255 63 c) else SetColor 0 255 63 c"
  have "coloured ft ?c" using assms by (simp add: SetColor_coloured coloured_drawable)
  moreover obtain n1 c1 where 1: "sphere_end f (NodeID1 e) ?c = (n1, c1)" by fastforce
  moreover obtain n2 c2 where 2: "sphere_end f (NodeID2 e) c1 = (n2, c2)" by fastforce
  ultimately have "coloured ft c2" using sphere_end_coloured by (metis snd_conv)
  with 1 2 show ?thesis
    by (simp add: sphere_edge_def x sphere_drawEdge_def Draw_coloured Let_def split: option.splits prod.splits)
qed

lemma sphere_draws:
  assumes "drawable ft c" "\<And>l. ft l \<noteq> None"
  shows "\<exists>c'. sphere_drawer fixed1 f sec c = Inr c' \<and> drawable ft c'"
proof -
  obtain c1 where c1: "draw_legend fixed1 f sec c = Inr c1" "coloured ft c1"
    using legend_coloured [OF assms] by blast
  let ?c2 = "fold sphere_node (AliveNodes f) c1"
  let ?c3 = "fold (\<lambda>(i, n). sphere_drawNode n) (SilentNodes f) (SetColor 63 63 63 ?c2)"
  have "coloured ft ?c2" using c1(2) by (intro fold_coloured sphere_node_coloured)
  then have "coloured ft (SetColor 63 63 63 ?c2)" by (simp add: SetColor_coloured coloured_drawable)
  then have "coloured ft ?c3"
    by (rule fold_coloured [rotated]) (simp add: sphere_drawNode_coloured split: prod.splits)
  then have "coloured ft (fold (sphere_edge f) (RequiredEdges f) ?c3)"
    by (rule fold_coloured [rotated]) (rule sphere_edge_coloured)
  with c1 show ?thesis by (auto simp: sphere_drawer_def Let_def dest: coloured_drawable)
qed

lemma Render_drawable: "drawable ft c \<Longrightarrow> \<exists>cmds c'. Render c = Inr (cmds, c') \<and> drawable ft c'"
  using render_all_colours [of "sort_by compare_z (objects c)" "cv_context c"]
  by (auto simp: Render_def drawable_def)

definition total_font :: "font \<Rightarrow> bool" where
  "total_font ft \<longleftrightarrow> (\<forall>line. ft line \<noteq> None)"

definition ready_canvas :: "Canvas \<Rightarrow> bool" where
  "ready_canvas c \<longleftrightarrow> (\<exists>ft. total_font ft \<and> drawable ft c)"

interpretation sphere_frames: story_drawer "sphere_drawer fixed1" ready_canvas for fixed1
proof
  fix c f sec assume "ready_canvas c"
  then obtain ft where ft: "\<And>l. ft l \<noteq> None" "drawable ft c" by (auto simp: ready_canvas_def total_font_def)
  from sphere_draws [where ft = ft, OF ft(2,1)] obtain c' where c': "sphere_drawer fixed1 f sec c = Inr c'" "drawable ft c'"
    by blast
  with Render_drawable [OF c'(2)] ft(1)
  show "\<exists>c' cmds c''. sphere_drawer fixed1 f sec c = Inr c' \<and> Render c' = Inr (cmds, c'') \<and> ready_canvas c''"
    by (auto simp: ready_canvas_def total_font_def)
qed

text \<open>
  Rendering a simulation on the sphere. With a font that renders every line, a fresh canvas and
  records whose times can be read, the rendering of any list of records ends at its end without
  error; the frames are numbered one after the other from 1, and in the state it ends with every
  map is a map and every edge stands once, with its smaller end first.
\<close>

theorem sphere_rendering:
  assumes "init = None" "env \<noteq> []" "open_font env = Inr ft" "total_font ft"
    and "cv_font canvas = None" "objects canvas = []"
    and "\<forall>x\<in>set rs. parseable parse (snd (snd x))" "\<And>s. \<not> quit s"
  shows "\<exists>timestamp k f.
     sphere_RunRender fixed1 parse png quit init open_font env (map (\<lambda>(t, i, r). ReadRecord t i r) rs @ [ReadEnd]) filer canvas =
       Inr (None, timestamp, k, f) \<and>
     map fst (rf_frames f) = [1..<k + 1] \<and> render_ok f"
proof -
  let ?c = "canvas\<lparr>cv_font := Some ft\<rparr>"
  have font: "EnableFont init open_font env [] canvas = Inr ?c"
    using assms(1,2,3,5) by (simp add: EnableFont_def)
  let ?f = "NewRenderFramework ?c filer 2 :: sphere_ext RenderFramework"
  have "render_ok ?f" by (simp add: NewRenderFramework_def render_ok_def edges_ok_def)
  moreover have "ready_canvas (rf_canvas ?f)"
    using assms(4,6) by (auto simp: NewRenderFramework_def ready_canvas_def drawable_def)
  ultimately have "\<exists>timestamp' k f'.
     rf_Start (sphere_drawer fixed1) parse png quit (map (\<lambda>(t, i, r). ReadRecord t i r) rs @ [ReadEnd]) 0 0 ?f =
       Inr (None, timestamp', 0 + k, f') \<and>
     render_ok f' \<and> map fst (rf_frames f') = map fst (rf_frames ?f) @ [0 + 1..<0 + k + 1]"
    using assms(7,8) by (intro sphere_frames.Start_ok)
  then obtain timestamp k f where
    "rf_Start (sphere_drawer fixed1) parse png quit (map (\<lambda>(t, i, r). ReadRecord t i r) rs @ [ReadEnd]) 0 0 ?f = Inr (None, timestamp, k, f)"
    "render_ok f" "map fst (rf_frames f) = map fst (rf_frames ?f) @ [1..<k + 1]" by (metis add_0)
  moreover have "rf_frames ?f = []" by (simp add: NewRenderFramework_def)
  ultimately show ?thesis using font
    by (intro exI [of _ timestamp] exI [of _ k] exI [of _ f]) (simp add: sphere_RunRender_def del: upt.simps)
qed

theorem sphere_rendering_witness:
  "\<exists>timestamp k f. sphere_RunRender (\<lambda>_. []) (\<lambda>_. Some 0) (\<lambda>_. None) (\<lambda>_. False) None
       (\<lambda>_. Inr (\<lambda>line. Some (8 * int (length line), 16))) ''font.ttf''
       [ReadRecord second ''a'' (nd_record example_node), ReadEnd] None
       \<lparr>quitSignal = False, cv_font = None, cv_context = \<lparr>width = 720, height = 720\<rparr>, currentColor = None, objects = []\<rparr> =
     Inr (None, timestamp, k, f) \<and> map fst (rf_frames f) = [1..<k + 1]"
  using sphere_rendering [of None "''font.ttf''" "\<lambda>_. Inr (\<lambda>line. Some (8 * int (length line), 16))"
      "\<lambda>line. Some (8 * int (length line), 16)"
      "\<lparr>quitSignal = False, cv_font = None, cv_context = \<lparr>width = 720, height = 720\<rparr>, currentColor = None, objects = []\<rparr>"
      "[(second, ''a'', nd_record example_node)]" "\<lambda>_. Some 0" "\<lambda>_. False" "\<lambda>_. []" "\<lambda>_. None" None]
  by (simp add: total_font_def parseable_def del: upt.simps) blast

subsection \<open>Places on the canvas\<close>

text \<open>
  The points of both stories lie on the canvas: the circle has the radius \<open>scale\<close>, the sphere's
  points lie in the disc of that radius, with a depth of at most 1.
\<close>

lemma circle_on_canvas:
  "circle_convertCoordinate n = Inr (x, y) \<Longrightarrow> x\<^sup>2 + y\<^sup>2 = scale\<^sup>2"
  by (auto simp: circle_convertCoordinate_def Let_def obind_eq_Inr power_mult_distrib
      split: sum.splits simp flip: distrib_right)

lemma sphere_on_canvas:
  assumes "sphere_convertCoordinate n = (x, y, z)"
  shows "x\<^sup>2 + y\<^sup>2 + (scale * z)\<^sup>2 = scale\<^sup>2"
proof -
  let ?a = "sr_X (ni_Record n)" and ?b = "sr_Y (ni_Record n)"
  have "x = cos ?a * cos ?b * scale" "y = sin ?b * scale" "z = sin ?a * cos ?b"
    using assms by (auto simp: sphere_convertCoordinate_def Let_def)
  then have "x\<^sup>2 + y\<^sup>2 + (scale * z)\<^sup>2 = (((cos ?a)\<^sup>2 + (sin ?a)\<^sup>2) * (cos ?b)\<^sup>2 + (sin ?b)\<^sup>2) * scale\<^sup>2"
    by (simp only: power_mult_distrib) (simp only: algebra_simps)
  also have "\<dots> = scale\<^sup>2" by simp
  finally show ?thesis .
qed

end
