(* ===== verification/Sim_Delay.thy ===== *)
theory Sim_Delay
  imports Geometry
begin

text \<open>
  The network delays of a simulation (\<open>src/simulator/delay\<close>): every pod is placed at the
  measuring server closest to it, the measured times between the servers become the delays
  between the pods, and traffic control of the pod is told to apply them.

  \<open>strconv.ParseFloat\<close> is the argument \<open>parse\<close>, a number or nothing. A file is the list of its
  records as the csv reader gives them; reading past a damaged record gives the record that came
  with the error, nil being the empty list. A command for \<open>tc\<close> is a value of a datatype that
  holds what its text holds, and what the cluster answers to it is an argument, a function of
  the commands the pod has run before. The goroutines of \<open>ApplyDelay\<close> each work on a pod of
  their own; the order they end in is an argument.
\<close>

subsection \<open>Locations\<close>

record location =
  longitude :: real
  latitude :: real

definition newLocationByString :: "(string \<Rightarrow> real option) \<Rightarrow> string \<Rightarrow> string \<Rightarrow> location result" where
  "newLocationByString parse lon lat =
     (case parse lon of None \<Rightarrow> Inl ''invalid syntax''
      | Some lonFloat \<Rightarrow>
          (case parse lat of None \<Rightarrow> Inl ''invalid syntax''
           | Some latFloat \<Rightarrow> Inr \<lparr>longitude = lonFloat, latitude = latFloat\<rparr>))"

text \<open>\<open>math.Atan2\<close>, the signs of zeros apart.\<close>

definition Atan2 :: "real \<Rightarrow> real \<Rightarrow> real" where
  "Atan2 y x =
     (if x > 0 then arctan (y / x)
      else if x < 0 then (if y \<ge> 0 then arctan (y / x) + pi else arctan (y / x) - pi)
      else if y > 0 then pi / 2 else if y < 0 then - pi / 2 else 0)"

definition loc_a :: "location \<Rightarrow> location \<Rightarrow> real" where
  "loc_a l other =
     (let dLat = (latitude other - latitude l) * (pi / 180);
          dLon = (longitude other - longitude l) * (pi / 180)
      in sin (dLat / 2) * sin (dLat / 2) +
         cos (latitude l * (pi / 180)) * cos (latitude other * (pi / 180)) * sin (dLon / 2) * sin (dLon / 2))"

definition loc_distance :: "location \<Rightarrow> location \<Rightarrow> real" where
  "loc_distance l other =
     (let a = loc_a l other; c = 2 * Atan2 (sqrt a) (sqrt (1 - a)) in 6371 * c)"

subsection \<open>The two files\<close>

text \<open>\<open>servers.csv\<close>: identifier in the first column, latitude and longitude in the last two.\<close>

fun server_rows ::
  "(string \<Rightarrow> real option) \<Rightarrow> string list list \<Rightarrow> (string, location) gomap \<Rightarrow> (string, location) gomap outcome" where
  "server_rows parse [] m = Inr m"
| "server_rows parse (row # rows) m =
     (if length row \<noteq> 10 then Inl (Panic ''invalid row'')
      else case parse (row ! 8) of None \<Rightarrow> Inl (Panic ''failed to parse latitude'')
      | Some lat \<Rightarrow>
          (case parse (row ! 9) of None \<Rightarrow> Inl (Panic ''failed to parse longitude'')
           | Some lon \<Rightarrow> server_rows parse rows (mput (row ! 0) \<lparr>longitude = lon, latitude = lat\<rparr> m)))"

definition readServersFile ::
  "(string \<Rightarrow> real option) \<Rightarrow> string list list result \<Rightarrow> (string, location) gomap result outcome" where
  "readServersFile parse file =
     (case file of Inl e \<Rightarrow> Inr (Inl (''failed to read server file: '' @ e))
      | Inr rows \<Rightarrow> obind (server_rows parse (tl rows) []) (\<lambda>m. Inr (Inr m)))"

type_synonym idPair = "string \<times> string"

definition ordered_pair :: "string \<Rightarrow> string \<Rightarrow> idPair" where
  "ordered_pair id1 id2 = (if compare_strings id2 id1 < 0 then (id2, id1) else (id1, id2))"

text \<open>\<open>pings.csv\<close>: the two servers in the first columns, the mean time in the fifth.\<close>

fun ping_rows ::
  "(string \<Rightarrow> real option) \<Rightarrow> string set \<Rightarrow> string list list \<Rightarrow> (idPair, real) gomap \<Rightarrow> (idPair, real) gomap outcome" where
  "ping_rows parse idSet [] m = Inr m"
| "ping_rows parse idSet (row # rows) m =
     (if row = [] then Inl (Panic ''index out of range'')
      else if row ! 0 = ''source'' then ping_rows parse idSet rows m
      else if length row \<noteq> 7 then Inl (Panic ''invalid row'')
      else let (id1, id2) = ordered_pair (row ! 0) (row ! 1)
        in case parse (row ! 4) of None \<Rightarrow> Inl (Panic ''failed to parse delay'')
           | Some delay \<Rightarrow>
               ping_rows parse idSet rows
                 (if id1 \<notin> idSet \<or> id2 \<notin> idSet then m else mput (id1, id2) (delay / 1000) m))"

definition readPingsFile ::
  "(string \<Rightarrow> real option) \<Rightarrow> string list list result \<Rightarrow> string set \<Rightarrow> (idPair, real) gomap result outcome" where
  "readPingsFile parse file idSet =
     (case file of Inl e \<Rightarrow> Inr (Inl (''failed to open pings file: '' @ e))
      | Inr rows \<Rightarrow> obind (ping_rows parse idSet rows []) (\<lambda>m. Inr (Inr m)))"

definition closer :: "location \<Rightarrow> string \<times> location \<Rightarrow> string \<times> real \<Rightarrow> string \<times> real" where
  "closer podLocation = (\<lambda>(ident, loc) (closest, closestDistance).
     let distance = loc_distance podLocation loc
     in if distance < closestDistance then (ident, distance) else (closest, closestDistance))"

definition closestID :: "(string, location) gomap \<Rightarrow> location \<Rightarrow> string" where
  "closestID idLocationMap podLocation = fst (fold (closer podLocation) idLocationMap ([], 10 ^ 10))"

subsection \<open>Traffic control\<close>

text \<open>A class is the handle of its queueing discipline and a minor number.\<close>

datatype tc_cmd =
    DelRoot string
  | AddRootPrio string nat nat
  | AddPrio string "nat \<times> nat" nat nat
  | AddNetem string "nat \<times> nat" nat int
  | AddFilter string nat nat string "nat \<times> nat"
  | AddPfifo string "nat \<times> nat" nat

type_synonym tc_answer = "tc_cmd list \<Rightarrow> tc_cmd \<Rightarrow> string option"
type_synonym tc_run = "tc_cmd list \<times> string option"

definition kubeExec :: "tc_answer \<Rightarrow> tc_cmd \<Rightarrow> tc_cmd list \<Rightarrow> tc_run" where
  "kubeExec answer c hist = (hist @ [c], answer hist c)"

text \<open>The calls run one after the other and stop at the first error.\<close>

definition and_then :: "string \<Rightarrow> tc_run \<Rightarrow> (tc_cmd list \<Rightarrow> tc_run) \<Rightarrow> tc_run" where
  "and_then msg r f = (case r of (hist, Some e) \<Rightarrow> (hist, Some (msg @ e)) | (hist, None) \<Rightarrow> f hist)"

abbreviation (input) delay_msg :: string where "delay_msg \<equiv> ''failed to set delay: ''"
abbreviation (input) root_msg :: string where "root_msg \<equiv> ''failed to set root qdisc: ''"

text \<open>Deleting a discipline that is not there is not an error.\<close>

definition contains :: "string \<Rightarrow> string \<Rightarrow> bool" where
  "contains s t \<longleftrightarrow> (\<exists>i\<in>{..length s}. take (length t) (drop i s) = t)"

definition delete_old :: "tc_answer \<Rightarrow> string \<Rightarrow> tc_cmd list \<Rightarrow> tc_run" where
  "delete_old answer dev hist =
     (let (hist, err) = kubeExec answer (DelRoot dev) hist
      in case err of None \<Rightarrow> (hist, None)
         | Some e \<Rightarrow> if contains e ''Cannot delete qdisc with handle of zero'' then (hist, None) else (hist, Some e))"

fun delay_loop :: "tc_answer \<Rightarrow> nat \<Rightarrow> nat \<Rightarrow> (string, real) gomap \<Rightarrow> tc_cmd list \<Rightarrow> tc_run" where
  "delay_loop answer major minor [] hist =
     and_then delay_msg (kubeExec answer (AddPfifo ''eth0'' (major * 10, minor) (major * 10 + minor)) hist) (\<lambda>hist. (hist, None))"
| "delay_loop answer major minor ((dstIP, delay) # delays) hist =
     and_then delay_msg (kubeExec answer (AddNetem ''eth0'' (major * 10, minor) (major * 10 + minor) (go_trunc (delay * 1000))) hist) (\<lambda>hist.
     and_then delay_msg (kubeExec answer (AddFilter ''eth0'' (major * 10) minor dstIP (major * 10, minor)) hist) (\<lambda>hist.
       let minor = minor + 1
       in if minor = 9
          then and_then delay_msg (kubeExec answer (AddPrio ''eth0'' (major * 10, minor) ((major + 1) * 10) 9) hist) (\<lambda>hist.
                 delay_loop answer (major + 1) 1 delays hist)
          else delay_loop answer major minor delays hist))"

definition setDelay :: "tc_answer \<Rightarrow> (string, real) gomap \<Rightarrow> tc_cmd list \<Rightarrow> tc_run" where
  "setDelay answer delays hist =
     and_then delay_msg (delete_old answer ''eth0'' hist) (\<lambda>hist.
     and_then root_msg (kubeExec answer (AddRootPrio ''eth0'' 10 9) hist) (\<lambda>hist.
       delay_loop answer 1 1 delays hist))"

fun local_loop :: "tc_answer \<Rightarrow> nat \<Rightarrow> real \<Rightarrow> string list \<Rightarrow> tc_cmd list \<Rightarrow> tc_run" where
  "local_loop answer num delay [] hist =
     and_then delay_msg (kubeExec answer (AddPfifo ''lo'' (1, 4) 40) hist) (\<lambda>hist. (hist, None))"
| "local_loop answer num delay (dstIP # ips) hist =
     and_then delay_msg (kubeExec answer (AddNetem ''lo'' (1, num) (num * 10) (go_trunc (delay * 1000))) hist) (\<lambda>hist.
     and_then delay_msg (kubeExec answer (AddFilter ''lo'' 1 num dstIP (1, num)) hist) (\<lambda>hist.
       local_loop answer (num + 1) delay ips hist))"

definition setDelayLocal :: "tc_answer \<Rightarrow> real \<Rightarrow> string \<Rightarrow> tc_cmd list \<Rightarrow> tc_run" where
  "setDelayLocal answer delay ip hist =
     and_then delay_msg (delete_old answer ''lo'' hist) (\<lambda>hist.
     and_then delay_msg (kubeExec answer (AddRootPrio ''lo'' 1 4) hist) (\<lambda>hist.
       local_loop answer 1 delay [''0.0.0.0'', ''127.0.0.1'', ip] hist))"

subsection \<open>Pods\<close>

record pod =
  pd_Name :: string
  pd_Annotations :: "(string, string) gomap"
  pd_Phase :: string
  pd_PodIP :: string

text \<open>
  The answers of \<open>kubeGetPods\<close>, one per turn; the recursion waits until every pod runs.
\<close>

fun kubeGetPodsReady :: "pod list result list \<Rightarrow> pod list result outcome" where
  "kubeGetPodsReady [] = Inl Blocked"
| "kubeGetPodsReady (Inl e # answers) = Inr (Inl e)"
| "kubeGetPodsReady (Inr pods # answers) =
     (if \<exists>p\<in>set pods. pd_Phase p \<noteq> ''Running'' then kubeGetPodsReady answers else Inr (Inr pods))"

definition annotation :: "pod \<Rightarrow> string \<Rightarrow> string" where
  "annotation p k = (case mget (pd_Annotations p) k of None \<Rightarrow> [] | Some v \<Rightarrow> v)"

definition podID :: "(string \<Rightarrow> real option) \<Rightarrow> (string, location) gomap \<Rightarrow> pod \<Rightarrow> string outcome" where
  "podID parse idLocationMap p =
     (let lon = annotation p ''longitude''; lat = annotation p ''latitude''
      in if lon = [] \<or> lat = [] then Inl (Panic ''pod has no longitude or latitude'')
         else case newLocationByString parse lon lat of
           Inl e \<Rightarrow> Inl (Panic ''failed to parse pod location'')
         | Inr podLocation \<Rightarrow> Inr (closestID idLocationMap podLocation))"

fun podIDs :: "(string \<Rightarrow> real option) \<Rightarrow> (string, location) gomap \<Rightarrow> pod list \<Rightarrow> string list outcome" where
  "podIDs parse m [] = Inr []"
| "podIDs parse m (p # ps) =
     obind (podID parse m p) (\<lambda>i. obind (podIDs parse m ps) (\<lambda>is. Inr (i # is)))"

definition delay_between :: "(idPair, real) gomap \<Rightarrow> string \<Rightarrow> string \<Rightarrow> real" where
  "delay_between delayMap srcID dstID =
     (let delayKey = (if compare_strings srcID dstID > 0 then (dstID, srcID) else (srcID, dstID))
      in case mget delayMap delayKey of None \<Rightarrow> 0.1 | Some delay \<Rightarrow> delay)"

definition local_delay :: "(idPair, real) gomap \<Rightarrow> string \<Rightarrow> real" where
  "local_delay delayMap srcID = (case mget delayMap (srcID, srcID) of None \<Rightarrow> 0.03 | Some delay \<Rightarrow> delay)"

definition pod_delays :: "(idPair, real) gomap \<Rightarrow> pod list \<Rightarrow> string list \<Rightarrow> nat \<Rightarrow> (string, real) gomap" where
  "pod_delays delayMap pods ids i =
     fold (\<lambda>j delays. if i = j then delays
             else mput (pd_PodIP (pods ! j)) (delay_between delayMap (ids ! i) (ids ! j)) delays)
          [0..<length ids] []"

text \<open>The work of one goroutine, with its errors in the order it records them.\<close>

definition pod_work ::
  "tc_answer \<Rightarrow> (idPair, real) gomap \<Rightarrow> pod list \<Rightarrow> string list \<Rightarrow> nat \<Rightarrow> tc_cmd list \<times> string list" where
  "pod_work answer delayMap pods ids i =
     (let (hist, err1) = setDelayLocal answer (local_delay delayMap (ids ! i)) (pd_PodIP (pods ! i)) [];
          (hist, err2) = setDelay answer (pod_delays delayMap pods ids i) hist
      in (hist, (case err1 of None \<Rightarrow> [] | Some e \<Rightarrow> [''failed to set local delay: '' @ e]) @
               (case err2 of None \<Rightarrow> [] | Some e \<Rightarrow> [''failed to set delay: '' @ e])))"

text \<open>\<open>order\<close> lists the pods in the order their goroutines end; the last error is returned.\<close>

definition ApplyDelay ::
  "(string \<Rightarrow> real option) \<Rightarrow> pod list result list \<Rightarrow> string list list result \<Rightarrow> string list list result \<Rightarrow>
   (nat \<Rightarrow> tc_answer) \<Rightarrow> nat list \<Rightarrow> ((nat \<times> tc_cmd list) list \<times> string option) outcome" where
  "ApplyDelay parse podAnswers serverFile pingsFile answer order =
     obind (kubeGetPodsReady podAnswers) (\<lambda>r. case r of
       Inl e \<Rightarrow> Inr ([], Some (''failed to get pods: '' @ e))
     | Inr pods \<Rightarrow>
         obind (readServersFile parse serverFile) (\<lambda>r. case r of
           Inl e \<Rightarrow> Inr ([], Some (''failed to read servers file: '' @ e))
         | Inr idLocationMap \<Rightarrow>
             obind (podIDs parse idLocationMap pods) (\<lambda>ids.
             obind (readPingsFile parse pingsFile (set ids)) (\<lambda>r. case r of
               Inl e \<Rightarrow> Inr ([], Some (''failed to read pings file: '' @ e))
             | Inr delayMap \<Rightarrow>
                 let runs = map (\<lambda>i. (i, pod_work (answer i) delayMap pods ids i)) order;
                     errs = concat (map (\<lambda>(i, hist, es). es) runs)
                 in Inr (map (\<lambda>(i, hist, es). (i, hist)) runs,
                         if errs = [] then None else Some (last errs))))))"

subsection \<open>The distance\<close>

definition loc_ok :: "location \<Rightarrow> bool" where
  "loc_ok l \<longleftrightarrow> \<bar>longitude l\<bar> \<le> 180 \<and> \<bar>latitude l\<bar> \<le> 90"

definition loc_coordinate :: "location \<Rightarrow> Coordinate" where
  "loc_coordinate l = \<lparr>X = longitude l * (pi / 180), Y = latitude l * (pi / 180)\<rparr>"

lemma degree_bound: "\<bar>d\<bar> \<le> n \<Longrightarrow> \<bar>d * (pi / 180)\<bar> \<le> n * (pi / 180)" for d n :: real
  by (simp add: abs_mult mult_right_mono)

lemma loc_coordinate_accepted: "loc_ok l \<Longrightarrow> sp_accepts (loc_coordinate l)"
  using degree_bound [of "longitude l" 180] degree_bound [of "latitude l" 90]
  by (auto simp: loc_ok_def loc_coordinate_def sp_accepts_def sphereXMin_def sphereXMax_def
      sphereYMin_def sphereYMax_def abs_le_iff)

lemma loc_a_haversine: "loc_a l m = haversine (loc_coordinate m) (loc_coordinate l)"
  unfolding loc_a_def haversine_def loc_coordinate_def Let_def
  by (simp only: Coordinate.simps power2_eq_square left_diff_distrib mult.assoc) (simp add: ac_simps)

lemma Atan2_arcsin:
  assumes "0 \<le> a" "a \<le> 1"
  shows "Atan2 (sqrt a) (sqrt (1 - a)) = arcsin (sqrt a)"
proof (cases "a = 1")
  case True
  then show ?thesis by (simp add: Atan2_def)
next
  case False
  with assms have "a < 1" by simp
  with assms have "- 1 < sqrt a" "sqrt a < 1"
    using real_sqrt_ge_zero [OF assms(1)] by (linarith, simp)
  from arcsin_arctan [OF this] \<open>a < 1\<close> assms show ?thesis by (simp add: Atan2_def)
qed

lemma loc_distance_arcsin:
  assumes "loc_ok l" "loc_ok m"
  shows "loc_distance l m = 6371 * (2 * arcsin (sqrt (loc_a l m)))" "0 \<le> loc_a l m" "loc_a l m \<le> 1"
proof -
  show r: "0 \<le> loc_a l m" "loc_a l m \<le> 1"
    using haversine_range assms loc_coordinate_accepted by (simp_all add: loc_a_haversine)
  then show "loc_distance l m = 6371 * (2 * arcsin (sqrt (loc_a l m)))"
    by (simp add: loc_distance_def Let_def Atan2_arcsin)
qed

lemma loc_distance_bound:
  assumes "loc_ok l" "loc_ok m"
  shows "loc_distance l m < 10 ^ 10"
proof -
  note d = loc_distance_arcsin [OF assms]
  have "arcsin (sqrt (loc_a l m)) \<le> pi / 2"
    using real_sqrt_ge_zero [OF d(2)] d(3) by (intro arcsin_ubound) (linarith, simp)
  moreover have "pi < 4" by (rule pi_less_4)
  ultimately have "6371 * (2 * arcsin (sqrt (loc_a l m))) \<le> 6371 * 4" by linarith
  with d(1) show ?thesis by simp
qed

text \<open>
  C40. The distance between two places on the earth is the distance the node itself uses on its
  sphere: for longitudes and latitudes of the usual ranges the tangent form of the haversine
  formula in degrees is the sine form of the sphere's coordinate system in radians, with the
  radius of the earth in kilometres.
\<close>

theorem distance_is_sphere_distance:
  assumes "loc_ok l" "loc_ok other"
  shows "loc_distance l other =
     sp_GetDistance \<lparr>radius = 6371, sp_localPosition = here\<rparr> (loc_coordinate l) (loc_coordinate other)"
  using loc_distance_arcsin(1) [OF assms]
  by (simp add: sp_GetDistance_def loc_a_haversine haversine_sym)

theorem distance_is_sphere_distance_witness:
  "loc_distance \<lparr>longitude = 0, latitude = 0\<rparr> \<lparr>longitude = 180, latitude = 0\<rparr> =
     sp_GetDistance \<lparr>radius = 6371, sp_localPosition = \<lparr>X = 0, Y = 0\<rparr>\<rparr> \<lparr>X = 0, Y = 0\<rparr> \<lparr>X = pi, Y = 0\<rparr> \<and>
   loc_distance \<lparr>longitude = 0, latitude = 0\<rparr> \<lparr>longitude = 180, latitude = 0\<rparr> = 6371 * pi"
proof -
  let ?l = "\<lparr>longitude = 0, latitude = 0\<rparr> :: location" and ?o = "\<lparr>longitude = 180, latitude = 0\<rparr> :: location"
  have "loc_ok ?l" "loc_ok ?o" by (simp_all add: loc_ok_def)
  from distance_is_sphere_distance [OF this, of "\<lparr>X = 0, Y = 0\<rparr>"]
  show ?thesis by (simp add: loc_coordinate_def sp_GetDistance_def haversine_def)
qed

subsection \<open>The closest server\<close>

lemma fold_closer:
  assumes "fold (closer p) m (c0, d0) = (c, d)"
  shows "d \<le> d0 \<and> (\<forall>x\<in>set m. d \<le> loc_distance p (snd x)) \<and>
     ((c, d) = (c0, d0) \<or> (\<exists>l. (c, l) \<in> set m \<and> d = loc_distance p l))"
  using assms
proof (induction m arbitrary: c0 d0)
  case Nil
  then show ?case by simp
next
  case (Cons x m)
  obtain i l where x: "x = (i, l)" by (cases x)
  show ?case
  proof (cases "loc_distance p l < d0")
    case True
    with Cons.prems x have "fold (closer p) m (i, loc_distance p l) = (c, d)"
      by (simp add: closer_def Let_def)
    from Cons.IH [OF this] True x show ?thesis by auto
  next
    case False
    with Cons.prems x have "fold (closer p) m (c0, d0) = (c, d)"
      by (simp add: closer_def Let_def)
    from Cons.IH [OF this] False x show ?thesis by auto
  qed
qed

text \<open>
  A pod is placed at a nearest server: for locations of the usual ranges and at least one
  server, in whatever order the map is read, the identifier found is a server's and no server is
  nearer to the pod.
\<close>

theorem closestID_nearest:
  assumes "gomap_wf m" "m \<noteq> []" "loc_ok p" "\<forall>x\<in>set m. loc_ok (snd x)"
  shows "\<exists>l. mget m (closestID m p) = Some l \<and> (\<forall>x\<in>set m. loc_distance p l \<le> loc_distance p (snd x))"
proof -
  obtain c d where f: "fold (closer p) m ([], 10 ^ 10) = (c, d)" by fastforce
  obtain x where "x \<in> set m" using assms(2) by (cases m) auto
  with fold_closer [OF f] assms loc_distance_bound [of p "snd x"] have "d < 10 ^ 10" by fastforce
  with fold_closer [OF f] obtain l where l: "(c, l) \<in> set m" "d = loc_distance p l" by auto
  with fold_closer [OF f] gomap_wf_mget_iff [OF assms(1)] f show ?thesis
    by (intro exI [of _ l]) (simp add: closestID_def)
qed

theorem closestID_nearest_witness:
  "closestID [(''tokyo'', \<lparr>longitude = 139, latitude = 35\<rparr>)] \<lparr>longitude = 135, latitude = 34\<rparr> = ''tokyo''"
  using closestID_nearest [of "[(''tokyo'', \<lparr>longitude = 139, latitude = 35\<rparr>)]" "\<lparr>longitude = 135, latitude = 34\<rparr>"]
  by (auto simp: loc_ok_def split: if_splits)

subsection \<open>Measured delays\<close>

lemma ordered_pair_eq: "ordered_pair a b = ordered_pair c d \<longleftrightarrow> {a, b} = {c, d}"
  using compare_strings_neg [of a b] compare_strings_neg [of c d]
    compare_strings_zero [of a b] compare_strings_zero [of c d]
  by (auto simp: ordered_pair_def doubleton_eq_iff simp del: compare_strings_zero)

lemma ordered_pair_commute: "ordered_pair a b = ordered_pair b a"
  by (simp add: ordered_pair_eq insert_commute)

lemma ordered_pair_mem: "ordered_pair a b = (x, y) \<Longrightarrow> {x, y} = {a, b}"
  by (auto simp: ordered_pair_def split: if_splits)

lemma delay_between_pair:
  "delay_between m a b = (case mget m (ordered_pair a b) of None \<Rightarrow> 0.1 | Some d \<Rightarrow> d)"
  using compare_strings_neg [of a b] by (simp add: delay_between_def ordered_pair_def)

lemma delay_between_sym: "delay_between m a b = delay_between m b a"
  by (simp add: delay_between_pair ordered_pair_commute)

text \<open>What the records say of two servers: the last time measured between them, either way round.\<close>

definition ping_between :: "(string \<Rightarrow> real option) \<Rightarrow> string \<Rightarrow> string \<Rightarrow> string list \<Rightarrow> real option" where
  "ping_between parse a b row =
     (if row ! 0 \<noteq> ''source'' \<and> {row ! 0, row ! 1} = {a, b} then parse (row ! 4) else None)"

definition last_ping ::
  "(string \<Rightarrow> real option) \<Rightarrow> string \<Rightarrow> string \<Rightarrow> string list list \<Rightarrow> real option \<Rightarrow> real option" where
  "last_ping parse a b rows r0 =
     fold (\<lambda>row r. case ping_between parse a b row of None \<Rightarrow> r | Some d \<Rightarrow> Some (d / 1000)) rows r0"

lemma ping_rows_last:
  assumes "ping_rows parse S rows m = Inr m'" "a \<in> S" "b \<in> S"
  shows "mget m' (ordered_pair a b) = last_ping parse a b rows (mget m (ordered_pair a b))"
  using assms(1)
proof (induction rows arbitrary: m)
  case Nil
  then show ?case by (simp add: last_ping_def)
next
  case (Cons row rows)
  obtain i j where ij: "ordered_pair (row ! 0) (row ! 1) = (i, j)" by fastforce
  show ?case
  proof (cases "row ! 0 = ''source''")
    case True
    with Cons show ?thesis by (auto simp: last_ping_def ping_between_def split: if_splits)
  next
    case False
    with Cons.prems have row: "row \<noteq> []" "length row = 7"
      by (simp_all split: if_split_asm)
    with Cons.prems False ij obtain d where d: "parse (row ! 4) = Some d"
      by (cases "parse (row ! 4)") simp_all
    let ?m = "if i \<notin> S \<or> j \<notin> S then m else mput (i, j) (d / 1000) m"
    have r: "ping_rows parse S rows ?m = Inr m'"
      using Cons.prems False row d ij by simp
    from Cons.IH [OF this]
    have "mget m' (ordered_pair a b) = last_ping parse a b rows (mget ?m (ordered_pair a b))"
      by simp
    moreover have "mget ?m (ordered_pair a b) =
        (case ping_between parse a b row of None \<Rightarrow> mget m (ordered_pair a b) | Some d \<Rightarrow> Some (d / 1000))"
    proof (cases "{row ! 0, row ! 1} = {a, b}")
      case True
      then have "ordered_pair a b = (i, j)" using ij ordered_pair_eq by metis
      moreover have "{i, j} = {a, b}" using ordered_pair_mem [OF ij] True by simp
      then have "i \<in> S" "j \<in> S" using assms(2,3) by (auto simp: doubleton_eq_iff)
      ultimately show ?thesis using False d True by (simp add: ping_between_def)
    next
      case other: False
      then have "ordered_pair a b \<noteq> (i, j)" using ij ordered_pair_eq by metis
      with other show ?thesis by (simp add: ping_between_def)
    qed
    ultimately show ?thesis by (simp add: last_ping_def)
  qed
qed

lemma fold_delays:
  assumes "distinct (map ip js)" "j \<in> set js"
  shows "mget (fold (\<lambda>j m. if i = j then m else mput (ip j) (f j) m) js m0) (ip j) =
     (if i = j then mget m0 (ip j) else Some (f j))"
  using assms
proof (induction js arbitrary: m0 rule: rev_induct)
  case Nil
  then show ?case by simp
next
  case (snoc k js)
  show ?case
  proof (cases "j = k")
    case True
    have "mget (fold (\<lambda>j m. if i = j then m else mput (ip j) (f j) m) js m0) (ip k) = mget m0 (ip k)"
      if "ip k \<notin> ip ` set js" for m0
      using that by (induction js arbitrary: m0) auto
    with True snoc.prems show ?thesis by auto
  next
    case False
    with snoc show ?thesis by (auto simp: image_iff)
  qed
qed

lemma pod_delays_lookup:
  assumes "distinct (map pd_PodIP pods)" "length ids = length pods" "j < length pods"
  shows "mget (pod_delays m pods ids i) (pd_PodIP (pods ! j)) =
     (if i = j then None else Some (delay_between m (ids ! i) (ids ! j)))"
proof -
  have "map (\<lambda>j. pd_PodIP (pods ! j)) [0..<length ids] = map pd_PodIP pods"
    using assms(2) by (intro nth_equalityI) auto
  with assms show ?thesis
    unfolding pod_delays_def by (subst fold_delays) auto
qed

text \<open>
  The delays of a run. When both files are read, the pods have addresses of their own and
  every pod has found its server, the delay a pod gets towards another pod is the last time
  measured between their servers, whichever of the two was written first, in seconds, or 0.1
  when there is none; it is the same in both directions; and a pod gets no delay towards itself.
\<close>

theorem pod_delays_measured:
  assumes "readPingsFile parse (Inr rows) (set ids) = Inr (Inr m)"
    and "distinct (map pd_PodIP pods)" "length ids = length pods" "i < length pods" "j < length pods" "i \<noteq> j"
  shows "mget (pod_delays m pods ids i) (pd_PodIP (pods ! j)) =
       Some (case last_ping parse (ids ! i) (ids ! j) rows None of None \<Rightarrow> 0.1 | Some d \<Rightarrow> d)"
    and "mget (pod_delays m pods ids j) (pd_PodIP (pods ! i)) =
       mget (pod_delays m pods ids i) (pd_PodIP (pods ! j))"
    and "mget (pod_delays m pods ids i) (pd_PodIP (pods ! i)) = None"
proof -
  have m: "ping_rows parse (set ids) rows [] = Inr m"
    using assms(1) by (auto simp: readPingsFile_def obind_eq_Inr)
  have "ids ! i \<in> set ids" "ids ! j \<in> set ids" using assms by simp_all
  from ping_rows_last [OF m this] assms show
    "mget (pod_delays m pods ids i) (pd_PodIP (pods ! j)) =
       Some (case last_ping parse (ids ! i) (ids ! j) rows None of None \<Rightarrow> 0.1 | Some d \<Rightarrow> d)"
    by (simp add: pod_delays_lookup delay_between_pair)
  show "mget (pod_delays m pods ids j) (pd_PodIP (pods ! i)) =
       mget (pod_delays m pods ids i) (pd_PodIP (pods ! j))"
    using assms by (simp add: pod_delays_lookup delay_between_sym [of m "ids ! i"])
  show "mget (pod_delays m pods ids i) (pd_PodIP (pods ! i)) = None"
    using assms by (simp add: pod_delays_lookup)
qed

theorem pod_delays_measured_witness:
  "mget (pod_delays [((''a'', ''b''), 25 / 1000)]
      [\<lparr>pd_Name = ''p'', pd_Annotations = [], pd_Phase = ''Running'', pd_PodIP = ''10.0.0.1''\<rparr>,
       \<lparr>pd_Name = ''q'', pd_Annotations = [], pd_Phase = ''Running'', pd_PodIP = ''10.0.0.2''\<rparr>]
      [''b'', ''a''] 0) ''10.0.0.2'' = Some (25 / 1000)"
proof -
  let ?rows = "[[''source'', ''destination''], [''b'', ''a'', [], [], ''25'', [], []]]"
  let ?parse = "\<lambda>s :: string. (if s = ''25'' then Some (25 :: real) else None)"
  let ?pods = "[\<lparr>pd_Name = ''p'', pd_Annotations = [], pd_Phase = ''Running'', pd_PodIP = ''10.0.0.1''\<rparr>,
       \<lparr>pd_Name = ''q'', pd_Annotations = [], pd_Phase = ''Running'', pd_PodIP = ''10.0.0.2''\<rparr>]"
  have "readPingsFile ?parse (Inr ?rows) (set [''b'', ''a'']) = Inr (Inr [((''a'', ''b''), 25 / 1000)])"
    by (simp add: readPingsFile_def ordered_pair_def)
  from pod_delays_measured(1) [OF this, of ?pods 0 1]
  show ?thesis by (simp add: last_ping_def ping_between_def insert_commute)
qed

subsection \<open>The plan of the disciplines\<close>

text \<open>
  What \<open>setDelay\<close> is to set up: destination number \<open>i\<close> gets class \<open>i mod 8 + 1\<close> of discipline
  number \<open>i div 8 + 1\<close>, whose handle is ten times its number; the ninth class of a full
  discipline carries the next one.
\<close>

definition dest_class :: "nat \<Rightarrow> nat \<times> nat" where
  "dest_class i = ((i div 8 + 1) * 10, i mod 8 + 1)"

definition dest_cmds :: "nat \<Rightarrow> string \<times> real \<Rightarrow> tc_cmd list" where
  "dest_cmds i = (\<lambda>(ip, delay).
     [AddNetem ''eth0'' (dest_class i) (fst (dest_class i) + snd (dest_class i)) (go_trunc (delay * 1000)),
      AddFilter ''eth0'' (fst (dest_class i)) (snd (dest_class i)) ip (dest_class i)] @
     (if i mod 8 = 7 then [AddPrio ''eth0'' (fst (dest_class i), 9) (fst (dest_class i) + 10) 9] else []))"

fun plan :: "nat \<Rightarrow> (string, real) gomap \<Rightarrow> tc_cmd list" where
  "plan i [] = [AddPfifo ''eth0'' (dest_class i) (fst (dest_class i) + snd (dest_class i))]"
| "plan i (d # ds) = dest_cmds i d @ plan (Suc i) ds"

fun issue :: "tc_answer \<Rightarrow> tc_cmd list \<Rightarrow> tc_cmd list \<Rightarrow> tc_run" where
  "issue answer [] hist = (hist, None)"
| "issue answer (c # cs) hist = and_then delay_msg (kubeExec answer c hist) (issue answer cs)"

lemma and_then_simps [simp]:
  "and_then msg (h, None) f = f h" "and_then msg (h, Some e) f = (h, Some (msg @ e))"
  by (simp_all add: and_then_def)

lemma mod8_Suc:
  "i mod 8 = 7 \<Longrightarrow> Suc i div 8 = Suc (i div 8) \<and> Suc i mod 8 = 0"
  "i mod 8 \<noteq> 7 \<Longrightarrow> Suc i div 8 = i div 8 \<and> Suc i mod 8 = Suc (i mod 8)" for i :: nat
  by (auto simp: div_Suc mod_Suc)

lemma delay_loop_issue:
  "delay_loop answer (i div 8 + 1) (i mod 8 + 1) ds hist = issue answer (plan i ds) hist"
proof (induction ds arbitrary: i hist)
  case Nil
  show ?case by (simp add: dest_class_def and_then_def kubeExec_def split: option.splits)
next
  case (Cons d ds)
  obtain ip dl where d: "d = (ip, dl)" by (cases d)
  show ?case
  proof (cases "i mod 8 = 7")
    case True
    with Cons [of "Suc i"] mod8_Suc(1) [OF True] show ?thesis
      by (simp add: d dest_cmds_def dest_class_def kubeExec_def and_then_def split: option.splits)
  next
    case False
    then have "i mod 8 + 1 + 1 \<noteq> 9" by simp
    with False Cons [of "Suc i"] mod8_Suc(2) [OF False] show ?thesis
      by (simp add: d dest_cmds_def dest_class_def kubeExec_def and_then_def split: option.splits)
  qed
qed

lemma issue_ok: "(\<And>h c. answer h c = None) \<Longrightarrow> issue answer cs hist = (hist @ cs, None)"
  by (induction cs arbitrary: hist) (simp_all add: kubeExec_def)

text \<open>
  What traffic control asks of a command: the parent exists and has that class, the class is
  free, the handle is new, and a filter leads to a class of the discipline it sits on. The state
  is the disciplines with their number of classes, and the classes in use.
\<close>

type_synonym tc_state = "(nat, nat) gomap \<times> (nat \<times> nat) set"

definition attach :: "nat \<times> nat \<Rightarrow> nat \<Rightarrow> nat \<Rightarrow> tc_state \<Rightarrow> tc_state option" where
  "attach cl h bands st =
     (case mget (fst st) (fst cl) of None \<Rightarrow> None
      | Some n \<Rightarrow> if 1 \<le> snd cl \<and> snd cl \<le> n \<and> cl \<notin> snd st \<and> \<not> mhas (fst st) h
                  then Some (mput h bands (fst st), insert cl (snd st)) else None)"

fun tc_take :: "tc_cmd \<Rightarrow> tc_state \<Rightarrow> tc_state option" where
  "tc_take (DelRoot dev) st = Some ([], {})"
| "tc_take (AddRootPrio dev h n) st = (if fst st = [] then Some ([(h, n)], {}) else None)"
| "tc_take (AddPrio dev cl h n) st = attach cl h n st"
| "tc_take (AddNetem dev cl h ms) st = attach cl h 0 st"
| "tc_take (AddPfifo dev cl h) st = attach cl h 0 st"
| "tc_take (AddFilter dev h prio ip cl) st = (if fst cl = h \<and> cl \<in> snd st then Some st else None)"

fun tc_takes :: "tc_cmd list \<Rightarrow> tc_state \<Rightarrow> tc_state option" where
  "tc_takes [] st = Some st"
| "tc_takes (c # cs) st = (case tc_take c st of None \<Rightarrow> None | Some st' \<Rightarrow> tc_takes cs st')"

lemma tc_takes_append: "tc_takes (cs @ ds) st = Option.bind (tc_takes cs st) (tc_takes ds)"
  by (induction cs arbitrary: st) (auto split: option.splits)

text \<open>After \<open>i\<close> destinations: handles and classes are those of the destinations before.\<close>

definition tc_after :: "nat \<Rightarrow> tc_state \<Rightarrow> bool" where
  "tc_after i st \<longleftrightarrow>
     mget (fst st) (fst (dest_class i)) = Some 9 \<and>
     (\<forall>h. mhas (fst st) h \<longrightarrow> h \<le> (i div 8 + 1) * 10 + i mod 8) \<and>
     (\<forall>cl\<in>snd st. fst cl < fst (dest_class i) \<or> fst cl = fst (dest_class i) \<and> snd cl \<le> i mod 8)"

lemma attach_dest:
  assumes "tc_after i st"
  shows "attach (dest_class i) (fst (dest_class i) + snd (dest_class i)) 0 st =
     Some (mput (fst (dest_class i) + snd (dest_class i)) 0 (fst st), insert (dest_class i) (snd st))"
proof -
  have "i mod 8 < 8" by simp
  moreover have "dest_class i \<notin> snd st"
    using assms by (auto simp: tc_after_def dest_class_def)
  moreover have "\<not> mhas (fst st) (fst (dest_class i) + snd (dest_class i))"
    using assms unfolding tc_after_def dest_class_def by fastforce
  ultimately show ?thesis
    using assms by (simp add: tc_after_def attach_def dest_class_def)
qed

lemma tc_dest:
  assumes "tc_after i st"
  shows "\<exists>st'. tc_takes (dest_cmds i d) st = Some st' \<and> tc_after (Suc i) st'"
proof -
  obtain ip dl where d: "d = (ip, dl)" by (cases d)
  let ?h = "fst (dest_class i) + snd (dest_class i)"
  let ?st = "(mput ?h 0 (fst st), insert (dest_class i) (snd st))"
  note a = attach_dest [OF assms]
  show ?thesis
  proof (cases "i mod 8 = 7")
    case False
    have "tc_after (Suc i) ?st"
      using assms mod8_Suc(2) [OF False] by (auto simp: tc_after_def dest_class_def)
    with a False show ?thesis by (simp add: d dest_cmds_def)
  next
    case True
    note s = mod8_Suc(1) [OF True]
    let ?st' = "(mput (fst (dest_class i) + 10) 9 (fst ?st), insert (fst (dest_class i), 9) (snd ?st))"
    have "attach (fst (dest_class i), 9) (fst (dest_class i) + 10) 9 ?st = Some ?st'"
      using assms True by (force simp: tc_after_def attach_def dest_class_def)
    moreover have "tc_after (Suc i) ?st'"
      using assms s True by (fastforce simp: tc_after_def dest_class_def)
    ultimately show ?thesis using a True by (simp add: d dest_cmds_def)
  qed
qed

lemma tc_plan: "tc_after i st \<Longrightarrow> \<exists>st'. tc_takes (plan i ds) st = Some st'"
proof (induction ds arbitrary: i st)
  case Nil
  with attach_dest [OF Nil] show ?case by simp
next
  case (Cons d ds)
  from tc_dest [OF Cons.prems] obtain st' where st': "tc_takes (dest_cmds i d) st = Some st'" "tc_after (Suc i) st'"
    by blast
  with Cons.IH [OF st'(2)] show ?case by (auto simp: tc_takes_append)
qed

lemma inj_dest_class: "inj dest_class"
proof (rule injI)
  fix i j assume "dest_class i = dest_class j"
  then have "i div 8 = j div 8" "i mod 8 = j mod 8" by (simp_all add: dest_class_def)
  then show "i = j" by (metis div_mult_mod_eq)
qed

lemma plan_dest:
  "i < length ds \<Longrightarrow> set (dest_cmds (k + i) (ds ! i)) \<subseteq> set (plan k ds)"
proof (induction ds arbitrary: k i)
  case (Cons d ds)
  then show ?case by (cases i) (auto, force)
qed simp

lemma plan_filters:
  "AddFilter dev h prio ip cl \<in> set (plan k ds) \<Longrightarrow>
   \<exists>i<length ds. ip = fst (ds ! i) \<and> cl = dest_class (k + i) \<and> h = fst cl"
proof (induction ds arbitrary: k)
  case (Cons d ds)
  show ?case
  proof (cases "AddFilter dev h prio ip cl \<in> set (plan (Suc k) ds)")
    case True
    then show ?thesis using Cons.IH [OF True] by force
  next
    case False
    with Cons.prems show ?thesis
      by (intro exI [of _ 0]) (auto simp: dest_cmds_def split: prod.splits if_splits)
  qed
qed simp

text \<open>
  The set-up of the delays. With a cluster that runs every command, \<open>setDelay\<close> ends without
  error for any number of destinations; every command it issues is one that traffic control
  takes, with an existing parent, a free class and a new handle; and each destination has a class
  of its own with its delay in milliseconds and a filter that leads to it.
\<close>

theorem setDelay_plan:
  assumes "\<And>h c. answer h c = None"
  shows "\<exists>cmds st. setDelay answer delays [] = (cmds, None) \<and> tc_takes cmds ([], {}) = Some st \<and>
     (\<forall>i<length delays.
        AddNetem ''eth0'' (dest_class i) (fst (dest_class i) + snd (dest_class i)) (go_trunc (snd (delays ! i) * 1000)) \<in> set cmds \<and>
        AddFilter ''eth0'' (fst (dest_class i)) (snd (dest_class i)) (fst (delays ! i)) (dest_class i) \<in> set cmds) \<and>
     inj dest_class"
proof -
  let ?cmds = "[DelRoot ''eth0'', AddRootPrio ''eth0'' 10 9] @ plan 0 delays"
  have run: "setDelay answer delays [] = (?cmds, None)"
    using delay_loop_issue [of answer 0] issue_ok [OF assms]
    by (simp add: setDelay_def delete_old_def kubeExec_def assms)
  have "tc_after 0 ([(10, 9)], {})" by (simp add: tc_after_def dest_class_def)
  from tc_plan [OF this, of delays] obtain st where "tc_takes ?cmds ([], {}) = Some st" by auto
  moreover note inj_dest_class
  moreover have "AddNetem ''eth0'' (dest_class i) (fst (dest_class i) + snd (dest_class i)) (go_trunc (snd (delays ! i) * 1000)) \<in> set ?cmds"
    "AddFilter ''eth0'' (fst (dest_class i)) (snd (dest_class i)) (fst (delays ! i)) (dest_class i) \<in> set ?cmds"
    if "i < length delays" for i
    using plan_dest [OF that, of 0] by (cases "delays ! i"; simp add: dest_cmds_def)+
  ultimately show ?thesis using run by blast
qed

theorem setDelay_plan_witness:
  "\<exists>cmds. setDelay (\<lambda>_ _. None) [(''10.0.0.2'', 25 / 1000)] [] = (cmds, None) \<and>
     AddNetem ''eth0'' (10, 1) 11 25 \<in> set cmds \<and> AddFilter ''eth0'' 10 1 ''10.0.0.2'' (10, 1) \<in> set cmds"
  using setDelay_plan [of "\<lambda>_ _. None" "[(''10.0.0.2'', 25 / 1000)]"]
  by (auto simp: dest_class_def go_trunc_def)

text \<open>
  A filter sits on the discipline that holds its class, and none leads to the ninth class of a
  discipline, which carries the next one: only the filters of the first eight destinations sit
  on the root.
\<close>

theorem filters_stop_at_eight:
  assumes "\<And>h c. answer h c = None" "setDelay answer delays [] = (cmds, None)"
    and "AddFilter dev h prio ip cl \<in> set cmds"
  shows "snd cl \<noteq> 9 \<and> (h = 10 \<longrightarrow> ip \<in> set (map fst (take 8 delays)))"
proof -
  have "cmds = [DelRoot ''eth0'', AddRootPrio ''eth0'' 10 9] @ plan 0 delays"
    using delay_loop_issue [of answer 0] issue_ok [OF assms(1)] assms(2)
    by (simp add: setDelay_def delete_old_def kubeExec_def assms(1))
  with assms(3) have "AddFilter dev h prio ip cl \<in> set (plan 0 delays)" by simp
  from plan_filters [OF this] obtain i where
    i: "i < length delays" "ip = fst (delays ! i)" "cl = dest_class i" "h = fst cl" by auto
  have "fst (delays ! i) \<in> set (map fst (take 8 delays))" if "i div 8 = 0"
    using that i(1) by (force simp: in_set_conv_nth)
  with i show ?thesis by (auto simp: dest_class_def)
qed

end
