(* ===== verification/Sim_Cmd.thy ===== *)
theory Sim_Cmd
  imports Sim_Position Sim_Canvas
begin

text \<open>
  The commands of the simulator (\<open>src/simulator/cmd\<close>, \<open>src/simulator/generate\<close>): how a setting is
  taken from the environment, what a command checks before it runs, and the pods that
  \<open>generate\<close> writes.

  The environment is a function, \<open>strconv.ParseFloat\<close> an argument; a \<open>float64\<close> that is NaN is
  \<open>None\<close>. The commands' flags default to the values computed here; parsing flags, opening files and
  starting servers is left out.
\<close>

subsection \<open>Settings\<close>

definition kEnvVerPrefix :: string where "kEnvVerPrefix = ''COLONIO_SIMULATOR_''"

definition valueFromEnvString :: "(string \<Rightarrow> string option) \<Rightarrow> string \<Rightarrow> string \<Rightarrow> string" where
  "valueFromEnvString env key defaultValue =
     (case env (kEnvVerPrefix @ key) of Some v \<Rightarrow> v | None \<Rightarrow> defaultValue)"

text \<open>\<open>strconv.Atoi\<close>: an optional sign, digits, and a value of 64 bits.\<close>

definition is_digit :: "char \<Rightarrow> bool" where
  "is_digit ch \<longleftrightarrow> 48 \<le> (of_char ch :: nat) \<and> (of_char ch :: nat) \<le> 57"

definition Atoi :: "string \<Rightarrow> int option" where
  "Atoi s =
     (let (neg, ds) = (case s of ch # r \<Rightarrow> if ch = CHR ''-'' then (True, r) else if ch = CHR ''+'' then (False, r) else (False, s)
                       | [] \<Rightarrow> (False, s));
          v = (if neg then - int (number ds) else int (number ds))
      in if ds = [] \<or> (\<exists>ch\<in>set ds. \<not> is_digit ch) then None
         else if - (2 ^ 63) \<le> v \<and> v < 2 ^ 63 then Some v else None)"

definition valueFromEnvUint :: "(string \<Rightarrow> string option) \<Rightarrow> string \<Rightarrow> 64 word \<Rightarrow> 64 word" where
  "valueFromEnvUint env key defaultValue =
     (case env (kEnvVerPrefix @ key) of
        Some str \<Rightarrow> (case Atoi str of Some v \<Rightarrow> word_of_int v | None \<Rightarrow> defaultValue)
      | None \<Rightarrow> defaultValue)"

definition valueFromEnvFloat64 ::
  "(string \<Rightarrow> real option option) \<Rightarrow> (string \<Rightarrow> string option) \<Rightarrow> string \<Rightarrow> real option \<Rightarrow> real option" where
  "valueFromEnvFloat64 parse env key defaultValue =
     (case env (kEnvVerPrefix @ key) of
        Some str \<Rightarrow> (case parse str of Some v \<Rightarrow> v | None \<Rightarrow> defaultValue)
      | None \<Rightarrow> defaultValue)"

record MongodbConfig =
  URI :: string
  mc_User :: string
  mc_Password :: string
  mc_Database :: string
  mc_Collection :: string

definition bindMongodbConfig :: "(string \<Rightarrow> string option) \<Rightarrow> bool \<Rightarrow> MongodbConfig" where
  "bindMongodbConfig env withDefaultURI =
     (let defaultURI = (if withDefaultURI then ''mongodb://localhost:27017'' else [])
      in \<lparr>URI = valueFromEnvString env ''MONGODB_URI'' defaultURI,
          mc_User = valueFromEnvString env ''MONGODB_USER'' ''simulator'',
          mc_Password = valueFromEnvString env ''MONGODB_PASSWORD'' ''simulator'',
          mc_Database = valueFromEnvString env ''MONGODB_DATABASE'' ''simulator'',
          mc_Collection = valueFromEnvString env ''MONGODB_COLLECTION'' ''logs''\<rparr>)"

subsection \<open>The command \<open>render\<close>\<close>

record renderConfig =
  inputFileName :: string
  outputPrefix :: string
  rc_width :: "64 word"
  rc_height :: "64 word"
  rc_story :: string
  rc_mongodbConfig :: MongodbConfig

definition rc_init :: "(string \<Rightarrow> string option) \<Rightarrow> renderConfig" where
  "rc_init env =
     \<lparr>inputFileName = valueFromEnvString env ''INPUT'' [], outputPrefix = valueFromEnvString env ''OUTPUT_PREFIX'' [],
      rc_width = valueFromEnvUint env ''WIDTH'' 720, rc_height = valueFromEnvUint env ''HEIGHT'' 720,
      rc_story = valueFromEnvString env ''STORY'' ''sphere'', rc_mongodbConfig = bindMongodbConfig env False\<rparr>"

definition rc_check :: "renderConfig \<Rightarrow> string option" where
  "rc_check r =
     (if inputFileName r = [] \<and> URI (rc_mongodbConfig r) = [] then Some ''input file name or mongodb URI should be set''
      else if inputFileName r \<noteq> [] \<and> URI (rc_mongodbConfig r) \<noteq> []
      then Some ''input file name and mongodb URI should not be set at the same time''
      else None)"

datatype raw_source = FromFile string | FromMongodb MongodbConfig

definition makeReader :: "renderConfig \<Rightarrow> raw_source" where
  "makeReader r = (if inputFileName r \<noteq> [] then FromFile (inputFileName r) else FromMongodb (rc_mongodbConfig r))"

datatype story_kind = Sphere | Circle

definition forkStory :: "string \<Rightarrow> story_kind result" where
  "forkStory story =
     (if story = ''sphere'' then Inr Sphere else if story = ''circle'' then Inr Circle else Inl ''unexpected story name'')"

text \<open>What \<open>run\<close> sets up: the source, the canvas, the filer and the story.\<close>

definition render_run :: "string option \<Rightarrow> renderConfig \<Rightarrow> (raw_source \<times> Canvas \<times> Filer option \<times> story_kind) result outcome" where
  "render_run sdl r =
     (case rc_check r of Some e \<Rightarrow> Inr (Inl e)
      | None \<Rightarrow>
          obind (NewCanvas sdl (unat (rc_width r)) (unat (rc_height r))) (\<lambda>cvs.
            let filer = (if outputPrefix r \<noteq> [] then Some (NewFiler (outputPrefix r) 6) else None)
            in case forkStory (rc_story r) of Inl e \<Rightarrow> Inr (Inl e)
               | Inr story \<Rightarrow> Inr (Inr (makeReader r, cvs, filer, story))))"

subsection \<open>The command \<open>node\<close>\<close>

record nodeConfig =
  nc_loggerID :: string
  nc_seedURL :: string
  nc_story :: string
  nc_latitude :: "real option"
  nc_longitude :: "real option"
  nc_radius :: "real option"
  nc_concurrency :: "64 word"
  nc_writer :: string
  nc_mongodbConfig :: MongodbConfig

text \<open>The values of the flags before the command line is read.\<close>

definition nc_init :: "(string \<Rightarrow> real option option) \<Rightarrow> (string \<Rightarrow> string option) \<Rightarrow> nodeConfig" where
  "nc_init parse env =
     \<lparr>nc_loggerID = valueFromEnvString env ''LOGGER_ID'' [],
      nc_seedURL = valueFromEnvString env ''SEED_URL'' ''https://localhost:8443'',
      nc_story = valueFromEnvString env ''STORY'' ''sphere'',
      nc_latitude = valueFromEnvFloat64 parse env ''LATITUDE'' None,
      nc_longitude = valueFromEnvFloat64 parse env ''LONGITUDE'' None,
      nc_radius = valueFromEnvFloat64 parse env ''RADIUS'' None,
      nc_concurrency = valueFromEnvUint env ''CONCURRENCY'' 1,
      nc_writer = valueFromEnvString env ''WRITER'' ''mongodb'',
      nc_mongodbConfig = bindMongodbConfig env True\<rparr>"

definition nc_check :: "nodeConfig \<Rightarrow> string option" where
  "nc_check c =
     (if nc_seedURL c = [] then Some ''seed URL should be set''
      else if (nc_latitude c = None) \<noteq> (nc_longitude c = None) \<or> (nc_latitude c = None) \<noteq> (nc_radius c = None)
      then Some ''latitude, longitude and radius should be set together''
      else None)"

definition nc_region :: "nodeConfig \<Rightarrow> Region option" where
  "nc_region c =
     (case (nc_latitude c, nc_longitude c, nc_radius c) of
        (Some lat, Some lon, Some r) \<Rightarrow>
          Some \<lparr>rg_X = pi * lon / 180, rg_Y = pi * lat / 180, rg_R = 2 * pi * r / 46000000\<rparr>
      | _ \<Rightarrow> None)"

definition nc_run :: "nodeConfig \<Rightarrow> (story_kind \<times> Region option) result" where
  "nc_run c = (case forkStory (nc_story c) of Inl e \<Rightarrow> Inl e | Inr story \<Rightarrow> Inr (story, nc_region c))"

text \<open>The errors of the nodes, in the order they end: the first one is the command's.\<close>

definition first_error :: "string option list \<Rightarrow> string option" where
  "first_error errs = fold (\<lambda>err globalErr. case err of None \<Rightarrow> globalErr | Some e \<Rightarrow> (case globalErr of None \<Rightarrow> Some e | Some g \<Rightarrow> Some g)) errs None"

text \<open>Where the records go; the driver of MongoDB may fail to connect.\<close>

datatype record_sink = ToMongodb MongodbConfig | ToStdout | ToNothing

definition nc_sink :: "string option \<Rightarrow> nodeConfig \<Rightarrow> record_sink result" where
  "nc_sink connect c =
     (if nc_writer c = ''mongodb''
      then (case connect of Some e \<Rightarrow> Inl (''failed to create datastore: '' @ e) | None \<Rightarrow> Inr (ToMongodb (nc_mongodbConfig c)))
      else if nc_writer c = ''stdout'' then Inr ToStdout else Inr ToNothing)"

definition node_attrs :: "nodeConfig \<Rightarrow> nat \<Rightarrow> (string \<times> string) list" where
  "node_attrs c i =
     [(''no'', CHR ''#'' # decimal i)] @ (if 0 < length (nc_loggerID c) then [(''id'', nc_loggerID c)] else [])"

text \<open>
  The nodes run in goroutines of their own; \<open>order\<close> is the order they end in and \<open>runNode i\<close> the error of
  the story's \<open>RunNode\<close> for the node \<open>i\<close>. An error ends the context of the others. The result has the error
  of the command, where the records went and whether the context was ended.
\<close>

definition node_end :: "(nat \<Rightarrow> story_kind \<Rightarrow> Region option \<Rightarrow> string option) \<Rightarrow> nodeConfig \<Rightarrow> nat \<Rightarrow> string option" where
  "node_end runNode c i = (case nc_run c of Inl e \<Rightarrow> Some e | Inr (story, region) \<Rightarrow> runNode i story region)"

definition node_RunE ::
  "string option \<Rightarrow> (nat \<Rightarrow> story_kind \<Rightarrow> Region option \<Rightarrow> string option) \<Rightarrow> nat list \<Rightarrow> nodeConfig \<Rightarrow>
   (string option \<times> record_sink option \<times> bool) outcome" where
  "node_RunE connect runNode order c =
     (case nc_check c of Some e \<Rightarrow> Inr (Some e, None, False)
      | None \<Rightarrow>
          (case nc_sink connect c of Inl e \<Rightarrow> Inr (Some e, None, False)
           | Inr sink \<Rightarrow>
               if sint (nc_concurrency c) < 0 then Inl (Panic ''sync: negative WaitGroup counter'')
               else let errs = map (node_end runNode c) order
                    in Inr (first_error errs, Some sink, \<exists>e\<in>set errs. e \<noteq> None)))"

subsection \<open>The command \<open>generate\<close>\<close>

record podValue =
  pv_Name :: string
  Population :: "64 word"
  pv_Latitude :: real
  pv_Longitude :: real
  Radius :: real

text \<open>\<open>format\<close> is \<open>%f\<close>, \<open>execute\<close> the template's execution, which writes the pod or fails.\<close>

definition pod_map :: "(real \<Rightarrow> string) \<Rightarrow> 64 word \<Rightarrow> podValue \<Rightarrow> (string, string) gomap outcome" where
  "pod_map format rate v =
     (if rate = 0 then Inl (Panic ''integer divide by zero'')
      else Inr [(''name'', pv_Name v), (''concurrency'', decimal (unat (Population v div rate))),
                (''latitude'', format (pv_Latitude v)), (''longitude'', format (pv_Longitude v)),
                (''radius'', format (Radius v * 10))])"

fun pod_loop ::
  "(real \<Rightarrow> string) \<Rightarrow> ((string, string) gomap \<Rightarrow> string option) \<Rightarrow> 64 word \<Rightarrow> podValue list \<Rightarrow> (string, string) gomap list \<Rightarrow>
   (string option \<times> (string, string) gomap list) outcome" where
  "pod_loop format execute rate [] out = Inr (None, out)"
| "pod_loop format execute rate (v # vs) out =
     obind (pod_map format rate v) (\<lambda>m.
       case execute m of Some e \<Rightarrow> Inr (Some (''failed to execute template: '' @ e), out)
       | None \<Rightarrow> pod_loop format execute rate vs (out @ [m]))"

definition GeneratePods ::
  "(real \<Rightarrow> string) \<Rightarrow> ((string, string) gomap \<Rightarrow> string option) \<Rightarrow> podValue list result \<Rightarrow> int \<Rightarrow> 64 word \<Rightarrow>
   (string option \<times> (string, string) gomap list) outcome" where
  "GeneratePods format execute file areas rate =
     (case file of Inl e \<Rightarrow> Inr (Some e, [])
      | Inr vs \<Rightarrow> if vs = [] then Inr (Some ''values file is empty'', [])
                  else pod_loop format execute rate (take (nat areas) vs) [])"

record generateConfig =
  gc_values :: string
  gc_areas :: "64 word"
  gc_concurrencyRate :: "64 word"

definition gc_init :: generateConfig where
  "gc_init = \<lparr>gc_values = [], gc_areas = 32, gc_concurrencyRate = 4000000\<rparr>"

text \<open>\<open>readValues\<close> is the file of that name, opened and decoded.\<close>

definition generate_RunE ::
  "(real \<Rightarrow> string) \<Rightarrow> ((string, string) gomap \<Rightarrow> string option) \<Rightarrow> (string \<Rightarrow> podValue list result) \<Rightarrow> generateConfig \<Rightarrow>
   (string option \<times> (string, string) gomap list) outcome" where
  "generate_RunE format execute readValues c =
     (if gc_values c = [] then Inr (Some ''values file should be set'', [])
      else obind (GeneratePods format execute (readValues (gc_values c)) (sint (gc_areas c)) (gc_concurrencyRate c))
        (\<lambda>(err, out). Inr (map_option (\<lambda>e. ''failed to generate pods manifest: '' @ e) err, out)))"

subsection \<open>What they guarantee\<close>

lemma decimal_nonempty: "decimal n \<noteq> []"
  by (subst decimal.simps) simp

lemma digit_is_digit: "d < 10 \<Longrightarrow> is_digit (digit d)"
  by (simp add: is_digit_def)

lemma decimal_digits: "\<forall>ch\<in>set (decimal n). is_digit ch"
proof (induction n rule: less_induct)
  case (less n)
  show ?case
  proof (cases "n < 10")
    case True
    then show ?thesis by (subst decimal.simps) (simp add: digit_is_digit)
  next
    case False
    then have "\<forall>ch\<in>set (decimal (n div 10)). is_digit ch" by (intro less) simp
    with False show ?thesis by (subst decimal.simps) (simp add: digit_is_digit)
  qed
qed

lemma Atoi_decimal: "n < 2 ^ 63 \<Longrightarrow> Atoi (decimal n) = Some (int n)"
proof -
  assume n: "n < 2 ^ 63"
  obtain ch r where d: "decimal n = ch # r" using decimal_nonempty by (cases "decimal n") auto
  have "is_digit ch" using decimal_digits [of n] d by simp
  then have "ch \<noteq> CHR ''-''" "ch \<noteq> CHR ''+''" by (auto simp: is_digit_def)
  moreover have "int n < 2 ^ 63" using n by (simp flip: of_nat_less_iff)
  ultimately show ?thesis using number_decimal [of n] decimal_digits [of n] d by (simp add: Atoi_def)
qed

text \<open>
  A number in the environment: printed in decimal it is read back as it was, for every number
  below two to the 63; a value that is no number leaves the default; and a negative one becomes
  its complement, a number of at least two to the 63.
\<close>

theorem env_uint:
  shows "n < 2 ^ 63 \<Longrightarrow> env (kEnvVerPrefix @ key) = Some (decimal n) \<Longrightarrow> valueFromEnvUint env key d = word_of_nat n"
    and "env (kEnvVerPrefix @ key) = Some str \<Longrightarrow> Atoi str = None \<Longrightarrow> valueFromEnvUint env key d = d"
    and "env (kEnvVerPrefix @ key) = Some str \<Longrightarrow> Atoi str = Some v \<Longrightarrow> v < 0 \<Longrightarrow>
         2 ^ 63 \<le> uint (valueFromEnvUint env key d)"
proof -
  show "n < 2 ^ 63 \<Longrightarrow> env (kEnvVerPrefix @ key) = Some (decimal n) \<Longrightarrow> valueFromEnvUint env key d = word_of_nat n"
    using Atoi_decimal [of n] by (simp add: valueFromEnvUint_def)
  show "env (kEnvVerPrefix @ key) = Some str \<Longrightarrow> Atoi str = None \<Longrightarrow> valueFromEnvUint env key d = d"
    by (simp add: valueFromEnvUint_def)
  assume a: "env (kEnvVerPrefix @ key) = Some str" "Atoi str = Some v" "v < 0"
  then have v: "- (2 ^ 63) \<le> v" by (auto simp: Atoi_def Let_def split: prod.splits if_splits)
  have "uint (word_of_int v :: 64 word) = v mod 2 ^ 64"
    by (simp add: unsigned_of_int take_bit_eq_mod)
  also have "\<dots> = (v + 2 ^ 64) mod 2 ^ 64" by simp
  also have "\<dots> = v + 2 ^ 64" using a(3) v by (intro mod_pos_pos_trivial) simp_all
  finally show "2 ^ 63 \<le> uint (valueFromEnvUint env key d)" using a v by (simp add: valueFromEnvUint_def)
qed

text \<open>
  A command that passed its check: the renderer has exactly one source, and a node's position has
  either all of its three settings or none.
\<close>

theorem checked_source:
  "rc_check r = None \<longleftrightarrow> (inputFileName r \<noteq> []) \<noteq> (URI (rc_mongodbConfig r) \<noteq> [])"
  by (auto simp: rc_check_def)

theorem checked_region:
  "nc_check c = None \<Longrightarrow> (nc_region c = None) = (nc_latitude c = None \<and> nc_longitude c = None \<and> nc_radius c = None)"
  by (auto simp: nc_check_def nc_region_def split: option.splits if_splits)

lemma pod_loop_all:
  "rate \<noteq> 0 \<Longrightarrow> (\<And>m. execute m = None) \<Longrightarrow>
   \<exists>ms. pod_loop format execute rate vs out = Inr (None, out @ ms) \<and> length ms = length vs"
proof (induction vs arbitrary: out)
  case (Cons v vs)
  then obtain m where m: "pod_map format rate v = Inr m" by (simp add: pod_map_def)
  obtain ms where "pod_loop format execute rate vs (out @ [m]) = Inr (None, (out @ [m]) @ ms)" "length ms = length vs"
    using Cons by blast
  with m Cons.prems(2) [of m] show ?case by (intro exI [of _ "m # ms"]) simp
qed simp

text \<open>One pod per area, at most as many as asked for; a rate of zero panics.\<close>

theorem pods_generated:
  assumes "vs \<noteq> []" "\<And>m. execute m = None"
  shows "rate \<noteq> 0 \<Longrightarrow> \<exists>ms. GeneratePods format execute (Inr vs) areas rate = Inr (None, ms) \<and>
           length ms = min (nat areas) (length vs)"
    and "0 < areas \<Longrightarrow> GeneratePods format execute (Inr vs) areas 0 = Inl (Panic ''integer divide by zero'')"
proof -
  show "\<exists>ms. GeneratePods format execute (Inr vs) areas rate = Inr (None, ms) \<and> length ms = min (nat areas) (length vs)"
    if "rate \<noteq> 0"
    using pod_loop_all [where execute = execute, OF that assms(2), of format "take (nat areas) vs" "[]"] assms(1)
    by (auto simp: GeneratePods_def min.commute)
  obtain v vs' where "vs = v # vs'" using assms(1) by (cases vs) auto
  then show "0 < areas \<Longrightarrow> GeneratePods format execute (Inr vs) areas 0 = Inl (Panic ''integer divide by zero'')"
    by (cases "nat areas") (simp_all add: GeneratePods_def pod_map_def)
qed

lemma first_error_some: "fold (\<lambda>err globalErr. case err of None \<Rightarrow> globalErr | Some e \<Rightarrow> (case globalErr of None \<Rightarrow> Some e | Some g \<Rightarrow> Some g)) errs (Some g) = Some g"
  by (induction errs) (auto split: option.splits)

lemma first_error_simps [simp]:
  "first_error [] = None" "first_error (None # errs) = first_error errs" "first_error (Some e # errs) = Some e"
  by (simp_all add: first_error_def first_error_some)

lemma first_error_none: "first_error errs = None \<longleftrightarrow> (\<forall>e\<in>set errs. e = None)"
proof (induction errs)
  case (Cons err errs)
  then show ?case by (cases err) auto
qed simp

text \<open>
  The command \<open>node\<close>, once it has passed its check and has its writer: it succeeds exactly if every node ends
  without an error, it ends the others' context exactly if one does not, and its error is that of a node. A negative
  number of nodes in the environment is not refused: the command panics before it starts any.
\<close>

theorem node_command:
  assumes "nc_check c = None" "nc_sink connect c = Inr sink"
  shows "0 \<le> sint (nc_concurrency c) \<Longrightarrow> \<exists>err. node_RunE connect runNode order c = Inr (err, Some sink, err \<noteq> None) \<and>
           (err = None \<longleftrightarrow> (\<forall>i\<in>set order. node_end runNode c i = None)) \<and>
           (\<forall>e. err = Some e \<longrightarrow> (\<exists>i\<in>set order. node_end runNode c i = Some e))"
    and "env (kEnvVerPrefix @ ''CONCURRENCY'') = Some str \<Longrightarrow> Atoi str = Some v \<Longrightarrow> v < 0 \<Longrightarrow>
         nc_concurrency c = valueFromEnvUint env ''CONCURRENCY'' 1 \<Longrightarrow>
         node_RunE connect runNode order c = Inl (Panic ''sync: negative WaitGroup counter'')"
proof -
  assume 0: "0 \<le> sint (nc_concurrency c)"
  have in_set: "first_error errs = Some e \<Longrightarrow> Some e \<in> set errs" for errs e
  proof (induction errs)
    case (Cons err errs)
    then show ?case by (cases err) auto
  qed simp
  show "\<exists>err. node_RunE connect runNode order c = Inr (err, Some sink, err \<noteq> None) \<and>
           (err = None \<longleftrightarrow> (\<forall>i\<in>set order. node_end runNode c i = None)) \<and>
           (\<forall>e. err = Some e \<longrightarrow> (\<exists>i\<in>set order. node_end runNode c i = Some e))"
    using assms 0 in_set [of "map (node_end runNode c) order"] first_error_none [of "map (node_end runNode c) order"]
    by (auto simp: node_RunE_def) force
next
  assume a: "env (kEnvVerPrefix @ ''CONCURRENCY'') = Some str" "Atoi str = Some v" "v < 0"
    "nc_concurrency c = valueFromEnvUint env ''CONCURRENCY'' 1"
  then have "nc_concurrency c = word_of_int v" by (simp add: valueFromEnvUint_def)
  moreover have "- (2 ^ 63) \<le> v" using a(2) by (auto simp: Atoi_def Let_def split: prod.splits if_splits)
  ultimately have "sint (nc_concurrency c) = v"
    using a(3) by (simp add: signed_of_int signed_take_bit_int_eq_self)
  with a(3) assms show "node_RunE connect runNode order c = Inl (Panic ''sync: negative WaitGroup counter'')"
    by (simp add: node_RunE_def)
qed

theorem env_uint_witness:
  "valueFromEnvUint (\<lambda>k. if k = ''COLONIO_SIMULATOR_WIDTH'' then Some (decimal 1024) else None) ''WIDTH'' 720 = 1024 \<and>
   2 ^ 63 \<le> uint (valueFromEnvUint (\<lambda>k. Some ''-1'') ''CONCURRENCY'' 1)"
  using env_uint(1) [of 1024 "\<lambda>k. if k = ''COLONIO_SIMULATOR_WIDTH'' then Some (decimal 1024) else None" "''WIDTH''" 720]
    env_uint(3) [of "\<lambda>k. Some ''-1''" "''CONCURRENCY''" "''-1''" "- 1" 1]
  by (simp add: kEnvVerPrefix_def Atoi_def number_def is_digit_def)

end
