(* ===== verification/Sim_Main.thy ===== *)
theory Sim_Main
  imports Sim_Cmd Seed_Http_Props
begin

text \<open>
  The command line of the simulator (\<open>src/simulator/cmd\<close>): the commands \<open>seed\<close> and \<open>delay\<close>, which command
  the flags belong to, and the program's exit. The command \<open>seed\<close> serves a seed and a health check on one mux.

  The flag library is a table of the flags of each command; of its parsing only what it does with a flag
  of another command is used: it refuses it. What listening on the port returns is an argument.
\<close>

subsection \<open>Flags\<close>

datatype cli_command = SeedCmd | NodeCmd | RenderCmd | ExportCmd | GenerateCmd | DelayCmd

text \<open>The flags added to a command, in the order they are added, and the variable each sets.\<close>

type_synonym 'v flag_table = "cli_command \<Rightarrow> (string \<times> (string \<Rightarrow> 'v \<Rightarrow> 'v result)) list"

definition add_flags ::
  "cli_command \<Rightarrow> (string \<times> (string \<Rightarrow> 'v \<Rightarrow> 'v result)) list \<Rightarrow> 'v flag_table \<Rightarrow> 'v flag_table" where
  "add_flags cmd fs table = table(cmd := table cmd @ fs)"

fun parse_flags :: "'v flag_table \<Rightarrow> cli_command \<Rightarrow> (string \<times> string) list \<Rightarrow> 'v \<Rightarrow> 'v result" where
  "parse_flags table cmd [] vars = Inr vars"
| "parse_flags table cmd ((name, val) # args) vars =
     (case map_of (table cmd) name of
        None \<Rightarrow> Inl (''unknown flag: --'' @ name)
      | Some setter \<Rightarrow> (case setter val vars of Inl e \<Rightarrow> Inl e | Inr vars \<Rightarrow> parse_flags table cmd args vars))"

subsection \<open>The command \<open>seed\<close>\<close>

record seed_vars =
  httpPort :: "16 word"
  httpCertFile :: string
  httpKeyFile :: string

text \<open>\<open>parsePort\<close> reads a number of 16 bits, or fails.\<close>

definition set_port :: "(string \<Rightarrow> 16 word result) \<Rightarrow> string \<Rightarrow> seed_vars \<Rightarrow> seed_vars result" where
  "set_port parsePort val v = (case parsePort val of Inl e \<Rightarrow> Inl e | Inr port \<Rightarrow> Inr (v\<lparr>httpPort := port\<rparr>))"

text \<open>\<open>init\<close> gives the variables their defaults and adds the flags, to the flags of \<open>nodeCmd\<close>.\<close>

definition seed_init :: "(string \<Rightarrow> 16 word result) \<Rightarrow> seed_vars flag_table \<Rightarrow> seed_vars flag_table \<times> seed_vars" where
  "seed_init parsePort table =
     (add_flags NodeCmd
        [(''port'', set_port parsePort),
         (''cert'', \<lambda>val v. Inr (v\<lparr>httpCertFile := val\<rparr>)),
         (''key'', \<lambda>val v. Inr (v\<lparr>httpKeyFile := val\<rparr>))] table,
      \<lparr>httpPort = 8443, httpCertFile = ''seed.crt'', httpKeyFile = ''seed.key''\<rparr>)"

datatype http_target = SeedTarget | HealthzTarget

text \<open>The health check: the status is set after the body, which has gone out with 200 by then.\<close>

definition healthz :: "resp_op list" where
  "healthz = [DoWrite ''ok'', DoHeader 200]"

text \<open>
  The seed, its routes and where it listens. \<open>listen\<close> is the error with which the listening ends, given
  the address and the two files. A seed that cannot be made panics.
\<close>

type_synonym 'b seed_server =
  "('b http_request, 'b http_request \<Rightarrow> request_context \<Rightarrow> seed_state \<Rightarrow> seed_state handled) Server"

definition seed_mux ::
  "'b connect_lib \<Rightarrow> bool \<Rightarrow> seed_state SeedServiceHandler \<Rightarrow> 'b seed_server \<Rightarrow> ('b seed_server \<times> http_target ServeMux) outcome" where
  "seed_mux lib first svc server =
     obind (RegisterService lib first svc SeedTarget [] server) (\<lambda>(server, mux).
     obind (mux_Handle ''/healthz'' HealthzTarget mux) (\<lambda>mux. Inr (server, mux)))"

definition seed_RunE ::
  "(string \<Rightarrow> 'b http_request SessionStore) \<Rightarrow> string \<Rightarrow> 'b connect_lib \<Rightarrow> bool \<Rightarrow> (NodeID list \<Rightarrow> NodeID result) \<Rightarrow> time \<Rightarrow>
   (string \<Rightarrow> string \<Rightarrow> string \<Rightarrow> string) \<Rightarrow> seed_vars \<Rightarrow>
   (string \<times> 'b seed_server \<times> http_target ServeMux \<times> seed_state) outcome" where
  "seed_RunE newCookieStore cookieKeyPair lib first gen now listen v =
     obind (NewSeed NewSimpleGateway newCookieStore cookieKeyPair []) (\<lambda>(w, store).
       let server = NewServer \<lparr>so_Logger = [], so_SessionStore = store\<rparr>;
           svc = server_service (simple_ops gen now) store now []
       in obind (seed_mux lib first svc server) (\<lambda>(server, mux).
            Inr (listen (CHR '':'' # decimal (unat (httpPort v))) (httpCertFile v) (httpKeyFile v), server, mux, w)))"

text \<open>A request that comes to the mux.\<close>

definition mux_serve ::
  "http_target ServeMux \<Rightarrow> 63 word \<Rightarrow> 'b seed_server \<Rightarrow> 'b http_request \<Rightarrow> http_response \<Rightarrow> seed_state \<Rightarrow>
   http_response http_run \<times> seed_state option" where
  "mux_serve mux draw server req resp w =
     (case mux_handler (rq_Path req) mux of
        None \<Rightarrow> (let (r, resp) = resp_run http_writer http_NotFound resp in (Served r resp [], Some w))
      | Some HealthzTarget \<Rightarrow> (let (r, resp) = resp_run http_writer healthz resp in (Served r resp [], Some w))
      | Some SeedTarget \<Rightarrow> ServeHTTP http_writer True draw server req resp w)"

subsection \<open>The command \<open>delay\<close>\<close>

text \<open>\<open>filepath.Clean\<close> and \<open>filepath.Join\<close>, on paths with slashes.\<close>

fun split_on :: "char \<Rightarrow> string \<Rightarrow> string list" where
  "split_on sep [] = [[]]"
| "split_on sep (x # xs) =
     (if x = sep then [] # split_on sep xs
      else (case split_on sep xs of [] \<Rightarrow> [[x]] | w # ws \<Rightarrow> (x # w) # ws))"

fun join_with :: "string \<Rightarrow> string list \<Rightarrow> string" where
  "join_with sep [] = []"
| "join_with sep [w] = w"
| "join_with sep (w # ws) = w @ sep @ join_with sep ws"

fun clean_parts :: "bool \<Rightarrow> string list \<Rightarrow> string list \<Rightarrow> string list" where
  "clean_parts rooted acc [] = rev acc"
| "clean_parts rooted acc (p # ps) =
     (if p = [] \<or> p = ''.'' then clean_parts rooted acc ps
      else if p = ''..'' then
        (case acc of
           q # acc' \<Rightarrow> if q = ''..'' then clean_parts rooted (p # acc) ps else clean_parts rooted acc' ps
         | [] \<Rightarrow> clean_parts rooted (if rooted then [] else [p]) ps)
      else clean_parts rooted (p # acc) ps)"

definition path_Clean :: "string \<Rightarrow> string" where
  "path_Clean path =
     (let rooted = (path \<noteq> [] \<and> hd path = CHR ''/''); body = join_with ''/'' (clean_parts rooted [] (split_on (CHR ''/'') path))
      in if rooted then CHR ''/'' # body else if body = [] then ''.'' else body)"

definition path_Join :: "string list \<Rightarrow> string" where
  "path_Join elems =
     (let es = filter (\<lambda>e. e \<noteq> []) elems in if es = [] then [] else path_Clean (join_with ''/'' es))"

definition delay_RunE :: "(string \<Rightarrow> string \<Rightarrow> 'a \<times> string option) \<Rightarrow> 'a \<Rightarrow> string \<Rightarrow> 'a \<times> string option" where
  "delay_RunE applyDelay nothing delayMaterial =
     (if length delayMaterial = 0 then (nothing, Some ''delay material path should be set'')
      else applyDelay (path_Join [delayMaterial, ''servers.csv'']) (path_Join [delayMaterial, ''pings.csv'']))"

subsection \<open>The program\<close>

text \<open>What the program prints on the standard error and its exit status.\<close>

definition sim_main :: "string option \<Rightarrow> string \<times> nat" where
  "sim_main err = (case err of Some e \<Rightarrow> (e @ [CHR 0x0A], 1) | None \<Rightarrow> ([], 0))"

subsection \<open>What they guarantee\<close>

text \<open>
  The flags of the seed's port, certificate and key are added to another command: the command \<open>seed\<close> refuses
  each of them, and whatever arguments it accepts it listens on port 8443 with the default files.
\<close>

theorem seed_flags_misplaced:
  assumes "seed_init parsePort (\<lambda>cmd. []) = (table, vars)" "parse_flags table SeedCmd args vars = Inr v"
  shows "args = [] \<and> httpPort v = 8443 \<and> httpCertFile v = ''seed.crt'' \<and> httpKeyFile v = ''seed.key''"
  using assms by (cases args) (auto simp: seed_init_def add_flags_def)

definition below :: "string \<Rightarrow> string \<Rightarrow> bool" where
  "below path p \<longleftrightarrow> take (length p) path = p"

lemma patterns_fit:
  "pattern_fits path ''/healthz'' \<longleftrightarrow> path = ''/healthz''"
  "pattern_fits path ''/api.colonio.v1alpha.SeedService/'' \<longleftrightarrow> below path ''/api.colonio.v1alpha.SeedService/''"
  "\<not> below ''/healthz'' ''/api.colonio.v1alpha.SeedService/''"
  by (auto simp: pattern_fits_def below_def)

text \<open>
  The routes of a seed that has its cookie key: the health check answers 200, every path below the service's goes
  to the server, every other path gets 404; neither the health check nor an unknown path touches the state, which begins empty.
\<close>

theorem seed_command_serves:
  assumes "key \<noteq> []"
  shows "\<exists>server mux w. seed_RunE newCookieStore key lib first gen now listen v =
       Inr (listen (CHR '':'' # decimal (unat (httpPort v))) (httpCertFile v) (httpKeyFile v), server, mux, w) \<and>
     seed_reachable w \<and> registered (fst w) = {} \<and>
     (\<forall>draw req w. mux_serve mux draw server req no_response w =
        (if rq_Path req = ''/healthz'' then (Served (Inr ()) \<lparr>rw_status = Some 200, rw_body = ''ok''\<rparr> [], Some w)
         else if below (rq_Path req) ''/api.colonio.v1alpha.SeedService/''
         then ServeHTTP http_writer True draw server req no_response w
         else (Served (Inr ()) \<lparr>rw_status = Some 404, rw_body = ''404 page not found'' @ [CHR 0x0A]\<rparr> [], Some w)))"
proof -
  let ?w = "(NewSimpleGateway, NewController (30 * 60 * 1000000000) (10 * 1000000000) (10 * 1000000000 div 2))"
  let ?mux = "[(''/api.colonio.v1alpha.SeedService/'', SeedTarget), (''/healthz'', HealthzTarget)]"
  let ?svc = "server_service (simple_ops gen now) (newCookieStore key) now []"
  let ?server = "NewServer \<lparr>so_Logger = [], so_SessionStore = newCookieStore key\<rparr>
     \<lparr>sv_connectHandler := Some (snd (NewSeedServiceHandler lib first ?svc))\<rparr>"
  have seed: "NewSeed NewSimpleGateway newCookieStore key [] = Inr (?w, newCookieStore key)"
    using assms by (simp add: NewSeed_def)
  have mux: "seed_mux lib first ?svc (NewServer \<lparr>so_Logger = [], so_SessionStore = newCookieStore key\<rparr>) = Inr (?server, ?mux)"
    by (simp add: seed_mux_def RegisterService_def NewSeedServiceHandler_def mux_Handle_def)
  have route: "mux_handler path ?mux = (if path = ''/healthz'' then Some HealthzTarget
      else if below path ''/api.colonio.v1alpha.SeedService/'' then Some SeedTarget else None)" for path
    by (simp add: mux_handler_def patterns_fit)
  have serve: "mux_serve ?mux draw ?server req no_response w =
        (if rq_Path req = ''/healthz'' then (Served (Inr ()) \<lparr>rw_status = Some 200, rw_body = ''ok''\<rparr> [], Some w)
         else if below (rq_Path req) ''/api.colonio.v1alpha.SeedService/''
         then ServeHTTP http_writer True draw ?server req no_response w
         else (Served (Inr ()) \<lparr>rw_status = Some 404, rw_body = ''404 page not found'' @ [CHR 0x0A]\<rparr> [], Some w))" for draw req w
    unfolding mux_serve_def route
    by (simp add: healthz_def http_NotFound_def http_Error_def http_writer_def net_Write_def net_WriteHeader_def bodyAllowed_def)
  show ?thesis
    using seed mux serve seed_reachable.start by (intro exI) (auto simp: seed_RunE_def NewSimpleGateway_def)
qed

text \<open>Clean paths stay as they are, so the two files are found below the given directory.\<close>

lemma sim_main_exit: "snd (sim_main err) = 0 \<longleftrightarrow> err = None"
  by (simp add: sim_main_def split: option.splits)

lemma delay_paths_example:
  "path_Join [''/data/delay/'', ''servers.csv''] = ''/data/delay/servers.csv''"
  "path_Join [''a/../b'', ''pings.csv''] = ''b/pings.csv''"
  by code_simp+

end
