(* ===== verification/Sim_Kubectl.thy ===== *)
theory Sim_Kubectl
  imports Sim_Delay Sim_Main
begin

text \<open>
  How the delays reach the pods (\<open>src/simulator/delay/kubectl.go\<close>): the text of the \<open>tc\<close> commands, the arguments of
  the \<open>kubectl\<close> process that runs them, and its answer. The process itself is an argument, \<open>exec\<close>: given the program
  and its arguments, the combined output and the error it ended with; so is \<open>decodePods\<close>, the reading of a list of pods.
\<close>

subsection \<open>The process\<close>

type_synonym process = "string \<Rightarrow> string list \<Rightarrow> string \<times> string option"

definition kubectlCmd :: "string \<Rightarrow> string list" where
  "kubectlCmd envVer = (if length envVer \<noteq> 0 then split_on (CHR '' '') envVer else [''kubectl''])"

definition kubectl :: "process \<Rightarrow> string list \<Rightarrow> string list \<Rightarrow> string result" where
  "kubectl exec cmd args =
     (let name = hd cmd; args = tl cmd @ args; (out, err) = exec name args
      in case err of
           Some e \<Rightarrow> Inl (''kubectl '' @ join_with '' '' args @ '': '' @ e @ '' '' @ out)
         | None \<Rightarrow> Inr out)"

definition kubeGetPods :: "(string \<Rightarrow> pod list result) \<Rightarrow> process \<Rightarrow> string list \<Rightarrow> string \<Rightarrow> string \<Rightarrow> pod list result" where
  "kubeGetPods decodePods exec cmd namespace label =
     (let args = [''get'', ''pods'', ''-n'', namespace, ''-l'', label, ''-o'', ''json'']
      in case kubectl exec cmd args of
           Inl e \<Rightarrow> Inl e
         | Inr out \<Rightarrow>
             (case decodePods out of Inl e \<Rightarrow> Inl (''failed to unmarshal pods: '' @ e) | Inr items \<Rightarrow> Inr items))"

definition kube_exec :: "process \<Rightarrow> string list \<Rightarrow> string \<Rightarrow> string \<Rightarrow> string \<Rightarrow> string result" where
  "kube_exec exec cmd namespace podName command =
     kubectl exec cmd ([''exec'', ''-n'', namespace, podName, ''-c'', ''node'', ''--''] @ split_on (CHR '' '') command)"

subsection \<open>The commands\<close>

definition show_int :: "int \<Rightarrow> string" where
  "show_int i = (if i < 0 then CHR ''-'' # decimal (nat (- i)) else decimal (nat i))"

definition class_text :: "nat \<times> nat \<Rightarrow> string" where
  "class_text p = decimal (fst p) @ '':'' @ decimal (snd p)"

text \<open>The texts of the calls of \<open>kubeExec\<close> in \<open>setDelay\<close> and \<open>setDelayLocal\<close>.\<close>

fun tc_text :: "tc_cmd \<Rightarrow> string" where
  "tc_text (DelRoot dev) = ''tc qdisc del dev '' @ dev @ '' root''"
| "tc_text (AddRootPrio dev handle bands) =
     ''tc qdisc add dev '' @ dev @ '' root handle '' @ decimal handle @ '': prio bands '' @ decimal bands"
| "tc_text (AddPrio dev parent handle bands) =
     ''tc qdisc add dev '' @ dev @ '' parent '' @ class_text parent @ '' handle '' @ decimal handle @ '': prio bands '' @ decimal bands"
| "tc_text (AddNetem dev parent handle ms) =
     ''tc qdisc add dev '' @ dev @ '' parent '' @ class_text parent @ '' handle '' @ decimal handle @ '': netem delay '' @ show_int ms @ ''ms''"
| "tc_text (AddFilter dev parent prio dst flow) =
     ''tc filter add dev '' @ dev @ '' parent '' @ decimal parent @ '': protocol ip prio '' @ decimal prio @
     '' u32 match ip dst '' @ dst @ '' flowid '' @ class_text flow"
| "tc_text (AddPfifo dev parent handle) =
     ''tc qdisc add dev '' @ dev @ '' parent '' @ class_text parent @ '' handle '' @ decimal handle @ '': pfifo''"

text \<open>The answers that \<open>setDelay\<close> and \<open>setDelayLocal\<close> get for a pod.\<close>

definition pod_answer :: "process \<Rightarrow> string list \<Rightarrow> string \<Rightarrow> string \<Rightarrow> tc_answer" where
  "pod_answer exec cmd namespace podName hist c =
     (case kube_exec exec cmd namespace podName (tc_text c) of Inl e \<Rightarrow> Some e | Inr _ \<Rightarrow> None)"

subsection \<open>What reaches the pod\<close>

lemma split_on_nonempty: "split_on sep s \<noteq> []"
  by (induction s) (auto split: list.splits)

lemma split_on_word: "sep \<notin> set w \<Longrightarrow> split_on sep w = [w]"
  by (induction w) auto

lemma split_on_append: "sep \<notin> set w \<Longrightarrow> split_on sep (w @ sep # s) = w # split_on sep s"
  by (induction w) auto

lemma split_join:
  "ws \<noteq> [] \<Longrightarrow> \<forall>w\<in>set ws. sep \<notin> set w \<Longrightarrow> split_on sep (join_with [sep] ws) = ws"
  by (induction "[sep]" ws rule: join_with.induct) (auto simp: split_on_word split_on_append)

lemma join_split: "join_with [sep] (split_on sep s) = s"
proof (induction s)
  case (Cons x s)
  then show ?case using split_on_nonempty [of sep s]
    by (cases "split_on sep s"; cases "tl (split_on sep s)") auto
qed simp

text \<open>The arguments that \<open>tc\<close> is meant to get.\<close>

fun tc_args :: "tc_cmd \<Rightarrow> string list" where
  "tc_args (DelRoot dev) = [''tc'', ''qdisc'', ''del'', ''dev'', dev, ''root'']"
| "tc_args (AddRootPrio dev handle bands) =
     [''tc'', ''qdisc'', ''add'', ''dev'', dev, ''root'', ''handle'', decimal handle @ '':'', ''prio'', ''bands'', decimal bands]"
| "tc_args (AddPrio dev parent handle bands) =
     [''tc'', ''qdisc'', ''add'', ''dev'', dev, ''parent'', class_text parent, ''handle'', decimal handle @ '':'', ''prio'', ''bands'', decimal bands]"
| "tc_args (AddNetem dev parent handle ms) =
     [''tc'', ''qdisc'', ''add'', ''dev'', dev, ''parent'', class_text parent, ''handle'', decimal handle @ '':'', ''netem'', ''delay'', show_int ms @ ''ms'']"
| "tc_args (AddFilter dev parent prio dst flow) =
     [''tc'', ''filter'', ''add'', ''dev'', dev, ''parent'', decimal parent @ '':'', ''protocol'', ''ip'', ''prio'', decimal prio,
      ''u32'', ''match'', ''ip'', ''dst'', dst, ''flowid'', class_text flow]"
| "tc_args (AddPfifo dev parent handle) =
     [''tc'', ''qdisc'', ''add'', ''dev'', dev, ''parent'', class_text parent, ''handle'', decimal handle @ '':'', ''pfifo'']"

fun tc_names :: "tc_cmd \<Rightarrow> string list" where
  "tc_names (DelRoot dev) = [dev]"
| "tc_names (AddRootPrio dev handle bands) = [dev]"
| "tc_names (AddPrio dev parent handle bands) = [dev]"
| "tc_names (AddNetem dev parent handle ms) = [dev]"
| "tc_names (AddFilter dev parent prio dst flow) = [dev, dst]"
| "tc_names (AddPfifo dev parent handle) = [dev]"

lemma decimal_no_space [simp]: "CHR '' '' \<notin> set (decimal n)"
  using decimal_digits [of n] by (auto simp: is_digit_def)

lemma class_text_no_space [simp]: "CHR '' '' \<notin> set (class_text p)"
  by (simp add: class_text_def)

lemma show_int_no_space [simp]: "CHR '' '' \<notin> set (show_int i)"
  by (simp add: show_int_def)

lemma tc_args_words: "\<forall>d\<in>set (tc_names c). CHR '' '' \<notin> set d \<Longrightarrow> w \<in> set (tc_args c) \<Longrightarrow> CHR '' '' \<notin> set w"
  by (cases c) auto

lemma tc_text_join: "tc_text c = join_with '' '' (tc_args c)"
  by (cases c) simp_all

text \<open>
  Every command arrives in its pod as the words that are meant: \<open>kubeExec\<close> cuts the text at its spaces, which gives
  the program \<open>tc\<close> and its arguments, whatever the numbers are, if the device and the address have no space in them.
\<close>

theorem tc_arguments:
  assumes "\<forall>d\<in>set (tc_names c). CHR '' '' \<notin> set d"
  shows "kube_exec exec cmd namespace podName (tc_text c) =
     kubectl exec cmd ([''exec'', ''-n'', namespace, podName, ''-c'', ''node'', ''--''] @ tc_args c)"
proof -
  have "tc_args c \<noteq> []" by (cases c) simp_all
  then have "split_on (CHR '' '') (tc_text c) = tc_args c"
    using split_join [of "tc_args c" "CHR '' ''"] tc_args_words [OF assms] by (simp add: tc_text_join)
  then show ?thesis by (simp add: kube_exec_def)
qed

lemma contains_append: "contains s t \<Longrightarrow> contains (p @ s) t"
  unfolding contains_def
proof (elim bexE)
  fix i
  assume "i \<in> {..length s}" "take (length t) (drop i s) = t"
  then show "\<exists>i\<in>{..length (p @ s)}. take (length t) (drop i (p @ s)) = t"
    by (intro bexI [of _ "length p + i"]) auto
qed

text \<open>
  Setting the delays of a pod that has none yet: \<open>tc\<close> fails to delete the missing discipline with its known message, the message
  is found in the error that \<open>kubectl\<close> makes of it, and the work goes on.
\<close>

theorem missing_discipline_tolerated:
  assumes "exec (hd cmd) (tl cmd @ [''exec'', ''-n'', namespace, podName, ''-c'', ''node'', ''--''] @ tc_args (DelRoot dev)) = (out, err)"
    and "contains out ''Cannot delete qdisc with handle of zero''" "CHR '' '' \<notin> set dev"
  shows "delete_old (pod_answer exec cmd namespace podName) dev hist = (hist @ [DelRoot dev], None)"
proof -
  have e: "kube_exec exec cmd namespace podName (tc_text (DelRoot dev)) =
      kubectl exec cmd ([''exec'', ''-n'', namespace, podName, ''-c'', ''node'', ''--''] @ tc_args (DelRoot dev))"
    using assms(3) by (intro tc_arguments) simp
  show ?thesis
  proof (cases err)
    case None
    then show ?thesis using assms(1) by (simp add: delete_old_def kubeExec_def pod_answer_def e kubectl_def del: tc_text.simps)
  next
    case (Some msg)
    then obtain p where "pod_answer exec cmd namespace podName hist (DelRoot dev) = Some (p @ out)"
      using assms(1) by (simp add: pod_answer_def e kubectl_def del: tc_text.simps)
    then show ?thesis using contains_append [OF assms(2), of p] by (simp add: delete_old_def kubeExec_def)
  qed
qed

end
