(* ===== verification/Spec2Isabelle.thy ===== *)
theory Spec2Isabelle
  imports Accessors Seed_Http_Props Network_Props Spread_Props Node WebRTC_Wasm
    Sim_Store Sim_Draw Sim_Kubectl
begin

text \<open>
  Verification of colonio, a peer-to-peer network in Go: nodes find each other through a
  seed server, connect by WebRTC, form a ring by their identifiers and a Delaunay net
  by their positions, and offer messages to an identifier and spreading over an area. A
  simulator beside it runs many nodes, records what they see and draws the network.

  \<^bold>\<open>Parts and theories.\<close> File names are below \<open>src/\<close>; a definition has the name of the Go function,
  where needed with a short prefix of its type (\<open>nid_\<close>, \<open>gw_\<close>, \<open>ctl_\<close>, \<open>srv_\<close>, \<open>r1_\<close>, \<open>r2_\<close>, \<open>rt_\<close>, \<open>tr_\<close>, \<open>nl_\<close>,
  \<open>na_\<close>, \<open>wn_\<close>, \<open>ww_\<close>, \<open>sa_\<close>, \<open>nw_\<close>, \<open>msg_\<close>, \<open>sp_\<close>, \<open>ci_\<close>).

  \<^item> \<open>Prelude\<close>: results (\<open>'a result\<close>, a Go error or a value), outcomes (\<open>'a outcome\<close>, a panic, a wait that does not
    end, or a return), Go maps as lists of entries in the order the range visits them, sorting by a
    comparison function (the locale \<open>comparator\<close>), strings and the truncation of floats.
  \<^item> \<open>Node_ID\<close> (\<open>types/node_id.go\<close>): identifiers are a tag and two 64-bit words with the carries
    of the code; printing and parsing, the ring arithmetic, the metric, and what every identifier
    a program can come by has in common (\<open>made_id\<close>).
  \<^item> \<open>Geometry\<close> (\<open>node/internal/geometry\<close>): plane and sphere, two interpretations of the locale
    \<open>coordinate_system\<close>. Real numbers stand for floats.
  \<^item> \<open>Packets\<close>: packets, their contents and signals, as the structures of the generated code; \<open>Accessors\<close>: the
    generated accessors that the program calls, and that the cases of the model agree with them.
  \<^item> \<open>Map_Helper\<close>, \<open>Channel\<close> (\<open>seed/misc\<close>), \<open>Gateway\<close> (\<open>seed/gateway\<close>), \<open>Controller\<close> (\<open>seed/controller\<close>), \<open>Seed\<close>
    (\<open>seed/server\<close>, \<open>seed/seed.go\<close>), \<open>Logger\<close> (\<open>seed/misc/logger.go\<close>): the seed. The channel is a \<open>bounded_fifo\<close>, the gateway a \<open>node_registry\<close>;
    what the controller concludes from any registry is proved inside that locale. \<open>Seed_Props\<close> has the
    states the seed can reach (\<open>seed_step\<close>), their invariant, and expiry, routing of signals,
    store and forward, reconciliation and assignment.
  \<^item> \<open>Seed_Rpc\<close> (\<open>api/colonio/v1alpha/v1alphaconnect/seed.connect.go\<close>, \<open>bypass\<close> of \<open>seed/server/server.go\<close>): the generated client and
    handler of the seed's service, and response writers, whose contract is the locale \<open>response_writer\<close>; the writer of the HTTP
    server and the server's counting writer before it interpret it. \<open>Seed_Http\<close> (\<open>seed/server/server.go\<close>): mounting, session, number, log
    and handling of a request, cut where its method waits. \<open>Seed_Http_Props\<close>: every request keeps the seed reachable, so that all of
    \<open>Seed_Props\<close> holds for what clients send; what is answered, what is logged, and that a client reaches the method it names.
  \<^item> \<open>Routing1D\<close> (\<open>routing_1d.go\<close>): the ring. \<open>Routing1D_Table\<close>, \<open>_Correct\<close> and \<open>_Next\<close> relate the tables to what the
    neighbours reported; \<open>Routing1D_Props\<close> shows for every reachable table that the next step is safe
    and nearer, and that packets arrive in a consistent network.
  \<^item> \<open>Routing2D\<close> (\<open>routing_2d.go\<close>): routing by position; \<open>Routing\<close> (\<open>routing.go\<close>): both behind one routine; \<open>Routing_Props\<close>:
    what the routine asks for and announces.
  \<^item> \<open>Transferer\<close> (\<open>transferer.go\<close>): requests, retries, responses; every request is accounted for.
  \<^item> \<open>Node_Link\<close> (\<open>node_link.go\<close>): buffering, cutting into frames and joining them; the round trip.
  \<^item> \<open>WebRTC_Link\<close> (\<open>webrtc_link.go\<close>, \<open>webrtc_link_native.go\<close>) and \<open>WebRTC_Wasm\<close> (\<open>webrtc_link_wasm.go\<close>): the two
    implementations of a link's channel, over the pion library and over the JavaScript runtime.
    \<open>Link_Channel\<close> states in the locale \<open>webrtc_channel\<close> what a node link needs of its channel, that a link
    and its channel agree and that a closed link stays closed; both implementations interpret it.
  \<^item> \<open>Node_Accessor\<close> (\<open>node_accessor.go\<close>): who is connected by which link, signalling. \<open>Node_Accessor_Props\<close>: the
    invariant of all reachable states and what is announced to the routing.
  \<^item> \<open>Seed_Accessor\<close> (\<open>seed_accessor.go\<close>): the client of the seed.
  \<^item> \<open>Network\<close> (\<open>network.go\<close>): the composition of seed accessor, node accessor, transferer and routing; \<open>Network_Props\<close>:
    hop limit, delivery over a link, failure to deliver, and that wanted connections are pursued.
  \<^item> \<open>Wait_Any\<close>, \<open>Messaging\<close>, \<open>Spread\<close> (\<open>node/internal\<close>): what programs use. \<open>Spread_Props\<close>: a message reaches every
    node of the connected area once, in whatever order packets arrive.
  \<^item> \<open>Node\<close> (\<open>node/node.go\<close>): the public interface.
  \<^item> The simulator (\<open>simulator\<close>). \<open>Sim_Position\<close> (\<open>utils/position.go\<close>): the random walk of a node, which the
    sphere's coordinate system always takes. \<open>Sim_Delay\<close> (\<open>delay\<close>): the distance, shown equal to the
    node's own, the closest server, the measured delays and the traffic control commands. \<open>Sim_Node\<close>
    (\<open>base/node.go\<close>, \<open>circle\<close>, \<open>sphere\<close>, \<open>node/observation\<close>): the sessions of a node; the locale \<open>story\<close> is what a
    story's handler may do, both stories interpret it. \<open>Sim_Store\<close> (\<open>datastore\<close>, \<open>cmd/export.go\<close>): writers and
    readers, over all interleavings of the MongoDB writer. \<open>Sim_Canvas\<close> (\<open>canvas\<close>), \<open>Sim_Render\<close> (\<open>base/render_framework.go\<close>)
    and \<open>Sim_Draw\<close> (\<open>circle/render.go\<close>, \<open>sphere/render.go\<close>): the figures and the frames; the locale \<open>story_drawer\<close>
    is what the loop asks of a drawer. \<open>Sim_Cmd\<close> (\<open>cmd\<close>, \<open>generate\<close>): settings, checks and work of the
    commands; \<open>Sim_Main\<close> (\<open>cmd/seed.go\<close>, \<open>cmd/delay.go\<close>, \<open>cmd/main.go\<close>): the seed of a simulation, its routes and flags, and the exit;
    \<open>Sim_Kubectl\<close> (\<open>delay/kubectl.go\<close>): the words in which a traffic control command reaches its pod.
  \<^item> This theory: the properties between seed and node: the ring they agree on, the way of a signal, and a node that joins over HTTP.

  \<^bold>\<open>How state, calls and time are modelled.\<close> A struct is a record, an operation a function from the record
  to an outcome with the record updated. Calls into another component that the code makes through a
  handler are returned as a list of effects, in order; the component above carries them out
  (\<open>run_transferer\<close>, \<open>run_routing\<close>). A goroutine, a tick and an event of a library is a step of its own, so that
  the step relations (\<open>seed_step\<close>, \<open>na_step\<close>, \<open>r1_step\<close>, \<open>rt_reachable\<close>, \<open>tr_run\<close>, \<open>flood_step\<close>, \<open>pair_step\<close>,
  \<open>mongo_step\<close>) range over all orders. A call that
  waits is cut where it wakes. A mutex is a flag where it matters (\<open>tr_Receive\<close>), and a wait for oneself
  is the value \<open>Blocked\<close>. The clock, random numbers, the session store, the marshalling of protobuf (\<open>Codec\<close>),
  the WebRTC libraries, the connect library (\<open>connect_lib\<close>),
  the triangulation, SDL, the MongoDB driver, the \<open>kubectl\<close> process and the remote calls are arguments; what is assumed of them is a
  hypothesis of the theorem. Random identifiers come from a list of draws: running out of
  draws is a separate value, never a success.

  \<^bold>\<open>Fuel and bounds.\<close> Loops are structural, or have a measure (cutting a queue into frames, classifying a
  packet, whose error response goes to the local node or is dropped, drawing the frames up to the time of a
  record). Only the export of a collection has fuel, and the theorem says how much is enough: one turn per
  entry and one more. A loop driven from outside (the sessions and turns of a simulated node, the
  records of a rendering, the draws of a walk) runs over the list of what happens, and is \<open>Blocked\<close> when the
  list ends before it does. Words keep their width: identifiers, offer identifiers, hop counts, frame
  indices, packet identifiers, colours and settings.

  \<^bold>\<open>Not modelled.\<close> What is logged, but for the entries of a request to the seed; headers, redirects and the protocol of HTTP, of which
  the status and the body of a response are kept; the state of the seed after a handler has panicked, from which the HTTP
  server recovers (\<open>ServeHTTP\<close> leaves it open); the registration of callbacks with the JavaScript runtime; of the
  generated messages the descriptors, the reflection and the accessors no code calls, and the wire format, which belongs to the
  protobuf library; the parsing of flags beyond which command owns them; the freeing of SDL objects; the end-to-end tests and their helpers.
\<close>

subsection \<open>The seed confirms the ring\<close>

lemma wrapped_range:
  assumes "fwd (nid_val l) (nid_val b) < fwd (nid_val l) (nid_val a)"
  shows "in_ring_range a b x \<longleftrightarrow>
    fwd (nid_val l) (nid_val a) \<le> fwd (nid_val l) (nid_val x) \<or> fwd (nid_val l) (nid_val x) \<le> fwd (nid_val l) (nid_val b)"
  using assms fwd_lt [of l x] fwd_lt [of l a] unfolding in_ring_range_def fwd_shift [of a x l] fwd_shift [of a b l] by auto

lemma ends_of_sorted:
  fixes F :: "'a \<Rightarrow> nat"
  assumes s: "sorted_wrt (\<lambda>a b. F a < F b) ns" and c: "0 < fc" "0 < bc" "fc + bc \<le> length ns" and x: "x \<in> set ns"
  shows "x \<in> set (drop (length ns - bc) ns @ take fc ns) \<longleftrightarrow> F (ns ! (length ns - bc)) \<le> F x \<or> F x \<le> F (ns ! (fc - 1))"
proof -
  obtain i where i: "i < length ns" "x = ns ! i" using x by (auto simp: in_set_conv_nth)
  have mono: "F (ns ! j) \<le> F (ns ! k) \<longleftrightarrow> j \<le> k" if "j < length ns" "k < length ns" for j k
    using sorted_wrt_nth_less [OF s, of j k] sorted_wrt_nth_less [OF s, of k j] that
    by (cases j k rule: linorder_cases) auto
  have d: "distinct ns" using s by (induction ns) auto
  have "x \<in> set (drop (length ns - bc) ns) \<longleftrightarrow> length ns - bc \<le> i"
    using i c d by (auto simp: in_set_conv_nth nth_eq_iff_index_eq intro!: exI [of _ "i - (length ns - bc)"])
  moreover have "x \<in> set (take fc ns) \<longleftrightarrow> i \<le> fc - 1"
    using i c d by (auto simp: in_set_conv_nth nth_eq_iff_index_eq intro!: exI [of _ i])
  ultimately show ?thesis using i c by (simp add: mono)
qed

lemma next_of_ring:
  assumes "r1_inv r" "r1_synced r" "neighborhoodInfos r \<noteq> []"
  obtains ns fc bc where "sorted_wrt (\<lambda>a b. fwd (nid_val (r1_localNodeID r)) (nid_val a) < fwd (nid_val (r1_localNodeID r)) (nid_val b)) ns"
    "set ns = known r" "next_of r = drop (length ns - bc) ns @ take fc ns" "0 < fc" "0 < bc"
    "length ns = card (known r)" "length ns = 1 \<Longrightarrow> fc = 1 \<and> bc = 1" "2 \<le> length ns \<Longrightarrow> fc + bc \<le> length ns"
proof -
  obtain ns where ns: "sorted_wrt (\<lambda>a b. fwd (nid_val (r1_localNodeID r)) (nid_val a) < fwd (nid_val (r1_localNodeID r)) (nid_val b)) ns"
    "set ns = known r" "frontwardNextNodeIDs r = take (front_count (card (known r))) ns"
    "backwardNextNodeIDs r = take (back_count (card (known r))) (rev ns)"
    "0 < front_count (card (known r))" "0 < back_count (card (known r))"
    using next_nodes_are_nearest [OF assms] by blast
  from ns(1) have "distinct ns" by (induction ns) auto
  then have l: "length ns = card (known r)" using ns(2) distinct_card by fastforce
  show ?thesis
    by (rule that [OF ns(1,2) _ ns(5,6) l])
       (auto simp: next_of_def ns(3,4) l rev_take front_count_def back_count_def ONE_SIDE_NEXT_COUNT_def)
qed

lemma known_here:
  assumes "r1_inv r" "m \<in> known r"
  shows "nid_IsNormal m" "m \<noteq> r1_localNodeID r"
  using known_normal assms by (auto simp: r1_inv_def)

lemma exact_range:
  assumes "N \<subseteq> K" "l \<notin> K" "\<And>m. m \<in> K \<Longrightarrow> m \<in> N \<longleftrightarrow> rng m"
  shows "N = {m \<in> R. rng m} - {l} \<longleftrightarrow> N \<subseteq> R \<and> (\<forall>m \<in> R - K - {l}. \<not> rng m)"
  using assms by auto

text \<open>Walking forward around the ring from \<open>l\<close> meets \<open>m\<close> before \<open>n\<close>.\<close>

definition met_before :: "NodeID \<Rightarrow> NodeID \<Rightarrow> NodeID \<Rightarrow> bool" where
  "met_before l m n \<longleftrightarrow> fwd (nid_val l) (nid_val m) < fwd (nid_val l) (nid_val n)"

lemma reported_match:
  assumes "r1_inv r" and "r1_synced r" and "neighborhoodInfos r \<noteq> []" and "l = r1_localNodeID r"
  shows "next_of r \<noteq> []" and "set (next_of r) \<subseteq> known r"
    and "(distinct (next_of r) \<and> set (next_of r) = {m \<in> registered g. in_ring_range (hd (next_of r)) (last (next_of r)) m} - {l}) =
    (card (known r) \<noteq> 1 \<and> set (next_of r) \<subseteq> registered g \<and>
     (\<forall>m \<in> registered g - known r - {l}. met_before l (last (next_of r)) m \<and> met_before l m (hd (next_of r))))"
proof -
  obtain ns fc bc where ns: "sorted_wrt (\<lambda>a b. fwd (nid_val l) (nid_val a) < fwd (nid_val l) (nid_val b)) ns"
    "set ns = known r" and nx: "next_of r = drop (length ns - bc) ns @ take fc ns" and c: "0 < fc" "0 < bc"
    "length ns = card (known r)" "length ns = 1 \<Longrightarrow> fc = 1 \<and> bc = 1" "2 \<le> length ns \<Longrightarrow> fc + bc \<le> length ns"
    using next_of_ring [OF assms(1-3)] unfolding assms(4) by metis
  have d: "distinct ns" using ns(1) by (induction ns) auto
  have "firsts (neighborhoodInfos r) \<noteq> {}" using assms(3) by (auto simp: firsts_def neq_Nil_conv)
  then have ne: "ns \<noteq> []" using ns(2) by (auto simp: known_def)
  show sub: "set (next_of r) \<subseteq> known r" using nx ns(2) set_drop_subset set_take_subset by fastforce
  show "next_of r \<noteq> []" using nx c(1) ne by simp
  show "(distinct (next_of r) \<and> set (next_of r) = {m \<in> registered g. in_ring_range (hd (next_of r)) (last (next_of r)) m} - {l}) =
    (card (known r) \<noteq> 1 \<and> set (next_of r) \<subseteq> registered g \<and>
     (\<forall>m \<in> registered g - known r - {l}. met_before l (last (next_of r)) m \<and> met_before l m (hd (next_of r))))"
  proof (cases "length ns = 1")
    case True
    then have "next_of r = ns @ ns" using nx c(4) by simp
    then show ?thesis using True c(3) ne by auto
  next
    case False
    then have two: "2 \<le> length ns" using ne by (cases ns) (auto simp: Suc_le_eq)
    note fb = c(5) [OF two]
    have hl: "hd (next_of r) = ns ! (length ns - bc)" "last (next_of r) = ns ! (fc - 1)"
      using fb c(1,2) ne by (simp_all add: nx hd_drop_conv_nth last_conv_nth nth_append)
    have lt: "met_before l (last (next_of r)) (hd (next_of r))"
      unfolding met_before_def hl using sorted_wrt_nth_less [OF ns(1), of "fc - 1" "length ns - bc"] fb c(1,2) by simp
    have range: "in_ring_range (hd (next_of r)) (last (next_of r)) m \<longleftrightarrow> \<not> (met_before l (last (next_of r)) m \<and> met_before l m (hd (next_of r)))" for m
      using wrapped_range [OF lt [unfolded met_before_def], of m] by (auto simp: met_before_def)
    have ends: "m \<in> set (next_of r) \<longleftrightarrow> in_ring_range (hd (next_of r)) (last (next_of r)) m" if "m \<in> known r" for m
      using ends_of_sorted [OF ns(1) c(1,2) fb, of m] that ns(2) unfolding range nx [symmetric] hl [symmetric]
      by (auto simp: met_before_def)
    have "distinct (next_of r)"
    proof -
      have "fc \<le> length ns - bc" using fb by simp
      from set_take_disj_set_drop_if_distinct [OF d this] show ?thesis unfolding nx using d by auto
    qed
    moreover have "l \<notin> known r" using known_here(2) [OF assms(1)] assms(4) by blast
    from exact_range [OF sub this ends, of "registered g"]
    have "set (next_of r) = {m \<in> registered g. in_ring_range (hd (next_of r)) (last (next_of r)) m} - {l} \<longleftrightarrow>
      set (next_of r) \<subseteq> registered g \<and>
      (\<forall>m \<in> registered g - known r - {l}. met_before l (last (next_of r)) m \<and> met_before l m (hd (next_of r)))"
      by (simp only: range not_not)
    ultimately show ?thesis using False c(3) by simp
  qed
qed

text \<open>
  C6. The seed and the ring agree: a node that is connected to somebody, with its tables in
  step, reports its next nodes to the seed. In every reachable state of the seed the answer is
  that they match exactly if they are all registered and every registered node the reporter
  does not know lies beyond them on either side; except that a node that knows a single other
  node never gets that answer: it reports this node twice. So a network of two nodes is never
  stable.
\<close>

theorem ring_confirmed_exactly:
  assumes "seed_reachable (g, c)" and "r1_inv r" and "r1_synced r" and "neighborhoodInfos r \<noteq> []" and "l = r1_localNodeID r"
  shows "\<exists>w'. ctl_ReconcileNextNodes (simple_ops gen now) l (next_of r) disc (g, c) = Inr (Inr (card (known r) \<noteq> 1 \<and>
    set (next_of r) \<subseteq> registered g \<and>
    (\<forall>m \<in> registered g - known r - {l}. met_before l (last (next_of r)) m \<and> met_before l m (hd (next_of r)))), w')"
proof -
  note m = reported_match [OF assms(2-5)]
  have "\<forall>m \<in> set (next_of r). nid_IsNormal m" using m(2) known_here [OF assms(2)] by blast
  from reconcile_eq [OF seed_reachable_inv [OF assms(1)] this, of gen now l disc] m(1) show ?thesis
    unfolding m(3) by auto
qed

text \<open>Two nodes, each other's only peer.\<close>

theorem ring_confirmed_exactly_witness:
  "\<exists>w'. ctl_ReconcileNextNodes (simple_ops demo_gen 5) seed_a (next_of (one_peer seed_a seed_b)) [] (fst demo_seed, snd demo_seed) =
    Inr (Inr False, w')"
proof -
  have "known (one_peer seed_a seed_b) = {seed_b}" by (auto simp: known_def one_peer_def firsts_def reports_def)
  then show ?thesis
    using ring_confirmed_exactly [OF demo_reachable one_peer_ok(2,3), of seed_a seed_b seed_a demo_gen 5 "[]"]
    by (simp add: one_peer_def)
qed

subsection \<open>A signal's way\<close>

lemma sent_not_next:
  assumes "sends (Inr ()) d ev sa = Inr (Inr (), [sg])" "\<forall>src offer. ev = SeedRecvSignalOffer src offer \<longrightarrow> of_OfferType offer = OfferTypeExplicit"
  shows "\<not> is_next_offer sg"
proof (cases ev)
  case (SeedRecvSignalOffer src offer)
  then show ?thesis using assms
    by (auto simp: sa_SendSignalOffer_def send_signal_def is_next_offer_def OfferTypeExplicit_def obind_def split: sum.splits option.splits)
next
  case (SeedRecvSignalAnswer src ans)
  then show ?thesis using assms
    by (auto simp: sa_SendSignalAnswer_def send_signal_def is_next_offer_def obind_def split: sum.splits option.splits)
next
  case (SeedRecvSignalICE src ice)
  then show ?thesis using assms
    by (auto simp: sa_SendSignalICE_def send_signal_def is_next_offer_def obind_def split: sum.splits option.splits)
qed

text \<open>
  C10. A signal from node to node: in every reachable state of the seed, what a registered
  node sends to another one, an explicit offer, an answer or candidates, passes the seed's
  checks; when the receiver polls, the seed gives it the signal in its first turn, and the
  receiver's handler is called with what the sender gave, from the sender. Assumed:
  nothing else waits for the receiver, which is not polling yet.
\<close>

theorem signal_end_to_end:
  assumes "seed_reachable (g, c)" and "a \<in> registered g" and "a \<noteq> d" and "mget (gw_nodes g) d = Some e"
    and "\<not> subscribingSignal e" and "waitingSignals e = []"
    and "sess_getNodeID s = Some a" and "sess_getNodeID s' = Some d" and "sa_localNodeID sa = Some a" and "event_from ev = a"
    and "event_ok ev" and "\<forall>src offer. ev = SeedRecvSignalOffer src offer \<longrightarrow> of_OfferType offer = OfferTypeExplicit"
  shows "\<exists>sg w1 w2 w3 w4. sends (Inr ()) d ev sa = Inr (Inr (), [sg]) \<and>
    srv_SendSignal (simple_ops gen now) now (Some sg) s (g, c) = Inr (Inr (), w1, s) \<and>
    srv_PollSignal_begin (simple_ops gen t) True s' w1 = (Inr (d, True), w2) \<and>
    gw_deliverWaiting (seed_handler t') d orphan w2 = Inr w3 \<and>
    ctl_PollSignal_turn Receive d w3 = Inr (Some sg, w4) \<and>
    sa_poll (Inr ([[], [sg]], r)) = (r, [ev])"
proof -
  have inv: "seed_inv (g, c)" using seed_reachable_inv [OF assms(1)] .
  have d: "d \<in> registered g" using assms(4) by (simp add: mhas_iff [symmetric] mhas_def)
  have norm: "nid_IsNormal a" "nid_IsNormal d" using inv assms(2) d by (auto simp: seed_inv_def gw_inv_def)
  obtain sg where sg: "sends (Inr ()) d ev sa = Inr (Inr (), [sg])" "NewNodeIDFromProto (sg_DstNodeId sg) = Inr d"
    "NewNodeIDFromProto (sg_SrcNodeId sg) = Inr a" "sg_Content sg \<noteq> Signal_unset" "recv_signal sg = Inr [ev]"
    using sends_received [OF norm(2), of ev sa] norm(1) assms(9-11) by auto
  have v: "ctl_validateSignal sg a = Inr ()" using sg by (simp add: ctl_validateSignal_def)
  obtain w1 w2 w3 ch where w: "ctl_SendSignal (simple_ops gen now) now a (Some sg) (g, c) = Inr (Inr (), w1)"
    "ctl_PollSignal_begin (simple_ops gen t) d w1 = (Inr True, w2)" "gw_deliverWaiting (seed_handler t') d orphan w2 = Inr w3"
    "mget (signalChannels (snd w3)) d = Some ch" "ch_buf ch = [sg]"
    using signal_stored_result [OF assms(1) _ v sg(2) sent_not_next [OF sg(1) assms(12)] assms(4,5)] assms(3,6) d by fastforce
  have "\<exists>w4. ctl_PollSignal_turn Receive d w3 = Inr (Some sg, w4)"
    using w(4,5) by (cases w3) (simp add: ctl_PollSignal_turn_def ch_recv_def)
  then show ?thesis using sg(1,5) w(1,2,3) assms(7,8)
    by (fastforce simp: srv_SendSignal_def srv_PollSignal_begin_def sa_poll_def)
qed

definition demo_session :: "string \<Rightarrow> session" where
  "demo_session v = \<lparr>sess_nodeID = Some v, sess_MaxAge = 0\<rparr>"

definition demo_answer :: sa_effect where
  "demo_answer = SeedRecvSignalAnswer seed_a \<lparr>an_OfferID = 7, an_Status = AnswerStatusAccept, an_Sdp = ''sdp''\<rparr>"

lemma demo_sessions:
  "sess_getNodeID (demo_session ''00000000000000000000000000000001'') = Some seed_a"
  "sess_getNodeID (demo_session ''00000000000000000000000000000002'') = Some seed_b"
  by code_simp+

theorem signal_end_to_end_witness:
  "\<exists>sg w1 w2 w3 w4. sends (Inr ()) seed_b demo_answer \<lparr>sa_localNodeID = Some seed_a, sa_isAlone = False\<rparr> = Inr (Inr (), [sg]) \<and>
    srv_SendSignal (simple_ops demo_gen 5) 5 (Some sg) (demo_session ''00000000000000000000000000000001'') (fst demo_seed, snd demo_seed) =
      Inr (Inr (), w1, demo_session ''00000000000000000000000000000001'') \<and>
    srv_PollSignal_begin (simple_ops demo_gen 6) True (demo_session ''00000000000000000000000000000002'') w1 = (Inr (seed_b, True), w2) \<and>
    gw_deliverWaiting (seed_handler 7) seed_b [] w2 = Inr w3 \<and>
    ctl_PollSignal_turn Receive seed_b w3 = Inr (Some sg, w4) \<and>
    sa_poll (Inr ([[], [sg]], Inr ())) = (Inr (), [demo_answer])"
  by (rule signal_end_to_end [OF demo_reachable _ _ demo_entry_b _ _ demo_sessions]) (simp_all add: demo_answer_def)

subsection \<open>A node joins\<close>

text \<open>What the client of the seed reads of the answer to \<open>AssignNode\<close>.\<close>

definition assign_answer :: "rpc_response call \<Rightarrow> (proto_NodeID option \<times> bool) call" where
  "assign_answer r =
     (case r of Inl e \<Rightarrow> Inl e
      | Inr msg \<Rightarrow> Inr (AssignNodeResponse_GetNodeId (Some msg), AssignNodeResponse_GetIsAlone (Some msg)))"

lemma assign_handled:
  assumes "srv_AssignNode gw store now s w = Inr (Inr (p, b), w', s')" "cn_empty lib req = Inr ()"
    and "rq_Path req = SeedServiceAssignNodeProcedure"
  shows "\<exists>ctx'. snd (NewSeedServiceHandler lib first (server_service gw store now logger)) req (request_ctx draw s) w =
    Inr (Answered (cn_reply lib req (AssignNodeResponse p b)), w', ctx')"
proof -
  obtain attrs where "NewLogger (request_ctx draw s) logger = Inr attrs" using request_ctx_logger by blast
  with assms show ?thesis
    by (simp add: NewSeedServiceHandler_def unary_handler_def server_service_def in_context_def context_session_def
        request_ctx_session reply_with_def unary_answer_def Let_def)
qed

lemma answered_run:
  assumes "newSession (sv_sessionStore c) req = Inr s" "sv_connectHandler c = Some handler"
    and "handler req (request_ctx draw s) w = Inr (Answered ops, w', ctx')" "resp_run wr ops resp = (r, resp')"
  shows "\<exists>entries. ServeHTTP wr True draw c req resp w = (Served r resp' entries, Some w')"
proof -
  obtain logger where fl: "ServeHTTP_begin wr True draw c req resp =
       Flying (request_ctx draw s) \<lparr>fl_bypass = new_bypass resp, fl_logger = logger, fl_log = [request_entry req logger]\<rparr>"
    by (rule begin_flies [OF assms(1)])
  obtain b where "resp_run (bypass_writer wr) ops (new_bypass resp) = (r, b)" "bp_ResponseWriter b = resp'"
    using bypass_transparent [of wr ops "new_bypass resp"] assms(4)
    by (cases "resp_run (bypass_writer wr) ops (new_bypass resp)") (auto simp: new_bypass_def)
  with fl assms(2,3) show ?thesis
    by (simp add: ServeHTTP_def ServeHTTP_resume_def flight_write_def ServeHTTP_end_def)
qed

text \<open>
  C24. A node joins over HTTP. Given the address of a seed in any reachable state, which can draw an identifier and save the
  session, the node's first call is answered, and what it reads of the answer is its identifier: the one the seed has
  registered, with the normal lifespan, in the place of the one the client's session held; and it takes itself for alone
  exactly if it is the only node of the seed. Assumed of the connect library: it reads the empty request, and the client reads
  the reply that the handler gave (\<open>read\<close> is the reading of a response).
\<close>

theorem node_joins:
  assumes "seed_reachable (g, c)" "generator_ok gen" "\<forall>ex. set ex \<subseteq> registered g \<longrightarrow> (\<exists>n. gen ex = Inr n)"
    and "store_Get store req = Inr s" "\<forall>s. store_Save store s = Inr ()"
    and "sv_sessionStore server = store"
    and "sv_connectHandler server = Some (snd (NewSeedServiceHandler lib first (server_service (simple_ops gen now) store now logger)))"
    and "CHR '':'' \<notin> set scheme" "CHR ''/'' \<notin> set host" "host \<noteq> []"
    and "rq_Path req = url_path (cl_assignNode (NewSeedServiceClient (scheme @ ''://'' @ host @ replicate k (CHR ''/''))))"
    and "cn_empty lib req = Inr ()"
    and "\<forall>a. \<exists>resp. resp_run http_writer (cn_reply lib req a) no_response = (Inr (), resp) \<and> read resp = Inr a"
  shows "\<exists>resp entries g' c' n. ServeHTTP http_writer True draw server req no_response (g, c) = (Served (Inr ()) resp entries, Some (g', c')) \<and>
    sa_Start (assign_answer (read resp)) sa = (Inr n, sa\<lparr>sa_localNodeID := Some n, sa_isAlone := (registered g' = {n})\<rparr>) \<and>
    registered g' = insert n (registered g - set_option (sess_getNodeID s)) \<and>
    n \<notin> registered g - set_option (sess_getNodeID s) \<and>
    mget (gw_nodes g') n = Some (fresh_entry (now + normalLifespan c))"
proof -
  have path: "rq_Path req = SeedServiceAssignNodeProcedure" using assms(11) client_paths(1) [OF assms(8-10)] by simp
  obtain n p s' g' c' where a: "srv_AssignNode (simple_ops gen now) store now s (g, c) =
       Inr (Inr (p, registered g' = {n}), (g', c'), s')" "NewNodeIDFromProto (Some p) = Inr n"
    and g': "registered g' = insert n (registered g - set_option (sess_getNodeID s))"
      "mget (gw_nodes g') n = Some (fresh_entry (now + normalLifespan c))" "n \<notin> registered g - set_option (sess_getNodeID s)"
    using assign_replaces [OF assms(1,2,3,5)] by blast
  obtain ctx' where h: "snd (NewSeedServiceHandler lib first (server_service (simple_ops gen now) store now logger)) req (request_ctx draw s) (g, c) =
    Inr (Answered (cn_reply lib req (AssignNodeResponse p (registered g' = {n}))), (g', c'), ctx')"
    using assign_handled [OF a(1) assms(12) path] by blast
  obtain resp where resp: "resp_run http_writer (cn_reply lib req (AssignNodeResponse p (registered g' = {n}))) no_response = (Inr (), resp)"
    "read resp = Inr (AssignNodeResponse p (registered g' = {n}))" using assms(13) by blast
  have "newSession (sv_sessionStore server) req = Inr s" using assms(4,6) by (simp add: newSession_def)
  from answered_run [OF this assms(7) h resp(1)] obtain entries where
    "ServeHTTP http_writer True draw server req no_response (g, c) = (Served (Inr ()) resp entries, Some (g', c'))" by blast
  moreover have "sa_Start (assign_answer (read resp)) sa = (Inr n, sa\<lparr>sa_localNodeID := Some n, sa_isAlone := (registered g' = {n})\<rparr>)"
    using resp(2) a(2) by (simp add: sa_Start_def assign_answer_def AssignNodeResponse_GetNodeId_def AssignNodeResponse_GetIsAlone_def)
  ultimately show ?thesis using g' by blast
qed

text \<open>A library that writes a reply as a letter and its fields, and its reading.\<close>

fun demo_encode :: "rpc_response \<Rightarrow> string" where
  "demo_encode (AssignNodeResponse p b) = CHR ''A'' # (if b then CHR ''1'' else CHR ''0'') # hex16 (p_Id0 p) @ hex16 (p_Id1 p)"
| "demo_encode UnassignNodeResponse = ''U''"
| "demo_encode (KeepaliveResponse b) = [CHR ''K'', if b then CHR ''1'' else CHR ''0'']"
| "demo_encode (ReconcileNextNodesResponse b) = [CHR ''R'', if b then CHR ''1'' else CHR ''0'']"
| "demo_encode SendSignalResponse = ''S''"

definition demo_decode :: "string \<Rightarrow> rpc_response" where
  "demo_decode s =
     (if s = [] \<or> hd s = CHR ''S'' then SendSignalResponse
      else if hd s = CHR ''U'' then UnassignNodeResponse
      else let b = (s ! 1 = CHR ''1'') in
        if hd s = CHR ''K'' then KeepaliveResponse b
        else if hd s = CHR ''R'' then ReconcileNextNodesResponse b
        else AssignNodeResponse \<lparr>p_Id0 = ParseUint16 (take 16 (drop 2 s)), p_Id1 = ParseUint16 (drop 18 s)\<rparr> b)"

lemma demo_decode_encode: "demo_decode (demo_encode a) = a"
proof (cases a)
  case (AssignNodeResponse p b)
  then show ?thesis
    using hex16_props(1) [of "p_Id0 p"] hex16_props(1) [of "p_Id1 p"] by (simp add: demo_decode_def ParseUint16_hex16)
qed (simp_all add: demo_decode_def)

definition demo_codec :: "unit connect_lib" where
  "demo_codec = demo_lib\<lparr>cn_reply := (\<lambda>req a. [DoHeader 200, DoWrite (demo_encode a)])\<rparr>"

lemma demo_codec_read:
  "\<exists>resp. resp_run http_writer (cn_reply demo_codec req a) no_response = (Inr (), resp) \<and> Inr (demo_decode (rw_body resp)) = Inr a"
proof -
  have "demo_encode a \<noteq> []" by (cases a) simp_all
  then show ?thesis
    by (simp add: demo_codec_def http_writer_def net_WriteHeader_def net_Write_def bodyAllowed_def demo_decode_encode)
qed

theorem node_joins_witness:
  "\<exists>resp entries g' c' n. ServeHTTP http_writer True 7
      (demo_server (demo_session [])\<lparr>sv_connectHandler := Some (snd (NewSeedServiceHandler demo_codec True
         (server_service (simple_ops demo_gen 9) (demo_store (demo_session [])) 9 [])))\<rparr>)
      (demo_request (url_path (cl_assignNode (NewSeedServiceClient (''https'' @ ''://'' @ ''localhost:8443'' @ replicate 1 (CHR ''/''))))))
      no_response (fst demo_seed, snd demo_seed) = (Served (Inr ()) resp entries, Some (g', c')) \<and>
    sa_Start (assign_answer (Inr (demo_decode (rw_body resp)))) \<lparr>sa_localNodeID = None, sa_isAlone = False\<rparr> =
      (Inr n, \<lparr>sa_localNodeID = None, sa_isAlone = False\<rparr>\<lparr>sa_localNodeID := Some n, sa_isAlone := (registered g' = {n})\<rparr>) \<and>
    registered g' = insert n (registered (fst demo_seed) - set_option (sess_getNodeID (demo_session []))) \<and>
    n \<notin> registered (fst demo_seed) - set_option (sess_getNodeID (demo_session [])) \<and>
    mget (gw_nodes g') n = Some (fresh_entry (9 + normalLifespan (snd demo_seed)))"
proof (rule node_joins [OF demo_reachable demo_gen_ok, where store = "demo_store (demo_session [])" and lib = demo_codec
      and scheme = "''https''" and host = "''localhost:8443''" and k = 1])
  have "NodeID typeNormal 0 3 \<notin> {seed_a, seed_b}" by (simp add: seed_a_def seed_b_def)
  then show "\<forall>ex. set ex \<subseteq> registered (fst demo_seed) \<longrightarrow> (\<exists>n. demo_gen ex = Inr n)"
    unfolding demo_registered by (auto simp: demo_gen_def NewRandomNodeID_def Let_def split: option.splits)
  show "\<forall>a. \<exists>resp. resp_run http_writer (cn_reply demo_codec (demo_request (url_path (cl_assignNode (NewSeedServiceClient
      (''https'' @ ''://'' @ ''localhost:8443'' @ replicate 1 (CHR ''/'')))))) a) no_response = (Inr (), resp) \<and>
    Inr (demo_decode (rw_body resp)) = (Inr a :: rpc_response call)"
    using demo_codec_read by blast
qed (simp_all add: demo_store_def demo_server_def NewServer_def demo_request_def demo_codec_def demo_lib_def)

end
